(* ===== verification/Prelude.thy ===== *)
theory Prelude
  imports Main "HOL-Library.Word" "HOL-Library.Finite_Map" "HOL-Library.Char_ord"
    "HOL-Library.List_Lexorder"
begin

text \<open>
  What the components share: the machine integers and the \<open>Duration\<close> arithmetic of the Rust
  standard library, the few string and path operations the code uses, and generic lemmas on
  results, finite maps and lists.

  A Rust \<open>Result<T, E>\<close> is a value of \<open>'e + 'a\<close>, with \<open>Inl\<close> for \<open>Err\<close> and \<open>Inr\<close> for
  \<open>Ok\<close>.  A \<open>BTreeMap\<close> is a finite map (\<open>fmap\<close>); where the code iterates over it, the model
  iterates over its sorted keys.  A \<open>String\<close> is a list of \<open>char\<close>, one \<open>char\<close> per byte of its
  UTF-8 form, so \<open>length\<close> is Rust's \<open>len()\<close> and the order on strings is the bytewise
  lexicographic one.
\<close>

named_theorems time_simps \<open>unfolding rules for time arithmetic\<close>
named_theorems frame \<open>what an operation leaves unchanged\<close>

subsection \<open>Results\<close>

definition map_err :: "('e \<Rightarrow> 'f) \<Rightarrow> 'e + 'a \<Rightarrow> 'f + 'a" where
  "map_err f r = (case r of Inl e \<Rightarrow> Inl (f e) | Inr x \<Rightarrow> Inr x)"

definition ok_or :: "'e \<Rightarrow> 'a option \<Rightarrow> 'e + 'a" where
  "ok_or e x = (case x of None \<Rightarrow> Inl e | Some y \<Rightarrow> Inr y)"

lemma map_err_simps [simp]:
  "map_err f (Inl e) = Inl (f e)"
  "map_err f (Inr x) = Inr x"
  by (simp_all add: map_err_def)

lemma map_err_Inr_iff [simp]: "map_err f r = Inr x \<longleftrightarrow> r = Inr x"
  by (cases r) simp_all

lemma ok_or_simps [simp]:
  "ok_or e None = Inl e"
  "ok_or e (Some y) = Inr y"
  by (simp_all add: ok_or_def)

subsection \<open>Machine integers\<close>

type_synonym u8 = "8 word"

definition u64_max :: nat where
  "u64_max = 18446744073709551615"

definition u32_max :: nat where
  "u32_max = 4294967295"

definition u64_saturating_add :: "nat \<Rightarrow> nat \<Rightarrow> nat" where
  "u64_saturating_add a b = min (a + b) u64_max"

text \<open>The \<open>as u64\<close> cast of a wider integer keeps the low 64 bits.\<close>

definition as_u64 :: "nat \<Rightarrow> nat" where
  "as_u64 n = n mod 18446744073709551616"

lemma as_u64_id [simp]: "n \<le> u64_max \<Longrightarrow> as_u64 n = n"
  by (simp add: as_u64_def u64_max_def)

lemma as_u64_le: "as_u64 n \<le> u64_max"
  by (simp add: as_u64_def u64_max_def)

lemma u64_saturating_add_id [simp]: "a + b \<le> u64_max \<Longrightarrow> u64_saturating_add a b = a + b"
  by (simp add: u64_saturating_add_def)

lemma u64_saturating_add_le: "u64_saturating_add a b \<le> u64_max"
  by (simp add: u64_saturating_add_def)

subsection \<open>Durations\<close>

text \<open>
  A \<open>std::time::Duration\<close> is a number of nanoseconds; its largest value is \<open>u64::MAX\<close> seconds
  and 999999999 nanoseconds.  Subtraction on \<open>nat\<close> is its \<open>saturating_sub\<close>.
\<close>

type_synonym duration = nat

definition duration_max :: duration where
  "duration_max = 18446744073709551615999999999"

definition duration_saturating_add :: "duration \<Rightarrow> duration \<Rightarrow> duration" where
  "duration_saturating_add a b = min (a + b) duration_max"

definition from_secs :: "nat \<Rightarrow> duration" where
  "from_secs s = s * 1000000000"

definition from_millis :: "nat \<Rightarrow> duration" where
  "from_millis ms = ms * 1000000"

definition from_micros :: "nat \<Rightarrow> duration" where
  "from_micros us = us * 1000"

definition as_millis :: "duration \<Rightarrow> nat" where
  "as_millis d = d div 1000000"

definition as_micros :: "duration \<Rightarrow> nat" where
  "as_micros d = d div 1000"

lemma as_millis_from_millis [simp]: "as_millis (from_millis ms) = ms"
  by (simp add: as_millis_def from_millis_def)

lemma as_micros_from_micros [simp]: "as_micros (from_micros us) = us"
  by (simp add: as_micros_def from_micros_def)

lemma from_millis_as_millis_le: "from_millis (as_millis d) \<le> d"
  by (simp add: as_millis_def from_millis_def)

lemma from_millis_as_millis_near: "d < from_millis (as_millis d) + 1000000"
  unfolding as_millis_def from_millis_def
  using div_mult_mod_eq [of d 1000000] mod_less_divisor [of 1000000 d] by linarith

lemma from_millis_mono [simp]: "from_millis a \<le> from_millis b \<longleftrightarrow> a \<le> b"
  by (simp add: from_millis_def)

lemma from_millis_add: "from_millis (a + b) = from_millis a + from_millis b"
  by (simp add: from_millis_def)

lemma as_millis_mono: "a \<le> b \<Longrightarrow> as_millis a \<le> as_millis b"
  by (simp add: as_millis_def div_le_mono)

subsection \<open>Strings\<close>

definition is_ascii_alphanumeric :: "char \<Rightarrow> bool" where
  "is_ascii_alphanumeric c \<longleftrightarrow>
     (CHR ''0'' \<le> c \<and> c \<le> CHR ''9'') \<or> (CHR ''A'' \<le> c \<and> c \<le> CHR ''Z'')
       \<or> (CHR ''a'' \<le> c \<and> c \<le> CHR ''z'')"

text \<open>\<open>str::split\<close> on a character: always at least one piece.\<close>

fun split_char :: "char \<Rightarrow> string \<Rightarrow> string list" where
  "split_char c [] = [[]]"
| "split_char c (x # xs) =
     (if x = c then [] # split_char c xs
      else (case split_char c xs of [] \<Rightarrow> [[x]] | s # ss \<Rightarrow> (x # s) # ss))"

fun join_with :: "string \<Rightarrow> string list \<Rightarrow> string" where
  "join_with sep [] = []"
| "join_with sep [s] = s"
| "join_with sep (s # t # ss) = s @ sep @ join_with sep (t # ss)"

lemma split_char_nonempty [simp]: "split_char c s \<noteq> []"
  by (induction s) (auto split: list.splits)

lemma split_char_pieces: "p \<in> set (split_char c s) \<Longrightarrow> c \<notin> set p"
proof (induction s arbitrary: p)
  case Nil
  then show ?case by simp
next
  case (Cons x s)
  then show ?case
    by (cases "split_char c s") (auto split: if_splits)
qed

lemma join_split_char: "join_with [c] (split_char c s) = s"
proof (induction s)
  case Nil
  then show ?case by simp
next
  case (Cons x s)
  obtain p ps where p: "split_char c s = p # ps"
    by (cases "split_char c s") auto
  with Cons show ?case
    by (cases ps) auto
qed

lemma split_char_single: "c \<notin> set s \<Longrightarrow> split_char c s = [s]"
  by (induction s) auto

lemma split_char_append: "c \<notin> set a \<Longrightarrow> split_char c (a @ c # b) = a # split_char c b"
  by (induction a) auto

text \<open>The decimal rendering of an unsigned integer (\<open>Display\<close>).\<close>

definition digit_char :: "nat \<Rightarrow> char" where
  "digit_char d = char_of (48 + d mod 10)"

fun nat_dec :: "nat \<Rightarrow> string" where
  "nat_dec n = (if n < 10 then [digit_char n] else nat_dec (n div 10) @ [digit_char (n mod 10)])"

declare nat_dec.simps [simp del]

subsection \<open>Paths\<close>

text \<open>
  \<open>Path\<close> equality and \<open>Path::file_name\<close> work on components: repeated and trailing slashes and
  inner \<open>.\<close> components do not count; a leading \<open>.\<close> of a relative path does.
\<close>

definition path_components :: "string \<Rightarrow> string list" where
  "path_components p =
     (let normal = filter (\<lambda>c. c \<noteq> [] \<and> c \<noteq> ''.'') (split_char (CHR ''/'') p) in
      (case p of
         [] \<Rightarrow> normal
       | x # _ \<Rightarrow>
           (if x = CHR ''/'' then ''/'' # normal
            else if hd (split_char (CHR ''/'') p) = ''.'' then ''.'' # normal
            else normal)))"

definition path_file_name :: "string \<Rightarrow> string option" where
  "path_file_name p =
     (case rev (path_components p) of
        [] \<Rightarrow> None
      | c # _ \<Rightarrow> (if c = ''/'' \<or> c = ''.'' \<or> c = ''..'' then None else Some c))"

definition path_eq :: "string \<Rightarrow> string \<Rightarrow> bool" where
  "path_eq p q \<longleftrightarrow> path_components p = path_components q"

subsection \<open>Finite maps\<close>

text \<open>The keys of a \<open>BTreeMap\<close>, in its iteration order.\<close>

definition btree_keys :: "(string, 'v) fmap \<Rightarrow> string list" where
  "btree_keys m = sorted_list_of_set (fset (fmdom m))"

lemma set_btree_keys [simp]: "set (btree_keys m) = fset (fmdom m)"
  by (simp add: btree_keys_def)

lemma distinct_btree_keys [simp]: "distinct (btree_keys m)"
  by (simp add: btree_keys_def)

lemma sorted_btree_keys [simp]: "sorted (btree_keys m)"
  by (simp add: btree_keys_def)

lemma fmdom_iff: "k \<in> fset (fmdom m) \<longleftrightarrow> (\<exists>v. fmlookup m k = Some v)"
  by (simp add: fmlookup_dom_iff)

lemma fmdom_lookup_None [simp]: "k \<notin> fset (fmdom m) \<longleftrightarrow> fmlookup m k = None"
  by (simp add: fmdom_iff)

subsection \<open>Lists\<close>

lemma find_Some_split:
  "find P xs = Some x \<Longrightarrow> \<exists>ys zs. xs = ys @ x # zs \<and> P x \<and> (\<forall>y\<in>set ys. \<not> P y)"
proof (induction xs)
  case Nil
  then show ?case by simp
next
  case (Cons a xs)
  show ?case
  proof (cases "P a")
    case True
    with Cons.prems have "a # xs = [] @ x # xs \<and> P x \<and> (\<forall>y\<in>set []. \<not> P y)" by simp
    then show ?thesis by blast
  next
    case False
    with Cons obtain ys zs where "xs = ys @ x # zs" "P x" "\<forall>y\<in>set ys. \<not> P y" by auto
    with False have "a # xs = (a # ys) @ x # zs \<and> P x \<and> (\<forall>y\<in>set (a # ys). \<not> P y)" by simp
    then show ?thesis by blast
  qed
qed

lemma distinct_remdups_adj: "sorted xs \<Longrightarrow> distinct (remdups_adj xs)"
  for xs :: "'a :: linorder list"
  by (induction xs rule: remdups_adj.induct) (auto simp: less_le)

lemma find_None_iff_all: "find P xs = None \<longleftrightarrow> (\<forall>x\<in>set xs. \<not> P x)"
  by (auto simp: find_None_iff)

end
