(* ===== verification/Interfaces.thy ===== *)
theory Interfaces
  imports Prelude
begin

text \<open>
  The contracts the store's operations share, stated over any state: an operation behind the
  capability check, a per-key side table written by explicit declarations, and a per-key counter
  that only moves forward.  The store interprets them on its own operations.
\<close>

subsection \<open>An operation behind a capability check\<close>

definition quiet :: "'r \<times> 's \<Rightarrow> 'r \<times> 's \<times> 'x list" where
  "quiet p = (fst p, snd p, [])"

lemma quiet_simps [simp]:
  "fst (quiet p) = fst p"
  "fst (snd (quiet p)) = snd p"
  "snd (snd (quiet p)) = []"
  by (simp_all add: quiet_def)

lemma quiet_pair [simp]: "quiet (r, s) = (r, s, [])"
  by (simp add: quiet_def)

locale gated =
  fixes permits :: "'s \<Rightarrow> 'c \<Rightarrow> bool"
    and act :: "'s \<Rightarrow> 'c \<Rightarrow> ('e + 'r) \<times> 's \<times> 'x list"
    and mismatch :: 'e
  assumes refuses: "\<not> permits s c \<Longrightarrow> act s c = (Inl mismatch, s, [])"
    and keeps_token: "permits (fst (snd (act s c))) c' = permits s c'"
begin

lemma success_needs_permit: "fst (act s c) = Inr r \<Longrightarrow> permits s c"
  using refuses by fastforce

lemma effect_needs_permit: "snd (snd (act s c)) \<noteq> [] \<Longrightarrow> permits s c"
  using refuses by fastforce

lemma change_needs_permit: "fst (snd (act s c)) \<noteq> s \<Longrightarrow> permits s c"
  using refuses by fastforce

lemma refused_run:
  "(\<forall>c\<in>set cs. \<not> permits s c) \<Longrightarrow> foldl (\<lambda>s c. fst (snd (act s c))) s cs = s"
  by (induction cs) (simp_all add: refuses)

end

subsection \<open>A side table\<close>

locale side_table =
  fixes permits :: "'s \<Rightarrow> 'c \<Rightarrow> bool"
    and look :: "'s \<Rightarrow> 'k \<Rightarrow> 'v option"
    and put :: "'s \<Rightarrow> 'k \<Rightarrow> 'v \<Rightarrow> 'c \<Rightarrow> ('e + unit) \<times> 's"
    and clear :: "'s \<Rightarrow> 'k \<Rightarrow> 'c \<Rightarrow> ('e + bool) \<times> 's"
    and remainder :: "'s \<Rightarrow> 'o"
    and mismatch :: 'e
  assumes put_refused: "\<not> permits s c \<Longrightarrow> put s k v c = (Inl mismatch, s)"
    and clear_refused: "\<not> permits s c \<Longrightarrow> clear s k c = (Inl mismatch, s)"
    and put_reply: "permits s c \<Longrightarrow> fst (put s k v c) = Inr ()"
    and clear_reply: "permits s c \<Longrightarrow> fst (clear s k c) = Inr (look s k \<noteq> None)"
    and look_put: "permits s c \<Longrightarrow> look (snd (put s k v c)) = (look s)(k := Some v)"
    and look_clear: "permits s c \<Longrightarrow> look (snd (clear s k c)) = (look s)(k := None)"
    and put_remainder: "remainder (snd (put s k v c)) = remainder s"
    and clear_remainder: "remainder (snd (clear s k c)) = remainder s"
    and put_permits: "permits (snd (put s k v c)) c' = permits s c'"
    and clear_permits: "permits (snd (clear s k c)) c' = permits s c'"
begin

lemma last_put_wins:
  "permits s c \<Longrightarrow>
   look (snd (put (snd (put s k v c)) k w c)) = look (snd (put s k w c))"
  by (simp add: look_put put_permits)

lemma clear_undoes_put:
  "permits s c \<Longrightarrow> look s k = None \<Longrightarrow>
   fst (clear (snd (put s k v c)) k c) = Inr True
   \<and> look (snd (clear (snd (put s k v c)) k c)) = look s"
  by (simp add: look_put look_clear put_permits clear_reply fun_upd_idem_iff)

lemma clear_twice:
  "permits s c \<Longrightarrow> fst (clear (snd (clear s k c)) k c) = Inr False"
  by (simp add: clear_permits clear_reply look_clear)

end

sublocale side_table < put_gate: gated permits "\<lambda>s c. quiet (put s k v c)" mismatch for k v
  by unfold_locales (simp_all add: put_refused put_permits)

sublocale side_table < clear_gate: gated permits "\<lambda>s c. quiet (clear s k c)" mismatch for k
  by unfold_locales (simp_all add: clear_refused clear_permits)

subsection \<open>A counter that only moves forward\<close>

locale forward_counter =
  fixes permits :: "'s \<Rightarrow> 'c \<Rightarrow> bool"
    and count :: "'s \<Rightarrow> 'k \<Rightarrow> nat"
    and bump :: "'s \<Rightarrow> 'k \<Rightarrow> 'c \<Rightarrow> ('e + nat) \<times> 's"
    and restore :: "'s \<Rightarrow> 'k \<Rightarrow> nat \<Rightarrow> 'c \<Rightarrow> ('e + nat) \<times> 's"
    and top :: nat
  assumes count_bump:
      "permits s c \<Longrightarrow> count (snd (bump s k c)) = (count s)(k := min (count s k + 1) top)"
    and bump_reply: "permits s c \<Longrightarrow> fst (bump s k c) = Inr (min (count s k + 1) top)"
    and count_restore:
      "permits s c \<Longrightarrow> count (snd (restore s k v c)) = (count s)(k := max (count s k) v)"
    and restore_reply: "permits s c \<Longrightarrow> fst (restore s k v c) = Inr (max (count s k) v)"
    and bump_permits: "permits (snd (bump s k c)) c' = permits s c'"
    and restore_permits: "permits (snd (restore s k v c)) c' = permits s c'"
begin

lemma bump_forward:
  "permits s c \<Longrightarrow> count s k < top \<Longrightarrow> count s k < count (snd (bump s k c)) k"
  by (simp add: count_bump)

lemma restore_forward: "permits s c \<Longrightarrow> count s k \<le> count (snd (restore s k v c)) k"
  by (simp add: count_restore)

lemma restore_stale: "permits s c \<Longrightarrow> v \<le> count s k \<Longrightarrow> count (snd (restore s k v c)) = count s"
  by (simp add: count_restore fun_upd_idem_iff max_absorb1)

lemma bumps:
  "permits s c \<Longrightarrow> count s k + n \<le> top \<Longrightarrow>
   count (((\<lambda>s. snd (bump s k c)) ^^ n) s) k = count s k + n"
proof (induction n)
  case 0
  then show ?case by simp
next
  case (Suc n)
  have "permits (((\<lambda>s. snd (bump s k c)) ^^ n) s) c"
    by (induction n) (simp_all add: bump_permits Suc.prems(1))
  with Suc show ?case by (simp add: count_bump)
qed

end

end
