(* ===== verification/Process.thy ===== *)
theory Process
  imports Prelude
begin

text \<open>
  Process facts and the ancestry walk (\<open>crates/cache-warden/src/process.rs\<close>).  Inspecting one
  process is the operating system's part and a parameter of the walk; the \<open>ProcessInspector\<close> trait
  is the locale \<open>inspector\<close>.
\<close>

type_synonym pid = "32 word"

record process_info =
  pid :: pid
  ppid :: "pid option"
  path :: "string option"
  start_time :: "duration option"

definition process_name :: "process_info \<Rightarrow> string option" where
  "process_name p = (case path p of None \<Rightarrow> None | Some f \<Rightarrow> path_file_name f)"

datatype inspect_error = NotFound pid | Unavailable string

type_synonym inspect_fn = "pid \<Rightarrow> inspect_error + process_info"

subsection \<open>The walk\<close>

text \<open>
  The loop of \<open>ProcessInspector::ancestry\<close>, with its variables \<open>current\<close>, \<open>visited\<close> and \<open>chain\<close>.
  It ends because every round puts a new pid into \<open>visited\<close>.
\<close>

function ancestry_loop ::
  "inspect_fn \<Rightarrow> pid option \<Rightarrow> pid set \<Rightarrow> process_info list \<Rightarrow> inspect_error + process_info list"
where
  "ancestry_loop inspect current visited chain =
     (case current of
        None \<Rightarrow> Inr chain
      | Some p \<Rightarrow>
          (if p = 0 \<or> p \<in> visited then Inr chain
           else (case inspect p of
                   Inr info \<Rightarrow> ancestry_loop inspect (ppid info) (insert p visited) (chain @ [info])
                 | Inl (NotFound q) \<Rightarrow>
                     (if chain \<noteq> [] then Inr chain else Inl (NotFound q))
                 | Inl e \<Rightarrow> Inl e)))"
  by pat_completeness auto
termination
proof (relation "measure (\<lambda>(_, _, visited, _). card (- visited))")
  show "wf (measure (\<lambda>(_, _, visited, _). card (- visited)))" by simp
next
  fix inspect :: inspect_fn and current visited chain p info
  assume "current = Some p" and new: "\<not> (p = 0 \<or> p \<in> visited)" and "inspect p = Inr info"
  have "- insert p visited \<subset> - visited" using new by auto
  then have "card (- insert p visited) < card (- visited)"
    by (intro psubset_card_mono finite)
  then show "((inspect, ppid info, insert p visited, chain @ [info]),
      (inspect, current, visited, chain)) \<in> measure (\<lambda>(_, _, visited, _). card (- visited))"
    by simp
qed

declare ancestry_loop.simps [simp del]

lemma ancestry_loop_step:
  "p \<noteq> 0 \<Longrightarrow> p \<notin> visited \<Longrightarrow> inspect p = Inr info \<Longrightarrow>
   ancestry_loop inspect (Some p) visited chain
     = ancestry_loop inspect (ppid info) (insert p visited) (chain @ [info])"
  by (simp add: ancestry_loop.simps [of inspect "Some p"])

definition ancestry :: "inspect_fn \<Rightarrow> pid \<Rightarrow> inspect_error + process_info list" where
  "ancestry inspect p = ancestry_loop inspect (Some p) {} []"

subsection \<open>Inspectors\<close>

locale inspector =
  fixes inspect :: inspect_fn
  assumes reports_pid: "inspect p = Inr info \<Longrightarrow> pid info = p"
begin

text \<open>
  What the walk promises about a chain: each element is what the inspector reports for its pid, its
  successor is its parent, no pid occurs twice and none is the kernel's.
\<close>

definition linked :: "process_info list \<Rightarrow> bool" where
  "linked chain \<longleftrightarrow>
     (\<forall>i. i < length chain \<longrightarrow> inspect (pid (chain ! i)) = Inr (chain ! i)) \<and>
     (\<forall>i. Suc i < length chain \<longrightarrow> ppid (chain ! i) = Some (pid (chain ! Suc i)))"

lemma linked_snoc:
  assumes "linked chain" and "inspect p = Inr info"
    and "chain \<noteq> [] \<Longrightarrow> ppid (last chain) = Some p"
  shows "linked (chain @ [info])"
proof -
  have "inspect (pid ((chain @ [info]) ! i)) = Inr ((chain @ [info]) ! i)"
    if "i < length (chain @ [info])" for i
    using that assms reports_pid [OF assms(2)]
    by (cases "i < length chain") (auto simp: linked_def nth_append less_Suc_eq)
  moreover have "ppid ((chain @ [info]) ! i) = Some (pid ((chain @ [info]) ! Suc i))"
    if "Suc i < length (chain @ [info])" for i
  proof (cases "Suc i < length chain")
    case True
    with assms(1) show ?thesis by (simp add: linked_def nth_append)
  next
    case False
    with that have "Suc i = length chain" by simp
    moreover from this have "chain \<noteq> []" by auto
    moreover from \<open>Suc i = length chain\<close> have "chain ! i = last chain"
      by (metis \<open>chain \<noteq> []\<close> diff_Suc_1 last_conv_nth)
    ultimately show ?thesis
      using assms(3) reports_pid [OF assms(2)] by (simp add: nth_append)
  qed
  ultimately show ?thesis by (simp add: linked_def)
qed

lemma loop_linked:
  assumes "ancestry_loop inspect current visited chain = Inr result"
    and "linked chain" and "visited = pid ` set chain" and "distinct (map pid chain)"
    and "0 \<notin> visited" and "chain \<noteq> [] \<Longrightarrow> current = ppid (last chain)"
  shows "linked result \<and> distinct (map pid result) \<and> 0 \<notin> pid ` set result
       \<and> (\<exists>rest. result = chain @ rest)"
  using assms
proof (induction "card (- visited)" arbitrary: current visited chain rule: less_induct)
  case less
  show ?case
  proof (cases "\<exists>p info. current = Some p \<and> p \<noteq> 0 \<and> p \<notin> visited \<and> inspect p = Inr info")
    case True
    then obtain p info where p: "current = Some p" "p \<noteq> 0" "p \<notin> visited" "inspect p = Inr info"
      by blast
    let ?chain = "chain @ [info]" and ?visited = "insert p visited"
    have pinfo: "pid info = p" using p(4) by (rule reports_pid)
    have "card (- ?visited) < card (- visited)"
      using p(3) by (intro psubset_card_mono) auto
    moreover have "ancestry_loop inspect (ppid info) ?visited ?chain = Inr result"
      using less.prems(1) p by (simp add: ancestry_loop_step)
    moreover have "linked ?chain"
      using less.prems(2,6) p by (intro linked_snoc [of chain p info]) auto
    moreover have "?visited = pid ` set ?chain" "distinct (map pid ?chain)" "0 \<notin> ?visited"
      using less.prems(3-5) p pinfo by auto
    ultimately have "linked result \<and> distinct (map pid result) \<and> 0 \<notin> pid ` set result
        \<and> (\<exists>rest. result = ?chain @ rest)"
      by (intro less.hyps) auto
    then show ?thesis by auto
  next
    case False
    have "result = chain"
      using less.prems(1) False unfolding ancestry_loop.simps [of inspect current]
      by (auto split: option.splits if_splits sum.splits inspect_error.splits)
    with less.prems show ?thesis by auto
  qed
qed

lemma ancestry_linked:
  assumes "ancestry inspect p = Inr chain"
  shows "linked chain \<and> distinct (map pid chain) \<and> 0 \<notin> pid ` set chain"
  using loop_linked [of "Some p" "{}" "[]" chain] assms
  by (simp add: ancestry_def linked_def)

lemma ancestry_head:
  assumes "p \<noteq> 0"
  shows "(\<exists>info rest. inspect p = Inr info \<and> ancestry inspect p = Inr (info # rest))
       \<or> (\<exists>e. inspect p = Inl e \<and> ancestry inspect p = Inl e)
       \<or> (\<exists>info q. inspect p = Inr info \<and> ancestry inspect p = Inl (Unavailable q))"
proof (cases "inspect p")
  case (Inl e)
  with assms show ?thesis
    by (cases e) (auto simp: ancestry_def ancestry_loop.simps [of inspect "Some p"])
next
  case (Inr info)
  then have step: "ancestry inspect p = ancestry_loop inspect (ppid info) {p} [info]"
    using assms by (simp add: ancestry_def ancestry_loop.simps [of inspect "Some p"])
  show ?thesis
  proof (cases "ancestry_loop inspect (ppid info) {p} [info]")
    case (Inr chain)
    from loop_linked [OF Inr] have "\<exists>rest. chain = [info] @ rest"
      using reports_pid [OF \<open>inspect p = Inr info\<close>] assms \<open>inspect p = Inr info\<close>
      by (simp add: linked_def)
    with step Inr \<open>inspect p = Inr info\<close> show ?thesis by auto
  next
    case (Inl e)
    have "\<exists>q. e = Unavailable q" if "ancestry_loop inspect cur vis ch = Inl e" "ch \<noteq> []"
      for cur vis ch
      using that
    proof (induction "card (- vis)" arbitrary: cur vis ch rule: less_induct)
      case less
      show ?case
      proof (cases "\<exists>p info. cur = Some p \<and> p \<noteq> 0 \<and> p \<notin> vis \<and> inspect p = Inr info")
        case True
        then obtain p info where p: "cur = Some p" "p \<noteq> 0" "p \<notin> vis" "inspect p = Inr info"
          by blast
        have "card (- insert p vis) < card (- vis)"
          using p(3) by (intro psubset_card_mono) auto
        moreover have "ancestry_loop inspect (ppid info) (insert p vis) (ch @ [info]) = Inl e"
          using less.prems(1) p by (simp add: ancestry_loop_step)
        ultimately show ?thesis using less.hyps by blast
      next
        case False
        with less.prems show ?thesis unfolding ancestry_loop.simps [of inspect cur]
          by (auto split: option.splits if_splits sum.splits inspect_error.splits)
      qed
    qed
    from this [OF Inl] step Inl \<open>inspect p = Inr info\<close> show ?thesis by auto
  qed
qed

end

text \<open>
  The test inspector: an in-memory process table.  The table is private to the type, and both ways
  to add to it file a process under its own pid.
\<close>

typedef fake_inspector =
  "{procs :: (pid, process_info) fmap. \<forall>p info. fmlookup procs p = Some info \<longrightarrow> pid info = p}"
  by (rule exI [of _ fmempty]) simp

setup_lifting type_definition_fake_inspector

lift_definition fake_inspector_new :: fake_inspector is fmempty
  by simp

lift_definition fake_inspector_with ::
  "fake_inspector \<Rightarrow> pid \<Rightarrow> pid option \<Rightarrow> string \<Rightarrow> duration option \<Rightarrow> fake_inspector"
  is "\<lambda>procs p pp pa st. fmupd p \<lparr>pid = p, ppid = pp, path = Some pa, start_time = st\<rparr> procs"
  by (auto split: if_splits)

lift_definition fake_inspector_insert :: "fake_inspector \<Rightarrow> process_info \<Rightarrow> fake_inspector"
  is "\<lambda>procs info. fmupd (pid info) info procs"
  by (auto split: if_splits)

lift_definition fake_inspect :: "fake_inspector \<Rightarrow> inspect_fn"
  is "\<lambda>procs p. ok_or (NotFound p) (fmlookup procs p)" .

interpretation fake_tree: inspector "fake_inspect procs" for procs
  by unfold_locales (transfer, auto simp: ok_or_def split: option.splits)

lemma fake_inspect_simps [simp]:
  "fake_inspect fake_inspector_new p = Inl (NotFound p)"
  "fake_inspect (fake_inspector_with procs q pp pa st) p =
     (if p = q then Inr \<lparr>pid = q, ppid = pp, path = Some pa, start_time = st\<rparr>
      else fake_inspect procs p)"
  "fake_inspect (fake_inspector_insert procs info) p =
     (if p = pid info then Inr info else fake_inspect procs p)"
  by (transfer; simp)+

text \<open>
  The walk always returns.  Over a table that reports each process under its own pid (as
  \<open>FakeInspector\<close> does), a chain that is returned starts with the requested process,
  each element is followed by its parent, no pid occurs twice and the kernel's pid 0 never occurs,
  even when the table has a cycle.
\<close>

theorem ancestry_chain_sound:
  assumes "p \<noteq> 0" and "ancestry (fake_inspect procs) p = Inr chain"
  shows "chain \<noteq> [] \<and> pid (hd chain) = p \<and> distinct (map pid chain) \<and> 0 \<notin> pid ` set chain
       \<and> (\<forall>i. Suc i < length chain \<longrightarrow> ppid (chain ! i) = Some (pid (chain ! Suc i)))"
proof -
  obtain info rest where "fake_inspect procs p = Inr info" "chain = info # rest"
    using fake_tree.ancestry_head [OF assms(1)] assms(2) by force
  moreover from this have "pid info = p" using fake_tree.reports_pid by blast
  ultimately show ?thesis
    using fake_tree.ancestry_linked [OF assms(2)] by (simp add: fake_tree.linked_def)
qed

definition cyclic_table :: fake_inspector where
  "cyclic_table = fake_inspector_with (fake_inspector_with fake_inspector_new
     7 (Some 5) ''/bin/zsh'' None) 5 (Some 7) ''/usr/bin/login'' None"

theorem ancestry_chain_sound_witness:
  "\<exists>chain. ancestry (fake_inspect cyclic_table) 7 = Inr chain \<and> map pid chain = [7, 5]
     \<and> distinct (map pid chain)"
proof -
  let ?c = "[\<lparr>pid = 7, ppid = Some 5, path = Some ''/bin/zsh'', start_time = None\<rparr>,
    \<lparr>pid = 5, ppid = Some 7, path = Some ''/usr/bin/login'', start_time = None\<rparr>] :: process_info list"
  have run: "ancestry (fake_inspect cyclic_table) 7 = Inr ?c"
    by (simp add: ancestry_def cyclic_table_def ancestry_loop.simps)
  from ancestry_chain_sound [OF _ run] have "distinct (map pid ?c)" by simp
  with run show ?thesis by auto
qed

end
