(* ===== verification/Secret.thy ===== *)
theory Secret
  imports Prelude
begin

text \<open>
  The in-memory holder of a secret (\<open>crates/cache-warden/src/secret.rs\<close>).  The operations return,
  beside the new holder, the trace of what they do to the backing buffer: pin it, wipe it, unpin
  it.  Whether \<open>mlock(2)\<close> grants a pin is a parameter, the answer it gives for a buffer.
\<close>

record secret_bytes =
  data :: "u8 list"
  locked :: bool

datatype buffer_event = Pinned nat | Wiped nat | Unpinned nat

type_synonym mlock = "u8 list \<Rightarrow> bool"

definition secret_new :: "mlock \<Rightarrow> u8 list \<Rightarrow> secret_bytes" where
  "secret_new mlock bytes = \<lparr>data = bytes, locked = (bytes \<noteq> [] \<and> mlock bytes)\<rparr>"

definition secret_len :: "secret_bytes \<Rightarrow> nat" where
  "secret_len s = length (data s)"

definition secret_is_empty :: "secret_bytes \<Rightarrow> bool" where
  "secret_is_empty s = (data s = [])"

definition with_exposed :: "secret_bytes \<Rightarrow> (u8 list \<Rightarrow> 'r) \<Rightarrow> 'r" where
  "with_exposed s f = f (data s)"

definition is_locked :: "secret_bytes \<Rightarrow> bool" where
  "is_locked s = locked s"

definition duplicate :: "mlock \<Rightarrow> secret_bytes \<Rightarrow> secret_bytes" where
  "duplicate mlock s = secret_new mlock (data s)"

text \<open>
  \<open>Vec::zeroize\<close> wipes the bytes and sets the length to zero; the region that is unpinned is the
  one captured before.
\<close>

definition zeroize_buffer :: "secret_bytes \<Rightarrow> secret_bytes \<times> buffer_event list" where
  "zeroize_buffer s =
     (let len = length (data s) in
      if locked s then (\<lparr>data = [], locked = False\<rparr>, [Wiped len, Unpinned len])
      else (s\<lparr>data := []\<rparr>, [Wiped len]))"

definition purge :: "secret_bytes \<Rightarrow> secret_bytes \<times> buffer_event list" where
  "purge s = (let (s', ev) = zeroize_buffer s in (s'\<lparr>data := []\<rparr>, ev))"

definition drop_secret :: "secret_bytes \<Rightarrow> buffer_event list" where
  "drop_secret s = snd (zeroize_buffer s)"

text \<open>\<open>Debug\<close> shows the length and a placeholder, \<open>Display\<close> the placeholder alone.\<close>

definition REDACTED :: string where
  "REDACTED = ''[REDACTED]''"

definition secret_display :: "secret_bytes \<Rightarrow> string" where
  "secret_display s = REDACTED"

definition secret_debug :: "secret_bytes \<Rightarrow> string" where
  "secret_debug s = ''SecretBytes { len: '' @ nat_dec (length (data s))
      @ '', value: '' @ [CHR 0x22] @ REDACTED @ [CHR 0x22] @ '' }''"

definition events_of_new :: "secret_bytes \<Rightarrow> buffer_event list" where
  "events_of_new s = (if locked s then [Pinned (length (data s))] else [])"

text \<open>The whole life of one holder: construction, any number of purges, then the drop.\<close>

fun purges :: "nat \<Rightarrow> secret_bytes \<Rightarrow> secret_bytes \<times> buffer_event list" where
  "purges 0 s = (s, [])"
| "purges (Suc n) s = (let (s', ev) = purge s; (s'', ev') = purges n s' in (s'', ev @ ev'))"

definition secret_life :: "mlock \<Rightarrow> u8 list \<Rightarrow> nat \<Rightarrow> buffer_event list" where
  "secret_life mlock bytes n =
     (let s = secret_new mlock bytes; (s', ev) = purges n s
      in events_of_new s @ ev @ drop_secret s')"

text \<open>
  What the pinning policy asks of a life: a buffer with plaintext in it is unpinned only after it
  was wiped, nothing is unpinned that was not pinned, and at the end no plaintext and no pin is
  left.  The checker carries the number of plaintext bytes and whether the region is pinned.
\<close>

fun hygienic :: "nat \<Rightarrow> bool \<Rightarrow> buffer_event list \<Rightarrow> bool" where
  "hygienic plain pinned [] = (plain = 0 \<and> \<not> pinned)"
| "hygienic plain pinned (Pinned n # es) = (\<not> pinned \<and> n = plain \<and> hygienic plain True es)"
| "hygienic plain pinned (Wiped n # es) = (n = plain \<and> hygienic 0 pinned es)"
| "hygienic plain pinned (Unpinned n # es) = (pinned \<and> plain = 0 \<and> hygienic plain False es)"

lemma purge_result: "purge s = (\<lparr>data = [], locked = False\<rparr>,
    if locked s then [Wiped (length (data s)), Unpinned (length (data s))]
    else [Wiped (length (data s))])"
  by (cases s) (simp add: purge_def zeroize_buffer_def Let_def)

lemma purges_hygienic:
  "hygienic (length (data s)) (locked s)
     (snd (purges n s) @ drop_secret (fst (purges n s)))"
proof (induction n arbitrary: s)
  case 0
  then show ?case by (simp add: drop_secret_def zeroize_buffer_def Let_def)
next
  case (Suc n)
  show ?case
    using Suc [of "\<lparr>data = [], locked = False\<rparr>"]
    by (auto simp: purge_result Let_def split: prod.splits)
qed

text \<open>
  Whatever \<open>mlock\<close> answers and however often a secret is purged before it is dropped,
  its bytes are wiped while the buffer is still pinned, the pin is released once and only if it was
  granted, and neither plaintext nor pin outlives the holder.
\<close>

theorem secret_wiped_before_unpinned:
  "hygienic (length bytes) False (secret_life mlock bytes n)"
  using purges_hygienic [of "secret_new mlock bytes" n]
  by (auto simp: secret_life_def secret_new_def events_of_new_def Let_def split: prod.splits)

lemma duplicate_data: "data (duplicate mlock s) = data s"
  by (simp add: duplicate_def secret_new_def)

end
