(* ===== verification/Source.thy ===== *)
theory Source
  imports Secret
begin

text \<open>
  Where a value comes from and how a command source is run
  (\<open>crates/cache-warden/src/source.rs\<close>).  The operating system is a parameter: what spawning a
  program gives (a failure, or a child with the observations the runner makes of it).
\<close>

type_synonym env_overlay = "(string, string) fmap"

datatype value_source =
  Static
| Command (argv: "string list") (cwd: "string option") (env: env_overlay)

definition command_source :: "string list \<Rightarrow> value_source" where
  "command_source av = Command av None fmempty"

definition command_with :: "string list \<Rightarrow> string option \<Rightarrow> env_overlay \<Rightarrow> value_source" where
  "command_with av cw en = Command av cw en"

fun is_regenerable :: "value_source \<Rightarrow> bool" where
  "is_regenerable (Command _ _ _) = True"
| "is_regenerable Static = False"

fun command_argv :: "value_source \<Rightarrow> string list option" where
  "command_argv (Command av _ _) = Some av"
| "command_argv Static = None"

fun command_cwd :: "value_source \<Rightarrow> string option" where
  "command_cwd (Command _ cw _) = cw"
| "command_cwd Static = None"

fun command_env :: "value_source \<Rightarrow> env_overlay" where
  "command_env (Command _ _ en) = en"
| "command_env Static = fmempty"

lemma is_regenerable_iff: "is_regenerable s \<longleftrightarrow> s \<noteq> Static"
  by (cases s) simp_all

subsection \<open>The trailing newline policy\<close>

datatype trailing_newline = TrimOne | Keep

definition NL :: u8 where "NL = 10"
definition CR :: u8 where "CR = 13"

definition newline_apply :: "trailing_newline \<Rightarrow> u8 list \<Rightarrow> u8 list" where
  "newline_apply self buf =
     (if self = TrimOne \<and> buf \<noteq> [] \<and> last buf = NL
      then (let buf' = butlast buf in
            if buf' \<noteq> [] \<and> last buf' = CR then butlast buf' else buf')
      else buf)"

subsection \<open>Running a command\<close>

datatype exit_status = ExitCode int | Signaled

definition exit_success :: "exit_status \<Rightarrow> bool" where
  "exit_success st \<longleftrightarrow> st = ExitCode 0"

fun exit_code :: "exit_status \<Rightarrow> int option" where
  "exit_code (ExitCode c) = Some c"
| "exit_code Signaled = None"

datatype run_error =
  SpawnFailed (program: string) (reason: string)
| NonZeroExit (code: "int option") (stderr_len: nat)
| EmptyOutput
| NoProgram
| Timeout (elapsed: duration)

text \<open>
  One round of the polling loop sees the answer of \<open>try_wait\<close>; when the child still runs, the loop
  reads the time elapsed since the start, once for the test and once more for the error.
\<close>

datatype poll =
  Exited exit_status
| Running (tested: duration) (reported: duration)
| WaitErr string

record child =
  wait_result :: "string + exit_status"
  polls :: "poll list"
  stdout_bytes :: "u8 list"
  stderr_count :: nat

type_synonym os_spawn = "string \<Rightarrow> string list \<Rightarrow> string option \<Rightarrow> env_overlay \<Rightarrow> string + child"

record command_runner =
  newline :: trailing_newline
  timeout :: "duration option"

definition command_runner_new :: command_runner where
  "command_runner_new = \<lparr>newline = TrimOne, timeout = None\<rparr>"

definition with_newline_policy :: "trailing_newline \<Rightarrow> command_runner" where
  "with_newline_policy nl = \<lparr>newline = nl, timeout = None\<rparr>"

definition with_timeout :: "command_runner \<Rightarrow> duration \<Rightarrow> command_runner" where
  "with_timeout self limit = self\<lparr>timeout := Some limit\<rparr>"

text \<open>\<open>None\<close>: the observed polls end while the loop is still waiting.\<close>

fun wait_with_timeout ::
  "duration \<Rightarrow> string \<Rightarrow> child \<Rightarrow> poll list \<Rightarrow> (run_error + u8 list \<times> nat \<times> exit_status) option"
where
  "wait_with_timeout limit prog c [] = None"
| "wait_with_timeout limit prog c (Exited st # ps) =
     Some (Inr (stdout_bytes c, stderr_count c, st))"
| "wait_with_timeout limit prog c (Running t1 t2 # ps) =
     (if limit \<le> t1 then Some (Inl (Timeout t2)) else wait_with_timeout limit prog c ps)"
| "wait_with_timeout limit prog c (WaitErr e # ps) = Some (Inl (SpawnFailed prog e))"

definition collect ::
  "command_runner \<Rightarrow> os_spawn \<Rightarrow> string \<Rightarrow> string list \<Rightarrow> string option \<Rightarrow> env_overlay
   \<Rightarrow> (run_error + u8 list \<times> nat \<times> exit_status) option"
where
  "collect self spawn prog args cw en =
     (case spawn prog args cw en of
        Inl e \<Rightarrow> Some (Inl (SpawnFailed prog e))
      | Inr c \<Rightarrow>
          (case timeout self of
             None \<Rightarrow>
               (case wait_result c of
                  Inl e \<Rightarrow> Some (Inl (SpawnFailed prog e))
                | Inr st \<Rightarrow> Some (Inr (stdout_bytes c, stderr_count c, st)))
           | Some limit \<Rightarrow> wait_with_timeout limit prog c (polls c)))"

definition command_runner_run ::
  "command_runner \<Rightarrow> os_spawn \<Rightarrow> mlock \<Rightarrow> string list \<Rightarrow> string option \<Rightarrow> env_overlay
   \<Rightarrow> (run_error + secret_bytes) option"
where
  "command_runner_run self spawn mlock av cw en =
     (case av of
        [] \<Rightarrow> Some (Inl NoProgram)
      | prog # args \<Rightarrow>
          (case collect self spawn prog args cw en of
             None \<Rightarrow> None
           | Some (Inl e) \<Rightarrow> Some (Inl e)
           | Some (Inr (out, err_len, st)) \<Rightarrow>
               (if \<not> exit_success st then Some (Inl (NonZeroExit (exit_code st) err_len))
                else (let out' = newline_apply (newline self) out in
                      if out' = [] then Some (Inl EmptyOutput)
                      else Some (Inr (secret_new mlock out'))))))"

text \<open>The \<open>SourceRunner\<close> trait, as the store sees it.\<close>

type_synonym source_runner = "string list \<Rightarrow> string option \<Rightarrow> env_overlay \<Rightarrow> run_error + secret_bytes"

lemma newline_apply_Keep [simp]: "newline_apply Keep buf = buf"
  by (simp add: newline_apply_def)

lemma newline_apply_TrimOne:
  "newline_apply TrimOne (v @ [NL]) = (if v \<noteq> [] \<and> last v = CR then butlast v else v)"
  "newline_apply TrimOne (v @ [CR, NL]) = v"
  "b \<noteq> NL \<Longrightarrow> newline_apply TrimOne (v @ [b]) = v @ [b]"
  by (simp_all add: newline_apply_def butlast_append Let_def)

text \<open>
  The default policy strips at most one line terminator and nothing else: what it removes from the
  end is empty, a newline, or a carriage return and a newline, and it removes nothing exactly when
  the output does not end in a newline.
\<close>

theorem trim_one_strips_one_terminator:
  "\<exists>t \<in> {[], [NL], [CR, NL]}. buf = newline_apply TrimOne buf @ t
     \<and> (t \<noteq> [] \<longleftrightarrow> (buf \<noteq> [] \<and> last buf = NL))"
proof (cases buf rule: rev_cases)
  case Nil
  then show ?thesis by (simp add: newline_apply_def)
next
  case (snoc v b)
  show ?thesis
  proof (cases "b = NL")
    case False
    with snoc show ?thesis by (simp add: newline_apply_TrimOne(3))
  next
    case True
    show ?thesis
    proof (cases v rule: rev_cases)
      case Nil
      with snoc True show ?thesis by (simp add: newline_apply_def Let_def)
    next
      case (snoc w c)
      then show ?thesis using \<open>buf = v @ [b]\<close> True
        by (cases "c = CR") (simp_all add: newline_apply_def Let_def butlast_append)
    qed
  qed
qed

lemma wait_with_timeout_bounded:
  assumes "p \<in> set ps" and "p = Running t1 t2" and "limit \<le> t1"
  shows "wait_with_timeout limit prog c ps \<noteq> None"
  using assms
proof (induction ps)
  case Nil
  then show ?case by simp
next
  case (Cons q ps)
  then show ?case by (cases q) auto
qed

end
