(* ===== verification/Auth.thy ===== *)
theory Auth
  imports Process Source
begin

text \<open>
  The re-authentication boundary (\<open>crates/cache-warden/src/auth.rs\<close>): what is asked, the error
  kinds, and the authenticators.  A prompt's outcome is the environment's; the production
  authenticator runs an external command, whose exit status is a parameter.
\<close>

datatype auth_operation = Extend | Regenerate | Pin

record auth_context =
  context_key :: string
  context_operation :: auth_operation
  context_requester :: "process_info list option"

definition context_extend :: "string \<Rightarrow> auth_context" where
  "context_extend k = \<lparr>context_key = k, context_operation = Extend, context_requester = None\<rparr>"

definition context_regenerate :: "string \<Rightarrow> auth_context" where
  "context_regenerate k =
     \<lparr>context_key = k, context_operation = Regenerate, context_requester = None\<rparr>"

definition context_pin :: "string \<Rightarrow> auth_context" where
  "context_pin k = \<lparr>context_key = k, context_operation = Pin, context_requester = None\<rparr>"

definition with_requester :: "auth_context \<Rightarrow> process_info list \<Rightarrow> auth_context" where
  "with_requester ctx chain = ctx\<lparr>context_requester := Some chain\<rparr>"

text \<open>\<open>store.rs::auth_context\<close>.\<close>

definition auth_context_for ::
  "string \<Rightarrow> auth_operation \<Rightarrow> process_info list option \<Rightarrow> auth_context"
where
  "auth_context_for k op requester =
     (let ctx = (case op of
                   Extend \<Rightarrow> context_extend k
                 | Regenerate \<Rightarrow> context_regenerate k
                 | Pin \<Rightarrow> context_pin k)
      in case requester of Some chain \<Rightarrow> with_requester ctx chain | None \<Rightarrow> ctx)"

lemma auth_context_for_eq:
  "auth_context_for k op requester
     = \<lparr>context_key = k, context_operation = op, context_requester = requester\<rparr>"
  by (cases op; cases requester)
    (simp_all add: auth_context_for_def context_extend_def context_regenerate_def
      context_pin_def with_requester_def)

datatype auth_error = Denied | AuthUnavailable (auth_message: string)

type_synonym authenticator = "auth_context \<Rightarrow> auth_error + unit"

definition allow_all :: authenticator where
  "allow_all ctx = Inr ()"

definition deny_all :: authenticator where
  "deny_all ctx = Inl Denied"

text \<open>The recording authenticator keeps its calls in a cell, which the model passes along.\<close>

record recording_authenticator =
  allow :: bool
  calls :: "auth_context list"

definition recording_allowing :: recording_authenticator where
  "recording_allowing = \<lparr>allow = True, calls = []\<rparr>"

definition recording_denying :: recording_authenticator where
  "recording_denying = \<lparr>allow = False, calls = []\<rparr>"

definition recording_authenticate ::
  "recording_authenticator \<Rightarrow> auth_context \<Rightarrow> (auth_error + unit) \<times> recording_authenticator"
where
  "recording_authenticate r ctx =
     (if allow r then Inr () else Inl Denied, r\<lparr>calls := calls r @ [ctx]\<rparr>)"

subsection \<open>The command authenticator\<close>

record command_invocation =
  invoked_program :: string
  invoked_args :: "string list"
  env_set :: "(string \<times> string) list"
  env_removed :: "string list"

type_synonym os_status = "command_invocation \<Rightarrow> string + exit_status"

definition render_requester :: "process_info list \<Rightarrow> string option" where
  "render_requester chain =
     (if chain = [] then None
      else Some (join_with '' <- ''
             (map (\<lambda>p. nat_dec (unat (pid p)) @ '':'' @
                        (case process_name p of Some n \<Rightarrow> n | None \<Rightarrow> ''?'')) chain)))"

definition operation_label :: "auth_operation \<Rightarrow> string" where
  "operation_label op =
     (case op of Extend \<Rightarrow> ''extend'' | Regenerate \<Rightarrow> ''regenerate'' | Pin \<Rightarrow> ''pin'')"

definition auth_invocation :: "string \<Rightarrow> string list \<Rightarrow> auth_context \<Rightarrow> command_invocation" where
  "auth_invocation prog args ctx =
     (let fixed = [(''CACHE_WARDEN_AUTH_KEY'', context_key ctx),
                   (''CACHE_WARDEN_AUTH_OPERATION'', operation_label (context_operation ctx))];
          rendered = (case context_requester ctx of
                        Some chain \<Rightarrow> render_requester chain
                      | None \<Rightarrow> None)
      in case rendered of
           Some r \<Rightarrow>
             \<lparr>invoked_program = prog, invoked_args = args,
              env_set = fixed @ [(''CACHE_WARDEN_AUTH_REQUESTER'', r)], env_removed = []\<rparr>
         | None \<Rightarrow>
             \<lparr>invoked_program = prog, invoked_args = args,
              env_set = fixed, env_removed = [''CACHE_WARDEN_AUTH_REQUESTER'']\<rparr>)"

definition command_authenticate :: "string list \<Rightarrow> os_status \<Rightarrow> authenticator" where
  "command_authenticate av os ctx =
     (case av of
        [] \<Rightarrow> Inl (AuthUnavailable ''no re-auth command configured (empty argv)'')
      | prog # args \<Rightarrow>
          (case os (auth_invocation prog args ctx) of
             Inl e \<Rightarrow> Inl (AuthUnavailable (''failed to run re-auth command `'' @ prog @ ''`: '' @ e))
           | Inr st \<Rightarrow> (if exit_success st then Inr () else Inl Denied)))"

text \<open>
  The command authenticator approves exactly when its command could be run and exited with status 0:
  an empty argv, a failure to spawn, a non-zero exit and a signal all refuse, the first two as
  unavailable and the others as denied.
\<close>

theorem command_authenticate_verdict:
  "(command_authenticate av os ctx = Inr ()
      \<longleftrightarrow> (\<exists>prog args. av = prog # args \<and> os (auth_invocation prog args ctx) = Inr (ExitCode 0)))
   \<and> (command_authenticate av os ctx = Inl Denied
      \<longleftrightarrow> (\<exists>prog args st. av = prog # args \<and> os (auth_invocation prog args ctx) = Inr st
              \<and> st \<noteq> ExitCode 0))"
  by (auto simp: command_authenticate_def exit_success_def split: list.splits sum.splits)

end
