(* ===== verification/Clock.thy ===== *)
theory Clock
  imports Prelude
begin

text \<open>
  Time (\<open>crates/cache-warden/src/clock.rs\<close>): monotonic points, the saturating arithmetic on
  them, the clocks, and the conversions between a process-local monotonic point and the absolute
  wall-clock milliseconds that cross a graceful restart.

  A clock is modelled by its readings: an operation that calls \<open>clock.now()\<close> several times takes
  a sequence of readings and uses reading \<open>i\<close> for its \<open>i\<close>-th call.  The promise of the \<open>Clock\<close>
  trait, that readings never go backwards, is the locale \<open>clock_source\<close>.
\<close>

subsection \<open>Monotonic points\<close>

datatype monotonic = Monotonic (offset: duration)

instantiation monotonic :: linorder
begin

definition less_eq_monotonic :: "monotonic \<Rightarrow> monotonic \<Rightarrow> bool" where
  "less_eq_monotonic a b \<longleftrightarrow> offset a \<le> offset b"

definition less_monotonic :: "monotonic \<Rightarrow> monotonic \<Rightarrow> bool" where
  "less_monotonic a b \<longleftrightarrow> offset a < offset b"

instance
  by standard (auto simp: less_eq_monotonic_def less_monotonic_def intro: monotonic.expand)

end

definition mono_zero :: monotonic where
  "mono_zero = Monotonic 0"

definition from_offset :: "duration \<Rightarrow> monotonic" where
  "from_offset d = Monotonic d"

definition saturating_duration_since :: "monotonic \<Rightarrow> monotonic \<Rightarrow> duration" where
  "saturating_duration_since self earlier = offset self - offset earlier"

definition mono_saturating_add :: "monotonic \<Rightarrow> duration \<Rightarrow> monotonic" where
  "mono_saturating_add self delta = Monotonic (duration_saturating_add (offset self) delta)"

definition mono_saturating_sub :: "monotonic \<Rightarrow> duration \<Rightarrow> monotonic" where
  "mono_saturating_sub self delta = Monotonic (offset self - delta)"

lemmas monotonic_time [time_simps] =
  less_eq_monotonic_def less_monotonic_def saturating_duration_since_def
  mono_saturating_add_def mono_saturating_sub_def duration_saturating_add_def

lemma offset_inject: "offset a = offset b \<longleftrightarrow> a = b"
  by (auto intro: monotonic.expand)

lemma since_mono: "a \<le> b \<Longrightarrow> saturating_duration_since a c \<le> saturating_duration_since b c"
  by (simp add: time_simps)

lemma since_antimono: "a \<le> b \<Longrightarrow> saturating_duration_since c b \<le> saturating_duration_since c a"
  by (simp add: time_simps)

subsection \<open>Clocks\<close>

type_synonym clock = "nat \<Rightarrow> monotonic"

locale clock_source =
  fixes now :: clock
  assumes never_backwards: "i \<le> j \<Longrightarrow> now i \<le> now j"
begin

lemma elapsed_grows:
  "i \<le> j \<Longrightarrow> saturating_duration_since (now i) p \<le> saturating_duration_since (now j) p"
  by (simp add: never_backwards since_mono)

lemma elapsed_between: "i \<le> j \<Longrightarrow> offset (now i) + saturating_duration_since (now j) (now i) = offset (now j)"
  using never_backwards [of i j] by (simp add: time_simps)

end

text \<open>The test clock: it changes only when advanced, so the readings of one operation agree.\<close>

record fake_clock =
  fake_now :: monotonic

definition fake_clock_new :: fake_clock where
  "fake_clock_new = \<lparr>fake_now = mono_zero\<rparr>"

definition fake_clock_starting_at :: "monotonic \<Rightarrow> fake_clock" where
  "fake_clock_starting_at start = \<lparr>fake_now = start\<rparr>"

definition fake_clock_advance :: "fake_clock \<Rightarrow> duration \<Rightarrow> fake_clock" where
  "fake_clock_advance c delta = c\<lparr>fake_now := mono_saturating_add (fake_now c) delta\<rparr>"

definition fake_clock_readings :: "fake_clock \<Rightarrow> clock" where
  "fake_clock_readings c = (\<lambda>_. fake_now c)"

interpretation fake: clock_source "fake_clock_readings c" for c
  by unfold_locales (simp add: fake_clock_readings_def)

lemma fake_clock_advance_forward:
  "offset (fake_now c) \<le> duration_max \<Longrightarrow> fake_now c \<le> fake_now (fake_clock_advance c delta)"
  by (simp add: fake_clock_advance_def time_simps)

text \<open>
  The system clock: \<open>Instant::now()\<close> of the operating system is a parameter, the sequence of
  instants (nanoseconds since an arbitrary origin) it returns.  \<open>Instant::elapsed\<close> saturates at
  zero; \<open>Instant::checked_sub\<close> fails when the result lies before the origin.
\<close>

record system_clock =
  base :: duration

definition system_clock_new :: "duration \<Rightarrow> system_clock" where
  "system_clock_new instant_now = \<lparr>base = instant_now\<rparr>"

definition system_clock_with_epoch_offset :: "duration \<Rightarrow> duration \<Rightarrow> system_clock" where
  "system_clock_with_epoch_offset instant_now off =
     \<lparr>base = (if off \<le> instant_now then instant_now - off else instant_now)\<rparr>"

definition system_clock_readings :: "system_clock \<Rightarrow> (nat \<Rightarrow> duration) \<Rightarrow> clock" where
  "system_clock_readings c instants = (\<lambda>i. Monotonic (instants i - base c))"

lemma system_clock_source:
  assumes "mono instants"
  shows "clock_source (system_clock_readings c instants)"
  using monoD [OF assms]
  by unfold_locales (simp add: system_clock_readings_def time_simps diff_le_mono)

lemma system_clock_epoch_offset_headroom:
  assumes "off \<le> instant_now" and "instant_now \<le> instants i"
  shows "offset (system_clock_readings (system_clock_with_epoch_offset instant_now off) instants i)
       = off + offset (system_clock_readings (system_clock_new instant_now) instants i)"
  using assms
  by (simp add: system_clock_readings_def system_clock_with_epoch_offset_def system_clock_new_def)

subsection \<open>Wall-clock conversions\<close>

definition millis_saturating_u64 :: "duration \<Rightarrow> nat" where
  "millis_saturating_u64 d = (if as_millis d \<le> u64_max then as_millis d else u64_max)"

definition monotonic_to_epoch_ms :: "monotonic \<Rightarrow> nat \<Rightarrow> monotonic \<Rightarrow> nat" where
  "monotonic_to_epoch_ms now_mono now_wall_epoch_ms point =
     (if now_mono \<le> point
      then u64_saturating_add now_wall_epoch_ms
             (millis_saturating_u64 (saturating_duration_since point now_mono))
      else now_wall_epoch_ms - millis_saturating_u64 (saturating_duration_since now_mono point))"

definition epoch_ms_to_monotonic :: "monotonic \<Rightarrow> nat \<Rightarrow> nat \<Rightarrow> monotonic" where
  "epoch_ms_to_monotonic now_mono now_wall_epoch_ms epoch_ms =
     (if now_wall_epoch_ms \<le> epoch_ms
      then mono_saturating_add now_mono (from_millis (epoch_ms - now_wall_epoch_ms))
      else mono_saturating_sub now_mono (from_millis (now_wall_epoch_ms - epoch_ms)))"

definition epoch_ms_to_monotonic_ttl_basis :: "monotonic \<Rightarrow> nat \<Rightarrow> nat \<Rightarrow> monotonic" where
  "epoch_ms_to_monotonic_ttl_basis now_mono now_wall_epoch_ms epoch_ms =
     (if now_wall_epoch_ms < epoch_ms then now_mono
      else epoch_ms_to_monotonic now_mono now_wall_epoch_ms epoch_ms)"

definition epoch_ms_to_monotonic_for_failure :: "monotonic \<Rightarrow> nat \<Rightarrow> nat \<Rightarrow> monotonic" where
  "epoch_ms_to_monotonic_for_failure now_mono now_wall_epoch_ms epoch_ms =
     (if now_wall_epoch_ms \<le> epoch_ms
      then mono_saturating_add now_mono (from_millis (epoch_ms - now_wall_epoch_ms))
      else (let behind = from_millis (now_wall_epoch_ms - epoch_ms) in
            if offset now_mono < behind then now_mono
            else mono_saturating_sub now_mono behind))"

lemmas epoch_defs =
  monotonic_to_epoch_ms_def epoch_ms_to_monotonic_def epoch_ms_to_monotonic_ttl_basis_def
  epoch_ms_to_monotonic_for_failure_def millis_saturating_u64_def

lemma epoch_roundtrip_behind:
  assumes "point \<le> now_mono"
    and "as_millis (saturating_duration_since now_mono point) \<le> wall"
    and "wall \<le> u64_max"
  shows "wall - monotonic_to_epoch_ms now_mono wall point
       = as_millis (saturating_duration_since now_mono point)"
  using assms by (cases "point = now_mono") (auto simp: epoch_defs time_simps as_millis_def)


subsection \<open>What a restart does to a recorded instant\<close>

lemma to_epoch_behind:
  assumes "point \<le> now_mono" and "wall \<le> u64_max"
    and "as_millis (saturating_duration_since now_mono point) \<le> wall"
  shows "monotonic_to_epoch_ms now_mono wall point
       = wall - as_millis (saturating_duration_since now_mono point)"
  using assms by (cases "point = now_mono") (auto simp: epoch_defs time_simps as_millis_def)

lemma ttl_basis_age:
  assumes "offset now_mono \<le> duration_max"
  shows "saturating_duration_since now_mono (epoch_ms_to_monotonic_ttl_basis now_mono wall e)
       = min (offset now_mono) (from_millis (wall - e))"
  using assms by (auto simp: epoch_defs time_simps from_millis_def)

lemma failure_age:
  assumes "offset now_mono \<le> duration_max"
  shows "saturating_duration_since now_mono (epoch_ms_to_monotonic_for_failure now_mono wall e)
       = (if from_millis (wall - e) \<le> offset now_mono then from_millis (wall - e) else 0)"
  using assms by (auto simp: epoch_defs time_simps from_millis_def Let_def)

lemma ttl_basis_not_ahead:
  assumes "offset now_mono \<le> duration_max"
  shows "epoch_ms_to_monotonic_ttl_basis now_mono wall e \<le> now_mono"
  using assms by (auto simp: epoch_defs time_simps from_millis_def)

lemma ttl_basis_monotone:
  assumes "offset now_mono \<le> duration_max" and "e \<le> e'"
  shows "epoch_ms_to_monotonic_ttl_basis now_mono wall e
       \<le> epoch_ms_to_monotonic_ttl_basis now_mono wall e'"
  using assms by (auto simp: epoch_defs time_simps from_millis_def)

lemma to_epoch_monotone:
  assumes "p \<le> q" and "wall \<le> u64_max"
  shows "monotonic_to_epoch_ms now_mono wall p \<le> monotonic_to_epoch_ms now_mono wall q"
proof (cases "now_mono \<le> p")
  case True
  then have "now_mono \<le> q" using assms(1) by (rule order.trans)
  moreover have "millis_saturating_u64 (saturating_duration_since p now_mono)
      \<le> millis_saturating_u64 (saturating_duration_since q now_mono)"
    using as_millis_mono [OF since_mono [OF assms(1), of now_mono]] by (auto simp: millis_saturating_u64_def)
  ultimately show ?thesis
    using True by (auto simp: monotonic_to_epoch_ms_def u64_saturating_add_def)
next
  case False
  have "millis_saturating_u64 (saturating_duration_since now_mono q)
      \<le> millis_saturating_u64 (saturating_duration_since now_mono p)"
    using as_millis_mono [OF since_antimono [OF assms(1), of now_mono]] by (auto simp: millis_saturating_u64_def)
  with False assms(2) show ?thesis
    by (auto simp: monotonic_to_epoch_ms_def u64_saturating_add_def)
qed

text \<open>
  A TTL basis that crosses a restart keeps its age: measured by the importing clock, it is the age
  at export (in whole milliseconds) plus the wall-clock time the handoff took, capped by what the
  importing clock can represent; a wall clock that went backwards only shortens it.
\<close>

theorem ttl_basis_handoff_age:
  assumes "point \<le> now_exp" and "wall_exp \<le> u64_max"
    and "as_millis (saturating_duration_since now_exp point) \<le> wall_exp"
    and "offset now_imp \<le> duration_max"
  shows "saturating_duration_since now_imp
           (epoch_ms_to_monotonic_ttl_basis now_imp wall_imp
              (monotonic_to_epoch_ms now_exp wall_exp point))
       = min (offset now_imp)
           (from_millis (wall_imp + as_millis (saturating_duration_since now_exp point) - wall_exp))"
proof -
  let ?age = "as_millis (saturating_duration_since now_exp point)"
  have "wall_imp - (wall_exp - ?age) = wall_imp + ?age - wall_exp"
    using assms(3) by simp
  then show ?thesis
    by (simp only: ttl_basis_age [OF assms(4)] to_epoch_behind [OF assms(1-3)])
qed

theorem ttl_basis_handoff_age_witness:
  "saturating_duration_since (Monotonic 9000000000)
     (epoch_ms_to_monotonic_ttl_basis (Monotonic 9000000000) 101500
        (monotonic_to_epoch_ms (Monotonic 5000000000) 100000 (Monotonic 2000000000)))
   = 4500000000"
  by (subst ttl_basis_handoff_age)
    (simp_all add: time_simps as_millis_def from_millis_def u64_max_def duration_max_def)

text \<open>
  A fetch-failure record that crosses a restart never looks older than it is, so the backoff window
  is never cut short: its age on the importing clock is at most its age at export plus the
  wall-clock time the handoff took, and an importing clock without the headroom treats the failure
  as having just happened.
\<close>

theorem failure_handoff_conservative:
  assumes "failed_at \<le> now_exp" and "wall_exp \<le> u64_max"
    and "as_millis (saturating_duration_since now_exp failed_at) \<le> wall_exp"
    and "wall_exp \<le> wall_imp" and "offset now_imp \<le> duration_max"
    and failed': "failed_at' = epoch_ms_to_monotonic_for_failure now_imp wall_imp
      (monotonic_to_epoch_ms now_exp wall_exp failed_at)"
  shows "saturating_duration_since now_imp failed_at'
           \<le> saturating_duration_since now_exp failed_at + from_millis (wall_imp - wall_exp)
       \<and> (offset now_imp < from_millis (as_millis (saturating_duration_since now_exp failed_at)
             + (wall_imp - wall_exp)) \<longrightarrow> failed_at' = now_imp)"
proof -
  let ?age = "as_millis (saturating_duration_since now_exp failed_at)"
  have e: "monotonic_to_epoch_ms now_exp wall_exp failed_at = wall_exp - ?age"
    by (rule to_epoch_behind [OF assms(1-3)])
  have gap: "wall_imp - (wall_exp - ?age) = ?age + (wall_imp - wall_exp)"
    using assms(3,4) by simp
  have "saturating_duration_since now_imp failed_at'
      \<le> from_millis ?age + from_millis (wall_imp - wall_exp)"
    unfolding failed' e failure_age [OF assms(5)] gap by (simp add: from_millis_add)
  moreover have "failed_at' = now_imp"
    if short: "offset now_imp < from_millis (?age + (wall_imp - wall_exp))"
  proof -
    have "\<not> wall_imp \<le> wall_exp - ?age"
      using short assms(3,4) by (auto simp: from_millis_def)
    with short show ?thesis
      unfolding failed' e epoch_ms_to_monotonic_for_failure_def gap by simp
  qed
  ultimately show ?thesis
    using from_millis_as_millis_le [of "saturating_duration_since now_exp failed_at"] by simp
qed

theorem failure_handoff_conservative_witness:
  "epoch_ms_to_monotonic_for_failure (Monotonic 1000000000) 101500
     (monotonic_to_epoch_ms (Monotonic 5000000000) 100000 (Monotonic 2000000000))
   = Monotonic 1000000000"
  using failure_handoff_conservative [of "Monotonic 2000000000" "Monotonic 5000000000" 100000
      101500 "Monotonic 1000000000", OF _ _ _ _ _ refl]
  by (simp add: time_simps as_millis_def from_millis_def u64_max_def duration_max_def)

end
