(* ===== verification/Entry.thy ===== *)
theory Entry
  imports Clock Source
begin

text \<open>
  The two-stage TTL lifecycle of one cache entry (\<open>crates/cache-warden/src/entry.rs\<close>).  The hard
  window is measured from \<open>loaded_at\<close>, the soft window from \<open>extended_at\<close>, and an active pin holds
  both off.
\<close>

subsection \<open>TTLs\<close>

record ttl =
  ttl_soft :: "duration option"
  ttl_hard :: "duration option"

datatype ttl_error = SoftExceedsHard duration duration

definition ttl_new :: "duration option \<Rightarrow> duration option \<Rightarrow> ttl_error + ttl" where
  "ttl_new soft hard =
     (case (soft, hard) of
        (Some s, Some h) \<Rightarrow>
          (if h < s then Inl (SoftExceedsHard s h) else Inr \<lparr>ttl_soft = soft, ttl_hard = hard\<rparr>)
      | _ \<Rightarrow> Inr \<lparr>ttl_soft = soft, ttl_hard = hard\<rparr>)"

definition ttl_never :: ttl where
  "ttl_never = \<lparr>ttl_soft = None, ttl_hard = None\<rparr>"

definition ttl_ok :: "ttl \<Rightarrow> bool" where
  "ttl_ok t = (case (ttl_soft t, ttl_hard t) of (Some s, Some h) \<Rightarrow> s \<le> h | _ \<Rightarrow> True)"

lemma ttl_new_ok: "ttl_new s h = Inr t \<Longrightarrow> ttl_ok t \<and> ttl_soft t = s \<and> ttl_hard t = h"
  by (auto simp: ttl_new_def ttl_ok_def split: option.splits if_splits)

lemma ttl_new_of_ok: "ttl_ok t \<Longrightarrow> ttl_new (ttl_soft t) (ttl_hard t) = Inr t"
  by (cases t) (auto simp: ttl_new_def ttl_ok_def split: option.splits if_splits)

subsection \<open>Entries\<close>

datatype entry_state = Active | SoftExpired | HardExpired

record cache_entry =
  entry_source :: value_source
  entry_ttl :: ttl
  entry_value :: "secret_bytes option"
  loaded_at :: monotonic
  extended_at :: monotonic
  pin_deadline :: "monotonic option"
  hard_expired :: bool

definition entry_new :: "value_source \<Rightarrow> secret_bytes \<Rightarrow> ttl \<Rightarrow> monotonic \<Rightarrow> cache_entry" where
  "entry_new src val t now =
     \<lparr>entry_source = src, entry_ttl = t, entry_value = Some val, loaded_at = now,
      extended_at = now, pin_deadline = None, hard_expired = False\<rparr>"

definition state :: "cache_entry \<Rightarrow> monotonic \<Rightarrow> entry_state" where
  "state e now =
     (if hard_expired e \<or> entry_value e = None then HardExpired
      else if (case pin_deadline e of Some deadline \<Rightarrow> now < deadline | None \<Rightarrow> False) then Active
      else if (case ttl_hard (entry_ttl e) of
                 Some hard \<Rightarrow> hard \<le> saturating_duration_since now (loaded_at e)
               | None \<Rightarrow> False) then HardExpired
      else if (case ttl_soft (entry_ttl e) of
                 Some soft \<Rightarrow> soft \<le> saturating_duration_since now (extended_at e)
               | None \<Rightarrow> False) then SoftExpired
      else Active)"

definition zeroize_value :: "cache_entry \<Rightarrow> cache_entry" where
  "zeroize_value e = e\<lparr>entry_value := None, hard_expired := True\<rparr>"

text \<open>What \<open>zeroize_value\<close> does to the secret's buffer before the holder goes away.\<close>

definition zeroize_events :: "cache_entry \<Rightarrow> buffer_event list" where
  "zeroize_events e =
     (case entry_value e of
        None \<Rightarrow> []
      | Some v \<Rightarrow> (let (v', ev) = purge v in ev @ drop_secret v'))"

definition evaluate :: "cache_entry \<Rightarrow> monotonic \<Rightarrow> entry_state \<times> cache_entry" where
  "evaluate e now =
     (let st = state e now in (st, if st = HardExpired then zeroize_value e else e))"

definition entry_get :: "cache_entry \<Rightarrow> monotonic \<Rightarrow> secret_bytes option \<times> cache_entry" where
  "entry_get e now =
     (case evaluate e now of
        (Active, e') \<Rightarrow> (entry_value e', e')
      | (SoftExpired, e') \<Rightarrow> (None, e')
      | (HardExpired, e') \<Rightarrow> (None, e'))"

datatype extend_error = ExtendHardExpired

text \<open>Two readings: the evaluation and the new \<open>extended_at\<close>.\<close>

definition entry_extend :: "cache_entry \<Rightarrow> clock \<Rightarrow> (extend_error + unit) \<times> cache_entry" where
  "entry_extend e clk =
     (case evaluate e (clk 0) of
        (HardExpired, e') \<Rightarrow> (Inl ExtendHardExpired, e')
      | (_, e') \<Rightarrow> (Inr (), e'\<lparr>extended_at := clk 1\<rparr>))"

datatype pin_error = PinHardExpired

definition entry_pin_until ::
  "cache_entry \<Rightarrow> monotonic \<Rightarrow> monotonic \<Rightarrow> (pin_error + unit) \<times> cache_entry"
where
  "entry_pin_until e deadline now =
     (case evaluate e now of
        (HardExpired, e') \<Rightarrow> (Inl PinHardExpired, e')
      | (_, e') \<Rightarrow> (Inr (), e'\<lparr>pin_deadline := Some deadline\<rparr>))"

definition entry_unpin :: "cache_entry \<Rightarrow> cache_entry" where
  "entry_unpin e = e\<lparr>pin_deadline := None\<rparr>"

definition entry_is_regenerable :: "cache_entry \<Rightarrow> bool" where
  "entry_is_regenerable e = is_regenerable (entry_source e)"

definition peek_value :: "cache_entry \<Rightarrow> secret_bytes option" where
  "peek_value e = entry_value e"

definition from_parts ::
  "value_source \<Rightarrow> ttl \<Rightarrow> secret_bytes \<Rightarrow> monotonic \<Rightarrow> monotonic \<Rightarrow> monotonic option \<Rightarrow> cache_entry"
where
  "from_parts src t val loaded extended pin =
     \<lparr>entry_source = src, entry_ttl = t, entry_value = Some val, loaded_at = loaded,
      extended_at = extended, pin_deadline = pin, hard_expired = False\<rparr>"

definition force_hard_expire :: "cache_entry \<Rightarrow> cache_entry" where
  "force_hard_expire e = zeroize_value e"

lemmas entry_op_defs =
  evaluate_def entry_get_def entry_extend_def entry_pin_until_def entry_unpin_def
  zeroize_value_def force_hard_expire_def

subsection \<open>The invariant\<close>

definition entry_ok :: "cache_entry \<Rightarrow> bool" where
  "entry_ok e \<longleftrightarrow>
     (hard_expired e \<longleftrightarrow> entry_value e = None) \<and> loaded_at e \<le> extended_at e \<and> ttl_ok (entry_ttl e)"

lemma entry_ok_new: "ttl_ok t \<Longrightarrow> entry_ok (entry_new src val t now)"
  by (simp add: entry_ok_def entry_new_def)

lemma entry_ok_from_parts:
  "ttl_ok t \<Longrightarrow> loaded \<le> extended \<Longrightarrow> entry_ok (from_parts src t val loaded extended pin)"
  by (simp add: entry_ok_def from_parts_def)

lemma entry_ok_zeroize: "entry_ok e \<Longrightarrow> entry_ok (zeroize_value e)"
  by (simp add: entry_ok_def zeroize_value_def)

lemma entry_ok_evaluate: "entry_ok e \<Longrightarrow> entry_ok (snd (evaluate e now))"
  by (simp add: evaluate_def Let_def entry_ok_zeroize)

lemma entry_get_snd [simp]: "snd (entry_get e now) = snd (evaluate e now)"
  by (simp add: entry_get_def split: prod.splits entry_state.splits)

lemma entry_ok_get: "entry_ok e \<Longrightarrow> entry_ok (snd (entry_get e now))"
  by (simp add: entry_ok_evaluate)

lemma entry_ok_extend:
  assumes "entry_ok e" and "loaded_at e \<le> clk 1"
  shows "entry_ok (snd (entry_extend e clk))"
  using assms
  by (auto simp: entry_extend_def evaluate_def Let_def entry_ok_def zeroize_value_def
      split: entry_state.splits if_splits)

lemma entry_ok_pin_until: "entry_ok e \<Longrightarrow> entry_ok (snd (entry_pin_until e d now))"
  by (auto simp: entry_pin_until_def evaluate_def Let_def entry_ok_def zeroize_value_def
      split: entry_state.splits if_splits)

lemma entry_ok_unpin: "entry_ok e \<Longrightarrow> entry_ok (entry_unpin e)"
  by (simp add: entry_ok_def entry_unpin_def)

lemmas entry_ok_intros =
  entry_ok_new entry_ok_from_parts entry_ok_zeroize entry_ok_evaluate entry_ok_get
  entry_ok_extend entry_ok_pin_until entry_ok_unpin

subsection \<open>Sticky destruction\<close>

definition destroyed :: "cache_entry \<Rightarrow> bool" where
  "destroyed e \<longleftrightarrow> entry_value e = None \<and> hard_expired e"

lemma state_live:
  "state e now \<noteq> HardExpired \<Longrightarrow> \<not> hard_expired e \<and> (\<exists>v. entry_value e = Some v)"
  by (cases "entry_value e") (simp_all add: state_def split: if_splits)

lemma state_destroyed: "destroyed e \<Longrightarrow> state e now = HardExpired"
  by (simp add: destroyed_def state_def)

lemma evaluate_hard_destroys: "state e now = HardExpired \<Longrightarrow> destroyed (snd (evaluate e now))"
  by (simp add: evaluate_def destroyed_def zeroize_value_def)

lemma destroyed_frozen:
  assumes "destroyed e"
  shows "evaluate e now = (HardExpired, e)" and "entry_get e now = (None, e)"
    and "entry_extend e clk = (Inl ExtendHardExpired, e)"
    and "entry_pin_until e d now = (Inl PinHardExpired, e)"
    and "destroyed (entry_unpin e)"
  using assms state_destroyed [OF assms]
  by (auto simp: entry_op_defs destroyed_def)


subsection \<open>The abstract lifecycle: deadlines instead of windows\<close>

text \<open>
  The contract of an entry, as the documentation draws it: a live value with an absolute hard
  deadline, a soft deadline that an extend moves, and a pin; or a dead one.
\<close>

datatype life =
  Dead
| Live (soft_window: "duration option") (soft_deadline: "duration option")
    (hard_deadline: "duration option") (pinned_until: "duration option")

definition reached :: "duration option \<Rightarrow> duration \<Rightarrow> bool" where
  "reached dl t = (case dl of None \<Rightarrow> False | Some d \<Rightarrow> d \<le> t)"

fun life_state :: "life \<Rightarrow> duration \<Rightarrow> entry_state" where
  "life_state Dead t = HardExpired"
| "life_state (Live w s h p) t =
     (if p \<noteq> None \<and> \<not> reached p t then Active
      else if reached h t then HardExpired
      else if reached s t then SoftExpired
      else Active)"

definition life_evaluate :: "life \<Rightarrow> duration \<Rightarrow> life" where
  "life_evaluate l t = (if life_state l t = HardExpired then Dead else l)"

fun life_extend :: "life \<Rightarrow> duration \<Rightarrow> life" where
  "life_extend Dead t = Dead"
| "life_extend (Live w s h p) t = Live w (map_option (\<lambda>d. t + d) w) h p"

fun life_pin :: "life \<Rightarrow> duration option \<Rightarrow> life" where
  "life_pin Dead p' = Dead"
| "life_pin (Live w s h p) p' = Live w s h p'"

definition life_of :: "cache_entry \<Rightarrow> life" where
  "life_of e =
     (if hard_expired e \<or> entry_value e = None then Dead
      else Live (ttl_soft (entry_ttl e))
             (map_option (\<lambda>d. offset (extended_at e) + d) (ttl_soft (entry_ttl e)))
             (map_option (\<lambda>d. offset (loaded_at e) + d) (ttl_hard (entry_ttl e)))
             (map_option offset (pin_deadline e)))"

lemma state_life:
  assumes "loaded_at e \<le> now" and "extended_at e \<le> now"
  shows "state e now = life_state (life_of e) (offset now)"
proof -
  have window: "(d \<le> offset now - offset t) = (offset t + d \<le> offset now)" if "t \<le> now" for d t
    using that by (auto simp: time_simps)
  show ?thesis
    using window [OF assms(1)] window [OF assms(2)]
    by (auto simp: state_def life_of_def reached_def saturating_duration_since_def
        less_monotonic_def split: option.splits)
qed

lemma life_of_zeroize [simp]: "life_of (zeroize_value e) = Dead"
  by (simp add: life_of_def zeroize_value_def)

lemma life_of_evaluate:
  "loaded_at e \<le> now \<Longrightarrow> extended_at e \<le> now \<Longrightarrow>
   life_of (snd (evaluate e now)) = life_evaluate (life_of e) (offset now)"
  by (simp add: evaluate_def life_evaluate_def state_life Let_def)

lemma life_of_extended:
  "state e now \<noteq> HardExpired \<Longrightarrow>
   life_of (e\<lparr>extended_at := t\<rparr>) = life_extend (life_of e) (offset t)"
  by (auto simp: life_of_def state_def option.map_comp comp_def)

lemma life_of_pinned:
  "state e now \<noteq> HardExpired \<Longrightarrow>
   life_of (e\<lparr>pin_deadline := p\<rparr>) = life_pin (life_of e) (map_option offset p)"
  by (auto simp: life_of_def state_def)

text \<open>
  Property C24.  The detailed entry implements the abstract lifecycle: whenever the clock has not
  run behind the entry's own timestamps, evaluating, getting, extending, pinning and unpinning
  commute with the abstraction to deadlines, and each reports the abstract state.
\<close>

theorem entry_refines_life:
  assumes "loaded_at e \<le> clk 0" and "extended_at e \<le> clk 0"
  shows "fst (evaluate e (clk 0)) = life_state (life_of e) (offset (clk 0))
    \<and> life_of (snd (entry_get e (clk 0))) = life_evaluate (life_of e) (offset (clk 0))
    \<and> (fst (entry_get e (clk 0)) \<noteq> None) = (life_state (life_of e) (offset (clk 0)) = Active)
    \<and> life_of (snd (entry_extend e clk))
        = life_extend (life_evaluate (life_of e) (offset (clk 0))) (offset (clk 1))
    \<and> (fst (entry_extend e clk) = Inr ())
        = (life_state (life_of e) (offset (clk 0)) \<noteq> HardExpired)
    \<and> life_of (snd (entry_pin_until e d (clk 0)))
        = life_pin (life_evaluate (life_of e) (offset (clk 0))) (Some (offset d))
    \<and> life_of (entry_unpin e) = life_pin (life_of e) None"
proof -
  let ?st = "state e (clk 0)"
  note st = state_life [OF assms]
  have ev: "evaluate e (clk 0) = (?st, if ?st = HardExpired then zeroize_value e else e)"
    by (simp add: evaluate_def Let_def)
  have val: "?st \<noteq> HardExpired \<Longrightarrow> entry_value e \<noteq> None"
    using state_live by blast
  have ext: "?st \<noteq> HardExpired \<Longrightarrow> life_of (e\<lparr>extended_at := clk 1\<rparr>)
      = life_extend (life_of e) (offset (clk 1))"
    by (rule life_of_extended)
  have pin: "?st \<noteq> HardExpired \<Longrightarrow> life_of (e\<lparr>pin_deadline := Some d\<rparr>)
      = life_pin (life_of e) (Some (offset d))"
    using life_of_pinned [of e "clk 0" "Some d"] by simp
  have unpin: "life_of (entry_unpin e) = life_pin (life_of e) None"
    by (auto simp: life_of_def entry_unpin_def)
  show ?thesis
    using ext pin unpin val
    by (cases ?st)
      (simp_all add: st [symmetric] entry_get_def entry_extend_def entry_pin_until_def ev
        life_evaluate_def)
qed

definition sample_entry :: cache_entry where
  "sample_entry = entry_new Static \<lparr>data = [1], locked = False\<rparr>
     \<lparr>ttl_soft = Some 10, ttl_hard = Some 100\<rparr> (Monotonic 5)"

theorem entry_refines_life_witness:
  "life_of (snd (entry_extend sample_entry (\<lambda>i. Monotonic (20 + i))))
     = life_extend (life_evaluate (life_of sample_entry) 20) 21"
  using entry_refines_life [of sample_entry "\<lambda>i. Monotonic (20 + i)"]
  by (simp add: sample_entry_def entry_new_def less_eq_monotonic_def)

subsection \<open>Runs of an entry\<close>

datatype entry_op =
  EEvaluate monotonic
| EGet monotonic
| EExtend monotonic monotonic
| EPin (deadline: monotonic) monotonic
| EUnpin
| EForce

fun entry_step :: "cache_entry \<Rightarrow> entry_op \<Rightarrow> cache_entry" where
  "entry_step e (EEvaluate t) = snd (evaluate e t)"
| "entry_step e (EGet t) = snd (entry_get e t)"
| "entry_step e (EExtend t0 t1) = snd (entry_extend e (\<lambda>i. if i = 0 then t0 else t1))"
| "entry_step e (EPin d t) = snd (entry_pin_until e d t)"
| "entry_step e EUnpin = entry_unpin e"
| "entry_step e EForce = force_hard_expire e"

definition entry_run :: "cache_entry \<Rightarrow> entry_op list \<Rightarrow> cache_entry" where
  "entry_run = foldl entry_step"

lemma entry_run_simps [simp]:
  "entry_run e [] = e"
  "entry_run e (x # xs) = entry_run (entry_step e x) xs"
  by (simp_all add: entry_run_def)

definition pins_before :: "monotonic \<Rightarrow> entry_op list \<Rightarrow> bool" where
  "pins_before t ops = list_all (\<lambda>x. case x of EPin d _ \<Rightarrow> d \<le> t | _ \<Rightarrow> True) ops"

definition pin_lapsed :: "cache_entry \<Rightarrow> monotonic \<Rightarrow> bool" where
  "pin_lapsed e t = (case pin_deadline e of None \<Rightarrow> True | Some d \<Rightarrow> d \<le> t)"

lemma evaluate_frame [simp]:
  "loaded_at (snd (evaluate e t)) = loaded_at e"
  "entry_ttl (snd (evaluate e t)) = entry_ttl e"
  "pin_deadline (snd (evaluate e t)) = pin_deadline e"
  "entry_source (snd (evaluate e t)) = entry_source e"
  by (simp_all add: evaluate_def zeroize_value_def Let_def)

lemma entry_step_frame:
  "loaded_at (entry_step e x) = loaded_at e"
  "entry_ttl (entry_step e x) = entry_ttl e"
  "entry_source (entry_step e x) = entry_source e"
  by (cases x; simp add: entry_op_defs Let_def split: prod.splits entry_state.splits)+

lemma entry_step_pin_lapsed:
  assumes "pin_lapsed e t" and "pins_before t [x]"
  shows "pin_lapsed (entry_step e x) t"
  using assms
  by (cases x) (auto simp: entry_op_defs pin_lapsed_def pins_before_def Let_def
      split: prod.splits entry_state.splits)

lemma entry_run_frame:
  "loaded_at (entry_run e ops) = loaded_at e \<and> entry_ttl (entry_run e ops) = entry_ttl e"
  by (induction ops arbitrary: e) (simp_all add: entry_step_frame)

lemma entry_run_pin_lapsed:
  "pin_lapsed e t \<Longrightarrow> pins_before t ops \<Longrightarrow> pin_lapsed (entry_run e ops) t"
proof (induction ops arbitrary: e)
  case (Cons x ops)
  have "pins_before t [x]" and rest: "pins_before t ops"
    using Cons.prems(2) by (simp_all add: pins_before_def)
  then have "pin_lapsed (entry_step e x) t"
    using Cons.prems(1) by (intro entry_step_pin_lapsed)
  from Cons.IH [OF this rest] show ?case by simp
qed simp

lemma destroyed_step: "destroyed e \<Longrightarrow> destroyed (entry_step e x)"
  by (cases x) (simp_all add: destroyed_frozen, simp add: force_hard_expire_def zeroize_value_def destroyed_def)

lemma destroyed_run: "destroyed e \<Longrightarrow> destroyed (entry_run e ops)"
  by (induction ops arbitrary: e) (simp_all add: destroyed_step)

lemma past_hard_destroys:
  assumes "ttl_hard (entry_ttl e) = Some hard" and "offset (loaded_at e) + hard \<le> offset t"
    and "pin_lapsed e t"
  shows "destroyed (snd (evaluate e t))"
proof (rule evaluate_hard_destroys)
  show "state e t = HardExpired"
    using assms by (auto simp: state_def pin_lapsed_def time_simps split: option.splits)
qed

text \<open>
  Property C26.  The hard TTL is an absolute lifetime.  However an entry is used after it was loaded
  (any sequence of gets, extends, pins and unpins), a get at or after \<open>loaded_at +
  hard\<close> returns nothing and destroys the value, unless a pin set by then reaches past that
  instant; and nothing that happens to the entry afterwards brings the value back.
\<close>

theorem hard_ttl_is_absolute:
  assumes "ttl_hard (entry_ttl e) = Some hard" and "offset (loaded_at e) + hard \<le> offset t"
    and "pin_lapsed e t" and "pins_before t ops"
  shows "fst (entry_get (entry_run e ops) t) = None
    \<and> entry_value (snd (entry_get (entry_run e ops) t)) = None
    \<and> fst (entry_get (entry_run (snd (entry_get (entry_run e ops) t)) later) t') = None"
proof -
  let ?e = "entry_run e ops"
  have gone: "destroyed (snd (evaluate ?e t))"
    using assms entry_run_frame [of e ops] entry_run_pin_lapsed
    by (intro past_hard_destroys [of _ hard]) auto
  then have hard: "fst (evaluate ?e t) = HardExpired"
    by (auto simp: evaluate_def Let_def destroyed_def state_def split: if_splits)
  have "fst (entry_get ?e t) = None"
    using hard by (auto simp: entry_get_def split: prod.splits entry_state.splits)
  moreover have "fst (entry_get (entry_run (snd (evaluate ?e t)) later) t') = None"
    using destroyed_frozen(2) [OF destroyed_run [OF gone]] by simp
  ultimately show ?thesis using gone by (simp add: destroyed_def)
qed

theorem hard_ttl_is_absolute_witness:
  "fst (entry_get (entry_run sample_entry
      [EExtend (Monotonic 14) (Monotonic 14), EGet (Monotonic 16), EPin (Monotonic 90) (Monotonic 17)])
      (Monotonic 105)) = None"
  using hard_ttl_is_absolute [of sample_entry 100 "Monotonic 105"
      "[EExtend (Monotonic 14) (Monotonic 14), EGet (Monotonic 16), EPin (Monotonic 90) (Monotonic 17)]"]
  by (simp add: sample_entry_def entry_new_def pin_lapsed_def pins_before_def less_eq_monotonic_def
      del: entry_run_simps)

text \<open>
  A pin holds a live value past both windows, and only until its deadline: before the deadline a get
  returns the value whatever the TTL says; from the deadline on, the entry is evaluated as if it had
  never been pinned.
\<close>

theorem pin_suppresses_expiry_until_deadline:
  assumes "fst (entry_pin_until e d now) = Inr ()"
  shows "(t < d \<longrightarrow> fst (entry_get (snd (entry_pin_until e d now)) t) = entry_value e
            \<and> entry_value e \<noteq> None)
       \<and> (d \<le> t \<longrightarrow> state (snd (entry_pin_until e d now)) t = state (entry_unpin e) t)"
proof -
  have live: "state e now \<noteq> HardExpired"
    using assms by (auto simp: entry_pin_until_def evaluate_def Let_def split: entry_state.splits)
  then have e': "snd (entry_pin_until e d now) = e\<lparr>pin_deadline := Some d\<rparr>"
    by (auto simp: entry_pin_until_def evaluate_def Let_def split: entry_state.splits)
  from state_live [OF live] have val: "entry_value e \<noteq> None" and nh: "\<not> hard_expired e"
    by auto
  show ?thesis
    using val nh
    by (auto simp: e' entry_get_def evaluate_def Let_def state_def entry_unpin_def split: option.splits)
qed

theorem pin_suppresses_expiry_until_deadline_witness:
  "fst (entry_get (snd (entry_pin_until sample_entry (Monotonic 500) (Monotonic 6))) (Monotonic 400))
     = Some \<lparr>data = [1], locked = False\<rparr>"
proof -
  have "fst (entry_pin_until sample_entry (Monotonic 500) (Monotonic 6)) = Inr ()"
    by (simp add: entry_pin_until_def evaluate_def state_def sample_entry_def entry_new_def Let_def
        time_simps)
  from pin_suppresses_expiry_until_deadline [OF this, of "Monotonic 400"] show ?thesis
    by (simp add: sample_entry_def entry_new_def less_monotonic_def)
qed

end
