(* ===== verification/Keys.thy ===== *)
theory Keys
  imports Prelude
begin

text \<open>
  Store-key syntax (\<open>crates/cache-warden/src/key.rs\<close>): a composed key is one or two segments of
  \<open>[A-Za-z0-9_]+\<close> joined by a slash.
\<close>

datatype invalid_key = InvalidKey (invalid_key_text: string)

definition is_identifier_segment :: "string \<Rightarrow> bool" where
  "is_identifier_segment seg \<longleftrightarrow>
     seg \<noteq> [] \<and> list_all (\<lambda>b. is_ascii_alphanumeric b \<or> b = CHR ''_'') seg"

definition validate_key_syntax :: "string \<Rightarrow> invalid_key + unit" where
  "validate_key_syntax key =
     (let ok = (case split_char (CHR ''/'') key of
                  [only] \<Rightarrow> is_identifier_segment only
                | [ns, k] \<Rightarrow> is_identifier_segment ns \<and> is_identifier_segment k
                | _ \<Rightarrow> False)
      in if ok then Inr () else Inl (InvalidKey key))"

definition valid_key :: "string \<Rightarrow> bool" where
  "valid_key key \<longleftrightarrow> validate_key_syntax key = Inr ()"

text \<open>The grammar of the documentation, as a reference definition.\<close>

inductive composed_key :: "string \<Rightarrow> bool" where
  bare: "is_identifier_segment k \<Longrightarrow> composed_key k"
| namespaced: "is_identifier_segment ns \<Longrightarrow> is_identifier_segment k \<Longrightarrow>
    composed_key (ns @ ''/'' @ k)"

lemma identifier_no_slash: "is_identifier_segment seg \<Longrightarrow> CHR ''/'' \<notin> set seg"
  by (auto simp: is_identifier_segment_def is_ascii_alphanumeric_def list_all_iff
      less_eq_char_def)

lemma valid_key_iff_split:
  "valid_key key \<longleftrightarrow>
     (\<exists>k. split_char (CHR ''/'') key = [k] \<and> is_identifier_segment k) \<or>
     (\<exists>ns k. split_char (CHR ''/'') key = [ns, k] \<and> is_identifier_segment ns
        \<and> is_identifier_segment k)"
  by (auto simp: valid_key_def validate_key_syntax_def Let_def split: list.splits)

lemma validate_key_syntax_cases:
  "validate_key_syntax key = (if valid_key key then Inr () else Inl (InvalidKey key))"
  by (simp add: valid_key_def validate_key_syntax_def Let_def)


lemma split_namespaced:
  assumes "is_identifier_segment ns" and "is_identifier_segment k"
  shows "split_char (CHR ''/'') (ns @ ''/'' @ k) = [ns, k]"
  using identifier_no_slash [OF assms(1)] identifier_no_slash [OF assms(2)]
  by (simp add: split_char_append split_char_single)

text \<open>
  The validator accepts exactly the documented grammar, \<open>KEY\<close> or \<open>NS/KEY\<close>
  over \<open>[A-Za-z0-9_]+\<close>; on every other string it returns the error that carries the
  string itself.
\<close>

theorem validate_key_syntax_grammar:
  "validate_key_syntax key = (if composed_key key then Inr () else Inl (InvalidKey key))"
proof -
  have "composed_key key" if "valid_key key"
  proof -
    from that consider
        (one) k where "split_char (CHR ''/'') key = [k]" "is_identifier_segment k"
      | (two) ns k where "split_char (CHR ''/'') key = [ns, k]" "is_identifier_segment ns"
          "is_identifier_segment k"
      by (auto simp: valid_key_iff_split)
    then show ?thesis
    proof cases
      case one
      then show ?thesis using join_split_char [of "CHR ''/''" key] by (simp add: composed_key.bare)
    next
      case two
      then show ?thesis
        using join_split_char [of "CHR ''/''" key] composed_key.namespaced [of ns k] by simp
    qed
  qed
  moreover have "valid_key key" if "composed_key key"
    using that
  proof cases
    case bare
    then show ?thesis by (simp add: valid_key_iff_split split_char_single identifier_no_slash)
  next
    case (namespaced ns k)
    then show ?thesis using split_namespaced by (auto simp: valid_key_iff_split)
  qed
  ultimately show ?thesis by (auto simp: validate_key_syntax_cases)
qed

end
