(* ===== verification/Definitions.thy ===== *)
theory Definitions
  imports Entry Keys
begin

text \<open>
  The metadata slots and the value-source definitions (\<open>crates/cache-warden/src/meta.rs\<close> and
  \<open>definition.rs\<close>): value-free records, compared as a whole by the idempotency rule.
\<close>

subsection \<open>Opaque metadata\<close>

record value_meta =
  type_label :: "string option"
  params :: "(string, string) fmap"

definition value_meta_new :: value_meta where
  "value_meta_new = \<lparr>type_label = None, params = fmempty\<rparr>"

definition with_type :: "string \<Rightarrow> (string \<times> string) list \<Rightarrow> value_meta" where
  "with_type label ps = \<lparr>type_label = Some label, params = fold (\<lambda>(k, v). fmupd k v) ps fmempty\<rparr>"

definition value_meta_param :: "value_meta \<Rightarrow> string \<Rightarrow> string option" where
  "value_meta_param m k = fmlookup (params m) k"

definition value_meta_params :: "value_meta \<Rightarrow> (string \<times> string) list" where
  "value_meta_params m = map (\<lambda>k. (k, the (fmlookup (params m) k))) (btree_keys (params m))"

definition value_meta_is_empty :: "value_meta \<Rightarrow> bool" where
  "value_meta_is_empty m \<longleftrightarrow> type_label m = None \<and> params m = fmempty"

definition value_meta_from_parts :: "string option \<Rightarrow> (string, string) fmap \<Rightarrow> value_meta" where
  "value_meta_from_parts l ps = \<lparr>type_label = l, params = ps\<rparr>"

definition value_meta_into_parts :: "value_meta \<Rightarrow> string option \<times> (string, string) fmap" where
  "value_meta_into_parts m = (type_label m, params m)"

record source_meta =
  kind :: "string option"
  meta_fields :: "(string, string) fmap"

definition source_meta_new :: source_meta where
  "source_meta_new = \<lparr>kind = None, meta_fields = fmempty\<rparr>"

definition with_kind :: "string \<Rightarrow> (string \<times> string) list \<Rightarrow> source_meta" where
  "with_kind kd fs = \<lparr>kind = Some kd, meta_fields = fold (\<lambda>(k, v). fmupd k v) fs fmempty\<rparr>"

definition source_meta_field :: "source_meta \<Rightarrow> string \<Rightarrow> string option" where
  "source_meta_field m k = fmlookup (meta_fields m) k"

definition source_meta_fields :: "source_meta \<Rightarrow> (string \<times> string) list" where
  "source_meta_fields m = map (\<lambda>k. (k, the (fmlookup (meta_fields m) k))) (btree_keys (meta_fields m))"

definition source_meta_is_empty :: "source_meta \<Rightarrow> bool" where
  "source_meta_is_empty m \<longleftrightarrow> kind m = None \<and> meta_fields m = fmempty"

definition source_meta_from_parts :: "string option \<Rightarrow> (string, string) fmap \<Rightarrow> source_meta" where
  "source_meta_from_parts kd fs = \<lparr>kind = kd, meta_fields = fs\<rparr>"

definition source_meta_into_parts :: "source_meta \<Rightarrow> string option \<times> (string, string) fmap" where
  "source_meta_into_parts m = (kind m, meta_fields m)"

lemma meta_parts_roundtrip [simp]:
  "value_meta_from_parts (fst (value_meta_into_parts m)) (snd (value_meta_into_parts m)) = m"
  "source_meta_from_parts (fst (source_meta_into_parts n)) (snd (source_meta_into_parts n)) = n"
  by (simp_all add: value_meta_from_parts_def value_meta_into_parts_def
      source_meta_from_parts_def source_meta_into_parts_def)

subsection \<open>Definitions\<close>

record definition_record =
  def_source :: value_source
  def_ttl :: ttl
  def_meta :: value_meta
  def_source_meta :: source_meta

datatype define_error = Conflict | StaticNotDefinable | DefineInvalidKey invalid_key

fun definition_new :: "value_source \<Rightarrow> ttl \<Rightarrow> define_error + definition_record" where
  "definition_new (Command av cw en) t =
     Inr \<lparr>def_source = Command av cw en, def_ttl = t, def_meta = value_meta_new,
          def_source_meta = source_meta_new\<rparr>"
| "definition_new Static t = Inl StaticNotDefinable"

definition def_with_meta :: "definition_record \<Rightarrow> value_meta \<Rightarrow> definition_record" where
  "def_with_meta d m = d\<lparr>def_meta := m\<rparr>"

definition def_with_source_meta :: "definition_record \<Rightarrow> source_meta \<Rightarrow> definition_record" where
  "def_with_source_meta d m = d\<lparr>def_source_meta := m\<rparr>"

definition definition_ok :: "definition_record \<Rightarrow> bool" where
  "definition_ok d \<longleftrightarrow> is_regenerable (def_source d) \<and> ttl_ok (def_ttl d)"

lemma definition_new_cases:
  "definition_new src t =
     (if is_regenerable src
      then Inr \<lparr>def_source = src, def_ttl = t, def_meta = value_meta_new,
                def_source_meta = source_meta_new\<rparr>
      else Inl StaticNotDefinable)"
  by (cases src) simp_all

end
