(* ===== verification/Guard.thy ===== *)
theory Guard
  imports Process
begin

text \<open>
  Per-entry access guard records (\<open>crates/cache-warden/src/guard.rs\<close>) and refresh claims
  (\<open>crates/cache-warden/src/refresh.rs\<close>): plain data that the store keeps beside a value.
\<close>

record pinned_process =
  pinned_pid :: pid
  pinned_start_time :: "duration option"
  pinned_unique_id :: "64 word option"
  pinned_path :: string
  pinned_name :: string

datatype declared_ancestor = SameShell (shell_name: string) | Named (declared_name: string)

datatype guard_constraint =
  SameUser
| SameAncestor (declared: declared_ancestor) (pinned: pinned_process)
| CommandNamed (command_name: string)

record guard_setter =
  euid :: "32 word"
  ruid :: "32 word"

record guard_record =
  constraints :: "guard_constraint list"
  setter :: guard_setter

definition guard_record_new :: "guard_constraint list \<Rightarrow> guard_setter \<Rightarrow> guard_record" where
  "guard_record_new cs s = \<lparr>constraints = cs, setter = s\<rparr>"

subsection \<open>Refresh claims\<close>

record refresh_claim =
  claim_token :: string
  claimed_at_epoch_ms :: nat
  expires_at_epoch_ms :: nat

definition refresh_claim_new :: "string \<Rightarrow> nat \<Rightarrow> nat \<Rightarrow> refresh_claim" where
  "refresh_claim_new tok claimed expires =
     \<lparr>claim_token = tok, claimed_at_epoch_ms = claimed, expires_at_epoch_ms = expires\<rparr>"

definition is_active_at :: "refresh_claim \<Rightarrow> nat \<Rightarrow> bool" where
  "is_active_at c now_epoch_ms \<longleftrightarrow> now_epoch_ms < expires_at_epoch_ms c"

definition remaining_ms :: "refresh_claim \<Rightarrow> nat \<Rightarrow> nat" where
  "remaining_ms c now_epoch_ms = expires_at_epoch_ms c - now_epoch_ms"

lemma claim_active_iff_remaining: "is_active_at c now \<longleftrightarrow> 0 < remaining_ms c now"
  by (simp add: is_active_at_def remaining_ms_def)

end
