(* ===== verification/Owner.thy ===== *)
theory Owner
  imports Prelude
begin

text \<open>
  Entry ownership by code-signing identity (\<open>crates/cache-warden/src/owner.rs\<close>).  The requirement
  string is assembled from three validated fields and never taken from a caller.
\<close>

datatype signing_anchor = AppleGeneric | Apple

definition anchor_parse :: "string \<Rightarrow> signing_anchor option" where
  "anchor_parse s =
     (if s = ''apple-generic'' then Some AppleGeneric
      else if s = ''apple'' then Some Apple
      else None)"

fun anchor_as_str :: "signing_anchor \<Rightarrow> string" where
  "anchor_as_str AppleGeneric = ''apple-generic''"
| "anchor_as_str Apple = ''apple''"

text \<open>
  The offending character of a field is the one at which the model's byte string departs from ASCII
  or from the allowed set; for a multi-byte character it is its first byte.
\<close>

datatype owner_decl_error =
  UnknownAnchor string
| EmptyField string
| IllegalCharacter string char
| TooLong string nat

definition MAX_TEAM_ID :: nat where "MAX_TEAM_ID = 64"
definition MAX_IDENTIFIER :: nat where "MAX_IDENTIFIER = 255"

record owner_principal =
  anchor :: signing_anchor
  team_id :: string
  signing_identifier :: string

definition check_field :: "string \<Rightarrow> string \<Rightarrow> nat \<Rightarrow> (char \<Rightarrow> bool) \<Rightarrow> owner_decl_error + unit" where
  "check_field field val mx allowed =
     (if val = [] then Inl (EmptyField field)
      else if mx < length val then Inl (TooLong field mx)
      else (case find (\<lambda>c. \<not> allowed c) val of
              Some ch \<Rightarrow> Inl (IllegalCharacter field ch)
            | None \<Rightarrow> Inr ()))"

definition is_team_id_char :: "char \<Rightarrow> bool" where
  "is_team_id_char c = is_ascii_alphanumeric c"

definition is_identifier_char :: "char \<Rightarrow> bool" where
  "is_identifier_char c \<longleftrightarrow>
     is_ascii_alphanumeric c \<or> c = CHR ''.'' \<or> c = CHR ''-'' \<or> c = CHR ''_''"

definition owner_declare ::
  "string \<Rightarrow> string \<Rightarrow> string \<Rightarrow> owner_decl_error + owner_principal"
where
  "owner_declare anc team ident =
     (case anchor_parse anc of
        None \<Rightarrow> Inl (UnknownAnchor anc)
      | Some a \<Rightarrow>
          (case check_field ''team id'' team MAX_TEAM_ID is_team_id_char of
             Inl e \<Rightarrow> Inl e
           | Inr _ \<Rightarrow>
               (case check_field ''identifier'' ident MAX_IDENTIFIER is_identifier_char of
                  Inl e \<Rightarrow> Inl e
                | Inr _ \<Rightarrow> Inr \<lparr>anchor = a, team_id = team, signing_identifier = ident\<rparr>)))"

definition DQ :: char where "DQ = CHR 0x22"

fun anchor_requirement :: "signing_anchor \<Rightarrow> string" where
  "anchor_requirement AppleGeneric = ''anchor apple generic''"
| "anchor_requirement Apple = ''anchor apple''"

definition requirement :: "owner_principal \<Rightarrow> string" where
  "requirement p =
     anchor_requirement (anchor p) @ '' and certificate leaf[subject.OU] = '' @ [DQ] @ team_id p
       @ [DQ] @ '' and identifier '' @ [DQ] @ signing_identifier p @ [DQ]"

definition owner_summary :: "owner_principal \<Rightarrow> string" where
  "owner_summary p =
     anchor_as_str (anchor p) @ '' team='' @ team_id p @ '' identifier='' @ signing_identifier p"

lemma anchor_parse_as_str [simp]: "anchor_parse (anchor_as_str a) = Some a"
  by (cases a) (simp_all add: anchor_parse_def)

lemma check_field_ok:
  "check_field field val mx allowed = Inr () \<longleftrightarrow>
     val \<noteq> [] \<and> length val \<le> mx \<and> list_all allowed val"
  by (auto simp: check_field_def list_all_iff find_None_iff find_Some_iff not_le
      split: option.splits)

lemma check_field_err:
  "check_field field val mx allowed = Inl e \<Longrightarrow>
     \<not> (val \<noteq> [] \<and> length val \<le> mx \<and> list_all allowed val)"
  using check_field_ok [of field val mx allowed] by auto

definition principal_ok :: "owner_principal \<Rightarrow> bool" where
  "principal_ok p \<longleftrightarrow>
     team_id p \<noteq> [] \<and> length (team_id p) \<le> MAX_TEAM_ID \<and> list_all is_team_id_char (team_id p) \<and>
     signing_identifier p \<noteq> [] \<and> length (signing_identifier p) \<le> MAX_IDENTIFIER
       \<and> list_all is_identifier_char (signing_identifier p)"

lemma owner_declare_ok:
  "owner_declare anc team ident = Inr p \<longleftrightarrow>
     anchor_parse anc = Some (anchor p) \<and> team_id p = team \<and> signing_identifier p = ident \<and> principal_ok p"
  by (cases p)
    (auto simp: owner_declare_def check_field_ok principal_ok_def dest: check_field_err
      split: option.splits sum.splits)

lemma team_char_not_quote: "is_team_id_char c \<Longrightarrow> c \<noteq> DQ"
  by (auto simp: is_team_id_char_def is_ascii_alphanumeric_def DQ_def less_eq_char_def)

lemma identifier_char_not_quote: "is_identifier_char c \<Longrightarrow> c \<noteq> DQ"
  by (auto simp: is_identifier_char_def is_ascii_alphanumeric_def DQ_def less_eq_char_def)

lemma split_requirement:
  assumes "principal_ok p"
  shows "split_char DQ (requirement p)
       = [anchor_requirement (anchor p) @ '' and certificate leaf[subject.OU] = '', team_id p,
          '' and identifier '', signing_identifier p, []]"
proof -
  have team: "DQ \<notin> set (team_id p)" and ident: "DQ \<notin> set (signing_identifier p)"
    using assms team_char_not_quote identifier_char_not_quote
    by (auto simp: principal_ok_def list_all_iff)
  have head: "DQ \<notin> set (anchor_requirement (anchor p) @ '' and certificate leaf[subject.OU] = '')"
    by (cases "anchor p") (simp_all add: DQ_def)
  have mid: "DQ \<notin> set '' and identifier ''" by (simp add: DQ_def)
  show ?thesis
    using split_char_append [OF head] split_char_append [OF team] split_char_append [OF mid]
      split_char_append [OF ident, of "[]"]
    by (simp add: requirement_def)
qed

text \<open>
  No accepted declaration can change the shape of the requirement it is put into: the assembled
  string, cut at its quotes, gives back exactly the fixed text and the two declared fields; so two
  accepted declarations with the same requirement are the same principal.
\<close>

theorem requirement_cannot_be_escaped:
  assumes "owner_declare anc team ident = Inr p" and "owner_declare anc' team' ident' = Inr q"
  shows "split_char DQ (requirement p)
       = [anchor_requirement (anchor p) @ '' and certificate leaf[subject.OU] = '', team,
          '' and identifier '', ident, []]
    \<and> (requirement p = requirement q \<longrightarrow> p = q)"
proof -
  have ok: "principal_ok p" "principal_ok q" "team_id p = team" "signing_identifier p = ident"
    using assms by (simp_all add: owner_declare_ok)
  have "p = q" if same: "requirement p = requirement q"
  proof -
    from split_requirement [OF ok(1)] split_requirement [OF ok(2)] same
    have "anchor_requirement (anchor p) = anchor_requirement (anchor q)"
      and "team_id p = team_id q" and "signing_identifier p = signing_identifier q"
      by (simp_all only: list.inject append_same_eq)
    moreover from this(1) have "anchor p = anchor q"
      by (cases "anchor p"; cases "anchor q") simp_all
    ultimately show ?thesis by (cases p; cases q) simp
  qed
  with split_requirement [OF ok(1)] show ?thesis unfolding ok(3,4) by blast
qed

theorem requirement_cannot_be_escaped_witness:
  "\<exists>p. owner_declare ''apple-generic'' ''AB12'' ''com.example.app'' = Inr p \<and>
     split_char DQ (requirement p)
       = [''anchor apple generic and certificate leaf[subject.OU] = '', ''AB12'',
          '' and identifier '', ''com.example.app'', []]"
proof -
  let ?p = "\<lparr>anchor = AppleGeneric, team_id = ''AB12'', signing_identifier = ''com.example.app''\<rparr>"
  have d: "owner_declare ''apple-generic'' ''AB12'' ''com.example.app'' = Inr ?p"
    by (simp add: owner_declare_ok anchor_parse_def principal_ok_def is_team_id_char_def
        is_identifier_char_def is_ascii_alphanumeric_def less_eq_char_def MAX_TEAM_ID_def
        MAX_IDENTIFIER_def)
  from requirement_cannot_be_escaped [OF d d] d show ?thesis by simp
qed

end
