(* ===== verification/Capability.thy ===== *)
theory Capability
  imports Prelude
begin

text \<open>
  Capability tokens (\<open>crates/cache-warden/src/capability.rs\<close>).  The random offset that
  \<open>getrandom\<close> gives once per process is a parameter; the atomic counter is passed along.
\<close>

unbundle bit_operations_syntax

record capability =
  token :: "128 word"

datatype cap_error = KeyMismatch | CapUnknown

definition fresh_process_local_token :: "64 word \<Rightarrow> 64 word \<Rightarrow> 128 word \<times> 64 word" where
  "fresh_process_local_token random_offset counter =
     (let high = ucast random_offset :: 128 word;
          low = ucast counter :: 128 word
      in (push_bit 64 high OR low, counter + 1))"

lemma token_low: "ucast (fst (fresh_process_local_token r c)) = c"
  unfolding fresh_process_local_token_def Let_def
  by (rule bit_word_eqI) (auto simp: bit_simps)

lemma token_high: "ucast (drop_bit 64 (fst (fresh_process_local_token r c))) = r"
  unfolding fresh_process_local_token_def Let_def
  by (rule bit_word_eqI) (auto simp: bit_simps dest: bit_imp_le_length)

text \<open>The \<open>n\<close>-th token a process issues.\<close>

fun nth_token :: "64 word \<Rightarrow> 64 word \<Rightarrow> nat \<Rightarrow> 128 word" where
  "nth_token r c 0 = fst (fresh_process_local_token r c)"
| "nth_token r c (Suc n) = nth_token r (snd (fresh_process_local_token r c)) n"

lemma nth_token_eq: "nth_token r c n = fst (fresh_process_local_token r (c + of_nat n))"
  by (induction n arbitrary: c) (simp_all add: fresh_process_local_token_def Let_def ac_simps)

text \<open>
  Two stores never share a token within one process: any two of the first 2^64 tokens a process
  issues differ; and tokens of processes with different random offsets always differ.
\<close>

theorem tokens_distinct:
  assumes "m < 2 ^ 64" and "n < 2 ^ 64" and "nth_token r c m = nth_token r' c' n"
  shows "r = r' \<and> (c = c' \<longrightarrow> m = n)"
proof
  show "r = r'"
    using assms(3) unfolding nth_token_eq by (metis token_high)
  show "c = c' \<longrightarrow> m = n"
  proof
    assume "c = c'"
    with assms(3) have "(of_nat m :: 64 word) = of_nat n"
      unfolding nth_token_eq by (metis add_left_cancel token_low)
    then have "unat (of_nat m :: 64 word) = unat (of_nat n :: 64 word)" by simp
    with assms(1,2) show "m = n"
      by (simp add: unat_of_nat take_bit_nat_eq_self)
  qed
qed

theorem tokens_distinct_witness: "nth_token 5 0 3 \<noteq> nth_token 5 0 4"
proof
  assume "nth_token 5 0 3 = nth_token 5 0 4"
  from tokens_distinct [OF _ _ this] show False by simp
qed

end
