(* ===== verification/Store.thy ===== *)
theory Store
  imports Interfaces Auth Definitions Guard Owner Capability
begin

text \<open>
  The store (\<open>crates/cache-warden/src/store.rs\<close>): seven maps kept apart on purpose, with the
  lifetimes their comments give them, and one definition per method.  A method that mutates returns
  its result and the new store; a method that may run the upstream command or prompt the user also
  returns what it did, in order.  A method that reads the clock several times takes the sequence of
  readings.
\<close>

subsection \<open>State\<close>

record failure_record =
  failed_at :: monotonic
  retry_after :: duration

record store =
  entries :: "(string, cache_entry) fmap"
  definitions :: "(string, definition_record) fmap"
  failure_backoffs :: "(string, failure_record) fmap"
  access_guards :: "(string, guard_record) fmap"
  owners :: "(string, owner_principal) fmap"
  versions :: "(string, nat) fmap"
  refresh_claims :: "(string, refresh_claim) fmap"
  failure_backoff_duration :: duration
  access_token :: "128 word"

datatype effect =
  Prompted auth_context
| Ran "string list" "string option" env_overlay

subsection \<open>Construction\<close>

record store_bundle =
  bundle_store :: store
  control_cap :: capability
  authsock_cap :: capability
  otp_cap :: capability

record store_builder =
  builder_backoff_duration :: duration

definition store_builder_new :: store_builder where
  "store_builder_new = \<lparr>builder_backoff_duration = 0\<rparr>"

definition builder_failure_backoff :: "store_builder \<Rightarrow> duration \<Rightarrow> store_builder" where
  "builder_failure_backoff b d = b\<lparr>builder_backoff_duration := d\<rparr>"

definition new_with_token :: "128 word \<Rightarrow> duration \<Rightarrow> store" where
  "new_with_token tok d =
     \<lparr>entries = fmempty, definitions = fmempty, failure_backoffs = fmempty,
      access_guards = fmempty, owners = fmempty, versions = fmempty, refresh_claims = fmempty,
      failure_backoff_duration = d, access_token = tok\<rparr>"

definition store_build :: "store_builder \<Rightarrow> 64 word \<Rightarrow> 64 word \<Rightarrow> store_bundle" where
  "store_build b random_offset counter =
     (let tok = fst (fresh_process_local_token random_offset counter);
          cap = \<lparr>token = tok\<rparr>
      in \<lparr>bundle_store = new_with_token tok (builder_backoff_duration b),
          control_cap = cap, authsock_cap = cap, otp_cap = cap\<rparr>)"

definition check_cap :: "store \<Rightarrow> capability \<Rightarrow> cap_error + unit" where
  "check_cap s cap = (if token cap = access_token s then Inr () else Inl KeyMismatch)"

definition authorized :: "store \<Rightarrow> capability \<Rightarrow> bool" where
  "authorized s cap \<longleftrightarrow> token cap = access_token s"

lemma check_cap_simps [simp]:
  "authorized s cap \<Longrightarrow> check_cap s cap = Inr ()"
  "\<not> authorized s cap \<Longrightarrow> check_cap s cap = Inl KeyMismatch"
  by (simp_all add: check_cap_def authorized_def)

subsection \<open>Fetch-failure backoff\<close>

definition failure_backoff_remaining :: "store \<Rightarrow> string \<Rightarrow> monotonic \<Rightarrow> duration option" where
  "failure_backoff_remaining s k now =
     (case fmlookup (failure_backoffs s) k of
        None \<Rightarrow> None
      | Some r \<Rightarrow>
          (if retry_after r = 0 then None
           else (let spent = saturating_duration_since now (failed_at r) in
                 if spent < retry_after r then Some (retry_after r - spent) else None)))"

text \<open>The error path of \<open>runner.run\<close> in \<open>regenerate\<close> and \<open>get_or_regenerate\<close>.\<close>

definition record_failure :: "store \<Rightarrow> string \<Rightarrow> monotonic \<Rightarrow> store" where
  "record_failure s k now =
     (if 0 < failure_backoff_duration s
      then s\<lparr>failure_backoffs :=
               fmupd k \<lparr>failed_at = now, retry_after = failure_backoff_duration s\<rparr>
                 (failure_backoffs s)\<rparr>
      else s)"

text \<open>The success path of the same two methods.\<close>

definition install_fetched ::
  "store \<Rightarrow> string \<Rightarrow> value_source \<Rightarrow> secret_bytes \<Rightarrow> ttl \<Rightarrow> monotonic \<Rightarrow> store"
where
  "install_fetched s k src val t now =
     s\<lparr>failure_backoffs := fmdrop k (failure_backoffs s),
       access_guards := fmdrop k (access_guards s),
       refresh_claims := fmdrop k (refresh_claims s),
       entries := fmupd k (entry_new src val t now) (entries s)\<rparr>"

subsection \<open>Values: set, get, state\<close>

datatype set_error = SetInvalidKey invalid_key | SetCapMismatch

definition store_set ::
  "store \<Rightarrow> string \<Rightarrow> value_source \<Rightarrow> secret_bytes \<Rightarrow> ttl \<Rightarrow> capability \<Rightarrow> monotonic
   \<Rightarrow> (set_error + unit) \<times> store"
where
  "store_set s k src val t cap now =
     (case check_cap s cap of
        Inl _ \<Rightarrow> (Inl SetCapMismatch, s)
      | Inr _ \<Rightarrow>
          (case validate_key_syntax k of
             Inl e \<Rightarrow> (Inl (SetInvalidKey e), s)
           | Inr _ \<Rightarrow> (Inr (), s\<lparr>entries := fmupd k (entry_new src val t now) (entries s)\<rparr>)))"

definition store_get ::
  "store \<Rightarrow> string \<Rightarrow> capability \<Rightarrow> monotonic \<Rightarrow> (cap_error + secret_bytes option) \<times> store"
where
  "store_get s k cap now =
     (case check_cap s cap of
        Inl e \<Rightarrow> (Inl e, s)
      | Inr _ \<Rightarrow>
          (case fmlookup (entries s) k of
             None \<Rightarrow> (Inr None, s)
           | Some e \<Rightarrow>
               (let (v, e') = entry_get e now in
                (Inr v, s\<lparr>entries := fmupd k e' (entries s)\<rparr>))))"

definition store_state_of :: "store \<Rightarrow> string \<Rightarrow> monotonic \<Rightarrow> entry_state option \<times> store" where
  "store_state_of s k now =
     (case fmlookup (entries s) k of
        None \<Rightarrow> (None, s)
      | Some e \<Rightarrow>
          (let (st, e') = evaluate e now in
           (Some st, s\<lparr>entries := fmupd k e' (entries s)\<rparr>)))"

definition entry_state_pure :: "store \<Rightarrow> string \<Rightarrow> monotonic \<Rightarrow> entry_state option" where
  "entry_state_pure s k now = map_option (\<lambda>e. state e now) (fmlookup (entries s) k)"

subsection \<open>Extending\<close>

datatype extend_outcome = ExtNotFound | ExtHardExpired | ExtCapMismatch

definition store_extend ::
  "store \<Rightarrow> string \<Rightarrow> capability \<Rightarrow> clock \<Rightarrow> (extend_outcome + unit) \<times> store"
where
  "store_extend s k cap clk =
     (case check_cap s cap of
        Inl _ \<Rightarrow> (Inl ExtCapMismatch, s)
      | Inr _ \<Rightarrow>
          (case fmlookup (entries s) k of
             None \<Rightarrow> (Inl ExtNotFound, s)
           | Some e \<Rightarrow>
               (let (r, e') = entry_extend e clk in
                (map_err (\<lambda>_. ExtHardExpired) r, s\<lparr>entries := fmupd k e' (entries s)\<rparr>))))"

datatype extend_auth_outcome =
  ExtAuthNotFound | ExtAuthHardExpired | ExtAuthFailed auth_error | ExtAuthCapMismatch

text \<open>Readings: 0 the evaluation, 1 and 2 those of \<open>CacheEntry::extend\<close>.\<close>

definition extend_authenticated ::
  "store \<Rightarrow> string \<Rightarrow> authenticator \<Rightarrow> process_info list option \<Rightarrow> capability \<Rightarrow> clock
   \<Rightarrow> (extend_auth_outcome + unit) \<times> store \<times> effect list"
where
  "extend_authenticated s k auth requester cap clk =
     (case check_cap s cap of
        Inl _ \<Rightarrow> (Inl ExtAuthCapMismatch, s, [])
      | Inr _ \<Rightarrow>
          (case fmlookup (entries s) k of
             None \<Rightarrow> (Inl ExtAuthNotFound, s, [])
           | Some e \<Rightarrow>
               (let (st, e1) = evaluate e (clk 0);
                    finish = (let (r, e2) = entry_extend e1 (\<lambda>i. clk (Suc i)) in
                              (map_err (\<lambda>_. ExtAuthHardExpired) r,
                               s\<lparr>entries := fmupd k e2 (entries s)\<rparr>));
                    ctx = auth_context_for k Extend requester
                in case st of
                     Active \<Rightarrow> (fst finish, snd finish, [])
                   | SoftExpired \<Rightarrow>
                       (case auth ctx of
                          Inl err \<Rightarrow>
                            (Inl (ExtAuthFailed err), s\<lparr>entries := fmupd k e1 (entries s)\<rparr>,
                             [Prompted ctx])
                        | Inr _ \<Rightarrow> (fst finish, snd finish, [Prompted ctx]))
                   | HardExpired \<Rightarrow>
                       (Inl ExtAuthHardExpired, s\<lparr>entries := fmupd k e1 (entries s)\<rparr>, []))))"

subsection \<open>Regenerating a destroyed value\<close>

datatype regenerate_outcome =
  RegenNotFound | RegenNotRegenerable | RegenNotHardExpired | RegenRunFailed run_error
| RegenAuthFailed auth_error | RegenBackoff duration | RegenCapMismatch

text \<open>Readings: 0 the backoff test, 1 the evaluation, 2 the failure record, 3 the new entry.\<close>

definition store_regenerate ::
  "store \<Rightarrow> string \<Rightarrow> source_runner \<Rightarrow> authenticator \<Rightarrow> process_info list option \<Rightarrow> capability
   \<Rightarrow> clock \<Rightarrow> (regenerate_outcome + unit) \<times> store \<times> effect list"
where
  "store_regenerate s k runner auth requester cap clk =
     (case check_cap s cap of
        Inl _ \<Rightarrow> (Inl RegenCapMismatch, s, [])
      | Inr _ \<Rightarrow>
     (case failure_backoff_remaining s k (clk 0) of
        Some remaining \<Rightarrow> (Inl (RegenBackoff remaining), s, [])
      | None \<Rightarrow>
     (case fmlookup (entries s) k of
        None \<Rightarrow> (Inl RegenNotFound, s, [])
      | Some e \<Rightarrow>
     (case entry_source e of
        Static \<Rightarrow> (Inl RegenNotRegenerable, s, [])
      | Command av cw en \<Rightarrow>
          (let (st, e1) = evaluate e (clk 1);
               s1 = s\<lparr>entries := fmupd k e1 (entries s)\<rparr>;
               ctx = auth_context_for k Regenerate requester
           in if st \<noteq> HardExpired then (Inl RegenNotHardExpired, s1, [])
              else (case runner av cw en of
                      Inl err \<Rightarrow>
                        (Inl (RegenRunFailed err), record_failure s1 k (clk 2), [Ran av cw en])
                    | Inr val \<Rightarrow>
                        (case auth ctx of
                           Inl err \<Rightarrow> (Inl (RegenAuthFailed err), s1, [Ran av cw en, Prompted ctx])
                         | Inr _ \<Rightarrow>
                             (Inr (),
                              install_fetched s1 k (entry_source e) val (entry_ttl e) (clk 3),
                              [Ran av cw en, Prompted ctx]))))))))"

subsection \<open>Pinning\<close>

datatype pin_auth_outcome =
  PinNotFound | PinAuthHardExpired | PinAuthFailed auth_error | PinCapMismatch

text \<open>Readings: 0 the state before the prompt, 1 the evaluation of \<open>pin_until\<close> after it.\<close>

definition pin_authenticated ::
  "store \<Rightarrow> string \<Rightarrow> monotonic \<Rightarrow> authenticator \<Rightarrow> process_info list option \<Rightarrow> capability
   \<Rightarrow> clock \<Rightarrow> (pin_auth_outcome + unit) \<times> store \<times> effect list"
where
  "pin_authenticated s k dl auth requester cap clk =
     (case check_cap s cap of
        Inl _ \<Rightarrow> (Inl PinCapMismatch, s, [])
      | Inr _ \<Rightarrow>
     (case fmlookup (entries s) k of
        None \<Rightarrow> (Inl PinNotFound, s, [])
      | Some e \<Rightarrow>
          (if state e (clk 0) = HardExpired then (Inl PinAuthHardExpired, s, [])
           else (let ctx = auth_context_for k Pin requester in
                 case auth ctx of
                   Inl err \<Rightarrow> (Inl (PinAuthFailed err), s, [Prompted ctx])
                 | Inr _ \<Rightarrow>
                     (let (r, e') = entry_pin_until e dl (clk 1) in
                      (map_err (\<lambda>_. PinAuthHardExpired) r,
                       s\<lparr>entries := fmupd k e' (entries s)\<rparr>, [Prompted ctx]))))))"

definition store_unpin :: "store \<Rightarrow> string \<Rightarrow> capability \<Rightarrow> (cap_error + bool) \<times> store" where
  "store_unpin s k cap =
     (case check_cap s cap of
        Inl e \<Rightarrow> (Inl e, s)
      | Inr _ \<Rightarrow>
          (case fmlookup (entries s) k of
             Some e \<Rightarrow> (Inr True, s\<lparr>entries := fmupd k (entry_unpin e) (entries s)\<rparr>)
           | None \<Rightarrow> (Inr False, s)))"

definition pin_deadline_of :: "store \<Rightarrow> string \<Rightarrow> monotonic option" where
  "pin_deadline_of s k =
     (case fmlookup (entries s) k of None \<Rightarrow> None | Some e \<Rightarrow> pin_deadline e)"

subsection \<open>Deleting and listing\<close>

definition store_delete :: "store \<Rightarrow> string \<Rightarrow> capability \<Rightarrow> (cap_error + bool) \<times> store" where
  "store_delete s k cap =
     (case check_cap s cap of
        Inl e \<Rightarrow> (Inl e, s)
      | Inr _ \<Rightarrow>
          (Inr (fmlookup (entries s) k \<noteq> None),
           s\<lparr>access_guards := fmdrop k (access_guards s),
             refresh_claims := fmdrop k (refresh_claims s),
             entries := fmdrop k (entries s)\<rparr>))"

definition store_list :: "store \<Rightarrow> string list" where
  "store_list s = btree_keys (entries s)"

definition source_of :: "store \<Rightarrow> string \<Rightarrow> value_source option" where
  "source_of s k = map_option entry_source (fmlookup (entries s) k)"

definition store_len :: "store \<Rightarrow> nat" where
  "store_len s = fcard (fmdom (entries s))"

definition store_is_empty :: "store \<Rightarrow> bool" where
  "store_is_empty s \<longleftrightarrow> entries s = fmempty"

subsection \<open>The definition registry\<close>

definition define_with_meta ::
  "store \<Rightarrow> string \<Rightarrow> value_source \<Rightarrow> ttl \<Rightarrow> value_meta \<Rightarrow> source_meta
   \<Rightarrow> (define_error + unit) \<times> store"
where
  "define_with_meta s k src t vm sm =
     (case validate_key_syntax k of
        Inl e \<Rightarrow> (Inl (DefineInvalidKey e), s)
      | Inr _ \<Rightarrow>
          (case definition_new src t of
             Inl e \<Rightarrow> (Inl e, s)
           | Inr d \<Rightarrow>
               (let candidate = def_with_source_meta (def_with_meta d vm) sm in
                case fmlookup (definitions s) k of
                  Some existing \<Rightarrow> (if existing = candidate then (Inr (), s) else (Inl Conflict, s))
                | None \<Rightarrow> (Inr (), s\<lparr>definitions := fmupd k candidate (definitions s)\<rparr>))))"

definition store_define ::
  "store \<Rightarrow> string \<Rightarrow> value_source \<Rightarrow> ttl \<Rightarrow> (define_error + unit) \<times> store"
where
  "store_define s k src t = define_with_meta s k src t value_meta_new source_meta_new"

definition definition_of :: "store \<Rightarrow> string \<Rightarrow> definition_record option" where
  "definition_of s k = fmlookup (definitions s) k"

definition is_defined :: "store \<Rightarrow> string \<Rightarrow> bool" where
  "is_defined s k \<longleftrightarrow> fmlookup (definitions s) k \<noteq> None"

definition has_value :: "store \<Rightarrow> string \<Rightarrow> bool" where
  "has_value s k \<longleftrightarrow> fmlookup (entries s) k \<noteq> None"

text \<open>\<open>sort_unstable\<close> and \<open>dedup\<close> over the chained key iterators.\<close>

definition known_keys :: "store \<Rightarrow> string list" where
  "known_keys s = remdups_adj (sort (btree_keys (entries s) @ btree_keys (definitions s)))"

definition list_filtered :: "store \<Rightarrow> (store \<Rightarrow> string \<Rightarrow> bool) \<Rightarrow> string list" where
  "list_filtered s pred = filter (\<lambda>k. pred s k) (known_keys s)"

text \<open>The accessors of an \<open>ItemRef\<close>, a key with a borrowed store.\<close>

record item_ref =
  item_key :: string
  item_store :: store

definition item_state :: "item_ref \<Rightarrow> monotonic \<Rightarrow> entry_state option" where
  "item_state r now = map_option (\<lambda>e. state e now) (fmlookup (entries (item_store r)) (item_key r))"

definition item_entry :: "item_ref \<Rightarrow> cache_entry option" where
  "item_entry r = fmlookup (entries (item_store r)) (item_key r)"

definition item_definition :: "item_ref \<Rightarrow> definition_record option" where
  "item_definition r = fmlookup (definitions (item_store r)) (item_key r)"

definition item_failure :: "item_ref \<Rightarrow> failure_record option" where
  "item_failure r = fmlookup (failure_backoffs (item_store r)) (item_key r)"

definition item_failure_remaining :: "item_ref \<Rightarrow> monotonic \<Rightarrow> duration option" where
  "item_failure_remaining r now = failure_backoff_remaining (item_store r) (item_key r) now"

definition item_value_meta :: "item_ref \<Rightarrow> value_meta option" where
  "item_value_meta r = map_option def_meta (fmlookup (definitions (item_store r)) (item_key r))"

definition item_source_meta :: "item_ref \<Rightarrow> source_meta option" where
  "item_source_meta r =
     map_option def_source_meta (fmlookup (definitions (item_store r)) (item_key r))"

subsection \<open>Lazy generation\<close>

datatype regenerate_def_outcome =
  DefUndefined | DefValueResident | DefRunFailed run_error | DefAuthFailed auth_error
| DefBackoff duration | DefCapMismatch

text \<open>Readings: 0 the evaluation, 1 the backoff test, 2 the failure record, 3 the new entry.\<close>

definition get_or_regenerate ::
  "store \<Rightarrow> string \<Rightarrow> source_runner \<Rightarrow> authenticator \<Rightarrow> process_info list option \<Rightarrow> capability
   \<Rightarrow> clock \<Rightarrow> (regenerate_def_outcome + unit) \<times> store \<times> effect list"
where
  "get_or_regenerate s k runner auth requester cap clk =
     (case check_cap s cap of
        Inl _ \<Rightarrow> (Inl DefCapMismatch, s, [])
      | Inr _ \<Rightarrow>
     (case fmlookup (definitions s) k of
        None \<Rightarrow> (Inl DefUndefined, s, [])
      | Some d \<Rightarrow>
     (let (resident, s1) =
            (case fmlookup (entries s) k of
               None \<Rightarrow> (False, s)
             | Some e \<Rightarrow>
                 (let (st, e1) = evaluate e (clk 0) in
                  (st \<noteq> HardExpired, s\<lparr>entries := fmupd k e1 (entries s)\<rparr>)))
      in if resident then (Inl DefValueResident, s1, [])
         else
     (case failure_backoff_remaining s1 k (clk 1) of
        Some remaining \<Rightarrow> (Inl (DefBackoff remaining), s1, [])
      | None \<Rightarrow>
     (case def_source d of
        Static \<Rightarrow> (Inl DefUndefined, s1, [])
      | Command av cw en \<Rightarrow>
          (let ctx = auth_context_for k Regenerate requester in
           case runner av cw en of
             Inl err \<Rightarrow> (Inl (DefRunFailed err), record_failure s1 k (clk 2), [Ran av cw en])
           | Inr val \<Rightarrow>
               (case auth ctx of
                  Inl err \<Rightarrow> (Inl (DefAuthFailed err), s1, [Ran av cw en, Prompted ctx])
                | Inr _ \<Rightarrow>
                    (Inr (), install_fetched s1 k (def_source d) val (def_ttl d) (clk 3),
                     [Ran av cw en, Prompted ctx]))))))))"

definition delete_with_definition ::
  "store \<Rightarrow> string \<Rightarrow> capability \<Rightarrow> (cap_error + bool) \<times> store"
where
  "delete_with_definition s k cap =
     (case check_cap s cap of
        Inl e \<Rightarrow> (Inl e, s)
      | Inr _ \<Rightarrow>
          (Inr (fmlookup (entries s) k \<noteq> None \<or> fmlookup (definitions s) k \<noteq> None),
           s\<lparr>entries := fmdrop k (entries s),
             definitions := fmdrop k (definitions s),
             failure_backoffs := fmdrop k (failure_backoffs s),
             access_guards := fmdrop k (access_guards s),
             versions := fmdrop k (versions s),
             owners := fmdrop k (owners s),
             refresh_claims := fmdrop k (refresh_claims s)\<rparr>))"

definition undefine :: "store \<Rightarrow> string \<Rightarrow> bool \<times> store" where
  "undefine s k =
     (fmlookup (definitions s) k \<noteq> None,
      s\<lparr>access_guards := fmdrop k (access_guards s),
        refresh_claims := fmdrop k (refresh_claims s),
        definitions := fmdrop k (definitions s)\<rparr>)"

subsection \<open>Guards, owners, versions, claims\<close>

definition set_guard ::
  "store \<Rightarrow> string \<Rightarrow> guard_record \<Rightarrow> capability \<Rightarrow> (cap_error + unit) \<times> store"
where
  "set_guard s k g cap =
     (case check_cap s cap of
        Inl e \<Rightarrow> (Inl e, s)
      | Inr _ \<Rightarrow> (Inr (), s\<lparr>access_guards := fmupd k g (access_guards s)\<rparr>))"

definition clear_guard :: "store \<Rightarrow> string \<Rightarrow> capability \<Rightarrow> (cap_error + bool) \<times> store" where
  "clear_guard s k cap =
     (case check_cap s cap of
        Inl e \<Rightarrow> (Inl e, s)
      | Inr _ \<Rightarrow> (Inr (fmlookup (access_guards s) k \<noteq> None),
                  s\<lparr>access_guards := fmdrop k (access_guards s)\<rparr>))"

definition guard_of :: "store \<Rightarrow> string \<Rightarrow> guard_record option" where
  "guard_of s k = fmlookup (access_guards s) k"

definition set_owner ::
  "store \<Rightarrow> string \<Rightarrow> owner_principal \<Rightarrow> capability \<Rightarrow> (cap_error + unit) \<times> store"
where
  "set_owner s k own cap =
     (case check_cap s cap of
        Inl e \<Rightarrow> (Inl e, s)
      | Inr _ \<Rightarrow> (Inr (), s\<lparr>owners := fmupd k own (owners s)\<rparr>))"

definition clear_owner :: "store \<Rightarrow> string \<Rightarrow> capability \<Rightarrow> (cap_error + bool) \<times> store" where
  "clear_owner s k cap =
     (case check_cap s cap of
        Inl e \<Rightarrow> (Inl e, s)
      | Inr _ \<Rightarrow> (Inr (fmlookup (owners s) k \<noteq> None), s\<lparr>owners := fmdrop k (owners s)\<rparr>))"

definition owner_of :: "store \<Rightarrow> string \<Rightarrow> owner_principal option" where
  "owner_of s k = fmlookup (owners s) k"

definition owned_keys :: "store \<Rightarrow> string list" where
  "owned_keys s = btree_keys (owners s)"

definition version_of :: "store \<Rightarrow> string \<Rightarrow> nat" where
  "version_of s k = (case fmlookup (versions s) k of None \<Rightarrow> 0 | Some v \<Rightarrow> v)"

definition bump_version :: "store \<Rightarrow> string \<Rightarrow> capability \<Rightarrow> (cap_error + nat) \<times> store" where
  "bump_version s k cap =
     (case check_cap s cap of
        Inl e \<Rightarrow> (Inl e, s)
      | Inr _ \<Rightarrow>
          (let nxt = u64_saturating_add (version_of s k) 1 in
           (Inr nxt, s\<lparr>versions := fmupd k nxt (versions s)\<rparr>)))"

definition restore_version ::
  "store \<Rightarrow> string \<Rightarrow> nat \<Rightarrow> capability \<Rightarrow> (cap_error + nat) \<times> store"
where
  "restore_version s k v cap =
     (case check_cap s cap of
        Inl e \<Rightarrow> (Inl e, s)
      | Inr _ \<Rightarrow>
          (let installed = max (version_of s k) v in
           (Inr installed,
            if 0 < installed then s\<lparr>versions := fmupd k installed (versions s)\<rparr> else s)))"

definition set_refresh_claim ::
  "store \<Rightarrow> string \<Rightarrow> refresh_claim \<Rightarrow> capability \<Rightarrow> (cap_error + unit) \<times> store"
where
  "set_refresh_claim s k c cap =
     (case check_cap s cap of
        Inl e \<Rightarrow> (Inl e, s)
      | Inr _ \<Rightarrow> (Inr (), s\<lparr>refresh_claims := fmupd k c (refresh_claims s)\<rparr>))"

definition refresh_claim_of :: "store \<Rightarrow> string \<Rightarrow> refresh_claim option" where
  "refresh_claim_of s k = fmlookup (refresh_claims s) k"

definition clear_refresh_claim ::
  "store \<Rightarrow> string \<Rightarrow> capability \<Rightarrow> (cap_error + bool) \<times> store"
where
  "clear_refresh_claim s k cap =
     (case check_cap s cap of
        Inl e \<Rightarrow> (Inl e, s)
      | Inr _ \<Rightarrow> (Inr (fmlookup (refresh_claims s) k \<noteq> None),
                  s\<lparr>refresh_claims := fmdrop k (refresh_claims s)\<rparr>))"


subsection \<open>The contracts the operations meet\<close>

lemma authorized_token: "access_token s' = access_token s \<Longrightarrow> authorized s' c = authorized s c"
  by (simp add: authorized_def)

lemma record_failure_frame [simp]:
  "access_token (record_failure s k now) = access_token s"
  "entries (record_failure s k now) = entries s"
  "definitions (record_failure s k now) = definitions s"
  "access_guards (record_failure s k now) = access_guards s"
  "owners (record_failure s k now) = owners s"
  "versions (record_failure s k now) = versions s"
  "refresh_claims (record_failure s k now) = refresh_claims s"
  "failure_backoff_duration (record_failure s k now) = failure_backoff_duration s"
  by (simp_all add: record_failure_def)

lemma install_fetched_frame [simp]:
  "access_token (install_fetched s k src v t now) = access_token s"
  "definitions (install_fetched s k src v t now) = definitions s"
  "owners (install_fetched s k src v t now) = owners s"
  "versions (install_fetched s k src v t now) = versions s"
  "failure_backoff_duration (install_fetched s k src v t now) = failure_backoff_duration s"
  by (simp_all add: install_fetched_def)

lemmas store_op_defs =
  store_set_def store_get_def store_state_of_def store_extend_def extend_authenticated_def
  store_regenerate_def pin_authenticated_def store_unpin_def store_delete_def
  define_with_meta_def get_or_regenerate_def delete_with_definition_def undefine_def
  set_guard_def clear_guard_def set_owner_def clear_owner_def bump_version_def
  restore_version_def set_refresh_claim_def clear_refresh_claim_def

lemmas op_splits =
  sum.splits option.splits prod.splits entry_state.splits value_source.splits if_splits

interpretation set_gate: gated authorized "\<lambda>s c. quiet (store_set s k src v t c now)"
  SetCapMismatch for k src v t now
  by unfold_locales (auto simp: store_set_def authorized_def check_cap_def split: op_splits)

interpretation get_gate: gated authorized "\<lambda>s c. quiet (store_get s k c now)" KeyMismatch
  for k now
  by unfold_locales (auto simp: store_get_def authorized_def check_cap_def split: op_splits)

interpretation extend_gate: gated authorized "\<lambda>s c. quiet (store_extend s k c clk)"
  ExtCapMismatch for k clk
  by unfold_locales (auto simp: store_extend_def authorized_def check_cap_def split: op_splits)

interpretation extend_auth_gate: gated authorized
  "\<lambda>s c. extend_authenticated s k auth requester c clk" ExtAuthCapMismatch
  for k auth requester clk
  by unfold_locales
    (auto simp: extend_authenticated_def authorized_def check_cap_def Let_def split: op_splits)

interpretation regenerate_gate: gated authorized
  "\<lambda>s c. store_regenerate s k runner auth requester c clk" RegenCapMismatch
  for k runner auth requester clk
  by unfold_locales
    (auto simp: store_regenerate_def authorized_def check_cap_def Let_def split: op_splits)

interpretation pin_gate: gated authorized
  "\<lambda>s c. pin_authenticated s k dl auth requester c clk" PinCapMismatch
  for k dl auth requester clk
  by unfold_locales
    (auto simp: pin_authenticated_def authorized_def check_cap_def Let_def split: op_splits)

interpretation unpin_gate: gated authorized "\<lambda>s c. quiet (store_unpin s k c)" KeyMismatch for k
  by unfold_locales (auto simp: store_unpin_def authorized_def check_cap_def split: op_splits)

interpretation delete_gate: gated authorized "\<lambda>s c. quiet (store_delete s k c)" KeyMismatch for k
  by unfold_locales (auto simp: store_delete_def authorized_def check_cap_def split: op_splits)

interpretation get_or_regenerate_gate: gated authorized
  "\<lambda>s c. get_or_regenerate s k runner auth requester c clk" DefCapMismatch
  for k runner auth requester clk
  by unfold_locales
    (auto simp: get_or_regenerate_def authorized_def check_cap_def Let_def split: op_splits)

interpretation delete_with_definition_gate: gated authorized
  "\<lambda>s c. quiet (delete_with_definition s k c)" KeyMismatch for k
  by unfold_locales
    (auto simp: delete_with_definition_def authorized_def check_cap_def split: op_splits)

interpretation guard_table: side_table authorized guard_of set_guard clear_guard
  "\<lambda>s. s\<lparr>access_guards := fmempty\<rparr>" KeyMismatch
  by unfold_locales
    (auto simp: guard_of_def set_guard_def clear_guard_def authorized_def check_cap_def fun_eq_iff)

interpretation owner_table: side_table authorized owner_of set_owner clear_owner
  "\<lambda>s. s\<lparr>owners := fmempty\<rparr>" KeyMismatch
  by unfold_locales
    (auto simp: owner_of_def set_owner_def clear_owner_def authorized_def check_cap_def fun_eq_iff)

interpretation claim_table: side_table authorized refresh_claim_of set_refresh_claim
  clear_refresh_claim "\<lambda>s. s\<lparr>refresh_claims := fmempty\<rparr>" KeyMismatch
  by unfold_locales
    (auto simp: refresh_claim_of_def set_refresh_claim_def clear_refresh_claim_def authorized_def
      check_cap_def fun_eq_iff)

interpretation version_counter: forward_counter authorized version_of bump_version
  restore_version u64_max
  by unfold_locales
    (auto simp: version_of_def bump_version_def restore_version_def authorized_def check_cap_def
      u64_saturating_add_def fun_eq_iff Let_def max_def split: option.splits)

interpretation bump_gate: gated authorized "\<lambda>s c. quiet (bump_version s k c)" KeyMismatch for k
  by unfold_locales (auto simp: bump_version_def authorized_def check_cap_def Let_def)

interpretation restore_gate: gated authorized "\<lambda>s c. quiet (restore_version s k v c)" KeyMismatch
  for k v
  by unfold_locales (auto simp: restore_version_def authorized_def check_cap_def Let_def)

end
