(* ===== verification/Store_Inv.thy ===== *)
theory Store_Inv
  imports Store
begin

text \<open>
  The invariant of a store at an instant, one preservation lemma per operation, and the frame of
  each operation: what a call on one key leaves unchanged at the others.
\<close>

subsection \<open>The invariant\<close>

definition entry_inv :: "monotonic \<Rightarrow> string \<Rightarrow> cache_entry \<Rightarrow> bool" where
  "entry_inv t k e \<longleftrightarrow> valid_key k \<and> entry_ok e \<and> extended_at e \<le> t"

definition store_inv :: "monotonic \<Rightarrow> store \<Rightarrow> bool" where
  "store_inv t s \<longleftrightarrow>
     fmpred (entry_inv t) (entries s)
     \<and> fmpred (\<lambda>k d. valid_key k \<and> definition_ok d) (definitions s)
     \<and> fmpred (\<lambda>k r. valid_key k) (failure_backoffs s)
     \<and> fmpred (\<lambda>k v. 0 < v \<and> v \<le> u64_max) (versions s)"

lemma entry_inv_mono: "entry_inv t k e \<Longrightarrow> t \<le> t' \<Longrightarrow> entry_inv t' k e"
  unfolding entry_inv_def using order.trans by blast

lemma store_inv_mono: "store_inv t s \<Longrightarrow> t \<le> t' \<Longrightarrow> store_inv t' s"
  unfolding store_inv_def fmpred_iff using entry_inv_mono by blast

lemma store_inv_new: "store_inv t (new_with_token tok d)"
  by (simp add: store_inv_def new_with_token_def)

lemma store_inv_entry: "store_inv t s \<Longrightarrow> fmlookup (entries s) k = Some e \<Longrightarrow> entry_inv t k e"
  by (auto simp: store_inv_def dest: fmpredD)

lemma store_inv_definition:
  "store_inv t s \<Longrightarrow> fmlookup (definitions s) k = Some d \<Longrightarrow> valid_key k \<and> definition_ok d"
  by (auto simp: store_inv_def dest: fmpredD)

lemma store_inv_put_entry:
  "store_inv t s \<Longrightarrow> entry_inv t k e \<Longrightarrow> store_inv t (s\<lparr>entries := fmupd k e (entries s)\<rparr>)"
  by (simp add: store_inv_def fmpred_upd)

lemma store_inv_record_failure:
  "store_inv t s \<Longrightarrow> valid_key k \<Longrightarrow> store_inv t (record_failure s k now)"
  by (simp add: store_inv_def record_failure_def fmpred_upd)

lemma entry_inv_new: "valid_key k \<Longrightarrow> ttl_ok tt \<Longrightarrow> now \<le> t \<Longrightarrow> entry_inv t k (entry_new src v tt now)"
  by (simp add: entry_inv_def entry_ok_new) (simp add: entry_new_def)

lemma store_inv_install:
  "store_inv t s \<Longrightarrow> valid_key k \<Longrightarrow> ttl_ok tt \<Longrightarrow> now \<le> t \<Longrightarrow>
   store_inv t (install_fetched s k src v tt now)"
  by (simp add: store_inv_def install_fetched_def fmpred_upd fmpred_drop entry_inv_new)

lemma entry_inv_evaluate: "entry_inv t k e \<Longrightarrow> entry_inv t k (snd (evaluate e now))"
  by (auto simp: entry_inv_def entry_ok_evaluate)
    (simp add: evaluate_def zeroize_value_def Let_def)

lemma entry_inv_get: "entry_inv t k e \<Longrightarrow> entry_inv t k (snd (entry_get e now))"
  by (simp add: entry_inv_evaluate)

lemma entry_inv_extend:
  assumes "entry_inv t0 k e" and "t0 \<le> clk 1" and "clk 1 \<le> t"
  shows "entry_inv t k (snd (entry_extend e clk))"
proof -
  have "loaded_at e \<le> clk 1" and "extended_at e \<le> t"
    using assms by (auto simp: entry_inv_def entry_ok_def intro: order.trans)
  with assms show ?thesis
    by (auto simp: entry_inv_def entry_ok_def entry_extend_def evaluate_def Let_def
        zeroize_value_def split: entry_state.splits if_splits)
qed

lemma entry_inv_pin: "entry_inv t k e \<Longrightarrow> entry_inv t k (snd (entry_pin_until e d now))"
  by (auto simp: entry_inv_def entry_ok_pin_until)
    (auto simp: entry_pin_until_def evaluate_def Let_def zeroize_value_def
      split: entry_state.splits if_splits)

lemma entry_inv_unpin: "entry_inv t k e \<Longrightarrow> entry_inv t k (entry_unpin e)"
  by (simp add: entry_inv_def entry_ok_unpin) (simp add: entry_unpin_def)

lemmas entry_inv_intros =
  entry_inv_evaluate entry_inv_get entry_inv_extend entry_inv_pin entry_inv_unpin

subsection \<open>The shape of the operations\<close>

text \<open>\<open>entries.get_mut(key)\<close> followed by an operation of the entry.\<close>

definition upd_entry :: "store \<Rightarrow> string \<Rightarrow> (cache_entry \<Rightarrow> cache_entry) \<Rightarrow> store" where
  "upd_entry s k f =
     (case fmlookup (entries s) k of
        None \<Rightarrow> s
      | Some e \<Rightarrow> s\<lparr>entries := fmupd k (f e) (entries s)\<rparr>)"

lemma fmupd_same [simp]: "fmlookup m k = Some v \<Longrightarrow> fmupd k v m = m"
  by (rule fmap_ext) auto

lemma upd_entry_same: "(\<And>e. fmlookup (entries s) k = Some e \<Longrightarrow> f e = e) \<Longrightarrow> upd_entry s k f = s"
  by (auto simp: upd_entry_def split: option.splits)

lemma upd_entry_frame [simp]:
  "access_token (upd_entry s k f) = access_token s"
  "definitions (upd_entry s k f) = definitions s"
  "failure_backoffs (upd_entry s k f) = failure_backoffs s"
  "access_guards (upd_entry s k f) = access_guards s"
  "owners (upd_entry s k f) = owners s"
  "versions (upd_entry s k f) = versions s"
  "refresh_claims (upd_entry s k f) = refresh_claims s"
  "failure_backoff_duration (upd_entry s k f) = failure_backoff_duration s"
  by (simp_all add: upd_entry_def split: option.split)

lemma upd_entry_lookup [simp]:
  "fmlookup (entries (upd_entry s k f)) k' =
     (if k' = k then map_option f (fmlookup (entries s) k) else fmlookup (entries s) k')"
  by (simp add: upd_entry_def split: option.split)

lemma store_get_snd:
  "snd (store_get s k cap now) =
     (if authorized s cap then upd_entry s k (\<lambda>e. snd (evaluate e now)) else s)"
  by (auto simp: store_get_def upd_entry_def Let_def split: option.splits prod.splits)
    (metis entry_get_snd snd_conv)

lemma store_state_of_snd:
  "snd (store_state_of s k now) = upd_entry s k (\<lambda>e. snd (evaluate e now))"
  by (auto simp: store_state_of_def upd_entry_def Let_def split: option.splits prod.splits)

lemma store_extend_snd:
  "snd (store_extend s k cap clk) =
     (if authorized s cap then upd_entry s k (\<lambda>e. snd (entry_extend e clk)) else s)"
  by (auto simp: store_extend_def upd_entry_def Let_def split: option.splits prod.splits)

definition extend_auth_entry :: "(auth_error + unit) \<Rightarrow> clock \<Rightarrow> cache_entry \<Rightarrow> cache_entry" where
  "extend_auth_entry verdict clk e =
     (let e1 = snd (evaluate e (clk 0)) in
      case state e (clk 0) of
        Active \<Rightarrow> snd (entry_extend e1 (\<lambda>i. clk (Suc i)))
      | SoftExpired \<Rightarrow>
          (if verdict = Inr () then snd (entry_extend e1 (\<lambda>i. clk (Suc i))) else e1)
      | HardExpired \<Rightarrow> e1)"

lemma extend_authenticated_snd:
  "fst (snd (extend_authenticated s k auth requester cap clk)) =
     (if authorized s cap
      then upd_entry s k (extend_auth_entry (auth (auth_context_for k Extend requester)) clk)
      else s)"
  by (auto simp: extend_authenticated_def upd_entry_def extend_auth_entry_def evaluate_def Let_def
      split: option.splits prod.splits entry_state.splits sum.splits)

lemma pin_authenticated_snd:
  "fst (snd (pin_authenticated s k dl auth requester cap clk)) =
     (if authorized s cap
      then upd_entry s k (\<lambda>e.
             if state e (clk 0) = HardExpired
                \<or> auth (auth_context_for k Pin requester) \<noteq> Inr () then e
             else snd (entry_pin_until e dl (clk 1)))
      else s)"
  by (auto simp: pin_authenticated_def upd_entry_def Let_def
      split: option.splits prod.splits sum.splits)

lemma store_unpin_snd:
  "snd (store_unpin s k cap) = (if authorized s cap then upd_entry s k entry_unpin else s)"
  by (auto simp: store_unpin_def upd_entry_def split: option.splits)

text \<open>The store and the effects of the two regenerating methods, by how far they get.\<close>

definition fetch_outcome ::
  "store \<Rightarrow> string \<Rightarrow> value_source \<Rightarrow> ttl \<Rightarrow> source_runner \<Rightarrow> authenticator
   \<Rightarrow> process_info list option \<Rightarrow> monotonic \<Rightarrow> monotonic \<Rightarrow> bool \<times> store \<times> effect list"
where
  "fetch_outcome s k src t runner auth requester tf ti =
     (let ctx = auth_context_for k Regenerate requester;
          ran = Ran (argv src) (cwd src) (env src)
      in case runner (argv src) (cwd src) (env src) of
           Inl err \<Rightarrow> (False, record_failure s k tf, [ran])
         | Inr v \<Rightarrow>
             (if auth ctx = Inr () then (True, install_fetched s k src v t ti, [ran, Prompted ctx])
              else (False, s, [ran, Prompted ctx])))"

definition brief :: "('e + 'r) \<times> store \<times> effect list \<Rightarrow> bool \<times> store \<times> effect list" where
  "brief r = (\<not> isl (fst r), snd r)"

lemma brief_simps [simp]: "brief (Inl e, r) = (False, r)" "brief (Inr x, r) = (True, r)"
  by (simp_all add: brief_def)

lemma extend_authenticated_brief:
  "brief (extend_authenticated s k auth requester cap clk) =
     (if authorized s cap then
        (case fmlookup (entries s) k of
           None \<Rightarrow> (False, s, [])
         | Some e \<Rightarrow>
             (let ctx = auth_context_for k Extend requester;
                  e1 = snd (evaluate e (clk 0));
                  fine = (\<not> isl (fst (entry_extend e1 (\<lambda>i. clk (Suc i)))));
                  s' = upd_entry s k (extend_auth_entry (auth ctx) clk)
              in case state e (clk 0) of
                   Active \<Rightarrow> (fine, s', [])
                 | SoftExpired \<Rightarrow> (auth ctx = Inr () \<and> fine, s', [Prompted ctx])
                 | HardExpired \<Rightarrow> (False, s', [])))
      else (False, s, []))"
  by (auto simp: extend_authenticated_def upd_entry_def extend_auth_entry_def evaluate_def Let_def
      brief_def map_err_def split: option.splits prod.splits entry_state.splits sum.splits)

lemma pin_authenticated_brief:
  "brief (pin_authenticated s k dl auth requester cap clk) =
     (if authorized s cap then
        (case fmlookup (entries s) k of
           None \<Rightarrow> (False, s, [])
         | Some e \<Rightarrow>
             (let ctx = auth_context_for k Pin requester in
              if state e (clk 0) = HardExpired then (False, s, [])
              else if auth ctx \<noteq> Inr () then (False, s, [Prompted ctx])
              else (\<not> isl (fst (entry_pin_until e dl (clk 1))),
                    upd_entry s k (\<lambda>e. snd (entry_pin_until e dl (clk 1))), [Prompted ctx])))
      else (False, s, []))"
  by (auto simp: pin_authenticated_def upd_entry_def Let_def brief_def map_err_def
      split: option.splits prod.splits sum.splits)

lemma store_regenerate_brief:
  "brief (store_regenerate s k runner auth requester cap clk) =
     (if authorized s cap \<and> failure_backoff_remaining s k (clk 0) = None then
        (case fmlookup (entries s) k of
           None \<Rightarrow> (False, s, [])
         | Some e \<Rightarrow>
             (if \<not> is_regenerable (entry_source e) then (False, s, [])
              else (let s1 = upd_entry s k (\<lambda>e. snd (evaluate e (clk 1))) in
                    if state e (clk 1) \<noteq> HardExpired then (False, s1, [])
                    else fetch_outcome s1 k (entry_source e) (entry_ttl e) runner auth requester
                           (clk 2) (clk 3))))
      else (False, s, []))"
  by (auto simp: store_regenerate_def upd_entry_def fetch_outcome_def evaluate_def Let_def
      split: option.splits value_source.splits sum.splits)

lemma get_or_regenerate_brief:
  "brief (get_or_regenerate s k runner auth requester cap clk) =
     (if authorized s cap then
        (case fmlookup (definitions s) k of
           None \<Rightarrow> (False, s, [])
         | Some d \<Rightarrow>
             (let s1 = upd_entry s k (\<lambda>e. snd (evaluate e (clk 0))) in
              if (case fmlookup (entries s) k of None \<Rightarrow> False
                  | Some e \<Rightarrow> state e (clk 0) \<noteq> HardExpired) then (False, s1, [])
              else if failure_backoff_remaining s k (clk 1) \<noteq> None then (False, s1, [])
              else if \<not> is_regenerable (def_source d) then (False, s1, [])
              else fetch_outcome s1 k (def_source d) (def_ttl d) runner auth requester
                     (clk 2) (clk 3)))
      else (False, s, []))"
  by (auto simp: get_or_regenerate_def upd_entry_def fetch_outcome_def evaluate_def Let_def
      failure_backoff_remaining_def
      split: option.splits value_source.splits sum.splits)


subsection \<open>Preservation, one operation at a time\<close>

lemma store_inv_upd_entry:
  assumes "store_inv t0 s" and "t0 \<le> t"
    and "\<And>e. entry_inv t0 k e \<Longrightarrow> entry_inv t k (f e)"
  shows "store_inv t (upd_entry s k f)"
proof -
  have s: "store_inv t s" by (rule store_inv_mono [OF assms(1, 2)])
  show ?thesis
  proof (cases "fmlookup (entries s) k")
    case None
    with s show ?thesis by (simp add: upd_entry_def)
  next
    case (Some e)
    with store_inv_put_entry [OF s assms(3) [OF store_inv_entry [OF assms(1) Some]]]
    show ?thesis by (simp add: upd_entry_def)
  qed
qed

lemma store_inv_evaluated: "store_inv t s \<Longrightarrow> store_inv t (upd_entry s k (\<lambda>e. snd (evaluate e now)))"
  by (rule store_inv_upd_entry) (auto intro: entry_inv_evaluate)

lemma store_set_inv:
  "store_inv t s \<Longrightarrow> ttl_ok tt \<Longrightarrow> now \<le> t \<Longrightarrow> store_inv t (snd (store_set s k src v tt cap now))"
  by (auto simp: store_set_def validate_key_syntax_cases entry_inv_new
      split: sum.splits if_splits intro!: store_inv_put_entry)

lemma store_get_inv: "store_inv t s \<Longrightarrow> store_inv t (snd (store_get s k cap now))"
  by (simp add: store_get_snd store_inv_evaluated)

lemma store_state_of_inv: "store_inv t s \<Longrightarrow> store_inv t (snd (store_state_of s k now))"
  by (simp add: store_state_of_snd store_inv_evaluated)

lemma store_extend_inv:
  assumes "store_inv t0 s" and "t0 \<le> t" and "t0 \<le> clk 1" and "clk 1 \<le> t"
  shows "store_inv t (snd (store_extend s k cap clk))"
proof -
  have "store_inv t (upd_entry s k (\<lambda>e. snd (entry_extend e clk)))"
    by (rule store_inv_upd_entry [OF assms(1, 2)])
      (rule entry_inv_extend [where clk = clk, OF _ assms(3, 4)])
  with store_inv_mono [OF assms(1, 2)] show ?thesis by (simp add: store_extend_snd)
qed

lemma entry_inv_extend_auth:
  assumes e: "entry_inv t0 k e" and t: "t0 \<le> t" and c: "t0 \<le> clk 2" "clk 2 \<le> t"
  shows "entry_inv t k (extend_auth_entry verdict clk e)"
proof -
  let ?e = "snd (evaluate e (clk 0))"
  have "entry_inv t0 k ?e" by (rule entry_inv_evaluate [OF e])
  moreover have "entry_inv t k (snd (entry_extend ?e (\<lambda>i. clk (Suc i))))"
    using entry_inv_extend [OF calculation, of "\<lambda>i. clk (Suc i)" t] c
    by (simp add: numeral_2_eq_2)
  ultimately show ?thesis
    using entry_inv_mono [OF _ t]
    by (auto simp: extend_auth_entry_def Let_def split: entry_state.splits)
qed

lemma extend_authenticated_inv:
  assumes "store_inv t0 s" and "t0 \<le> t" and "t0 \<le> clk 2" and "clk 2 \<le> t"
  shows "store_inv t (fst (snd (extend_authenticated s k auth requester cap clk)))"
proof -
  have "store_inv t (upd_entry s k (extend_auth_entry verdict clk))" for verdict
    by (rule store_inv_upd_entry [OF assms(1, 2)])
      (rule entry_inv_extend_auth [where clk = clk, OF _ assms(2-4)])
  with store_inv_mono [OF assms(1, 2)] show ?thesis by (simp add: extend_authenticated_snd)
qed

lemma pin_authenticated_inv:
  "store_inv t s \<Longrightarrow> store_inv t (fst (snd (pin_authenticated s k dl auth requester cap clk)))"
  by (auto simp: pin_authenticated_snd intro!: store_inv_upd_entry [where t0 = t] entry_inv_pin)

lemma store_unpin_inv: "store_inv t s \<Longrightarrow> store_inv t (snd (store_unpin s k cap))"
  by (auto simp: store_unpin_snd intro!: store_inv_upd_entry [where t0 = t] entry_inv_unpin)

lemma fetch_outcome_inv:
  "store_inv t s \<Longrightarrow> valid_key k \<Longrightarrow> ttl_ok tt \<Longrightarrow> ti \<le> t \<Longrightarrow>
   store_inv t (fst (snd (fetch_outcome s k src tt runner auth requester tf ti)))"
  by (auto simp: fetch_outcome_def Let_def store_inv_record_failure store_inv_install
      split: sum.splits)

lemma fst_snd_brief: "fst (snd (brief r)) = fst (snd r)"
  by (simp add: brief_def)

lemma store_regenerate_inv:
  assumes "store_inv t s" and "clk 3 \<le> t"
  shows "store_inv t (fst (snd (store_regenerate s k runner auth requester cap clk)))"
proof -
  have "entry_inv t k e" if "fmlookup (entries s) k = Some e" for e
    using assms(1) that by (rule store_inv_entry)
  then show ?thesis
    unfolding fst_snd_brief [symmetric] store_regenerate_brief
    using assms
    by (auto simp: Let_def entry_inv_def entry_ok_def split: option.splits
        intro!: fetch_outcome_inv store_inv_evaluated)
qed

lemma get_or_regenerate_inv:
  assumes "store_inv t s" and "clk 3 \<le> t"
  shows "store_inv t (fst (snd (get_or_regenerate s k runner auth requester cap clk)))"
proof -
  have "valid_key k \<and> definition_ok d" if "fmlookup (definitions s) k = Some d" for d
    using assms(1) that by (rule store_inv_definition)
  then show ?thesis
    unfolding fst_snd_brief [symmetric] get_or_regenerate_brief
    using assms
    by (auto simp: Let_def definition_ok_def split: option.splits
        intro!: fetch_outcome_inv store_inv_evaluated)
qed

lemma store_delete_inv: "store_inv t s \<Longrightarrow> store_inv t (snd (store_delete s k cap))"
  by (auto simp: store_delete_def store_inv_def fmpred_drop split: sum.splits)

lemma define_with_meta_inv:
  "store_inv t s \<Longrightarrow> ttl_ok tt \<Longrightarrow> store_inv t (snd (define_with_meta s k src tt vm sm))"
  by (auto simp: define_with_meta_def validate_key_syntax_cases definition_new_cases store_inv_def
      def_with_meta_def def_with_source_meta_def definition_ok_def Let_def fmpred_upd
      split: sum.splits option.splits if_splits)

lemma delete_with_definition_inv:
  "store_inv t s \<Longrightarrow> store_inv t (snd (delete_with_definition s k cap))"
  by (auto simp: delete_with_definition_def store_inv_def fmpred_drop split: sum.splits)

lemma undefine_inv: "store_inv t s \<Longrightarrow> store_inv t (snd (undefine s k))"
  by (simp add: undefine_def store_inv_def fmpred_drop)

lemma bump_version_inv: "store_inv t s \<Longrightarrow> store_inv t (snd (bump_version s k cap))"
  by (auto simp: bump_version_def store_inv_def Let_def fmpred_upd u64_saturating_add_def
      u64_max_def split: sum.splits)

lemma restore_version_inv:
  assumes "store_inv t s" and "v \<le> u64_max"
  shows "store_inv t (snd (restore_version s k v cap))"
proof -
  have "version_of s k \<le> u64_max"
    using assms(1) by (auto simp: version_of_def store_inv_def split: option.splits dest: fmpredD)
  with assms show ?thesis
    by (auto simp: restore_version_def store_inv_def Let_def fmpred_upd split: sum.splits)
qed

lemma side_table_inv:
  assumes "store_inv t s"
  shows "store_inv t (snd (set_guard s k g cap))" and "store_inv t (snd (clear_guard s k cap))"
    and "store_inv t (snd (set_owner s k own cap))" and "store_inv t (snd (clear_owner s k cap))"
    and "store_inv t (snd (set_refresh_claim s k c cap))"
    and "store_inv t (snd (clear_refresh_claim s k cap))"
  using assms
  by (auto simp: store_inv_def set_guard_def clear_guard_def set_owner_def clear_owner_def
      set_refresh_claim_def clear_refresh_claim_def split: sum.splits)

lemmas store_op_invs =
  store_set_inv store_get_inv store_state_of_inv store_extend_inv extend_authenticated_inv
  pin_authenticated_inv store_unpin_inv store_regenerate_inv get_or_regenerate_inv
  store_delete_inv define_with_meta_inv delete_with_definition_inv undefine_inv
  bump_version_inv restore_version_inv side_table_inv

end
