(* ===== verification/Store_Calls.thy ===== *)
theory Store_Calls
  imports Store_Inv
begin

text \<open>
  The store's mutating interface as one type of calls, so that what holds of every operation is
  stated once: the capability gate, the frame, what a failed call leaves behind, who may change an
  owner, a version or a guard, and what it takes for a value to become readable.
\<close>

subsection \<open>Calls\<close>

datatype call =
  CSet string value_source secret_bytes ttl capability
| CGet string capability
| CStateOf string
| CExtend string capability
| CExtendAuth string authenticator "process_info list option" capability
| CRegenerate string source_runner authenticator "process_info list option" capability
| CGetOrRegenerate string source_runner authenticator "process_info list option" capability
| CPin string monotonic authenticator "process_info list option" capability
| CUnpin string capability
| CDelete string capability
| CDefine string value_source ttl value_meta source_meta
| CDeleteWithDefinition string capability
| CUndefine string
| CSetGuard string guard_record capability
| CClearGuard string capability
| CSetOwner string owner_principal capability
| CClearOwner string capability
| CBumpVersion string capability
| CRestoreVersion string nat capability
| CSetClaim string refresh_claim capability
| CClearClaim string capability

fun call_key :: "call \<Rightarrow> string" where
  "call_key (CSet k _ _ _ _) = k"
| "call_key (CGet k _) = k"
| "call_key (CStateOf k) = k"
| "call_key (CExtend k _) = k"
| "call_key (CExtendAuth k _ _ _) = k"
| "call_key (CRegenerate k _ _ _ _) = k"
| "call_key (CGetOrRegenerate k _ _ _ _) = k"
| "call_key (CPin k _ _ _ _) = k"
| "call_key (CUnpin k _) = k"
| "call_key (CDelete k _) = k"
| "call_key (CDefine k _ _ _ _) = k"
| "call_key (CDeleteWithDefinition k _) = k"
| "call_key (CUndefine k) = k"
| "call_key (CSetGuard k _ _) = k"
| "call_key (CClearGuard k _) = k"
| "call_key (CSetOwner k _ _) = k"
| "call_key (CClearOwner k _) = k"
| "call_key (CBumpVersion k _) = k"
| "call_key (CRestoreVersion k _ _) = k"
| "call_key (CSetClaim k _ _) = k"
| "call_key (CClearClaim k _) = k"

text \<open>The capability a call presents; the three value-free calls present none.\<close>

fun call_cap :: "call \<Rightarrow> capability option" where
  "call_cap (CSet _ _ _ _ cap) = Some cap"
| "call_cap (CGet _ cap) = Some cap"
| "call_cap (CStateOf _) = None"
| "call_cap (CExtend _ cap) = Some cap"
| "call_cap (CExtendAuth _ _ _ cap) = Some cap"
| "call_cap (CRegenerate _ _ _ _ cap) = Some cap"
| "call_cap (CGetOrRegenerate _ _ _ _ cap) = Some cap"
| "call_cap (CPin _ _ _ _ cap) = Some cap"
| "call_cap (CUnpin _ cap) = Some cap"
| "call_cap (CDelete _ cap) = Some cap"
| "call_cap (CDefine _ _ _ _ _) = None"
| "call_cap (CDeleteWithDefinition _ cap) = Some cap"
| "call_cap (CUndefine _) = None"
| "call_cap (CSetGuard _ _ cap) = Some cap"
| "call_cap (CClearGuard _ cap) = Some cap"
| "call_cap (CSetOwner _ _ cap) = Some cap"
| "call_cap (CClearOwner _ cap) = Some cap"
| "call_cap (CBumpVersion _ cap) = Some cap"
| "call_cap (CRestoreVersion _ _ cap) = Some cap"
| "call_cap (CSetClaim _ _ cap) = Some cap"
| "call_cap (CClearClaim _ cap) = Some cap"

text \<open>What the types of the arguments guarantee: a \<open>Ttl\<close> is well formed, a version is a \<open>u64\<close>.\<close>

fun call_ok :: "call \<Rightarrow> bool" where
  "call_ok (CSet _ _ _ t _) = ttl_ok t"
| "call_ok (CDefine _ _ t _ _) = ttl_ok t"
| "call_ok (CRestoreVersion _ v _) = (v \<le> u64_max)"
| "call_ok _ = True"

text \<open>Whether the call succeeded, the store after it, and what it did.\<close>

fun perform :: "store \<Rightarrow> clock \<Rightarrow> call \<Rightarrow> bool \<times> store \<times> effect list" where
  "perform s clk (CSet k src v t cap) = brief (quiet (store_set s k src v t cap (clk 0)))"
| "perform s clk (CGet k cap) = brief (quiet (store_get s k cap (clk 0)))"
| "perform s clk (CStateOf k) = (True, snd (store_state_of s k (clk 0)), [])"
| "perform s clk (CExtend k cap) = brief (quiet (store_extend s k cap clk))"
| "perform s clk (CExtendAuth k auth r cap) = brief (extend_authenticated s k auth r cap clk)"
| "perform s clk (CRegenerate k run auth r cap) = brief (store_regenerate s k run auth r cap clk)"
| "perform s clk (CGetOrRegenerate k run auth r cap) =
     brief (get_or_regenerate s k run auth r cap clk)"
| "perform s clk (CPin k dl auth r cap) = brief (pin_authenticated s k dl auth r cap clk)"
| "perform s clk (CUnpin k cap) = brief (quiet (store_unpin s k cap))"
| "perform s clk (CDelete k cap) = brief (quiet (store_delete s k cap))"
| "perform s clk (CDefine k src t vm sm) = brief (quiet (define_with_meta s k src t vm sm))"
| "perform s clk (CDeleteWithDefinition k cap) = brief (quiet (delete_with_definition s k cap))"
| "perform s clk (CUndefine k) = (True, snd (undefine s k), [])"
| "perform s clk (CSetGuard k g cap) = brief (quiet (set_guard s k g cap))"
| "perform s clk (CClearGuard k cap) = brief (quiet (clear_guard s k cap))"
| "perform s clk (CSetOwner k own cap) = brief (quiet (set_owner s k own cap))"
| "perform s clk (CClearOwner k cap) = brief (quiet (clear_owner s k cap))"
| "perform s clk (CBumpVersion k cap) = brief (quiet (bump_version s k cap))"
| "perform s clk (CRestoreVersion k v cap) = brief (quiet (restore_version s k v cap))"
| "perform s clk (CSetClaim k c cap) = brief (quiet (set_refresh_claim s k c cap))"
| "perform s clk (CClearClaim k cap) = brief (quiet (clear_refresh_claim s k cap))"

abbreviation after :: "store \<Rightarrow> clock \<Rightarrow> call \<Rightarrow> store" where
  "after s clk c \<equiv> fst (snd (perform s clk c))"

abbreviation effects :: "store \<Rightarrow> clock \<Rightarrow> call \<Rightarrow> effect list" where
  "effects s clk c \<equiv> snd (snd (perform s clk c))"

lemma brief_quiet [simp]: "brief (quiet r) = (\<not> isl (fst r), snd r, [])"
  by (simp add: brief_def quiet_def)

subsection \<open>The gate\<close>

lemma unauthorized_eq:
  assumes "\<not> authorized s cap"
  shows "store_set s k src v t cap now = (Inl SetCapMismatch, s)"
    and "store_get s k cap now = (Inl KeyMismatch, s)"
    and "store_extend s k cap clk = (Inl ExtCapMismatch, s)"
    and "extend_authenticated s k auth r cap clk = (Inl ExtAuthCapMismatch, s, [])"
    and "store_regenerate s k run auth r cap clk = (Inl RegenCapMismatch, s, [])"
    and "get_or_regenerate s k run auth r cap clk = (Inl DefCapMismatch, s, [])"
    and "pin_authenticated s k dl auth r cap clk = (Inl PinCapMismatch, s, [])"
    and "store_unpin s k cap = (Inl KeyMismatch, s)"
    and "store_delete s k cap = (Inl KeyMismatch, s)"
    and "delete_with_definition s k cap = (Inl KeyMismatch, s)"
    and "set_guard s k g cap = (Inl KeyMismatch, s)"
    and "clear_guard s k cap = (Inl KeyMismatch, s)"
    and "set_owner s k own cap = (Inl KeyMismatch, s)"
    and "clear_owner s k cap = (Inl KeyMismatch, s)"
    and "bump_version s k cap = (Inl KeyMismatch, s)"
    and "restore_version s k n cap = (Inl KeyMismatch, s)"
    and "set_refresh_claim s k c cap = (Inl KeyMismatch, s)"
    and "clear_refresh_claim s k cap = (Inl KeyMismatch, s)"
  using assms
    extend_auth_gate.refuses regenerate_gate.refuses get_or_regenerate_gate.refuses
    pin_gate.refuses guard_table.put_refused guard_table.clear_refused owner_table.put_refused
    owner_table.clear_refused claim_table.put_refused claim_table.clear_refused
  by (simp_all add: store_set_def store_get_def store_extend_def store_unpin_def store_delete_def
      delete_with_definition_def bump_version_def restore_version_def)

text \<open>
  The capability gate covers every secret-handling call: with a capability of another store, a call
  of any kind fails, changes nothing at all, runs no command and prompts nobody.
\<close>

theorem capability_gate:
  assumes "call_cap c = Some cap" and "\<not> authorized s cap"
  shows "perform s clk c = (False, s, [])"
  using assms by (cases c) (simp_all add: unauthorized_eq)

text \<open>A store for the witnesses: one definition, no value, a backoff of 30 ns, token 5.\<close>

definition demo_source :: value_source where
  "demo_source = Command [''fetch''] None fmempty"

definition demo_ttl :: ttl where
  "demo_ttl = \<lparr>ttl_soft = Some 10, ttl_hard = Some 100\<rparr>"

definition demo_store :: store where
  "demo_store =
     (new_with_token 5 30)\<lparr>definitions :=
        fmupd ''k'' \<lparr>def_source = demo_source, def_ttl = demo_ttl, def_meta = value_meta_new,
                    def_source_meta = source_meta_new\<rparr> fmempty\<rparr>"

definition demo_cap :: capability where
  "demo_cap = \<lparr>token = 5\<rparr>"

definition demo_runner :: source_runner where
  "demo_runner av cw en = Inr \<lparr>data = [1, 2], locked = False\<rparr>"

definition failing_runner :: source_runner where
  "failing_runner av cw en = Inl EmptyOutput"

definition demo_clock :: "nat \<Rightarrow> clock" where
  "demo_clock t = (\<lambda>_. Monotonic t)"

lemma demo_authorized [simp]: "authorized demo_store demo_cap"
  by (simp add: authorized_def demo_store_def demo_cap_def new_with_token_def)

theorem capability_gate_witness:
  "perform demo_store (demo_clock 7) (CDeleteWithDefinition ''k'' \<lparr>token = 6\<rparr>)
     = (False, demo_store, [])"
  by (rule capability_gate [of _ "\<lparr>token = 6\<rparr>"]) (simp_all add: authorized_def demo_store_def new_with_token_def)


subsection \<open>The frame\<close>

text \<open>Everything the store holds for one key.\<close>

definition slot ::
  "store \<Rightarrow> string \<Rightarrow> cache_entry option \<times> definition_record option \<times> failure_record option
     \<times> guard_record option \<times> owner_principal option \<times> nat option \<times> refresh_claim option"
where
  "slot s k =
     (fmlookup (entries s) k, fmlookup (definitions s) k, fmlookup (failure_backoffs s) k,
      fmlookup (access_guards s) k, fmlookup (owners s) k, fmlookup (versions s) k,
      fmlookup (refresh_claims s) k)"

lemmas brief_lemmas =
  extend_authenticated_brief pin_authenticated_brief store_regenerate_brief get_or_regenerate_brief

lemmas snd_lemmas = store_get_snd store_state_of_snd store_extend_snd store_unpin_snd

lemmas plain_op_defs =
  store_set_def store_delete_def define_with_meta_def delete_with_definition_def undefine_def
  set_guard_def clear_guard_def set_owner_def clear_owner_def bump_version_def
  restore_version_def set_refresh_claim_def clear_refresh_claim_def

lemma fetch_outcome_cases:
  obtains (ran) err where "runner (argv src) (cwd src) (env src) = Inl err"
      "fetch_outcome s k src t runner auth requester tf ti
        = (False, record_failure s k tf, [Ran (argv src) (cwd src) (env src)])"
  | (denied) v where "runner (argv src) (cwd src) (env src) = Inr v"
      "auth (auth_context_for k Regenerate requester) \<noteq> Inr ()"
      "fetch_outcome s k src t runner auth requester tf ti
        = (False, s, [Ran (argv src) (cwd src) (env src),
                      Prompted (auth_context_for k Regenerate requester)])"
  | (fetched) v where "runner (argv src) (cwd src) (env src) = Inr v"
      "auth (auth_context_for k Regenerate requester) = Inr ()"
      "fetch_outcome s k src t runner auth requester tf ti
        = (True, install_fetched s k src v t ti,
           [Ran (argv src) (cwd src) (env src),
            Prompted (auth_context_for k Regenerate requester)])"
proof (cases "runner (argv src) (cwd src) (env src)")
  case (Inl err)
  then show ?thesis by (intro ran) (simp_all add: fetch_outcome_def Let_def)
next
  case (Inr v)
  show ?thesis
  proof (cases "auth (auth_context_for k Regenerate requester) = Inr ()")
    case True
    with Inr show ?thesis by (intro fetched) (simp_all add: fetch_outcome_def Let_def)
  next
    case False
    with Inr show ?thesis by (intro denied) (simp_all add: fetch_outcome_def Let_def)
  qed
qed

lemma slot_upd_entry [simp]: "k' \<noteq> k \<Longrightarrow> slot (upd_entry s k f) k' = slot s k'"
  by (simp add: slot_def)

lemma slot_record_failure [simp]: "k' \<noteq> k \<Longrightarrow> slot (record_failure s k t) k' = slot s k'"
  by (simp add: slot_def) (simp add: record_failure_def)

lemma slot_install [simp]: "k' \<noteq> k \<Longrightarrow> slot (install_fetched s k src v t now) k' = slot s k'"
  by (simp add: slot_def) (simp add: install_fetched_def)

lemma slot_fetch [simp]:
  "k' \<noteq> k \<Longrightarrow>
   slot (fst (snd (fetch_outcome s k src t runner auth requester tf ti))) k' = slot s k'"
  by (cases rule: fetch_outcome_cases [of runner src s k t auth requester tf ti]) simp_all

text \<open>
  A call touches one key: for every other key, all seven maps hold after any call what they held
  before, and the store's token and backoff setting never change.
\<close>

theorem calls_touch_one_key:
  "(\<forall>k. k = call_key c \<or> slot (after s clk c) k = slot s k)
   \<and> access_token (after s clk c) = access_token s
   \<and> failure_backoff_duration (after s clk c) = failure_backoff_duration s"
proof -
  have slot: "slot (after s clk c) k = slot s k" if "k \<noteq> call_key c" for k
    using that
    by (cases c)
      (auto simp: brief_lemmas snd_lemmas Let_def split: option.split entry_state.split,
       auto simp: plain_op_defs slot_def Let_def split: op_splits)
  have token: "access_token (after s clk c) = access_token s
      \<and> failure_backoff_duration (after s clk c) = failure_backoff_duration s"
    by (cases c)
      (auto simp: brief_lemmas snd_lemmas Let_def fetch_outcome_def
        split: option.split entry_state.split sum.split,
       auto simp: plain_op_defs Let_def split: op_splits)
  show ?thesis using slot token by blast
qed


lemma fetching_cases:
  assumes "c = CRegenerate k runner auth r cap \<or> c = CGetOrRegenerate k runner auth r cap"
  obtains (stopped) s1 where "perform s clk c = (False, s1, [])"
      "s1 = s \<or> (\<exists>now. s1 = upd_entry s k (\<lambda>e. snd (evaluate e now)))"
  | (fetch) s1 src tt now tb where
      "perform s clk c = fetch_outcome s1 k src tt runner auth r (clk 2) (clk 3)"
      "s1 = upd_entry s k (\<lambda>e. snd (evaluate e now))" "authorized s cap"
      "\<forall>e. fmlookup (entries s) k = Some e \<longrightarrow> state e now = HardExpired"
      "failure_backoff_remaining s k tb = None" "is_regenerable src"
      "{now, tb} = {clk 0, clk 1}"
      "(\<exists>e. c = CRegenerate k runner auth r cap \<and> fmlookup (entries s) k = Some e
            \<and> src = entry_source e \<and> tt = entry_ttl e)
       \<or> (\<exists>d. c = CGetOrRegenerate k runner auth r cap \<and> fmlookup (definitions s) k = Some d
            \<and> src = def_source d \<and> tt = def_ttl d)"
proof (cases "c = CRegenerate k runner auth r cap")
  case True
  let ?s1 = "upd_entry s k (\<lambda>e. snd (evaluate e (clk 1)))"
  have "perform s clk c = (False, s, []) \<or> perform s clk c = (False, ?s1, [])
      \<or> (\<exists>e. authorized s cap \<and> failure_backoff_remaining s k (clk 0) = None
        \<and> fmlookup (entries s) k = Some e \<and> is_regenerable (entry_source e)
        \<and> state e (clk 1) = HardExpired \<and> perform s clk c
          = fetch_outcome ?s1 k (entry_source e) (entry_ttl e) runner auth r (clk 2) (clk 3))"
    unfolding True perform.simps store_regenerate_brief by (simp add: Let_def split: option.split)
  then consider (stop) "perform s clk c = (False, s, [])"
    | (live) "perform s clk c = (False, ?s1, [])"
    | (go) e where "authorized s cap" "failure_backoff_remaining s k (clk 0) = None"
        "fmlookup (entries s) k = Some e" "is_regenerable (entry_source e)"
        "state e (clk 1) = HardExpired"
        "perform s clk c
          = fetch_outcome ?s1 k (entry_source e) (entry_ttl e) runner auth r (clk 2) (clk 3)"
    by blast
  then show ?thesis
  proof cases
    case stop then show ?thesis by (intro stopped) auto
  next
    case live then show ?thesis by (intro stopped) auto
  next
    case go
    then show ?thesis using True by (intro fetch [where now = "clk 1" and tb = "clk 0"]) auto
  qed
next
  case False
  with assms have c: "c = CGetOrRegenerate k runner auth r cap" by simp
  let ?s1 = "upd_entry s k (\<lambda>e. snd (evaluate e (clk 0)))"
  have "perform s clk c = (False, s, []) \<or> perform s clk c = (False, ?s1, [])
      \<or> (\<exists>d. authorized s cap \<and> failure_backoff_remaining s k (clk 1) = None
        \<and> fmlookup (definitions s) k = Some d \<and> is_regenerable (def_source d)
        \<and> (\<forall>e. fmlookup (entries s) k = Some e \<longrightarrow> state e (clk 0) = HardExpired)
        \<and> perform s clk c
          = fetch_outcome ?s1 k (def_source d) (def_ttl d) runner auth r (clk 2) (clk 3))"
    unfolding c perform.simps get_or_regenerate_brief
    by (simp add: Let_def split: option.split)
  then consider (stop) "perform s clk c = (False, s, [])"
    | (live) "perform s clk c = (False, ?s1, [])"
    | (go) d where "authorized s cap" "failure_backoff_remaining s k (clk 1) = None"
        "fmlookup (definitions s) k = Some d" "is_regenerable (def_source d)"
        "\<forall>e. fmlookup (entries s) k = Some e \<longrightarrow> state e (clk 0) = HardExpired"
        "perform s clk c
          = fetch_outcome ?s1 k (def_source d) (def_ttl d) runner auth r (clk 2) (clk 3)"
    by blast
  then show ?thesis
  proof cases
    case stop then show ?thesis by (intro stopped) auto
  next
    case live then show ?thesis by (intro stopped) auto
  next
    case go
    then show ?thesis using c by (intro fetch [where now = "clk 0" and tb = "clk 1"]) auto
  qed
qed

end
