(* ===== verification/Store_Consent.thy ===== *)
theory Store_Consent
  imports Store_Calls
begin

text \<open>
  What it takes for a value to become readable: the consent theorem of the store, and what the
  fetching calls run, ask and install.
\<close>

subsection \<open>What makes a value readable\<close>

definition readable :: "store \<Rightarrow> string \<Rightarrow> monotonic \<Rightarrow> bool" where
  "readable s k t = (case fmlookup (entries s) k of None \<Rightarrow> False | Some e \<Rightarrow> state e t = Active)"

fun call_auth :: "call \<Rightarrow> auth_context \<Rightarrow> auth_error + unit" where
  "call_auth (CExtendAuth _ auth _ _) = auth"
| "call_auth (CRegenerate _ _ auth _ _) = auth"
| "call_auth (CGetOrRegenerate _ _ auth _ _) = auth"
| "call_auth (CPin _ _ auth _ _) = auth"
| "call_auth _ = deny_all"

fun asks :: "call \<Rightarrow> bool" where
  "asks (CExtendAuth _ _ _ _) = True"
| "asks (CRegenerate _ _ _ _ _) = True"
| "asks (CGetOrRegenerate _ _ _ _ _) = True"
| "asks (CPin _ _ _ _ _) = True"
| "asks _ = False"

definition approved :: "store \<Rightarrow> clock \<Rightarrow> call \<Rightarrow> bool" where
  "approved s clk c \<longleftrightarrow>
     list_ex (\<lambda>x. case x of
                  Prompted ctx \<Rightarrow> context_key ctx = call_key c \<and> call_auth c ctx = Inr ()
                | Ran _ _ _ \<Rightarrow> False)
       (effects s clk c)"

fun sets_or_extends :: "store \<Rightarrow> call \<Rightarrow> bool" where
  "sets_or_extends s (CSet _ _ _ _ cap) = authorized s cap"
| "sets_or_extends s (CExtend _ cap) = authorized s cap"
| "sets_or_extends s _ = False"

lemma Active_earlier: "state e t' = Active \<Longrightarrow> t \<le> t' \<Longrightarrow> state e t = Active"
  using since_mono [of t t' "loaded_at e"] since_mono [of t t' "extended_at e"]
  by (auto simp: state_def split: if_splits option.splits)

lemma Active_evaluated: "state (snd (evaluate e now)) t = Active \<Longrightarrow> state e t = Active"
  by (auto simp: evaluate_def Let_def zeroize_value_def state_def split: if_splits)

lemma Active_unpinned: "state (entry_unpin e) t = Active \<Longrightarrow> state e t = Active"
  by (auto simp: entry_unpin_def state_def split: if_splits option.splits)

lemma Active_extend_auth:
  assumes "state (extend_auth_entry verdict clk e) t' = Active"
    and "state e (clk 0) = SoftExpired \<Longrightarrow> verdict \<noteq> Inr ()"
    and "t \<le> clk 0" and "clk 0 \<le> t'"
  shows "state e t = Active"
proof (cases "state e (clk 0)")
  case Active
  then show ?thesis using assms(3) by (rule Active_earlier)
next
  case SoftExpired
  with assms have "state e t' = Active"
    by (auto simp: extend_auth_entry_def evaluate_def Let_def)
  then show ?thesis using assms(3, 4) by (meson Active_earlier order.trans)
next
  case HardExpired
  with assms show ?thesis
    by (auto simp: extend_auth_entry_def evaluate_def Let_def zeroize_value_def state_def)
qed

lemma readable_iff:
  "readable s k t \<longleftrightarrow> (\<exists>e. fmlookup (entries s) k = Some e \<and> state e t = Active)"
  by (simp add: readable_def split: option.split)

lemma readable_upd_entry:
  "readable (upd_entry s k f) k t \<longleftrightarrow> (\<exists>e. fmlookup (entries s) k = Some e \<and> state (f e) t = Active)"
  by (simp add: readable_def split: option.split)


lemma readable_earlier: "readable s k t' \<Longrightarrow> t \<le> t' \<Longrightarrow> readable s k t"
  by (auto simp: readable_iff Active_earlier)

lemma readable_evaluated:
  "readable (upd_entry s k (\<lambda>e. snd (evaluate e now))) k t \<Longrightarrow> readable s k t"
  by (auto simp: readable_upd_entry readable_iff dest: Active_evaluated)

lemma readable_unpinned: "readable (upd_entry s k entry_unpin) k t \<Longrightarrow> readable s k t"
  by (auto simp: readable_upd_entry readable_iff dest: Active_unpinned)

lemma readable_same_entries:
  "fmlookup (entries s') k = fmlookup (entries s) k \<Longrightarrow> readable s' k t = readable s k t"
  by (simp add: readable_iff)

lemma readable_fetch:
  assumes "readable (fst (snd (fetch_outcome s k src tt runner auth r tf ti))) k t"
    and "\<not> (snd (snd (fetch_outcome s k src tt runner auth r tf ti))
                = [Ran (argv src) (cwd src) (env src), Prompted (auth_context_for k Regenerate r)]
             \<and> auth (auth_context_for k Regenerate r) = Inr ())"
  shows "readable s k t"
  using assms
  by (cases rule: fetch_outcome_cases [of runner src s k tt auth r tf ti])
    (simp_all add: readable_iff)

lemma approved_fetch:
  "effects s clk c = [Ran x y z, Prompted (auth_context_for k op r)] \<Longrightarrow> call_key c = k \<Longrightarrow>
   call_auth c (auth_context_for k op r) = Inr () \<Longrightarrow> approved s clk c"
  by (simp add: approved_def auth_context_for_eq)

lemma no_unlock_fetching:
  assumes read: "readable (after s clk c) k t'"
    and c: "c = CRegenerate k runner auth r cap \<or> c = CGetOrRegenerate k runner auth r cap"
    and no: "\<not> approved s clk c"
  shows "readable s k t'"
  using c
proof (cases rule: fetching_cases [where s = s and clk = clk])
  case (stopped s1)
  then show ?thesis using read readable_evaluated by auto
next
  case (fetch s1 src tt now tb)
  have who: "call_key c = k" "call_auth c = auth" using c by auto
  have "approved s clk c"
    if "effects s clk c = [Ran (argv src) (cwd src) (env src),
          Prompted (auth_context_for k Regenerate r)]"
      and "auth (auth_context_for k Regenerate r) = Inr ()"
    using that by (intro approved_fetch [OF that(1) who(1)]) (simp add: who(2))
  with no have unapproved: "\<not> (effects s clk c
           = [Ran (argv src) (cwd src) (env src), Prompted (auth_context_for k Regenerate r)]
         \<and> auth (auth_context_for k Regenerate r) = Inr ())"
    by blast
  have "readable s1 k t'"
    by (rule readable_fetch [OF read [unfolded fetch(1)] unapproved [unfolded fetch(1)]])
  then show ?thesis unfolding fetch(2) by (rule readable_evaluated)
qed


lemma no_unlock_extend_auth:
  assumes read: "readable (after s clk (CExtendAuth k auth r cap)) k t'"
    and no: "\<not> approved s clk (CExtendAuth k auth r cap)" and t: "t \<le> clk 0" "clk 0 \<le> t'"
  shows "readable s k t"
proof -
  let ?ctx = "auth_context_for k Extend r"
  have asked: "auth ?ctx \<noteq> Inr ()"
    if "authorized s cap" "fmlookup (entries s) k = Some e" "state e (clk 0) = SoftExpired" for e
    using no that by (simp add: approved_def extend_authenticated_brief auth_context_for_eq Let_def)
  show ?thesis
  proof (cases "authorized s cap")
    case True
    then obtain e where e: "fmlookup (entries s) k = Some e"
      and "state (extend_auth_entry (auth ?ctx) clk e) t' = Active"
      using read by (auto simp: extend_authenticated_brief readable_iff Let_def
          split: option.splits entry_state.splits)
    then have "state e t = Active"
      using asked [OF True e] t by (blast intro: Active_extend_auth)
    with e show ?thesis by (simp add: readable_iff)
  next
    case False
    then have "readable s k t'" using read by (simp add: extend_authenticated_brief)
    then show ?thesis using t by (meson order.trans readable_earlier)
  qed
qed

lemma no_unlock_pin:
  assumes "readable (after s clk (CPin k dl auth r cap)) k t'"
    and "\<not> approved s clk (CPin k dl auth r cap)"
  shows "readable s k t'"
  using assms
  by (auto simp: pin_authenticated_brief approved_def auth_context_for_eq Let_def
      split: option.splits if_splits)

lemma no_unlock_other:
  assumes "readable (after s clk c) (call_key c) t'" and "\<not> sets_or_extends s c"
    and "\<not> asks c"
  shows "readable s (call_key c) t'"
  using assms
  by (cases c)
    (auto simp: snd_lemmas unauthorized_eq dest: readable_evaluated readable_unpinned
      split: if_splits,
     auto simp: plain_op_defs readable_iff Let_def split: op_splits)

text \<open>
  Property C10.  No value becomes readable without consent.  If a key's value can be read after a
  call, then it could be read before it, or the call was an authorized set or auth-free extend of
  that key, or the call put a prompt naming that key to its authenticator and was approved.
\<close>

theorem no_unlock_without_consent:
  assumes "readable (after s clk c) k t'" and "\<And>i. t \<le> clk i" and "\<And>i. clk i \<le> t'"
  shows "readable s k t \<or> (k = call_key c \<and> (sets_or_extends s c \<or> approved s clk c))"
proof (cases "k = call_key c")
  case False
  have tt: "t \<le> t'" using assms(2, 3) order.trans by blast
  from False calls_touch_one_key [of c s clk] have "slot (after s clk c) k = slot s k" by blast
  then have "fmlookup (entries (after s clk c)) k = fmlookup (entries s) k"
    by (simp add: slot_def)
  from readable_same_entries [OF this] assms(1) have "readable s k t'" by simp
  then show ?thesis using tt by (blast intro: readable_earlier)
next
  case True
  have tt: "t \<le> t'" using assms(2, 3) order.trans by blast
  have "readable s k t" if no: "\<not> sets_or_extends s c" "\<not> approved s clk c"
  proof -
    consider (fetch) run auth r cap where
        "c = CRegenerate k run auth r cap \<or> c = CGetOrRegenerate k run auth r cap"
      | (ext) auth r cap where "c = CExtendAuth k auth r cap"
      | (pin) dl auth r cap where "c = CPin k dl auth r cap"
      | (other) "\<not> asks c"
      using True by (cases c) simp_all
    then show ?thesis
    proof cases
      case fetch
      from no_unlock_fetching [OF assms(1) fetch no(2)] show ?thesis
        using tt by (rule readable_earlier)
    next
      case ext
      show ?thesis
        using assms(1) no(2) assms(2, 3) unfolding ext by (rule no_unlock_extend_auth)
    next
      case pin
      from no_unlock_pin [OF assms(1) [unfolded pin] no(2) [unfolded pin]] show ?thesis
        using tt by (rule readable_earlier)
    next
      case other
      from no_unlock_other [OF assms(1) [unfolded True] no(1) other] show ?thesis
        unfolding True using tt by (rule readable_earlier)
    qed
  qed
  then show ?thesis using True by blast
qed


text \<open>The lazy fetch of the demonstration store, approved by its user.\<close>

definition demo_fetch :: call where
  "demo_fetch = CGetOrRegenerate ''k'' demo_runner allow_all None demo_cap"

lemmas demo_defs =
  demo_fetch_def demo_store_def demo_cap_def demo_runner_def demo_clock_def demo_source_def
  demo_ttl_def new_with_token_def

lemma demo_fetch_perform:
  "perform demo_store (demo_clock 50) demo_fetch
     = (True,
        install_fetched demo_store ''k'' demo_source \<lparr>data = [1, 2], locked = False\<rparr> demo_ttl
          (Monotonic 50),
        [Ran [''fetch''] None fmempty, Prompted (auth_context_for ''k'' Regenerate None)])"
  by (simp add: get_or_regenerate_brief Let_def demo_fetch_def)
    (simp add: demo_defs upd_entry_def failure_backoff_remaining_def fetch_outcome_def allow_all_def
      authorized_def)

theorem no_unlock_without_consent_witness:
  "readable (after demo_store (demo_clock 50) demo_fetch) ''k'' (Monotonic 55)
     \<and> approved demo_store (demo_clock 50) demo_fetch"
proof -
  have read: "readable (after demo_store (demo_clock 50) demo_fetch) ''k'' (Monotonic 55)"
    by (simp add: demo_fetch_perform)
      (simp add: readable_def install_fetched_def entry_new_def state_def demo_ttl_def time_simps)
  have "readable demo_store ''k'' (Monotonic 50)
      \<or> (''k'' = call_key demo_fetch
          \<and> (sets_or_extends demo_store demo_fetch \<or> approved demo_store (demo_clock 50) demo_fetch))"
    by (rule no_unlock_without_consent [OF read]) (simp_all add: demo_clock_def less_eq_monotonic_def)
  then have "approved demo_store (demo_clock 50) demo_fetch"
    by (simp add: readable_def demo_store_def new_with_token_def demo_fetch_def)
  with read show ?thesis by blast
qed

subsection \<open>What fetching runs, asks and installs\<close>

definition fetches :: "call \<Rightarrow> string \<Rightarrow> source_runner \<Rightarrow> authenticator
    \<Rightarrow> process_info list option \<Rightarrow> capability \<Rightarrow> bool" where
  "fetches c k runner auth r cap \<longleftrightarrow>
     c = CRegenerate k runner auth r cap \<or> c = CGetOrRegenerate k runner auth r cap"

text \<open>The command a fetching call would run, and the TTL its value would get.\<close>

fun fetch_source :: "store \<Rightarrow> call \<Rightarrow> (value_source \<times> ttl) option" where
  "fetch_source s (CRegenerate k _ _ _ _) =
     map_option (\<lambda>e. (entry_source e, entry_ttl e)) (fmlookup (entries s) k)"
| "fetch_source s (CGetOrRegenerate k _ _ _ _) =
     map_option (\<lambda>d. (def_source d, def_ttl d)) (fmlookup (definitions s) k)"
| "fetch_source s _ = None"

definition resident :: "store \<Rightarrow> string \<Rightarrow> monotonic \<Rightarrow> bool" where
  "resident s k t =
     (case fmlookup (entries s) k of None \<Rightarrow> False | Some e \<Rightarrow> state e t \<noteq> HardExpired)"

lemma resident_iff:
  "resident s k t \<longleftrightarrow> (\<exists>e. fmlookup (entries s) k = Some e \<and> state e t \<noteq> HardExpired)"
  by (simp add: resident_def split: option.split)

lemma fetches_cases:
  assumes "fetches c k runner auth r cap"
  obtains (stopped) s1 where "perform s clk c = (False, s1, [])"
      "s1 = s \<or> (\<exists>now. s1 = upd_entry s k (\<lambda>e. snd (evaluate e now)))"
  | (fetch) s1 src tt now tb where
      "perform s clk c = fetch_outcome s1 k src tt runner auth r (clk 2) (clk 3)"
      "s1 = upd_entry s k (\<lambda>e. snd (evaluate e now))" "authorized s cap"
      "\<not> resident s k now" "failure_backoff_remaining s k tb = None" "is_regenerable src"
      "{now, tb} = {clk 0, clk 1}" "fetch_source s c = Some (src, tt)"
proof -
  from assms have c: "c = CRegenerate k runner auth r cap \<or> c = CGetOrRegenerate k runner auth r cap"
    by (simp add: fetches_def)
  then show ?thesis
  proof (cases rule: fetching_cases [where s = s and clk = clk])
    case (stopped s1)
    then show ?thesis by (rule that(1))
  next
    case (fetch s1 src tt now tb)
    have nr: "\<not> resident s k now" using fetch(4) by (auto simp: resident_iff)
    have fs: "fetch_source s c = Some (src, tt)" using fetch(8) by auto
    show ?thesis by (rule that(2) [OF fetch(1-3) nr fetch(5-7) fs])
  qed
qed

lemma effects_run:
  assumes "Ran av cw en \<in> set (effects s clk c)"
  shows "\<exists>k runner auth r cap. fetches c k runner auth r cap"
  using assms
  by (cases c)
    (auto simp: fetches_def extend_authenticated_brief pin_authenticated_brief Let_def
      split: option.splits entry_state.splits if_splits)

text \<open>
  A command runs only when it has to.  If a call runs a command, it is an authorized fetch of a key
  whose value is absent or destroyed and which is not in a backoff window, what it runs is exactly
  the command recorded for that key, it runs it once and before any prompt, and the only prompt that
  can follow asks for the regeneration of that key.
\<close>

theorem commands_run_only_when_needed:
  assumes "Ran av cw en \<in> set (effects s clk c)"
  shows "\<exists>runner auth r cap now tb tt.
      fetches c (call_key c) runner auth r cap \<and> authorized s cap
      \<and> {now, tb} = {clk 0, clk 1} \<and> \<not> resident s (call_key c) now
      \<and> failure_backoff_remaining s (call_key c) tb = None
      \<and> fetch_source s c = Some (Command av cw en, tt)
      \<and> (effects s clk c = [Ran av cw en]
         \<or> effects s clk c = [Ran av cw en, Prompted (auth_context_for (call_key c) Regenerate r)])"
proof -
  from effects_run [OF assms] obtain k runner auth r cap where f: "fetches c k runner auth r cap"
    by blast
  then have k: "call_key c = k" by (auto simp: fetches_def)
  from f show ?thesis
  proof (cases rule: fetches_cases [where s = s and clk = clk])
    case (stopped s1)
    with assms show ?thesis by simp
  next
    case (fetch s1 src tt now tb)
    obtain av' cw' en' where src: "src = Command av' cw' en'" using fetch(6) by (cases src) simp_all
    let ?fo = "fetch_outcome s1 k src tt runner auth r (clk 2) (clk 3)"
    have "snd (snd ?fo) = [Ran av' cw' en']
        \<or> snd (snd ?fo) = [Ran av' cw' en', Prompted (auth_context_for k Regenerate r)]"
      by (cases rule: fetch_outcome_cases [of runner src s1 k tt auth r "clk 2" "clk 3"])
        (simp_all add: src)
    moreover from this assms have "av' = av" "cw' = cw" "en' = en" by (auto simp: fetch(1))
    ultimately show ?thesis using f fetch unfolding k src by metis
  qed
qed

lemma fetch_installs:
  assumes "fetches c k runner auth r cap" and "fst (perform s clk c)"
  shows "\<exists>src tt v. fetch_source s c = Some (src, tt)
      \<and> runner (argv src) (cwd src) (env src) = Inr v
      \<and> auth (auth_context_for k Regenerate r) = Inr ()
      \<and> effects s clk c = [Ran (argv src) (cwd src) (env src),
                           Prompted (auth_context_for k Regenerate r)]
      \<and> slot (after s clk c) k =
          (Some (entry_new src v tt (clk 3)), definition_of s k, None, None, owner_of s k,
           fmlookup (versions s) k, None)"
  using assms(1)
proof (cases rule: fetches_cases [where s = s and clk = clk])
  case (stopped s1)
  with assms(2) show ?thesis by simp
next
  case (fetch s1 src tt now tb)
  show ?thesis
  proof (cases rule: fetch_outcome_cases [of runner src s1 k tt auth r "clk 2" "clk 3"])
    case (fetched v)
    moreover have "slot (install_fetched s1 k src v tt (clk 3)) k =
        (Some (entry_new src v tt (clk 3)), definition_of s k, None, None, owner_of s k,
         fmlookup (versions s) k, None)"
      by (simp add: slot_def fetch(2) definition_of_def owner_of_def)
        (simp add: install_fetched_def)
    ultimately show ?thesis using fetch(1, 8) by auto
  qed (use assms(2) fetch(1) in simp_all)
qed

text \<open>
  Property C39.  A successful fetch starts a fresh value: the command succeeded, then the user
  approved, and the key now holds the command's output, active from the call's last reading with the
  recorded TTL; the old failure record, guard and refresh claim are gone, while the definition, the
  owner and the version stay.
\<close>

theorem successful_fetch_installs:
  assumes "fetches c k runner auth r cap" and "fst (perform s clk c)"
  shows "\<exists>src tt v. fetch_source s c = Some (src, tt)
      \<and> runner (argv src) (cwd src) (env src) = Inr v
      \<and> auth (auth_context_for k Regenerate r) = Inr ()
      \<and> effects s clk c = [Ran (argv src) (cwd src) (env src),
                           Prompted (auth_context_for k Regenerate r)]
      \<and> slot (after s clk c) k =
          (Some (entry_new src v tt (clk 3)), definition_of s k, None, None, owner_of s k,
           fmlookup (versions s) k, None)"
  using assms by (rule fetch_installs)

theorem commands_run_only_when_needed_witness:
  "\<exists>runner auth r cap. fetches demo_fetch ''k'' runner auth r cap \<and> authorized demo_store cap"
proof -
  have "Ran [''fetch''] None fmempty \<in> set (effects demo_store (demo_clock 50) demo_fetch)"
    by (simp add: demo_fetch_perform)
  from commands_run_only_when_needed [OF this] show ?thesis
    by (auto simp: demo_fetch_def)
qed

theorem successful_fetch_installs_witness:
  "fmlookup (entries (after demo_store (demo_clock 50) demo_fetch)) ''k''
     = Some (entry_new demo_source \<lparr>data = [1, 2], locked = False\<rparr> demo_ttl (Monotonic 50))"
proof -
  have f: "fetches demo_fetch ''k'' demo_runner allow_all None demo_cap"
    by (simp add: fetches_def demo_fetch_def)
  have "fst (perform demo_store (demo_clock 50) demo_fetch)" by (simp add: demo_fetch_perform)
  from successful_fetch_installs [OF f this] show ?thesis
    by (auto simp: slot_def demo_defs)
qed

subsection \<open>What a failed call leaves\<close>

text \<open>\<open>s'\<close> is \<open>s\<close> up to the destruction of a hard-expired value at \<open>k\<close>.\<close>

definition same_but_husk :: "store \<Rightarrow> string \<Rightarrow> store \<Rightarrow> bool" where
  "same_but_husk s k s' \<longleftrightarrow>
     s' = s \<or> (\<exists>e. fmlookup (entries s) k = Some e
                 \<and> s' = s\<lparr>entries := fmupd k (zeroize_value e) (entries s)\<rparr>)"

lemma husk_refl [simp]: "same_but_husk s k s"
  by (simp add: same_but_husk_def)

lemma husk_evaluated: "same_but_husk s k (upd_entry s k (\<lambda>e. snd (evaluate e now)))"
  by (auto simp: same_but_husk_def upd_entry_def evaluate_def Let_def split: option.splits)

lemma entry_extend_fails:
  "isl (fst (entry_extend e clk)) \<Longrightarrow> snd (entry_extend e clk) = snd (evaluate e (clk 0))"
  by (auto simp: entry_extend_def split: prod.splits entry_state.splits)

lemma entry_pin_fails:
  "isl (fst (entry_pin_until e d now)) \<Longrightarrow> snd (entry_pin_until e d now) = snd (evaluate e now)"
  by (auto simp: entry_pin_until_def split: prod.splits entry_state.splits)

lemma husk_upd_entry:
  "(\<And>e. fmlookup (entries s) k = Some e \<Longrightarrow> f e = e \<or> f e = zeroize_value e) \<Longrightarrow>
   same_but_husk s k (upd_entry s k f)"
  by (fastforce simp: same_but_husk_def upd_entry_def split: option.splits)

lemma husk_upd_evaluated:
  "(\<And>e. fmlookup (entries s) k = Some e \<Longrightarrow> f e = snd (evaluate e now)) \<Longrightarrow>
   same_but_husk s k (upd_entry s k f)"
  by (rule husk_upd_entry) (simp add: evaluate_def Let_def)

lemma failed_extend_auth:
  assumes "\<not> fst (perform s clk (CExtendAuth k auth r cap))"
  shows "same_but_husk s k (after s clk (CExtendAuth k auth r cap))"
proof -
  let ?v = "auth (auth_context_for k Extend r)"
  have "extend_auth_entry ?v clk e = e \<or> extend_auth_entry ?v clk e = zeroize_value e"
    if "fmlookup (entries s) k = Some e" "authorized s cap" for e
    using assms that
    by (cases "state e (clk 0)")
      (auto simp: extend_authenticated_brief extend_auth_entry_def Let_def evaluate_def
        entry_extend_fails zeroize_value_def)
  then show ?thesis
    by (auto simp: extend_authenticated_brief Let_def intro!: husk_upd_entry
        split: option.splits entry_state.splits)
qed

lemma failed_pin:
  assumes "\<not> fst (perform s clk (CPin k dl auth r cap))"
  shows "same_but_husk s k (after s clk (CPin k dl auth r cap))"
  using assms
  by (auto simp: pin_authenticated_brief Let_def
      intro!: husk_upd_evaluated [where now = "clk 1"] entry_pin_fails split: option.splits if_splits)

lemma failed_extend:
  assumes "\<not> fst (perform s clk (CExtend k cap))"
  shows "same_but_husk s k (after s clk (CExtend k cap))"
proof (cases "authorized s cap")
  case True
  have "isl (fst (entry_extend e clk))" if "fmlookup (entries s) k = Some e" for e
    using assms that True by (auto simp: store_extend_def map_err_def split: prod.splits sum.splits)
  with True show ?thesis
    by (auto simp: store_extend_snd
        intro!: husk_upd_evaluated [where now = "clk 0"] entry_extend_fails)
qed (simp add: store_extend_snd)

lemma failed_other:
  assumes "\<not> fst (perform s clk c)" and "\<not> asks c"
  shows "same_but_husk s (call_key c) (after s clk c)"
proof (cases "\<exists>k cap. c = CExtend k cap")
  case True
  with assms failed_extend show ?thesis by fastforce
next
  case False
  with assms show ?thesis
    by (cases c)
      (auto simp: snd_lemmas unauthorized_eq husk_evaluated,
       auto simp: plain_op_defs store_get_def store_unpin_def Let_def split: op_splits)
qed

text \<open>
  A failed call leaves the store as it was, except for what failing itself records: a value found
  hard-expired is destroyed, and a command that failed leaves the failure record its backoff needs.
  In particular a denied or unavailable prompt, and a command that failed, install nothing and lose
  nothing.
\<close>

theorem failed_call_keeps_the_store:
  assumes "\<not> fst (perform s clk c)"
  shows "definitions (after s clk c) = definitions s
    \<and> access_guards (after s clk c) = access_guards s \<and> owners (after s clk c) = owners s
    \<and> versions (after s clk c) = versions s \<and> refresh_claims (after s clk c) = refresh_claims s
    \<and> (entries (after s clk c) = entries s
       \<or> (\<exists>e. fmlookup (entries s) (call_key c) = Some e
            \<and> entries (after s clk c) = fmupd (call_key c) (zeroize_value e) (entries s)))
    \<and> (failure_backoffs (after s clk c) = failure_backoffs s
       \<or> (\<exists>av cw en. effects s clk c = [Ran av cw en]
            \<and> failure_backoffs (after s clk c)
                = fmupd (call_key c)
                    \<lparr>failed_at = clk 2, retry_after = failure_backoff_duration s\<rparr>
                    (failure_backoffs s)))"
proof -
  let ?k = "call_key c"
  have same: ?thesis if "same_but_husk s ?k (after s clk c)"
    using that by (auto simp: same_but_husk_def)
  consider (fetch) k run auth r cap where "fetches c k run auth r cap"
    | (ext) k auth r cap where "c = CExtendAuth k auth r cap"
    | (pin) k dl auth r cap where "c = CPin k dl auth r cap"
    | (other) "\<not> asks c"
    by (cases c) (simp_all add: fetches_def)
  then show ?thesis
  proof cases
    case ext
    with assms show ?thesis by (intro same) (simp add: failed_extend_auth del: perform.simps)
  next
    case pin
    with assms show ?thesis by (intro same) (simp add: failed_pin del: perform.simps)
  next
    case other
    with assms show ?thesis by (intro same failed_other)
  next
    case fetch
    then have k: "?k = k" by (auto simp: fetches_def)
    from fetch show ?thesis
    proof (cases rule: fetches_cases [where s = s and clk = clk])
      case (stopped s1)
      then show ?thesis using husk_evaluated by (intro same) (auto simp: k)
    next
      case (fetch s1 src tt now tb)
      note husk = husk_evaluated [of s k now, folded fetch(2)]
      show ?thesis
      proof (cases rule: fetch_outcome_cases [of run src s1 k tt auth r "clk 2" "clk 3"])
        case (ran err)
        then show ?thesis
          using husk by (auto simp: k fetch(1) same_but_husk_def) (auto simp: record_failure_def)
      next
        case (denied v)
        then show ?thesis using husk by (intro same) (simp add: k fetch(1))
      qed (use assms fetch(1) in simp)
    qed
  qed
qed

theorem failed_call_keeps_the_store_witness:
  "entries (after demo_store (demo_clock 50)
      (CGetOrRegenerate ''k'' demo_runner deny_all None demo_cap)) = entries demo_store"
proof -
  have "\<not> fst (perform demo_store (demo_clock 50)
      (CGetOrRegenerate ''k'' demo_runner deny_all None demo_cap))"
    by (simp add: get_or_regenerate_brief)
      (simp add: demo_defs Let_def fetch_outcome_def deny_all_def)
  from failed_call_keeps_the_store [OF this] show ?thesis
    by (simp add: demo_defs)
qed

end
