(* ===== verification/Store_Props.thy ===== *)
theory Store_Props
  imports Store_Consent
begin

text \<open>
  The lifetimes of what the store keeps beside a value: failure backoffs, definitions, guards,
  claims, owners and versions, over single calls and over runs of calls.
\<close>

subsection \<open>Fetch-failure backoff\<close>

lemma fetch_failed:
  assumes "fetches c k runner auth r cap" and "effects s clk c = [Ran av cw en]"
  shows "fmlookup (failure_backoffs (after s clk c)) k =
      (if 0 < failure_backoff_duration s
       then Some \<lparr>failed_at = clk 2, retry_after = failure_backoff_duration s\<rparr>
       else fmlookup (failure_backoffs s) k)"
  using assms(1)
proof (cases rule: fetches_cases [where s = s and clk = clk])
  case (stopped s1)
  with assms(2) show ?thesis by simp
next
  case (fetch s1 src tt now tb)
  show ?thesis
  proof (cases rule: fetch_outcome_cases [of runner src s1 k tt auth r "clk 2" "clk 3"])
    case (ran err)
    then show ?thesis by (simp add: fetch(1)) (simp add: fetch(2) record_failure_def)
  qed (use assms(2) fetch(1) in simp_all)
qed

lemma fetch_in_backoff:
  assumes "fetches c k runner auth r cap"
    and "failure_backoff_remaining s k (clk 0) \<noteq> None" "failure_backoff_remaining s k (clk 1) \<noteq> None"
  shows "effects s clk c = [] \<and> \<not> fst (perform s clk c)"
  using assms(1)
proof (cases rule: fetches_cases [where s = s and clk = clk])
  case (stopped s1)
  then show ?thesis by simp
next
  case (fetch s1 src tt now tb)
  then have "tb = clk 0 \<or> tb = clk 1" by blast
  with fetch(5) assms(2, 3) show ?thesis by auto
qed

text \<open>
  After a command fails, its key is left alone for the configured time.  While the window is open, a
  fetch of the key by either method runs no command, prompts nobody and fails; the remaining time
  reported is exact; and from the end of the window on nothing is suppressed.
\<close>

theorem failed_fetch_backs_off:
  assumes "fetches c k runner auth r cap" and "effects s clk c = [Ran av cw en]"
    and "0 < failure_backoff_duration s"
    and "fetches c' k runner' auth' r' cap'"
    and "\<And>i. clk 2 \<le> clk' i"
    and "\<And>i. offset (clk' i) < offset (clk 2) + failure_backoff_duration s"
  shows "effects (after s clk c) clk' c' = [] \<and> \<not> fst (perform (after s clk c) clk' c')
    \<and> failure_backoff_remaining (after s clk c) k (clk' i)
        = Some (offset (clk 2) + failure_backoff_duration s - offset (clk' i))
    \<and> failure_backoff_remaining (after s clk c) k
        (Monotonic (offset (clk 2) + failure_backoff_duration s + n)) = None"
proof -
  let ?s = "after s clk c"
  have rec: "fmlookup (failure_backoffs ?s) k
      = Some \<lparr>failed_at = clk 2, retry_after = failure_backoff_duration s\<rparr>"
    using fetch_failed [OF assms(1, 2)] assms(3) by simp
  have remaining: "failure_backoff_remaining ?s k (clk' i)
      = Some (offset (clk 2) + failure_backoff_duration s - offset (clk' i))" for i
    using assms(5) [of i] assms(6) [of i] assms(3)
    by (auto simp: failure_backoff_remaining_def rec Let_def time_simps)
  have "effects ?s clk' c' = [] \<and> \<not> fst (perform ?s clk' c')"
    using assms(4) by (rule fetch_in_backoff) (simp_all add: remaining)
  moreover have "failure_backoff_remaining ?s k
      (Monotonic (offset (clk 2) + failure_backoff_duration s + n)) = None"
    by (simp add: failure_backoff_remaining_def rec Let_def time_simps)
  ultimately show ?thesis using remaining by blast
qed

definition demo_failing :: call where
  "demo_failing = CGetOrRegenerate ''k'' failing_runner allow_all None demo_cap"

lemma demo_failing_effects: "effects demo_store (demo_clock 50) demo_failing = [Ran [''fetch''] None fmempty]"
  by (simp add: get_or_regenerate_brief demo_failing_def)
    (simp add: demo_defs Let_def upd_entry_def failure_backoff_remaining_def fetch_outcome_def
      failing_runner_def authorized_def)

theorem failed_fetch_backs_off_witness:
  "effects (after demo_store (demo_clock 50) demo_failing) (demo_clock 79) demo_fetch = []
   \<and> failure_backoff_remaining (after demo_store (demo_clock 50) demo_failing) ''k'' (Monotonic 79)
       = Some 1"
proof -
  have f: "fetches demo_failing ''k'' failing_runner allow_all None demo_cap"
      "fetches demo_fetch ''k'' demo_runner allow_all None demo_cap"
    by (simp_all add: fetches_def demo_failing_def demo_fetch_def)
  show ?thesis
    using failed_fetch_backs_off [OF f(1) demo_failing_effects _ f(2), of "demo_clock 79" 0 0]
    by (simp add: demo_store_def new_with_token_def demo_clock_def time_simps del: perform.simps)
qed

subsection \<open>Deletion and definition\<close>

text \<open>
  What each deletion forgets.  A value-only delete drops the value with the guard and the refresh
  claim declared for it, and keeps the definition, the backoff, the owner and the version; deleting
  with the definition forgets all seven; removing only the definition also drops guard and claim,
  and keeps the value, the backoff, the owner and the version.
\<close>

theorem deletion_lifetimes:
  assumes "authorized s cap"
  shows "slot (snd (store_delete s k cap)) k =
      (None, definition_of s k, fmlookup (failure_backoffs s) k, None, owner_of s k,
       fmlookup (versions s) k, None)
    \<and> fst (store_delete s k cap) = Inr (has_value s k)
    \<and> slot (snd (delete_with_definition s k cap)) k = (None, None, None, None, None, None, None)
    \<and> fst (delete_with_definition s k cap) = Inr (has_value s k \<or> is_defined s k)
    \<and> slot (snd (undefine s k)) k =
      (fmlookup (entries s) k, None, fmlookup (failure_backoffs s) k, None, owner_of s k,
       fmlookup (versions s) k, None)
    \<and> fst (undefine s k) = is_defined s k"
  using assms
  by (simp add: slot_def store_delete_def delete_with_definition_def undefine_def definition_of_def
      owner_of_def has_value_def is_defined_def)

lemma demo_definition: "fmlookup (definitions demo_store) ''k'' \<noteq> None"
  by (simp add: demo_store_def)

theorem deletion_lifetimes_witness:
  "definition_of (snd (store_delete demo_store ''k'' demo_cap)) ''k'' \<noteq> None
   \<and> definition_of (snd (delete_with_definition demo_store ''k'' demo_cap)) ''k'' = None"
  using deletion_lifetimes [OF demo_authorized, of "''k''"] demo_definition
  by (simp add: slot_def definition_of_def)

text \<open>
  Defining is idempotent and never overwrites.  After a definition succeeded, the same definition
  again is accepted and changes nothing, any other command definition of the key (in command, TTL,
  value metadata or source metadata) is a conflict that changes nothing, and the definition on
  record is the one that was given.
\<close>

theorem define_once:
  assumes "fst (define_with_meta s k src t vm sm) = Inr ()"
    and "is_regenerable src'" and "(src', t', vm', sm') \<noteq> (src, t, vm, sm)"
  shows "let s' = snd (define_with_meta s k src t vm sm) in
      define_with_meta s' k src t vm sm = (Inr (), s')
      \<and> define_with_meta s' k src' t' vm' sm' = (Inl Conflict, s')
      \<and> definition_of s' k
          = Some \<lparr>def_source = src, def_ttl = t, def_meta = vm, def_source_meta = sm\<rparr>"
proof -
  have key: "valid_key k" and src: "is_regenerable src"
    using assms(1)
    by (auto simp: define_with_meta_def validate_key_syntax_cases definition_new_cases
        split: if_splits)
  let ?d = "\<lparr>def_source = src, def_ttl = t, def_meta = vm, def_source_meta = sm\<rparr>"
  let ?s' = "snd (define_with_meta s k src t vm sm)"
  have "fmlookup (definitions ?s') k = Some ?d"
    using assms(1) key src
    by (auto simp: define_with_meta_def validate_key_syntax_cases definition_new_cases Let_def
        def_with_meta_def def_with_source_meta_def split: option.splits if_splits)
  then show ?thesis
    using assms(2, 3) key src
    by (auto simp: define_with_meta_def [of ?s'] validate_key_syntax_cases definition_new_cases
        Let_def def_with_meta_def def_with_source_meta_def definition_of_def)
qed


lemma valid_k [simp]: "validate_key_syntax ''k'' = Inr ()"
  by (simp add: validate_key_syntax_def is_identifier_segment_def is_ascii_alphanumeric_def
      less_eq_char_def)

theorem define_once_witness:
  "fst (define_with_meta
      (snd (define_with_meta (new_with_token 5 0) ''k'' demo_source demo_ttl value_meta_new source_meta_new))
      ''k'' demo_source ttl_never value_meta_new source_meta_new) = Inl Conflict"
proof -
  have "fst (define_with_meta (new_with_token 5 0) ''k'' demo_source demo_ttl value_meta_new
      source_meta_new) = Inr ()"
    by (simp add: define_with_meta_def definition_new_cases new_with_token_def demo_source_def)
  from define_once [OF this, of demo_source ttl_never value_meta_new source_meta_new]
  show ?thesis by (simp add: demo_source_def demo_ttl_def ttl_never_def Let_def)
qed

subsection \<open>Owners and versions over runs of calls\<close>

definition run_calls :: "store \<Rightarrow> (clock \<times> call) list \<Rightarrow> store" where
  "run_calls s cs = foldl (\<lambda>s (clk, c). after s clk c) s cs"

lemma run_calls_simps [simp]:
  "run_calls s [] = s"
  "run_calls s ((clk, c) # cs) = run_calls (after s clk c) cs"
  by (simp_all add: run_calls_def)

lemma run_calls_append [simp]: "run_calls s (cs @ ds) = run_calls (run_calls s cs) ds"
  by (simp add: run_calls_def)

fun forgets :: "call \<Rightarrow> string \<Rightarrow> bool" where
  "forgets (CDeleteWithDefinition k' _) k = (k' = k)"
| "forgets _ k = False"

fun declares_owner :: "call \<Rightarrow> string \<Rightarrow> bool" where
  "declares_owner (CSetOwner k' _ _) k = (k' = k)"
| "declares_owner (CClearOwner k' _) k = (k' = k)"
| "declares_owner _ k = False"

fun counts :: "call \<Rightarrow> bool" where
  "counts (CBumpVersion _ _) = True"
| "counts (CRestoreVersion _ _ _) = True"
| "counts _ = False"

lemma slot_frame: "k \<noteq> call_key c \<Longrightarrow> slot (after s clk c) k = slot s k"
  using calls_touch_one_key by blast

lemma asks_frame:
  assumes "asks c"
  shows "definitions (after s clk c) = definitions s \<and> owners (after s clk c) = owners s
    \<and> versions (after s clk c) = versions s"
  using assms
  by (cases c)
    (auto simp: brief_lemmas fetch_outcome_def Let_def
      split: option.splits entry_state.splits sum.splits if_splits)

lemma owners_frame:
  assumes "\<not> declares_owner c k" and "\<not> forgets c k"
  shows "owner_of (after s clk c) k = owner_of s k"
proof (cases "k = call_key c \<and> \<not> asks c")
  case True
  with assms show ?thesis
    by (cases c)
      (auto simp: snd_lemmas owner_of_def,
       auto simp: plain_op_defs Let_def split: op_splits)
next
  case False
  then show ?thesis
    using asks_frame [of c s clk] slot_frame [of k c s clk] by (auto simp: owner_of_def slot_def)
qed

lemma versions_frame:
  assumes "\<not> counts c" and "\<not> forgets c k"
  shows "version_of (after s clk c) k = version_of s k"
proof (cases "k = call_key c \<and> \<not> asks c")
  case True
  with assms show ?thesis
    by (cases c)
      (auto simp: snd_lemmas version_of_def,
       auto simp: plain_op_defs Let_def split: op_splits)
next
  case False
  then show ?thesis
    using asks_frame [of c s clk] slot_frame [of k c s clk] by (auto simp: version_of_def slot_def)
qed

text \<open>
  An owner changes only by an explicit declaration.  Whatever calls run, with whatever outcomes, the
  owner of a key at the end is the owner at the start, unless one of them declared or released that
  key's owner or forgot the key altogether.
\<close>

theorem owner_changes_only_by_declaration:
  assumes "list_all (\<lambda>(clk, c). \<not> declares_owner c k \<and> \<not> forgets c k) cs"
  shows "owner_of (run_calls s cs) k = owner_of s k"
  using assms
proof (induction cs arbitrary: s)
  case Nil
  then show ?case by simp
next
  case (Cons x cs)
  obtain clk c where x: "x = (clk, c)" by fastforce
  from Cons.prems have "owner_of (after s clk c) k = owner_of s k"
    by (intro owners_frame) (auto simp: x)
  with Cons show ?case by (simp add: x del: perform.simps)
qed

lemma version_step:
  assumes "\<not> forgets c k" and "call_ok c" and "version_of s k \<le> u64_max"
  shows "version_of s k \<le> version_of (after s clk c) k \<and> version_of (after s clk c) k \<le> u64_max"
proof (cases "k = call_key c \<and> counts c")
  case True
  then consider cap where "c = CBumpVersion k cap" | v cap where "c = CRestoreVersion k v cap"
    by (cases c) auto
  then show ?thesis
  proof cases
    case 1
    then show ?thesis
      using assms version_counter.count_bump [of s _ k]
      by (cases "authorized s cap") (auto simp: unauthorized_eq)
  next
    case 2
    then show ?thesis
      using assms version_counter.count_restore [of s _ k]
      by (cases "authorized s cap") (auto simp: unauthorized_eq)
  qed
next
  case False
  then have "version_of (after s clk c) k = version_of s k"
    using assms(1) slot_frame [of k c s clk] versions_frame [of c k s clk]
    by (cases "k = call_key c") (auto simp: version_of_def slot_def)
  with assms(3) show ?thesis by simp
qed

lemma version_run:
  assumes "list_all (\<lambda>(clk, c). call_ok c \<and> \<not> forgets c k) cs" and "version_of s k \<le> u64_max"
  shows "version_of s k \<le> version_of (run_calls s cs) k
    \<and> version_of (run_calls s cs) k \<le> u64_max"
  using assms
proof (induction cs arbitrary: s)
  case Nil
  then show ?case by simp
next
  case (Cons x cs)
  obtain clk c where x: "x = (clk, c)" by fastforce
  have "version_of s k \<le> version_of (after s clk c) k \<and> version_of (after s clk c) k \<le> u64_max"
    using Cons.prems by (intro version_step) (auto simp: x)
  moreover from this Cons.prems have "version_of (after s clk c) k
      \<le> version_of (run_calls (after s clk c) cs) k
      \<and> version_of (run_calls (after s clk c) cs) k \<le> u64_max"
    by (intro Cons.IH) (auto simp: x)
  ultimately show ?case by (simp add: x del: perform.simps)
qed

text \<open>
  A stale version never becomes current again.  Once a key's version has been advanced, no later run
  of calls (value deletes, expiries, restores of older versions and failed fetches included) brings
  it back to a value read before, unless the key is forgotten altogether; so a compare-and-swap
  against the old version loses forever.
\<close>

theorem stale_version_never_current:
  assumes "version_of s k \<le> u64_max"
    and "list_all (\<lambda>(clk, c). call_ok c \<and> \<not> forgets c k) (cs @ ds)"
    and "authorized (run_calls s cs) cap" and "version_of (run_calls s cs) k < u64_max"
  shows "version_of s k < version_of (run_calls s (cs @ (clk, CBumpVersion k cap) # ds)) k"
proof -
  let ?m = "run_calls s cs"
  let ?b = "after ?m clk (CBumpVersion k cap)"
  have "version_of s k \<le> version_of ?m k" using version_run [of k cs s] assms(1, 2) by simp
  also have "version_of ?m k < version_of ?b k"
    using version_counter.bump_forward [OF assms(3, 4)] by simp
  also have "version_of ?b k \<le> version_of (run_calls ?b ds) k"
    using version_run [of k ds ?b] assms(2, 4) version_counter.count_bump [OF assms(3)] by simp
  finally show ?thesis by (simp del: perform.simps)
qed

theorem owner_changes_only_by_declaration_witness:
  "owner_of (run_calls demo_store
      [(demo_clock 50, demo_fetch), (demo_clock 60, CDelete ''k'' demo_cap)]) ''k'' = None"
  using owner_changes_only_by_declaration
    [of "''k''" "[(demo_clock 50, demo_fetch), (demo_clock 60, CDelete ''k'' demo_cap)]" demo_store]
  by (simp add: demo_fetch_def owner_of_def demo_store_def new_with_token_def
      del: run_calls_simps perform.simps)

theorem stale_version_never_current_witness:
  "0 < version_of (run_calls demo_store
      ([] @ (demo_clock 1, CBumpVersion ''k'' demo_cap) # [(demo_clock 2, CDelete ''k'' demo_cap)])) ''k''"
  using stale_version_never_current
    [of demo_store "''k''" "[]" "[(demo_clock 2, CDelete ''k'' demo_cap)]" demo_cap "demo_clock 1"]
  by (simp add: version_of_def demo_store_def new_with_token_def u64_max_def authorized_def
      demo_cap_def del: run_calls_simps(2) perform.simps)

subsection \<open>What a key holds\<close>

text \<open>The plaintext in memory under a key, readable or not.\<close>

definition held :: "store \<Rightarrow> string \<Rightarrow> secret_bytes option" where
  "held s k = (case fmlookup (entries s) k of None \<Rightarrow> None | Some e \<Rightarrow> entry_value e)"

text \<open>
  What a call writes to a key, if it succeeds: a set its argument, a fetch the output of the command,
  a deletion nothing.
\<close>

definition output_of :: "store \<Rightarrow> call \<Rightarrow> source_runner \<Rightarrow> secret_bytes option" where
  "output_of s c runner =
     (case fetch_source s c of
        None \<Rightarrow> None
      | Some (src, tt) \<Rightarrow>
          (case runner (argv src) (cwd src) (env src) of Inl _ \<Rightarrow> None | Inr v \<Rightarrow> Some v))"

fun write_of :: "store \<Rightarrow> call \<Rightarrow> secret_bytes option option" where
  "write_of s (CSet k src v tt cap) = Some (Some v)"
| "write_of s (CRegenerate k runner auth r cap) =
     Some (output_of s (CRegenerate k runner auth r cap) runner)"
| "write_of s (CGetOrRegenerate k runner auth r cap) =
     Some (output_of s (CGetOrRegenerate k runner auth r cap) runner)"
| "write_of s (CDelete k cap) = Some None"
| "write_of s (CDeleteWithDefinition k cap) = Some None"
| "write_of s _ = None"

definition written :: "store \<Rightarrow> clock \<Rightarrow> call \<Rightarrow> string \<Rightarrow> secret_bytes option option" where
  "written s clk c k = (if k = call_key c \<and> fst (perform s clk c) then write_of s c else None)"

lemma written_fetch:
  "fetches c k run auth r cap \<Longrightarrow>
   written s clk c k = (if fst (perform s clk c) then Some (output_of s c run) else None)"
  by (auto simp: written_def fetches_def simp del: perform.simps)

lemma written_held:
  assumes "written s clk c k = Some w"
  shows "held (after s clk c) k = w"
proof -
  have k: "k = call_key c" and ok: "fst (perform s clk c)" and w: "write_of s c = Some w"
    using assms by (auto simp: written_def split: if_splits)
  consider (fetch) run auth r cap where "fetches c k run auth r cap"
    | (rest) "\<not> asks c" using k w by (cases c) (auto simp: fetches_def)
  then show ?thesis
  proof cases
    case fetch
    from fetch_installs [OF fetch ok] obtain src tt v where
      v: "fetch_source s c = Some (src, tt)" "run (argv src) (cwd src) (env src) = Inr v"
      and "slot (after s clk c) k =
          (Some (entry_new src v tt (clk 3)), definition_of s k, None, None, owner_of s k,
           fmlookup (versions s) k, None)" by blast
    then have "held (after s clk c) k = Some v" by (simp add: held_def slot_def entry_new_def)
    moreover have "w = Some v"
      using written_fetch [OF fetch, of s clk] ok v assms by (simp add: output_of_def)
    ultimately show ?thesis by simp
  next
    case rest
    then show ?thesis
      using k ok w
      by (cases c) (auto simp: plain_op_defs held_def entry_new_def Let_def split: op_splits)
  qed
qed

subsection \<open>Guards and claims are bound to one value\<close>

definition same_instance :: "cache_entry option \<Rightarrow> cache_entry option \<Rightarrow> bool" where
  "same_instance x y =
     (case (x, y) of
        (None, None) \<Rightarrow> True
      | (Some e, Some e') \<Rightarrow>
          loaded_at e' = loaded_at e \<and> entry_source e' = entry_source e \<and> entry_ttl e' = entry_ttl e
          \<and> (entry_value e' = entry_value e \<or> entry_value e' = None)
      | _ \<Rightarrow> False)"

lemma same_instance_refl [simp]: "same_instance x x"
  by (simp add: same_instance_def split: option.split)

definition keeps_instance :: "(cache_entry \<Rightarrow> cache_entry) \<Rightarrow> bool" where
  "keeps_instance f \<longleftrightarrow> (\<forall>e. same_instance (Some e) (Some (f e)))"

lemma keeps_instance_ops:
  "keeps_instance (\<lambda>e. snd (evaluate e now))"
  "keeps_instance (\<lambda>e. snd (entry_extend e clk))"
  "keeps_instance (\<lambda>e. snd (entry_pin_until e d now))"
  "keeps_instance entry_unpin"
  by (auto simp: keeps_instance_def same_instance_def entry_op_defs Let_def split: entry_state.splits)

lemma keeps_instance_extend_auth: "keeps_instance (extend_auth_entry v clk)"
  by (auto simp: keeps_instance_def same_instance_def extend_auth_entry_def entry_op_defs Let_def
      split: entry_state.splits)

lemma keeps_instance_if:
  "keeps_instance f \<Longrightarrow> keeps_instance (\<lambda>e. if P e then e else f e)"
  by (simp add: keeps_instance_def)

lemma same_instance_upd:
  "keeps_instance f \<Longrightarrow> same_instance (fmlookup (entries s) k) (fmlookup (entries (upd_entry s k f)) k)"
  by (simp add: keeps_instance_def same_instance_def split: option.split)

fun sets_value :: "call \<Rightarrow> bool" where
  "sets_value (CSet _ _ _ _ _) = True"
| "sets_value _ = False"

fun declares_guard :: "call \<Rightarrow> bool" where
  "declares_guard (CSetGuard _ _ _) = True"
| "declares_guard _ = False"

fun declares_claim :: "call \<Rightarrow> bool" where
  "declares_claim (CSetClaim _ _ _) = True"
| "declares_claim _ = False"


lemma fetch_instance:
  "same_instance (fmlookup (entries s1) k)
       (fmlookup (entries (fst (snd (fetch_outcome s1 k src tt run auth r tf ti)))) k)
   \<or> (guard_of (fst (snd (fetch_outcome s1 k src tt run auth r tf ti))) k = None
      \<and> refresh_claim_of (fst (snd (fetch_outcome s1 k src tt run auth r tf ti))) k = None
      \<and> fst (fetch_outcome s1 k src tt run auth r tf ti))"
  by (cases rule: fetch_outcome_cases [of run src s1 k tt auth r tf ti])
    (simp_all add: guard_of_def refresh_claim_of_def, simp add: install_fetched_def)

lemma same_instance_trans:
  "same_instance x y \<Longrightarrow> same_instance y z \<Longrightarrow> same_instance x z"
  by (auto simp: same_instance_def split: option.splits)

lemma instance_kept_fetching:
  assumes "fetches c k run auth r cap"
  shows "same_instance (fmlookup (entries s) k) (fmlookup (entries (after s clk c)) k)
    \<or> (guard_of (after s clk c) k = None \<and> refresh_claim_of (after s clk c) k = None
       \<and> written s clk c k \<noteq> None)"
  using assms
proof (cases rule: fetches_cases [where s = s and clk = clk])
  case (stopped s1)
  then show ?thesis using same_instance_upd [OF keeps_instance_ops(1)] by auto
next
  case (fetch s1 src tt now tb)
  have "same_instance (fmlookup (entries s) k) (fmlookup (entries s1) k)"
    unfolding fetch(2) by (rule same_instance_upd [OF keeps_instance_ops(1)])
  with fetch_instance [of s1 k src tt run auth r "clk 2" "clk 3"]
  show ?thesis
    unfolding fetch(1) written_fetch [OF assms] by (auto intro: same_instance_trans)
qed

lemma instance_kept:
  assumes "\<not> sets_value c"
  shows "same_instance (fmlookup (entries s) k) (fmlookup (entries (after s clk c)) k)
    \<or> (guard_of (after s clk c) k = None \<and> refresh_claim_of (after s clk c) k = None
       \<and> written s clk c k \<noteq> None)"
proof (cases "k = call_key c")
  case False
  then have "slot (after s clk c) k = slot s k" by (rule slot_frame)
  then show ?thesis by (simp add: slot_def)
next
  case True
  consider (fetch) run auth r cap where "fetches c k run auth r cap"
    | (entry) f where "keeps_instance f" "after s clk c = s \<or> after s clk c = upd_entry s k f"
    | (rest) "\<not> asks c" "\<And>cap. c \<noteq> CGet k cap" "\<And>cap. c \<noteq> CExtend k cap"
        "\<And>cap. c \<noteq> CUnpin k cap" "c \<noteq> CStateOf k"
  proof (cases c)
    case (CExtendAuth k' auth r cap)
    with True show ?thesis
      by (intro that(2) [OF keeps_instance_extend_auth [of "auth (auth_context_for k Extend r)" clk]])
        (simp add: fst_snd_brief extend_authenticated_snd)
  next
    case (CPin k' dl auth r cap)
    with True show ?thesis
      by (intro that(2) [OF keeps_instance_if [OF keeps_instance_ops(3)
            [where d = dl and now = "clk 1"],
            where P = "\<lambda>e. state e (clk 0) = HardExpired
              \<or> auth (auth_context_for k Pin r) \<noteq> Inr ()"]])
        (simp add: fst_snd_brief pin_authenticated_snd)
  next
    case (CGet k' cap)
    with True show ?thesis
      by (intro that(2) [OF keeps_instance_ops(1) [where now = "clk 0"]]) (simp add: store_get_snd)
  next
    case (CExtend k' cap)
    with True show ?thesis
      by (intro that(2) [OF keeps_instance_ops(2) [where clk = clk]]) (simp add: store_extend_snd)
  next
    case (CUnpin k' cap)
    with True show ?thesis
      by (intro that(2) [OF keeps_instance_ops(4)]) (simp add: store_unpin_snd)
  next
    case (CStateOf k')
    with True show ?thesis
      by (intro that(2) [OF keeps_instance_ops(1) [where now = "clk 0"]]) (simp add: store_state_of_snd)
  qed (use that True in \<open>simp_all add: fetches_def\<close>)
  then show ?thesis
  proof cases
    case fetch
    then show ?thesis by (rule instance_kept_fetching)
  next
    case entry
    then show ?thesis using same_instance_upd by auto
  next
    case rest
    with assms True show ?thesis
      by (cases c)
        (auto simp: plain_op_defs guard_of_def refresh_claim_of_def written_def Let_def
          split: op_splits)
  qed
qed

lemma fetch_guards:
  "guard_of (fst (snd (fetch_outcome s1 k src tt run auth r tf ti))) k' \<in> {guard_of s1 k', None}
   \<and> refresh_claim_of (fst (snd (fetch_outcome s1 k src tt run auth r tf ti))) k'
       \<in> {refresh_claim_of s1 k', None}"
  by (cases rule: fetch_outcome_cases [of run src s1 k tt auth r tf ti])
    (simp_all add: guard_of_def refresh_claim_of_def, simp add: install_fetched_def)

lemma asks_guards:
  assumes "asks c"
  shows "guard_of (after s clk c) k \<in> {guard_of s k, None}
    \<and> refresh_claim_of (after s clk c) k \<in> {refresh_claim_of s k, None}"
proof -
  consider k' run auth r cap where "fetches c k' run auth r cap"
    | (other) "access_guards (after s clk c) = access_guards s"
        "refresh_claims (after s clk c) = refresh_claims s"
    using assms
    by (cases c)
      (simp_all add: fetches_def fst_snd_brief extend_authenticated_snd pin_authenticated_snd)
  then show ?thesis
  proof cases
    case 1
    then show ?thesis
    proof (cases rule: fetches_cases [where s = s and clk = clk])
      case (stopped s1)
      then show ?thesis by (auto simp: guard_of_def refresh_claim_of_def)
    next
      case (fetch s1 src tt now tb)
      then show ?thesis
        using fetch_guards [of s1 k' src tt run auth r "clk 2" "clk 3" k]
        by (simp add: guard_of_def refresh_claim_of_def)
    qed
  qed (simp add: guard_of_def refresh_claim_of_def)
qed

lemma guards_only_dropped:
  "declares_guard c \<or> guard_of (after s clk c) k \<in> {guard_of s k, None}"
  "declares_claim c \<or> refresh_claim_of (after s clk c) k \<in> {refresh_claim_of s k, None}"
proof -
  have "declares_guard c \<or> guard_of (after s clk c) k \<in> {guard_of s k, None}"
    and "declares_claim c \<or> refresh_claim_of (after s clk c) k \<in> {refresh_claim_of s k, None}"
    if "\<not> asks c"
    using that
    by (cases c; auto simp: snd_lemmas guard_of_def refresh_claim_of_def plain_op_defs Let_def
        split: op_splits)+
  then show "declares_guard c \<or> guard_of (after s clk c) k \<in> {guard_of s k, None}"
    and "declares_claim c \<or> refresh_claim_of (after s clk c) k \<in> {refresh_claim_of s k, None}"
    using asks_guards by blast+
qed

text \<open>
  A guard and a refresh claim never outlive the value they were declared for, nor pass to another
  one.  After any call but a set, a guard that is still there was there before (or was declared by
  this call) and the key still holds the same value instance, at most destroyed: same load time,
  source and TTL.  Likewise for a refresh claim.
\<close>

theorem guards_bound_to_the_value:
  assumes "\<not> sets_value c"
  shows "(guard_of (after s clk c) k = None
          \<or> (declares_guard c \<or> guard_of (after s clk c) k = guard_of s k)
            \<and> same_instance (fmlookup (entries s) k) (fmlookup (entries (after s clk c)) k))
    \<and> (refresh_claim_of (after s clk c) k = None
          \<or> (declares_claim c \<or> refresh_claim_of (after s clk c) k = refresh_claim_of s k)
            \<and> same_instance (fmlookup (entries s) k) (fmlookup (entries (after s clk c)) k))"
  using instance_kept [OF assms, of s k clk] guards_only_dropped [of c s clk k] by auto

theorem guards_bound_to_the_value_witness:
  "guard_of (after (snd (set_guard demo_store ''k'' (guard_record_new [SameUser] \<lparr>euid = 1, ruid = 1\<rparr>)
      demo_cap)) (demo_clock 50) demo_fetch) ''k'' = None"
proof -
  let ?s = "snd (set_guard demo_store ''k'' (guard_record_new [SameUser] \<lparr>euid = 1, ruid = 1\<rparr>) demo_cap)"
  have "\<not> same_instance (fmlookup (entries ?s) ''k'')
      (fmlookup (entries (after ?s (demo_clock 50) demo_fetch)) ''k'')"
    by (simp add: get_or_regenerate_brief demo_fetch_def)
      (simp add: demo_defs set_guard_def check_cap_def Let_def upd_entry_def same_instance_def
        failure_backoff_remaining_def fetch_outcome_def allow_all_def authorized_def
        install_fetched_def)
  then show ?thesis
    using guards_bound_to_the_value [of demo_fetch ?s "demo_clock 50" "''k''"]
    by (simp add: demo_fetch_def del: perform.simps)
qed

subsection \<open>Listing\<close>

text \<open>
  The listing is the filtered union of the keys with a value and the keys with a definition, each
  once and in order, whatever the filter looks at.
\<close>

theorem list_filtered_spec:
  "set (list_filtered s pred) = {k. (has_value s k \<or> is_defined s k) \<and> pred s k}
   \<and> distinct (list_filtered s pred) \<and> sorted (list_filtered s pred)"
proof -
  have "set (known_keys s) = {k. has_value s k \<or> is_defined s k}"
    by (auto simp: known_keys_def has_value_def is_defined_def fmdom_iff)
  moreover have "distinct (known_keys s)" and "sorted (known_keys s)"
    by (simp_all add: known_keys_def distinct_remdups_adj)
  ultimately show ?thesis by (auto simp: list_filtered_def sorted_wrt_filter)
qed

end
