(* ===== verification/Snapshot.thy ===== *)
theory Snapshot
  imports Definitions Guard Owner
begin

text \<open>
  The graceful-restart snapshot (\<open>crates/cache-warden/src/snapshot.rs\<close>): its in-memory shape, the
  choice of its wire version, and its byte framing.  The encoding of one entry is \<open>serde_json\<close>'s and
  a parameter: \<open>ser\<close> for \<open>to_vec\<close>, \<open>de\<close> for \<open>from_slice\<close>.  A \<open>u32\<close> or \<open>u64\<close> is a natural number, with
  its bound where the code checks or casts.
\<close>

subsection \<open>Wire constants\<close>

definition FORMAT_VERSION :: nat where "FORMAT_VERSION = 6"
definition VERSION_PRE_DEK :: nat where "VERSION_PRE_DEK = 3"
definition VERSION_WITH_OWNER :: nat where "VERSION_WITH_OWNER = 5"
definition MIN_SUPPORTED_VERSION :: nat where "MIN_SUPPORTED_VERSION = 1"
definition VERSION_PRE_GUARD :: nat where "VERSION_PRE_GUARD = 1"
definition VERSION_PRE_REFRESH :: nat where "VERSION_PRE_REFRESH = 2"

lemmas version_defs =
  FORMAT_VERSION_def VERSION_PRE_DEK_def VERSION_WITH_OWNER_def MIN_SUPPORTED_VERSION_def
  VERSION_PRE_GUARD_def VERSION_PRE_REFRESH_def

definition version_is_supported :: "nat \<Rightarrow> bool" where
  "version_is_supported v \<longleftrightarrow> MIN_SUPPORTED_VERSION \<le> v \<and> v \<le> FORMAT_VERSION"

text \<open>\<open>CWSNAP01\<close> and \<open>CWVDEK01\<close>.\<close>

definition MAGIC :: "u8 list" where
  "MAGIC = [67, 87, 83, 78, 65, 80, 48, 49]"

definition DEK_FRAME_MAGIC :: "u8 list" where
  "DEK_FRAME_MAGIC = [67, 87, 86, 68, 69, 75, 48, 49]"

lemma magic_length [simp]: "length MAGIC = 8" "length DEK_FRAME_MAGIC = 8"
  by (simp_all add: MAGIC_def DEK_FRAME_MAGIC_def)

subsection \<open>The in-memory shape\<close>

datatype snapshot_source =
  SnapStatic
| SnapCommand (snap_argv: "string list") (snap_cwd: "string option") (snap_env: env_overlay)

fun from_value_source :: "value_source \<Rightarrow> snapshot_source" where
  "from_value_source Static = SnapStatic"
| "from_value_source (Command av cw en) = SnapCommand av cw en"

fun into_value_source :: "snapshot_source \<Rightarrow> value_source" where
  "into_value_source SnapStatic = Static"
| "into_value_source (SnapCommand av cw en) = Command av cw en"

lemma source_mirror [simp]:
  "into_value_source (from_value_source src) = src"
  "from_value_source (into_value_source ss) = ss"
  by (cases src; simp) (cases ss; simp)

record snapshot_value =
  sv_source :: snapshot_source
  sv_secret :: "u8 list"
  sv_soft_ttl_ms :: "nat option"
  sv_hard_ttl_ms :: "nat option"
  sv_loaded_at_epoch_ms :: nat
  sv_extended_at_epoch_ms :: nat
  sv_pin_deadline_epoch_ms :: "nat option"

record snapshot_definition =
  sd_source :: snapshot_source
  sd_soft_ttl_ms :: "nat option"
  sd_hard_ttl_ms :: "nat option"
  sd_value_meta_type :: "string option"
  sd_value_meta_params :: "(string, string) fmap"
  sd_source_meta_kind :: "string option"
  sd_source_meta_fields :: "(string, string) fmap"

record snapshot_refresh_claim =
  sr_token :: string
  sr_claimed_at_epoch_ms :: nat
  sr_expires_at_epoch_ms :: nat

record snapshot_failure =
  sf_failed_at_epoch_ms :: nat
  sf_retry_after_ms :: nat

datatype snapshot_declared_ancestor = SnapSameShell string | SnapNamed string

record snapshot_pinned_process =
  sp_pid :: pid
  sp_start_time_us :: "nat option"
  sp_unique_id :: "64 word option"
  sp_path :: string
  sp_name :: string

datatype snapshot_constraint =
  SnapSameUser
| SnapSameAncestor snapshot_declared_ancestor snapshot_pinned_process
| SnapCommandNamed string

record snapshot_guard =
  sg_constraints :: "snapshot_constraint list"
  sg_setter_euid :: "32 word"
  sg_setter_ruid :: "32 word"

record snapshot_entry =
  se_key :: string
  se_value :: "snapshot_value option"
  se_definition :: "snapshot_definition option"
  se_failure :: "snapshot_failure option"
  se_guard :: "snapshot_guard option"
  se_owner :: "owner_principal option"
  se_version :: "nat option"
  se_refresh_claim :: "snapshot_refresh_claim option"

record store_snapshot =
  format_version :: nat
  snapshot_entries :: "snapshot_entry list"

definition declare_dek_frame :: "store_snapshot \<Rightarrow> store_snapshot" where
  "declare_dek_frame s = s\<lparr>format_version := FORMAT_VERSION\<rparr>"

definition from_entries :: "snapshot_entry list \<Rightarrow> store_snapshot" where
  "from_entries es =
     (let any_refresh = list_ex (\<lambda>e. se_version e \<noteq> None \<or> se_refresh_claim e \<noteq> None) es;
          any_guarded = list_ex (\<lambda>e. se_guard e \<noteq> None) es;
          any_owned = list_ex (\<lambda>e. se_owner e \<noteq> None) es
      in \<lparr>format_version =
            (if any_owned then VERSION_WITH_OWNER
             else if any_refresh then VERSION_PRE_DEK
             else if any_guarded then VERSION_PRE_REFRESH
             else VERSION_PRE_GUARD),
          snapshot_entries = es\<rparr>)"

definition is_supported_version :: "store_snapshot \<Rightarrow> bool" where
  "is_supported_version s = version_is_supported (format_version s)"

definition snapshot_len :: "store_snapshot \<Rightarrow> nat" where
  "snapshot_len s = length (snapshot_entries s)"

definition snapshot_is_empty :: "store_snapshot \<Rightarrow> bool" where
  "snapshot_is_empty s \<longleftrightarrow> snapshot_entries s = []"

definition declares_dek_frame :: "store_snapshot \<Rightarrow> bool" where
  "declares_dek_frame s \<longleftrightarrow> FORMAT_VERSION \<le> format_version s"

text \<open>
  \<open>SystemTime::now()\<close> is a parameter: the time since the epoch, or \<open>None\<close> when the wall clock is
  set before it.
\<close>

definition wall_now_epoch_ms :: "duration option \<Rightarrow> nat" where
  "wall_now_epoch_ms since_epoch =
     as_u64 (as_millis (case since_epoch of None \<Rightarrow> 0 | Some d \<Rightarrow> d))"

lemma wall_now_le: "wall_now_epoch_ms t \<le> u64_max"
  by (simp add: wall_now_epoch_ms_def as_u64_le)

subsection \<open>Errors\<close>

datatype 'e export_error =
  ExportCapMismatch | TooManyEntries nat | EntryTooLarge string | Serialize 'e

datatype 'd import_error =
  Truncated | BadMagic | UnsupportedVersion nat nat | MalformedTtl string
| MalformedDefinition string | ImportInvalidKey string | DuplicateKey string | Deserialize 'd

subsection \<open>Framing\<close>

text \<open>\<open>u32::to_be_bytes\<close> and \<open>u32::from_be_bytes\<close>.\<close>

definition to_be_bytes :: "nat \<Rightarrow> u8 list" where
  "to_be_bytes n =
     [of_nat (n div 16777216), of_nat (n div 65536), of_nat (n div 256), of_nat n]"

definition from_be_bytes :: "u8 list \<Rightarrow> nat" where
  "from_be_bytes bs = foldl (\<lambda>a b. a * 256 + unat b) 0 bs"

definition take_bytes :: "u8 list \<Rightarrow> nat \<Rightarrow> (u8 list \<times> u8 list) option" where
  "take_bytes cursor n =
     (if length cursor < n then None else Some (take n cursor, drop n cursor))"

fun frames :: "(snapshot_entry \<Rightarrow> 'e + u8 list) \<Rightarrow> snapshot_entry list \<Rightarrow> 'e export_error + u8 list" where
  "frames ser [] = Inr []"
| "frames ser (e # es) =
     (case ser e of
        Inl err \<Rightarrow> Inl (Serialize err)
      | Inr payload \<Rightarrow>
          (if u32_max < length payload then Inl (EntryTooLarge (se_key e))
           else (case frames ser es of
                   Inl err \<Rightarrow> Inl err
                 | Inr out \<Rightarrow> Inr (to_be_bytes (length payload) @ payload @ out))))"

definition to_bytes :: "(snapshot_entry \<Rightarrow> 'e + u8 list) \<Rightarrow> store_snapshot \<Rightarrow> 'e export_error + u8 list" where
  "to_bytes ser s =
     (if u32_max < length (snapshot_entries s)
      then Inl (TooManyEntries (length (snapshot_entries s)))
      else (case frames ser (snapshot_entries s) of
              Inl err \<Rightarrow> Inl err
            | Inr out \<Rightarrow>
                Inr (MAGIC @ to_be_bytes (format_version s)
                     @ to_be_bytes (length (snapshot_entries s)) @ out)))"

fun read_frames ::
  "(u8 list \<Rightarrow> 'd + snapshot_entry) \<Rightarrow> nat \<Rightarrow> u8 list \<Rightarrow> 'd import_error + snapshot_entry list"
where
  "read_frames de 0 cursor = Inr []"
| "read_frames de (Suc n) cursor =
     (case take_bytes cursor 4 of
        None \<Rightarrow> Inl Truncated
      | Some (len_bytes, cursor1) \<Rightarrow>
          (case take_bytes cursor1 (from_be_bytes len_bytes) of
             None \<Rightarrow> Inl Truncated
           | Some (payload, cursor2) \<Rightarrow>
               (case de payload of
                  Inl err \<Rightarrow> Inl (Deserialize err)
                | Inr e \<Rightarrow>
                    (case read_frames de n cursor2 of
                       Inl err \<Rightarrow> Inl err
                     | Inr es \<Rightarrow> Inr (e # es)))))"

definition from_bytes ::
  "(u8 list \<Rightarrow> 'd + snapshot_entry) \<Rightarrow> u8 list \<Rightarrow> 'd import_error + store_snapshot"
where
  "from_bytes de bytes =
     (case take_bytes bytes (length MAGIC) of
        None \<Rightarrow> Inl Truncated
      | Some (magic, cursor) \<Rightarrow>
     (if magic \<noteq> MAGIC then Inl BadMagic
      else
     (case take_bytes cursor 4 of
        None \<Rightarrow> Inl Truncated
      | Some (version_bytes, cursor1) \<Rightarrow>
     (if \<not> version_is_supported (from_be_bytes version_bytes)
      then Inl (UnsupportedVersion (from_be_bytes version_bytes) FORMAT_VERSION)
      else
     (case take_bytes cursor1 4 of
        None \<Rightarrow> Inl Truncated
      | Some (count_bytes, cursor2) \<Rightarrow>
          (case read_frames de (from_be_bytes count_bytes) cursor2 of
             Inl err \<Rightarrow> Inl err
           | Inr es \<Rightarrow> Inr \<lparr>format_version = from_be_bytes version_bytes, snapshot_entries = es\<rparr>))))))"

subsection \<open>The data-key frame\<close>

definition DEK_FRAME_LEN :: nat where
  "DEK_FRAME_LEN = length DEK_FRAME_MAGIC + 4 + 32"

text \<open>The length is cast with \<open>as u32\<close>; \<open>to_be_bytes\<close> keeps the low 32 bits.\<close>

definition append_dek_frame :: "u8 list \<Rightarrow> u8 list \<Rightarrow> u8 list" where
  "append_dek_frame buf dek = buf @ DEK_FRAME_MAGIC @ to_be_bytes (length dek) @ dek"

definition read_dek_frame :: "u8 list \<Rightarrow> u8 list option" where
  "read_dek_frame bytes =
     (if length bytes < DEK_FRAME_LEN then None
      else (let start = length bytes - DEK_FRAME_LEN;
                len_at = start + length DEK_FRAME_MAGIC
            in if take (length DEK_FRAME_MAGIC) (drop start bytes) \<noteq> DEK_FRAME_MAGIC then None
               else (let len = from_be_bytes (take 4 (drop len_at bytes)) in
                     if len \<noteq> 32 then None
                     else if length bytes < len_at + 4 + len then None
                     else Some (take len (drop (len_at + 4) bytes)))))"


subsection \<open>Big-endian lengths\<close>

lemma to_be_bytes_length [simp]: "length (to_be_bytes n) = 4"
  by (simp add: to_be_bytes_def)

lemma four_bytes: "length bs = 4 \<Longrightarrow> \<exists>a b c d. bs = [a, b, c, d]"
  by (auto simp: length_Suc_conv numeral_eq_Suc)

lemma byte_bound: "unat (b :: u8) < 256"
  using unsigned_less [of b] by simp

lemma byte_of_horner: "(of_nat (x * 256 + unat y) :: u8) = y"
proof -
  have "(256 :: u8) = 0" by simp
  then show ?thesis by (simp only: of_nat_add of_nat_mult of_nat_numeral mult_zero_right add_0 of_nat_unat ucast_id)
qed

lemma from_to_be_bytes [simp]:
  assumes "n \<le> u32_max"
  shows "from_be_bytes (to_be_bytes n) = n"
proof -
  define c where "c = n div 256"
  define b where "b = c div 256"
  define a where "a = b div 256"
  have "a < 256" using assms by (simp add: a_def b_def c_def u32_max_def)
  then have "unat (of_nat a :: u8) = a" by (simp add: unat_of_nat)
  moreover have "n div 16777216 = a" "n div 65536 = b"
    by (simp_all add: a_def b_def c_def div_mult2_eq [symmetric])
  ultimately have "from_be_bytes (to_be_bytes n)
      = ((a * 256 + b mod 256) * 256 + c mod 256) * 256 + n mod 256"
    by (simp add: to_be_bytes_def from_be_bytes_def unat_of_nat c_def)
  also have "\<dots> = n"
    using div_mult_mod_eq [of b 256] div_mult_mod_eq [of c 256] div_mult_mod_eq [of n 256]
    by (simp only: a_def [symmetric] b_def [symmetric] c_def [symmetric])
  finally show ?thesis .
qed

lemma to_from_be_bytes [simp]:
  assumes "length bs = 4"
  shows "to_be_bytes (from_be_bytes bs) = bs"
proof -
  from four_bytes [OF assms] obtain a b c d where bs: "bs = [a, b, c, d]" by blast
  define x where "x = unat a * 256 + unat b"
  define y where "y = x * 256 + unat c"
  define n where "n = y * 256 + unat d"
  have n: "from_be_bytes bs = n"
    by (simp add: bs from_be_bytes_def n_def y_def x_def)
  have y: "n div 256 = y" and x: "y div 256 = x" and a: "x div 256 = unat a"
    using byte_bound [of b] byte_bound [of c] byte_bound [of d]
    by (simp_all add: n_def y_def x_def)
  have "n div 65536 = x" and "n div 16777216 = unat a"
    using div_mult2_eq [of n 256 256] div_mult2_eq [of n 65536 256] by (simp_all add: x y a)
  then show ?thesis
    unfolding n to_be_bytes_def
    using byte_of_horner [of "unat a" b] byte_of_horner [of x c] byte_of_horner [of y d]
    by (simp add: bs y x_def [symmetric] y_def [symmetric] n_def [symmetric])
qed
lemma from_be_bytes_bound:
  assumes "length bs = 4"
  shows "from_be_bytes bs \<le> u32_max"
proof -
  from four_bytes [OF assms] obtain a b c d where bs: "bs = [a, b, c, d]" by blast
  show ?thesis
    using byte_bound [of a] byte_bound [of b] byte_bound [of c] byte_bound [of d]
    by (simp add: bs from_be_bytes_def u32_max_def)
qed

lemma take_bytes_append [simp]: "length a = n \<Longrightarrow> take_bytes (a @ b) n = Some (a, b)"
  by (auto simp: take_bytes_def)

lemma take_bytes_Some: "take_bytes c n = Some (a, b) \<longleftrightarrow> c = a @ b \<and> length a = n"
  by (auto simp: take_bytes_def)

lemma take_bytes_short [simp]: "length c < n \<Longrightarrow> take_bytes c n = None"
  by (simp add: take_bytes_def)

subsection \<open>What the reader accepts\<close>

definition frame_of :: "u8 list \<Rightarrow> u8 list" where
  "frame_of p = to_be_bytes (length p) @ p"

definition fits :: "u8 list list \<Rightarrow> bool" where
  "fits ps = list_all (\<lambda>p. length p \<le> u32_max) ps"

lemma fits_simps [simp]: "fits []" "fits (p # ps) \<longleftrightarrow> length p \<le> u32_max \<and> fits ps"
  by (simp_all add: fits_def)

lemma read_one:
  assumes "length p \<le> u32_max"
  shows "read_frames de (Suc n) (frame_of p @ c) =
     (case de p of
        Inl err \<Rightarrow> Inl (Deserialize err)
      | Inr e \<Rightarrow> map_sum id (\<lambda>es. e # es) (read_frames de n c))"
  using assms by (auto simp: frame_of_def split: sum.splits)

lemma read_frames_iff:
  "read_frames de n c = Inr es \<longleftrightarrow>
     (\<exists>ps rest. length ps = n \<and> c = concat (map frame_of ps) @ rest \<and> fits ps
        \<and> map de ps = map Inr es)"
proof (induction n arbitrary: c es)
  case 0
  then show ?case by auto
next
  case (Suc n)
  show ?case
  proof
    assume read: "read_frames de (Suc n) c = Inr es"
    obtain lb c1 p c2 e es' where "take_bytes c 4 = Some (lb, c1)"
      and "take_bytes c1 (from_be_bytes lb) = Some (p, c2)" and de: "de p = Inr e"
      and rest: "read_frames de n c2 = Inr es'" and es: "es = e # es'"
      using read by (auto split: option.splits prod.splits sum.splits)
    then have c: "c = lb @ p @ c2" and lb: "length lb = 4" and p: "length p = from_be_bytes lb"
      by (auto simp: take_bytes_Some)
    from rest Suc.IH obtain ps r where "length ps = n" "c2 = concat (map frame_of ps) @ r"
      "fits ps" "map de ps = map Inr es'" by blast
    moreover have "length p \<le> u32_max" and "frame_of p = lb @ p"
      using from_be_bytes_bound [OF lb] by (simp_all add: frame_of_def p lb)
    ultimately show "\<exists>ps rest. length ps = Suc n \<and> c = concat (map frame_of ps) @ rest \<and> fits ps
        \<and> map de ps = map Inr es"
      by (intro exI [of _ "p # ps"] exI [of _ r]) (simp add: c de es)
  next
    assume "\<exists>ps rest. length ps = Suc n \<and> c = concat (map frame_of ps) @ rest \<and> fits ps
        \<and> map de ps = map Inr es"
    then obtain p ps rest e es' where ps: "length ps = n" "fits ps" "map de ps = map Inr es'"
      and p: "length p \<le> u32_max" "de p = Inr e" and es: "es = e # es'"
      and c: "c = frame_of p @ concat (map frame_of ps) @ rest"
      by (auto simp: length_Suc_conv map_eq_Cons_conv)
    have "read_frames de n (concat (map frame_of ps) @ rest) = Inr es'"
      using ps Suc.IH by blast
    then show "read_frames de (Suc n) c = Inr es"
      unfolding c read_one [OF p(1)] by (simp add: p(2) es)
  qed
qed

lemma frames_iff:
  "frames ser es = Inr out \<longleftrightarrow>
     (\<exists>ps. map ser es = map Inr ps \<and> fits ps \<and> out = concat (map frame_of ps))"
proof (induction es arbitrary: out)
  case Nil
  then show ?case by auto
next
  case (Cons e es)
  have "frames ser (e # es) = Inr out \<longleftrightarrow>
      (\<exists>p o'. ser e = Inr p \<and> length p \<le> u32_max \<and> frames ser es = Inr o' \<and> out = frame_of p @ o')"
    by (auto simp: frame_of_def split: sum.splits)
  also have "\<dots> \<longleftrightarrow>
      (\<exists>ps. map ser (e # es) = map Inr ps \<and> fits ps \<and> out = concat (map frame_of ps))"
    unfolding Cons.IH by (auto simp: Cons_eq_map_conv)
  finally show ?case .
qed

lemma read_frames_truncated:
  assumes "fits ps" and "map de ps = map Inr es" and "m < length (concat (map frame_of ps))"
  shows "read_frames de (length ps) (take m (concat (map frame_of ps))) = Inl Truncated"
  using assms
proof (induction ps arbitrary: es m)
  case Nil
  then show ?case by simp
next
  case (Cons p ps)
  obtain e es' where es: "es = e # es'" "de p = Inr e" "map de ps = map Inr es'"
    using Cons.prems(2) by (cases es) auto
  let ?rest = "concat (map frame_of ps)"
  show ?case
  proof (cases "m < length (frame_of p)")
    case True
    then have cut: "take m (concat (map frame_of (p # ps))) = take m (frame_of p)" by simp
    show ?thesis
    proof (cases "m < 4")
      case True
      then have "take_bytes (take m (frame_of p)) 4 = None" by simp
      then show ?thesis unfolding cut by simp
    next
      case False
      then have "take m (frame_of p) = to_be_bytes (length p) @ take (m - 4) p"
        by (simp add: frame_of_def)
      with True False Cons.prems(1) show ?thesis
        unfolding cut by (simp add: frame_of_def)
    qed
  next
    case False
    then have cut: "take m (concat (map frame_of (p # ps)))
        = frame_of p @ take (m - length (frame_of p)) ?rest" by simp
    have "read_frames de (length ps) (take (m - length (frame_of p)) ?rest) = Inl Truncated"
      using Cons.prems False by (intro Cons.IH [OF _ es(3)]) auto
    with Cons.prems(1) show ?thesis
      unfolding cut by (simp add: read_one es(2) del: read_frames.simps)
  qed
qed


subsection \<open>Properties of the framing\<close>

lemma decoded:
  assumes "map ser es = map Inr ps"
    and "\<And>e p. e \<in> set es \<Longrightarrow> ser e = Inr p \<Longrightarrow> de p = Inr e"
  shows "map de ps = map Inr es"
  using assms
proof (induction ps arbitrary: es)
  case Nil
  then show ?case by simp
next
  case (Cons p ps)
  then obtain e es' where "es = e # es'" "ser e = Inr p" "map ser es' = map Inr ps"
    by (cases es) auto
  with Cons show ?case by auto
qed

lemma from_bytes_iff:
  "from_bytes de bytes = Inr s \<longleftrightarrow>
     (\<exists>ps rest. bytes = MAGIC @ to_be_bytes (format_version s) @ to_be_bytes (length ps)
          @ concat (map frame_of ps) @ rest
        \<and> version_is_supported (format_version s) \<and> length ps \<le> u32_max \<and> fits ps
        \<and> map de ps = map Inr (snapshot_entries s))" (is "?l = ?r")
proof
  assume ?l
  then obtain c vb c1 cb c2 es where parts: "take_bytes bytes (length MAGIC) = Some (MAGIC, c)"
    "take_bytes c 4 = Some (vb, c1)" "take_bytes c1 4 = Some (cb, c2)"
    "version_is_supported (from_be_bytes vb)" "read_frames de (from_be_bytes cb) c2 = Inr es"
    and s: "s = \<lparr>format_version = from_be_bytes vb, snapshot_entries = es\<rparr>"
    by (auto simp: from_bytes_def split: option.splits prod.splits if_splits sum.splits)
  then have b: "bytes = MAGIC @ vb @ cb @ c2" and vb: "length vb = 4" and cb: "length cb = 4"
    by (auto simp: take_bytes_Some)
  from parts(5) obtain ps rest where "length ps = from_be_bytes cb" "fits ps"
    "c2 = concat (map frame_of ps) @ rest" "map de ps = map Inr es"
    unfolding read_frames_iff by blast
  with from_be_bytes_bound [OF cb] parts(4) show ?r
    by (intro exI [of _ ps] exI [of _ rest]) (simp add: b s vb cb)
next
  assume ?r
  then obtain ps rest where b: "bytes = MAGIC @ to_be_bytes (format_version s)
        @ to_be_bytes (length ps) @ concat (map frame_of ps) @ rest"
    and v: "version_is_supported (format_version s)" and n: "length ps \<le> u32_max"
    and ps: "fits ps" "map de ps = map Inr (snapshot_entries s)" by blast
  have "read_frames de (length ps) (concat (map frame_of ps) @ rest) = Inr (snapshot_entries s)"
    using ps unfolding read_frames_iff by blast
  moreover have "format_version s \<le> u32_max"
    using v by (simp add: version_is_supported_def version_defs u32_max_def)
  ultimately show ?l
    by (simp add: from_bytes_def b v n)
qed

lemma to_bytes_iff:
  "to_bytes ser s = Inr bytes \<longleftrightarrow>
     (\<exists>ps. length ps \<le> u32_max \<and> map ser (snapshot_entries s) = map Inr ps \<and> fits ps
        \<and> bytes = MAGIC @ to_be_bytes (format_version s) @ to_be_bytes (length ps)
            @ concat (map frame_of ps))"
proof -
  have len: "length ps = length es" if "map ser es = map Inr ps" for es and ps :: "u8 list list"
    using that by (metis length_map)
  have "to_bytes ser s = Inr bytes \<longleftrightarrow> length (snapshot_entries s) \<le> u32_max
      \<and> (\<exists>out. frames ser (snapshot_entries s) = Inr out
          \<and> bytes = MAGIC @ to_be_bytes (format_version s)
              @ to_be_bytes (length (snapshot_entries s)) @ out)"
    by (auto simp: to_bytes_def split: sum.splits)
  also have "\<dots> \<longleftrightarrow> (\<exists>ps. length ps \<le> u32_max
        \<and> map ser (snapshot_entries s) = map Inr ps \<and> fits ps
        \<and> bytes = MAGIC @ to_be_bytes (format_version s) @ to_be_bytes (length ps)
            @ concat (map frame_of ps))"
    unfolding frames_iff using len by fastforce
  finally show ?thesis .
qed

text \<open>
  The reader accepts exactly the documented framing: magic, a supported version, the entry count,
  that many length-prefixed frames whose payloads decode to the entries, and then anything at all
  (the two-phase-commit and data-key frames are left unread).
\<close>

theorem from_bytes_accepts_the_framing:
  "from_bytes de bytes = Inr s \<longleftrightarrow>
     (\<exists>ps rest. bytes = MAGIC @ to_be_bytes (format_version s) @ to_be_bytes (length ps)
          @ concat (map (\<lambda>p. to_be_bytes (length p) @ p) ps) @ rest
        \<and> 1 \<le> format_version s \<and> format_version s \<le> 6 \<and> length ps \<le> u32_max
        \<and> list_all (\<lambda>p. length p \<le> u32_max) ps
        \<and> map de ps = map Inr (snapshot_entries s))"
  unfolding from_bytes_iff
  by (simp add: frame_of_def [abs_def] fits_def version_is_supported_def version_defs)

text \<open>
  A snapshot survives the wire: whatever \<open>to_bytes\<close> produces, \<open>from_bytes\<close>
  reads back as the same snapshot, whether the stream ends there or continues, as long as the entry
  decoder inverts the entry encoder on the entries at hand.
\<close>

theorem snapshot_bytes_roundtrip:
  assumes "to_bytes ser s = Inr bytes" and "is_supported_version s"
    and "\<And>e p. e \<in> set (snapshot_entries s) \<Longrightarrow> ser e = Inr p \<Longrightarrow> de p = Inr e"
  shows "from_bytes de (bytes @ rest) = Inr s"
proof -
  from assms(1) obtain ps where ps: "length ps \<le> u32_max" "fits ps"
    "map ser (snapshot_entries s) = map Inr ps"
    and b: "bytes = MAGIC @ to_be_bytes (format_version s) @ to_be_bytes (length ps)
        @ concat (map frame_of ps)"
    unfolding to_bytes_iff by blast
  have "map de ps = map Inr (snapshot_entries s)"
    by (rule decoded [OF ps(3) assms(3)])
  with ps assms(2) show ?thesis
    unfolding from_bytes_iff b is_supported_version_def
    by (intro exI [of _ ps] exI [of _ rest]) simp
qed

text \<open>
  A handoff cut short anywhere is refused: every strict prefix of the serialized snapshot is
  rejected as truncated, and never read as a smaller snapshot.
\<close>

theorem truncated_snapshot_rejected:
  assumes "to_bytes ser s = Inr bytes" and "is_supported_version s"
    and "\<And>e p. e \<in> set (snapshot_entries s) \<Longrightarrow> ser e = Inr p \<Longrightarrow> de p = Inr e"
    and "m < length bytes"
  shows "from_bytes de (take m bytes) = Inl Truncated"
proof -
  from assms(1) obtain ps where ps: "length ps \<le> u32_max" "fits ps"
    "map ser (snapshot_entries s) = map Inr ps"
    and b: "bytes = MAGIC @ to_be_bytes (format_version s) @ to_be_bytes (length ps)
        @ concat (map frame_of ps)"
    unfolding to_bytes_iff by blast
  have de: "map de ps = map Inr (snapshot_entries s)"
    by (rule decoded [OF ps(3) assms(3)])
  have v: "version_is_supported (format_version s)" and vb: "format_version s \<le> u32_max"
    using assms(2) by (simp_all add: is_supported_version_def version_is_supported_def
        version_defs u32_max_def)
  consider "m < 8" | "8 \<le> m" "m < 12" | "12 \<le> m" "m < 16" | "16 \<le> m" by linarith
  then show ?thesis
  proof cases
    case 1
    then show ?thesis by (simp add: from_bytes_def b)
  next
    case 2
    then have "take m bytes = MAGIC @ take (m - 8) (to_be_bytes (format_version s))"
      by (simp add: b)
    with 2 show ?thesis by (simp add: from_bytes_def)
  next
    case 3
    then have "take m bytes = MAGIC @ to_be_bytes (format_version s)
        @ take (m - 12) (to_be_bytes (length ps))"
      by (simp add: b)
    with 3 show ?thesis by (simp add: from_bytes_def v vb)
  next
    case 4
    then have "take m bytes = MAGIC @ to_be_bytes (format_version s) @ to_be_bytes (length ps)
        @ take (m - 16) (concat (map frame_of ps))"
      by (simp add: b)
    moreover have "read_frames de (length ps) (take (m - 16) (concat (map frame_of ps)))
        = Inl Truncated"
      using 4 assms(4) by (intro read_frames_truncated [OF ps(2) de]) (simp add: b)
    ultimately show ?thesis by (simp add: from_bytes_def v vb ps(1))
  qed
qed


text \<open>A codec for the witnesses: one entry, encoded as the bytes of its key.\<close>

definition sample_snapshot_entry :: snapshot_entry where
  "sample_snapshot_entry =
     \<lparr>se_key = ''a'', se_value = None, se_definition = None, se_failure = None, se_guard = None,
      se_owner = None, se_version = Some 7, se_refresh_claim = None\<rparr>"

definition sample_ser :: "snapshot_entry \<Rightarrow> unit + u8 list" where
  "sample_ser e = (if e = sample_snapshot_entry then Inr [97] else Inl ())"

definition sample_de :: "u8 list \<Rightarrow> unit + snapshot_entry" where
  "sample_de p = (if p = [97] then Inr sample_snapshot_entry else Inl ())"

definition sample_bytes :: "u8 list" where
  "sample_bytes = MAGIC @ [0, 0, 0, 3, 0, 0, 0, 1, 0, 0, 0, 1, 97]"

lemma sample_to_bytes: "to_bytes sample_ser (from_entries [sample_snapshot_entry]) = Inr sample_bytes"
  by (simp add: to_bytes_def from_entries_def sample_ser_def sample_bytes_def to_be_bytes_def
      version_defs u32_max_def sample_snapshot_entry_def)

lemma sample_codec:
  "e \<in> set (snapshot_entries (from_entries [sample_snapshot_entry])) \<Longrightarrow> sample_ser e = Inr p \<Longrightarrow>
   sample_de p = Inr e"
  by (auto simp: from_entries_def sample_ser_def sample_de_def)

lemma sample_supported: "is_supported_version (from_entries [sample_snapshot_entry])"
  by (simp add: is_supported_version_def version_is_supported_def from_entries_def version_defs)

theorem snapshot_bytes_roundtrip_witness:
  "from_bytes sample_de (sample_bytes @ [1, 2, 3]) = Inr (from_entries [sample_snapshot_entry])"
  by (rule snapshot_bytes_roundtrip [OF sample_to_bytes sample_supported sample_codec])

theorem truncated_snapshot_rejected_witness:
  "from_bytes sample_de (take 20 sample_bytes) = Inl Truncated"
  by (rule truncated_snapshot_rejected [OF sample_to_bytes sample_supported sample_codec])
    (simp_all add: sample_bytes_def)

text \<open>
  The version follows the content and nothing else.  It is the least one that an older build must
  refuse when it could not enforce what the entries carry: 5 exactly when an owner travels, 3 when a
  version or a claim does but no owner, 2 when only guards do, 1 otherwise.  It is always readable
  by this build, and never promises a data-key frame.
\<close>

theorem from_entries_version:
  "format_version (from_entries es) =
     (if list_all (\<lambda>e. se_owner e = None) es
      then if list_all (\<lambda>e. se_version e = None \<and> se_refresh_claim e = None) es
           then if list_all (\<lambda>e. se_guard e = None) es then 1 else 2
           else 3
      else 5)
   \<and> is_supported_version (from_entries es)
   \<and> \<not> declares_dek_frame (from_entries es)
   \<and> snapshot_entries (from_entries es) = es"
  by (auto simp: from_entries_def Let_def list_ex_iff list_all_iff is_supported_version_def
      version_is_supported_def declares_dek_frame_def version_defs)

lemma read_dek_frame_iff:
  "read_dek_frame bytes = Some k \<longleftrightarrow>
     (\<exists>pre. bytes = pre @ DEK_FRAME_MAGIC @ to_be_bytes 32 @ k \<and> length k = 32)" (is "?l = ?r")
proof
  assume ?l
  define t where "t = drop (length bytes - 44) bytes"
  from \<open>?l\<close> have len: "44 \<le> length bytes" and m: "take 8 t = DEK_FRAME_MAGIC"
    and n: "from_be_bytes (take 4 (drop 8 t)) = 32"
    and k: "k = take 32 (drop 4 (drop 8 t))"
    by (auto simp: read_dek_frame_def DEK_FRAME_LEN_def Let_def t_def add.commute split: if_splits)
  have l: "length t = 44" using len by (simp add: t_def)
  then have four: "length (take 4 (drop 8 t)) = 4" by simp
  have "bytes = take (length bytes - 44) bytes @ t" by (simp add: t_def)
  moreover have "t = take 8 t @ take 4 (drop 8 t) @ drop 4 (drop 8 t)"
    by (simp only: append_take_drop_id)
  moreover have "take 4 (drop 8 t) = to_be_bytes 32"
    using to_from_be_bytes [OF four] unfolding n by (rule sym)
  moreover have "drop 4 (drop 8 t) = k" and "length k = 32"
    using l by (simp_all add: k)
  ultimately have "bytes = take (length bytes - 44) bytes @ DEK_FRAME_MAGIC @ to_be_bytes 32 @ k"
    unfolding m by metis
  with \<open>length k = 32\<close> show ?r by blast
next
  assume ?r
  then show ?l
    by (auto simp: read_dek_frame_def DEK_FRAME_LEN_def u32_max_def)
qed

text \<open>
  A data key is read from the last 44 bytes or not at all.  What an attacker plants inside the entry
  payloads cannot be mistaken for it: the reader returns a key exactly when the stream ends with the
  frame magic, the length 32 and that key.
\<close>

theorem dek_frame_only_at_the_end:
  "read_dek_frame bytes = Some k \<longleftrightarrow>
     (\<exists>pre. bytes = pre @ DEK_FRAME_MAGIC @ [0, 0, 0, 32] @ k \<and> length k = 32)"
  unfolding read_dek_frame_iff by (simp add: to_be_bytes_def)

text \<open>
  The data key travels with the snapshot: after declaring and appending the frame, the successor
  reads the same entries, is told that a frame follows, and reads back the 32-byte key.
\<close>

theorem dek_handoff:
  assumes "to_bytes ser (declare_dek_frame s) = Inr bytes" and "length dek = 32"
    and "\<And>e p. e \<in> set (snapshot_entries s) \<Longrightarrow> ser e = Inr p \<Longrightarrow> de p = Inr e"
  shows "from_bytes de (append_dek_frame bytes dek) = Inr (declare_dek_frame s)
    \<and> declares_dek_frame (declare_dek_frame s)
    \<and> read_dek_frame (append_dek_frame bytes dek) = Some dek"
proof -
  from assms(1) obtain ps where ps: "length ps \<le> u32_max" "fits ps"
    "map ser (snapshot_entries s) = map Inr ps"
    and b: "bytes = MAGIC @ to_be_bytes 6 @ to_be_bytes (length ps) @ concat (map frame_of ps)"
    unfolding to_bytes_iff by (auto simp: declare_dek_frame_def version_defs)
  have "map de ps = map Inr (snapshot_entries s)"
    by (rule decoded [OF ps(3) assms(3)])
  with ps have "from_bytes de (append_dek_frame bytes dek) = Inr (declare_dek_frame s)"
    unfolding from_bytes_iff
    by (intro exI [of _ ps] exI [of _ "DEK_FRAME_MAGIC @ to_be_bytes (length dek) @ dek"])
      (simp add: b append_dek_frame_def declare_dek_frame_def version_defs version_is_supported_def)
  moreover have "read_dek_frame (append_dek_frame bytes dek) = Some dek"
    unfolding read_dek_frame_iff append_dek_frame_def using assms(2) by (intro exI [of _ bytes]) simp
  ultimately show ?thesis
    by (simp add: declares_dek_frame_def declare_dek_frame_def)
qed

theorem dek_handoff_witness:
  "\<exists>bytes. to_bytes sample_ser (declare_dek_frame (from_entries [sample_snapshot_entry])) = Inr bytes
     \<and> read_dek_frame (append_dek_frame bytes (replicate 32 5)) = Some (replicate 32 5)"
proof -
  have "\<exists>bytes. to_bytes sample_ser (declare_dek_frame (from_entries [sample_snapshot_entry])) = Inr bytes"
    by (simp add: to_bytes_def declare_dek_frame_def from_entries_def sample_ser_def u32_max_def)
  then obtain bytes where
    b: "to_bytes sample_ser (declare_dek_frame (from_entries [sample_snapshot_entry])) = Inr bytes" ..
  have "length (replicate 32 (5 :: u8)) = 32" by simp
  from dek_handoff [where de = sample_de, OF b this sample_codec] b show ?thesis by blast
qed

end
