(* ===== verification/Handoff.thy ===== *)
theory Handoff
  imports Store Snapshot
begin

text \<open>
  The two traversals of a graceful restart (\<open>store.rs\<close>: \<open>export_snapshot\<close>, \<open>import_snapshot\<close> and
  the guard and claim converters): a live store becomes a snapshot with wall-clock timestamps, and a
  snapshot becomes a fresh store or an error.
\<close>

subsection \<open>Converters\<close>

definition refresh_claim_to_snapshot :: "refresh_claim \<Rightarrow> snapshot_refresh_claim" where
  "refresh_claim_to_snapshot c =
     \<lparr>sr_token = claim_token c, sr_claimed_at_epoch_ms = claimed_at_epoch_ms c,
      sr_expires_at_epoch_ms = expires_at_epoch_ms c\<rparr>"

definition snapshot_to_refresh_claim :: "snapshot_refresh_claim \<Rightarrow> refresh_claim" where
  "snapshot_to_refresh_claim c =
     refresh_claim_new (sr_token c) (sr_claimed_at_epoch_ms c) (sr_expires_at_epoch_ms c)"

fun declared_to_snapshot :: "declared_ancestor \<Rightarrow> snapshot_declared_ancestor" where
  "declared_to_snapshot (SameShell n) = SnapSameShell n"
| "declared_to_snapshot (Named n) = SnapNamed n"

fun snapshot_to_declared :: "snapshot_declared_ancestor \<Rightarrow> declared_ancestor" where
  "snapshot_to_declared (SnapSameShell n) = SameShell n"
| "snapshot_to_declared (SnapNamed n) = Named n"

fun constraint_to_snapshot :: "guard_constraint \<Rightarrow> snapshot_constraint" where
  "constraint_to_snapshot SameUser = SnapSameUser"
| "constraint_to_snapshot (SameAncestor d p) =
     SnapSameAncestor (declared_to_snapshot d)
       \<lparr>sp_pid = pinned_pid p,
        sp_start_time_us = map_option (\<lambda>t. as_u64 (as_micros t)) (pinned_start_time p),
        sp_unique_id = pinned_unique_id p, sp_path = pinned_path p, sp_name = pinned_name p\<rparr>"
| "constraint_to_snapshot (CommandNamed n) = SnapCommandNamed n"

fun snapshot_to_constraint :: "snapshot_constraint \<Rightarrow> guard_constraint" where
  "snapshot_to_constraint SnapSameUser = SameUser"
| "snapshot_to_constraint (SnapSameAncestor d p) =
     SameAncestor (snapshot_to_declared d)
       \<lparr>pinned_pid = sp_pid p,
        pinned_start_time = map_option from_micros (sp_start_time_us p),
        pinned_unique_id = sp_unique_id p, pinned_path = sp_path p, pinned_name = sp_name p\<rparr>"
| "snapshot_to_constraint (SnapCommandNamed n) = CommandNamed n"

definition guard_record_to_snapshot :: "guard_record \<Rightarrow> snapshot_guard" where
  "guard_record_to_snapshot g =
     \<lparr>sg_constraints = map constraint_to_snapshot (constraints g),
      sg_setter_euid = euid (setter g), sg_setter_ruid = ruid (setter g)\<rparr>"

definition snapshot_to_guard_record :: "snapshot_guard \<Rightarrow> guard_record" where
  "snapshot_to_guard_record s =
     guard_record_new (map snapshot_to_constraint (sg_constraints s))
       \<lparr>euid = sg_setter_euid s, ruid = sg_setter_ruid s\<rparr>"

subsection \<open>Exporting\<close>

definition ttl_ms :: "duration option \<Rightarrow> nat option" where
  "ttl_ms = map_option (\<lambda>d. as_u64 (as_millis d))"

text \<open>\<open>t\<close> is the clock reading of this key's liveness test.\<close>

definition export_value ::
  "store \<Rightarrow> (monotonic \<Rightarrow> nat) \<Rightarrow> monotonic \<Rightarrow> string \<Rightarrow> snapshot_value option"
where
  "export_value s to_epoch_ms t k =
     (case fmlookup (entries s) k of
        None \<Rightarrow> None
      | Some e \<Rightarrow>
          (if state e t = HardExpired then None
           else (case peek_value e of
                   None \<Rightarrow> None
                 | Some secret \<Rightarrow>
                     Some \<lparr>sv_source = from_value_source (entry_source e),
                           sv_secret = with_exposed secret (\<lambda>b. b),
                           sv_soft_ttl_ms = ttl_ms (ttl_soft (entry_ttl e)),
                           sv_hard_ttl_ms = ttl_ms (ttl_hard (entry_ttl e)),
                           sv_loaded_at_epoch_ms = to_epoch_ms (loaded_at e),
                           sv_extended_at_epoch_ms = to_epoch_ms (extended_at e),
                           sv_pin_deadline_epoch_ms = map_option to_epoch_ms (pin_deadline e)\<rparr>)))"

definition export_definition :: "definition_record \<Rightarrow> snapshot_definition" where
  "export_definition d =
     (let (label, ps) = value_meta_into_parts (def_meta d);
          (kd, fs) = source_meta_into_parts (def_source_meta d)
      in \<lparr>sd_source = from_value_source (def_source d),
          sd_soft_ttl_ms = ttl_ms (ttl_soft (def_ttl d)),
          sd_hard_ttl_ms = ttl_ms (ttl_hard (def_ttl d)),
          sd_value_meta_type = label, sd_value_meta_params = ps,
          sd_source_meta_kind = kd, sd_source_meta_fields = fs\<rparr>)"

definition export_failure :: "(monotonic \<Rightarrow> nat) \<Rightarrow> failure_record \<Rightarrow> snapshot_failure" where
  "export_failure to_epoch_ms r =
     \<lparr>sf_failed_at_epoch_ms = to_epoch_ms (failed_at r),
      sf_retry_after_ms = as_u64 (as_millis (retry_after r))\<rparr>"

definition export_key ::
  "store \<Rightarrow> (monotonic \<Rightarrow> nat) \<Rightarrow> monotonic \<Rightarrow> string \<Rightarrow> snapshot_entry option"
where
  "export_key s to_epoch_ms t k =
     (let val = export_value s to_epoch_ms t k;
          def = map_option export_definition (fmlookup (definitions s) k);
          failure = map_option (export_failure to_epoch_ms) (fmlookup (failure_backoffs s) k);
          guard = (if val \<noteq> None
                   then map_option guard_record_to_snapshot (fmlookup (access_guards s) k)
                   else None);
          claim = (if val \<noteq> None
                   then map_option refresh_claim_to_snapshot (fmlookup (refresh_claims s) k)
                   else None);
          version = (case fmlookup (versions s) k of
                       Some v \<Rightarrow> (if 0 < v then Some v else None)
                     | None \<Rightarrow> None)
      in if val = None \<and> def = None \<and> failure = None \<and> guard = None \<and> version = None then None
         else Some \<lparr>se_key = k, se_value = val, se_definition = def, se_failure = failure,
                    se_guard = guard, se_owner = fmlookup (owners s) k, se_version = version,
                    se_refresh_claim = claim\<rparr>)"

definition export_keys :: "store \<Rightarrow> string list" where
  "export_keys s =
     remdups_adj (sort (btree_keys (entries s) @ btree_keys (definitions s)
                        @ btree_keys (failure_backoffs s)))"

text \<open>Readings: 0 the anchor, \<open>Suc i\<close> the liveness test of the i-th key.\<close>

definition export_entries :: "store \<Rightarrow> nat \<Rightarrow> clock \<Rightarrow> snapshot_entry list" where
  "export_entries s wall clk =
     List.map_filter
       (\<lambda>(i, k). export_key s (monotonic_to_epoch_ms (clk 0) wall) (clk (Suc i)) k)
       (enumerate 0 (export_keys s))"

definition export_snapshot ::
  "store \<Rightarrow> capability \<Rightarrow> duration option \<Rightarrow> clock \<Rightarrow> 'e export_error + store_snapshot"
where
  "export_snapshot s cap since_epoch clk =
     (case check_cap s cap of
        Inl _ \<Rightarrow> Inl ExportCapMismatch
      | Inr _ \<Rightarrow> Inr (from_entries (export_entries s (wall_now_epoch_ms since_epoch) clk)))"

subsection \<open>Importing\<close>

definition import_value ::
  "mlock \<Rightarrow> monotonic \<Rightarrow> nat \<Rightarrow> string \<Rightarrow> snapshot_value \<Rightarrow> 'd import_error + cache_entry"
where
  "import_value mlock now wall k v =
     (case ttl_new (map_option from_millis (sv_soft_ttl_ms v))
                   (map_option from_millis (sv_hard_ttl_ms v)) of
        Inl _ \<Rightarrow> Inl (MalformedTtl k)
      | Inr t \<Rightarrow>
          (let loaded = epoch_ms_to_monotonic_ttl_basis now wall (sv_loaded_at_epoch_ms v);
               extended = epoch_ms_to_monotonic_ttl_basis now wall (sv_extended_at_epoch_ms v)
           in if extended < loaded then Inl (MalformedTtl k)
              else Inr (from_parts (into_value_source (sv_source v)) t
                          (secret_new mlock (sv_secret v)) loaded extended
                          (map_option (epoch_ms_to_monotonic now wall)
                             (sv_pin_deadline_epoch_ms v)))))"

definition import_definition :: "string \<Rightarrow> snapshot_definition \<Rightarrow> 'd import_error + definition_record" where
  "import_definition k d =
     (case ttl_new (map_option from_millis (sd_soft_ttl_ms d))
                   (map_option from_millis (sd_hard_ttl_ms d)) of
        Inl _ \<Rightarrow> Inl (MalformedTtl k)
      | Inr t \<Rightarrow>
          (let vm = value_meta_from_parts (sd_value_meta_type d) (sd_value_meta_params d);
               sm = source_meta_from_parts (sd_source_meta_kind d) (sd_source_meta_fields d)
           in case definition_new (into_value_source (sd_source d)) t of
                Inl _ \<Rightarrow> Inl (MalformedDefinition k)
              | Inr def \<Rightarrow> Inr (def_with_source_meta (def_with_meta def vm) sm)))"

definition import_failure :: "monotonic \<Rightarrow> nat \<Rightarrow> snapshot_failure \<Rightarrow> failure_record" where
  "import_failure now wall f =
     \<lparr>failed_at = epoch_ms_to_monotonic_for_failure now wall (sf_failed_at_epoch_ms f),
      retry_after = from_millis (sf_retry_after_ms f)\<rparr>"

text \<open>
  The side maps of one entry, in the order the loop installs them; a guard and a claim only beside a
  value that is there.
\<close>

definition import_sides :: "monotonic \<Rightarrow> nat \<Rightarrow> snapshot_entry \<Rightarrow> store \<Rightarrow> store" where
  "import_sides now wall e s =
     (let k = se_key e;
          s1 = (case se_failure e of
                  None \<Rightarrow> s
                | Some f \<Rightarrow> s\<lparr>failure_backoffs :=
                    fmupd k (import_failure now wall f) (failure_backoffs s)\<rparr>);
          s2 = (case se_guard e of
                  None \<Rightarrow> s1
                | Some g \<Rightarrow>
                    (if fmlookup (entries s1) k \<noteq> None
                     then s1\<lparr>access_guards := fmupd k (snapshot_to_guard_record g) (access_guards s1)\<rparr>
                     else s1));
          s3 = (case se_owner e of
                  None \<Rightarrow> s2
                | Some own \<Rightarrow> s2\<lparr>owners := fmupd k own (owners s2)\<rparr>);
          s4 = (case se_version e of
                  None \<Rightarrow> s3
                | Some v \<Rightarrow>
                    (if 0 < v then s3\<lparr>versions := fmupd k v (versions s3)\<rparr> else s3))
      in (case se_refresh_claim e of
            None \<Rightarrow> s4
          | Some c \<Rightarrow>
              (if fmlookup (entries s4) k \<noteq> None
               then s4\<lparr>refresh_claims :=
                         fmupd k (snapshot_to_refresh_claim c) (refresh_claims s4)\<rparr>
               else s4)))"

definition import_entry ::
  "mlock \<Rightarrow> monotonic \<Rightarrow> nat \<Rightarrow> string set \<Rightarrow> snapshot_entry \<Rightarrow> store \<Rightarrow> 'd import_error + store"
where
  "import_entry mlock now wall seen e s =
     (let k = se_key e in
      case validate_key_syntax k of
        Inl _ \<Rightarrow> Inl (ImportInvalidKey k)
      | Inr _ \<Rightarrow>
     (if k \<in> seen then Inl (DuplicateKey k)
      else
     (case (case se_value e of
              None \<Rightarrow> Inr s
            | Some v \<Rightarrow>
                map_sum id (\<lambda>ce. s\<lparr>entries := fmupd k ce (entries s)\<rparr>)
                  (import_value mlock now wall k v)) of
        Inl err \<Rightarrow> Inl err
      | Inr s1 \<Rightarrow>
     (case (case se_definition e of
              None \<Rightarrow> Inr s1
            | Some d \<Rightarrow>
                map_sum id (\<lambda>def. s1\<lparr>definitions := fmupd k def (definitions s1)\<rparr>)
                  (import_definition k d)) of
        Inl err \<Rightarrow> Inl err
      | Inr s2 \<Rightarrow> Inr (import_sides now wall e s2)))))"

fun import_entries ::
  "mlock \<Rightarrow> monotonic \<Rightarrow> nat \<Rightarrow> string set \<Rightarrow> snapshot_entry list \<Rightarrow> store \<Rightarrow> 'd import_error + store"
where
  "import_entries mlock now wall seen [] s = Inr s"
| "import_entries mlock now wall seen (e # es) s =
     (case import_entry mlock now wall seen e s of
        Inl err \<Rightarrow> Inl err
      | Inr s' \<Rightarrow> import_entries mlock now wall (insert (se_key e) seen) es s')"

text \<open>The random offset and the counter are those of \<open>StoreBuilder::build\<close>.\<close>

definition import_snapshot ::
  "mlock \<Rightarrow> 64 word \<Rightarrow> 64 word \<Rightarrow> store_builder \<Rightarrow> store_snapshot \<Rightarrow> duration option \<Rightarrow> clock
   \<Rightarrow> 'd import_error + store_bundle"
where
  "import_snapshot mlock random_offset counter builder snap since_epoch clk =
     (if \<not> is_supported_version snap
      then Inl (UnsupportedVersion (format_version snap) FORMAT_VERSION)
      else (let bundle = store_build builder random_offset counter in
            case import_entries mlock (clk 0) (wall_now_epoch_ms since_epoch) {}
                   (snapshot_entries snap) (bundle_store bundle) of
              Inl err \<Rightarrow> Inl err
            | Inr s \<Rightarrow> Inr (bundle\<lparr>bundle_store := s\<rparr>)))"

end
