(* ===== verification/Handoff_Props.thy ===== *)
theory Handoff_Props
  imports Handoff Store_Props
begin

text \<open>
  What a graceful restart preserves: the guard round trip, what export leaves out, what import
  accepts, and the composition of both, key by key.
\<close>

subsection \<open>Guards through a snapshot\<close>

definition micros_ok :: "guard_constraint \<Rightarrow> bool" where
  "micros_ok c =
     (case c of
        SameAncestor d p \<Rightarrow>
          (case pinned_start_time p of
             None \<Rightarrow> True
           | Some t \<Rightarrow> t mod 1000 = 0 \<and> as_micros t \<le> u64_max)
      | _ \<Rightarrow> True)"

lemma declared_roundtrip [simp]: "snapshot_to_declared (declared_to_snapshot d) = d"
  by (cases d) simp_all

lemma constraint_roundtrip:
  "micros_ok c \<Longrightarrow> snapshot_to_constraint (constraint_to_snapshot c) = c"
  by (cases c) (auto simp: micros_ok_def as_micros_def from_micros_def intro!: pinned_process.equality
      split: option.splits)

text \<open>
  A guard survives a restart unchanged: the declared constraints in their order, every pinned
  process with its pid, path, name, unique id and start time, and the setter's uids, for start times
  of microsecond precision, which is what the operating system reports.
\<close>

theorem guard_snapshot_roundtrip:
  assumes "list_all micros_ok (constraints g)"
  shows "snapshot_to_guard_record (guard_record_to_snapshot g) = g"
proof -
  have "map (snapshot_to_constraint \<circ> constraint_to_snapshot) (constraints g) = constraints g"
    using assms by (intro map_idI) (simp add: list_all_iff constraint_roundtrip)
  then show ?thesis
    by (simp add: snapshot_to_guard_record_def guard_record_to_snapshot_def guard_record_new_def)
qed

definition demo_guard :: guard_record where
  "demo_guard = guard_record_new
     [SameUser,
      SameAncestor (Named ''code'')
        \<lparr>pinned_pid = 42, pinned_start_time = Some 1700000000123456000, pinned_unique_id = None,
         pinned_path = ''/usr/bin/code'', pinned_name = ''code''\<rparr>]
     \<lparr>euid = 501, ruid = 501\<rparr>"

theorem guard_snapshot_roundtrip_witness:
  "snapshot_to_guard_record (guard_record_to_snapshot demo_guard) = demo_guard"
  by (rule guard_snapshot_roundtrip)
    (simp add: demo_guard_def guard_record_new_def micros_ok_def as_micros_def u64_max_def)

lemma claim_snapshot_roundtrip [simp]:
  "snapshot_to_refresh_claim (refresh_claim_to_snapshot c) = c"
  by (simp add: snapshot_to_refresh_claim_def refresh_claim_to_snapshot_def refresh_claim_new_def)

subsection \<open>What is exported\<close>

lemma export_keys_set:
  "set (export_keys s) =
     {k. fmlookup (entries s) k \<noteq> None \<or> fmlookup (definitions s) k \<noteq> None
         \<or> fmlookup (failure_backoffs s) k \<noteq> None}"
  by (auto simp: export_keys_def fmdom_iff)

lemma export_keys_distinct: "distinct (export_keys s)"
  by (simp add: export_keys_def distinct_remdups_adj)

lemma export_key_key: "export_key s f t k = Some e \<Longrightarrow> se_key e = k"
  by (auto simp: export_key_def Let_def split: if_splits)

lemma export_entries_iff:
  "e \<in> set (export_entries s wall clk) \<longleftrightarrow>
     (\<exists>i < length (export_keys s).
        export_key s (monotonic_to_epoch_ms (clk 0) wall) (clk (Suc i)) (export_keys s ! i) = Some e)"
proof -
  have "set (enumerate 0 (export_keys s)) = {(i, export_keys s ! i) | i. i < length (export_keys s)}"
    by (auto simp: in_set_enumerate_eq)
  then show ?thesis
    by (auto simp: export_entries_def List.map_filter_def image_iff)
qed

lemma export_entries_distinct: "distinct (map se_key (export_entries s wall clk))"
proof -
  let ?f = "\<lambda>(i, k). export_key s (monotonic_to_epoch_ms (clk 0) wall) (clk (Suc i)) k"
  let ?xs = "enumerate 0 (export_keys s)"
  have keys: "map se_key (map (the \<circ> ?f) (filter (\<lambda>x. ?f x \<noteq> None) ?xs))
      = map snd (filter (\<lambda>x. ?f x \<noteq> None) ?xs)"
    by (auto dest: export_key_key)
  have "distinct (map snd ?xs)"
    by (simp add: export_keys_distinct)
  then have "distinct (map snd (filter (\<lambda>x. ?f x \<noteq> None) ?xs))"
    by (rule distinct_map_filter)
  then show ?thesis unfolding export_entries_def List.map_filter_def keys .
qed

text \<open>
  Nothing hard-expired leaves the process.  Every plaintext in a snapshot belongs to an entry that
  was not hard-expired when its liveness was tested, under the same key and byte for byte; and a
  guard or a refresh claim travels only with such a value.  No key travels twice.
\<close>

theorem export_only_live_values:
  assumes "export_snapshot s cap since_epoch clk = Inr snap"
  shows "authorized s cap \<and> distinct (map se_key (snapshot_entries snap))
    \<and> (\<forall>e \<in> set (snapshot_entries snap).
        (case se_value e of
           None \<Rightarrow> se_guard e = None \<and> se_refresh_claim e = None
         | Some v \<Rightarrow>
             (\<exists>i ce secret. fmlookup (entries s) (se_key e) = Some ce \<and> state ce (clk i) \<noteq> HardExpired
                \<and> entry_value ce = Some secret \<and> sv_secret v = data secret)))"
proof -
  let ?wall = "wall_now_epoch_ms since_epoch"
  from assms have auth: "authorized s cap"
    and snap: "snap = from_entries (export_entries s ?wall clk)"
    by (auto simp: export_snapshot_def check_cap_def authorized_def split: sum.splits if_splits)
  have es: "snapshot_entries snap = export_entries s ?wall clk"
    by (simp add: snap from_entries_def Let_def)
  have "case se_value e of
           None \<Rightarrow> se_guard e = None \<and> se_refresh_claim e = None
         | Some v \<Rightarrow>
             (\<exists>i ce secret. fmlookup (entries s) (se_key e) = Some ce \<and> state ce (clk i) \<noteq> HardExpired
                \<and> entry_value ce = Some secret \<and> sv_secret v = data secret)"
    if "e \<in> set (snapshot_entries snap)" for e
  proof -
    from that obtain i where "export_key s (monotonic_to_epoch_ms (clk 0) ?wall) (clk (Suc i))
        (export_keys s ! i) = Some e"
      unfolding es export_entries_iff by blast
    then show ?thesis
      by (auto simp: export_key_def export_value_def Let_def peek_value_def with_exposed_def
          split: if_splits option.splits)
  qed
  then show ?thesis
    using auth export_entries_distinct [of s ?wall clk] by (simp add: es)
qed


theorem export_only_live_values_witness:
  "\<exists>snap. export_snapshot (after demo_store (demo_clock 50) demo_fetch) demo_cap (Some 0) (demo_clock 50)
      = (Inr snap :: unit export_error + store_snapshot)
      \<and> distinct (map se_key (snapshot_entries snap))"
proof -
  have "authorized (after demo_store (demo_clock 50) demo_fetch) demo_cap"
    using calls_touch_one_key [of demo_fetch demo_store "demo_clock 50"] demo_authorized
    by (simp add: authorized_def del: perform.simps)
  then obtain snap where "export_snapshot (after demo_store (demo_clock 50) demo_fetch) demo_cap
      (Some 0) (demo_clock 50) = (Inr snap :: unit export_error + store_snapshot)"
    by (simp add: export_snapshot_def del: perform.simps)
  from this export_only_live_values [OF this] show ?thesis by blast
qed

subsection \<open>What one imported entry becomes\<close>

lemma import_sides_slot:
  "slot (import_sides now wall e s) k =
     (if k = se_key e
      then (fmlookup (entries s) k, fmlookup (definitions s) k,
            (case se_failure e of None \<Rightarrow> fmlookup (failure_backoffs s) k
             | Some f \<Rightarrow> Some (import_failure now wall f)),
            (case se_guard e of None \<Rightarrow> fmlookup (access_guards s) k
             | Some g \<Rightarrow> if fmlookup (entries s) k \<noteq> None then Some (snapshot_to_guard_record g)
                         else fmlookup (access_guards s) k),
            (case se_owner e of None \<Rightarrow> fmlookup (owners s) k | Some own \<Rightarrow> Some own),
            (case se_version e of None \<Rightarrow> fmlookup (versions s) k
             | Some v \<Rightarrow> if 0 < v then Some v else fmlookup (versions s) k),
            (case se_refresh_claim e of None \<Rightarrow> fmlookup (refresh_claims s) k
             | Some c \<Rightarrow> if fmlookup (entries s) k \<noteq> None then Some (snapshot_to_refresh_claim c)
                         else fmlookup (refresh_claims s) k))
      else slot s k)"
  by (cases "se_failure e"; cases "se_guard e"; cases "se_owner e"; cases "se_version e";
      cases "se_refresh_claim e") (auto simp: import_sides_def Let_def slot_def)

lemma import_sides_frame [simp]:
  "access_token (import_sides now wall e s) = access_token s"
  "failure_backoff_duration (import_sides now wall e s) = failure_backoff_duration s"
  by (simp_all add: import_sides_def Let_def split: option.split)

text \<open>The slot of a key after the import of its entry, given its value and definition.\<close>

definition installed_slot ::
  "monotonic \<Rightarrow> nat \<Rightarrow> snapshot_entry \<Rightarrow> cache_entry option \<Rightarrow> definition_record option
   \<Rightarrow> cache_entry option \<times> definition_record option \<times> failure_record option
      \<times> guard_record option \<times> owner_principal option \<times> nat option \<times> refresh_claim option"
where
  "installed_slot now wall e val def =
     (val, def, map_option (import_failure now wall) (se_failure e),
      (if val = None then None else map_option snapshot_to_guard_record (se_guard e)),
      se_owner e,
      (case se_version e of None \<Rightarrow> None | Some v \<Rightarrow> if 0 < v then Some v else None),
      (if val = None then None else map_option snapshot_to_refresh_claim (se_refresh_claim e)))"

abbreviation empty_slot ::
  "cache_entry option \<times> definition_record option \<times> failure_record option
     \<times> guard_record option \<times> owner_principal option \<times> nat option \<times> refresh_claim option"
where
  "empty_slot \<equiv> (None, None, None, None, None, None, None)"

text \<open>How the value and the definition of an entry read: \<open>None\<close> inside \<open>Inr\<close> when absent.\<close>

definition read_value ::
  "mlock \<Rightarrow> monotonic \<Rightarrow> nat \<Rightarrow> snapshot_entry \<Rightarrow> 'd import_error + cache_entry option"
where
  "read_value mlock now wall e =
     (case se_value e of
        None \<Rightarrow> Inr None
      | Some v \<Rightarrow> map_sum id Some (import_value mlock now wall (se_key e) v))"

definition read_definition :: "snapshot_entry \<Rightarrow> 'd import_error + definition_record option" where
  "read_definition e =
     (case se_definition e of
        None \<Rightarrow> Inr None
      | Some d \<Rightarrow> map_sum id Some (import_definition (se_key e) d))"

definition put_read :: "string \<Rightarrow> cache_entry option \<Rightarrow> definition_record option \<Rightarrow> store \<Rightarrow> store" where
  "put_read k val def s =
     s\<lparr>entries := (case val of None \<Rightarrow> entries s | Some ce \<Rightarrow> fmupd k ce (entries s)),
       definitions := (case def of None \<Rightarrow> definitions s | Some d \<Rightarrow> fmupd k d (definitions s))\<rparr>"

lemma put_read_frame [simp]:
  "access_token (put_read k val def s) = access_token s"
  "failure_backoff_duration (put_read k val def s) = failure_backoff_duration s"
  by (simp_all add: put_read_def)

lemma slot_put_read:
  "slot (put_read k val def s) k' =
     (if k' = k
      then ((case val of None \<Rightarrow> fmlookup (entries s) k | Some ce \<Rightarrow> Some ce),
            (case def of None \<Rightarrow> fmlookup (definitions s) k | Some d \<Rightarrow> Some d), snd (snd (slot s k)))
      else slot s k')"
  by (simp add: put_read_def slot_def split: option.split)

lemma map_sum_case: "map_sum id f r = (case r of Inl e \<Rightarrow> Inl e | Inr x \<Rightarrow> Inr (f x))"
  by (cases r) simp_all

lemma import_entry_eq:
  "import_entry mlock now wall seen e s =
     (if \<not> valid_key (se_key e) then Inl (ImportInvalidKey (se_key e))
      else if se_key e \<in> seen then Inl (DuplicateKey (se_key e))
      else (case read_value mlock now wall e of
              Inl err \<Rightarrow> Inl err
            | Inr val \<Rightarrow>
                (case read_definition e of
                   Inl err \<Rightarrow> Inl err
                 | Inr def \<Rightarrow> Inr (import_sides now wall e (put_read (se_key e) val def s)))))"
  by (cases "se_value e"; cases "se_definition e")
    (auto simp: import_entry_def validate_key_syntax_cases read_value_def read_definition_def
      put_read_def map_sum_case Let_def split: sum.splits)

lemma sides_on_fresh:
  "slot p (se_key e) = (val, def, None, None, None, None, None) \<Longrightarrow>
   slot (import_sides now wall e p) (se_key e) = installed_slot now wall e val def"
  unfolding import_sides_slot
  by (simp add: slot_def) (auto simp: installed_slot_def split: option.split)

lemma installed_slot_after:
  "slot s (se_key e) = empty_slot \<Longrightarrow>
   slot (import_sides now wall e (put_read (se_key e) val def s)) (se_key e)
      = installed_slot now wall e val def"
  by (rule sides_on_fresh) (simp add: slot_put_read, simp add: slot_def split: option.split)

lemma import_entry_Inr:
  assumes "import_entry mlock now wall seen e s = (Inr s' :: 'd import_error + store)"
    and "slot s (se_key e) = empty_slot"
  obtains val def where
    "valid_key (se_key e)" "se_key e \<notin> seen"
    "read_value mlock now wall e = (Inr val :: 'd import_error + cache_entry option)"
    "read_definition e = (Inr def :: 'd import_error + definition_record option)"
    "slot s' (se_key e) = installed_slot now wall e val def"
    "\<And>k. k \<noteq> se_key e \<Longrightarrow> slot s' k = slot s k"
    "access_token s' = access_token s"
    "failure_backoff_duration s' = failure_backoff_duration s"
proof -
  from assms(1) obtain val def where r: "valid_key (se_key e)" "se_key e \<notin> seen"
      "read_value mlock now wall e = (Inr val :: 'd import_error + cache_entry option)"
      "read_definition e = (Inr def :: 'd import_error + definition_record option)"
    and s': "s' = import_sides now wall e (put_read (se_key e) val def s)"
    unfolding import_entry_eq by (auto split: if_splits sum.splits)
  show ?thesis
    by (rule that [OF r]) (simp_all add: s' installed_slot_after assms(2), simp add: import_sides_slot slot_put_read)
qed

lemma import_entry_succeeds:
  "valid_key (se_key e) \<Longrightarrow> se_key e \<notin> seen \<Longrightarrow>
   read_value mlock now wall e = (Inr val :: 'd import_error + cache_entry option) \<Longrightarrow>
   read_definition e = (Inr def :: 'd import_error + definition_record option) \<Longrightarrow>
   \<exists>s'. import_entry mlock now wall seen e s = (Inr s' :: 'd import_error + store)"
  by (simp add: import_entry_eq)

subsection \<open>What the import loop accepts and builds\<close>

definition readable_entry :: "mlock \<Rightarrow> monotonic \<Rightarrow> nat \<Rightarrow> 'd itself \<Rightarrow> snapshot_entry \<Rightarrow> bool" where
  "readable_entry mlock now wall (_ :: 'd itself) e \<longleftrightarrow>
     valid_key (se_key e)
     \<and> \<not> isl (read_value mlock now wall e :: 'd import_error + cache_entry option)
     \<and> \<not> isl (read_definition e :: 'd import_error + definition_record option)"

lemma import_entries_succeeds:
  assumes "list_all (readable_entry mlock now wall TYPE('d)) es" and "distinct (map se_key es)"
    and "seen \<inter> set (map se_key es) = {}"
  shows "\<exists>s'. import_entries mlock now wall seen es s = (Inr s' :: 'd import_error + store)"
  using assms
proof (induction es arbitrary: seen s)
  case Nil
  then show ?case by simp
next
  case (Cons e es)
  obtain val def where "read_value mlock now wall e = (Inr val :: 'd import_error + cache_entry option)"
      "read_definition e = (Inr def :: 'd import_error + definition_record option)"
    using Cons.prems(1) by (auto simp: readable_entry_def isl_def) (metis old.sum.exhaust)
  then obtain s1 where s1: "import_entry mlock now wall seen e s = (Inr s1 :: 'd import_error + store)"
    using import_entry_succeeds [of e seen mlock now wall val def s] Cons.prems
    by (auto simp: readable_entry_def)
  have "\<exists>s'. import_entries mlock now wall (insert (se_key e) seen) es s1
      = (Inr s' :: 'd import_error + store)"
    using Cons.prems by (intro Cons.IH) auto
  then show ?case by (simp add: s1)
qed

lemma import_entries_Inr:
  assumes "import_entries mlock now wall seen es s = (Inr s' :: 'd import_error + store)"
    and "\<And>k. k \<notin> seen \<Longrightarrow> slot s k = empty_slot"
  shows "list_all (readable_entry mlock now wall TYPE('d)) es \<and> distinct (map se_key es)
    \<and> seen \<inter> set (map se_key es) = {}
    \<and> (\<forall>k. k \<notin> set (map se_key es) \<longrightarrow> slot s' k = slot s k)
    \<and> (\<forall>e \<in> set es. \<exists>val def.
         read_value mlock now wall e = (Inr val :: 'd import_error + cache_entry option)
         \<and> read_definition e = (Inr def :: 'd import_error + definition_record option)
         \<and> slot s' (se_key e) = installed_slot now wall e val def)
    \<and> access_token s' = access_token s
    \<and> failure_backoff_duration s' = failure_backoff_duration s"
  using assms
proof (induction es arbitrary: seen s)
  case Nil
  then show ?case by simp
next
  case (Cons e es)
  let ?k = "se_key e"
  from Cons.prems(1) obtain s1 where
    s1: "import_entry mlock now wall seen e s = (Inr s1 :: 'd import_error + store)"
    and rest: "import_entries mlock now wall (insert ?k seen) es s1
      = (Inr s' :: 'd import_error + store)"
    by (auto split: sum.splits)
  have "?k \<notin> seen" using s1 by (auto simp: import_entry_eq split: if_splits)
  then have "slot s ?k = empty_slot" by (rule Cons.prems(2))
  from s1 this obtain val def where e: "valid_key ?k" "?k \<notin> seen"
      "read_value mlock now wall e = (Inr val :: 'd import_error + cache_entry option)"
      "read_definition e = (Inr def :: 'd import_error + definition_record option)"
      "slot s1 ?k = installed_slot now wall e val def"
      "\<And>k. k \<noteq> ?k \<Longrightarrow> slot s1 k = slot s k" "access_token s1 = access_token s"
      "failure_backoff_duration s1 = failure_backoff_duration s"
    by (rule import_entry_Inr) blast
  have "slot s1 k = empty_slot" if "k \<notin> insert ?k seen" for k
    using that Cons.prems(2) e(6) by simp
  note IH = Cons.IH [OF rest this]
  have "slot s' ?k = slot s1 ?k" using IH by auto
  moreover have "readable_entry mlock now wall TYPE('d) e"
    by (simp add: readable_entry_def e)
  ultimately show ?case using IH e by auto
qed


subsection \<open>An imported store meets the invariant\<close>

lemma import_value_inv:
  assumes "import_value mlock now wall k v = Inr ce" and "valid_key k"
    and "offset now \<le> duration_max"
  shows "entry_inv now k ce"
proof -
  from assms(1) obtain t where t: "ttl_new (map_option from_millis (sv_soft_ttl_ms v))
        (map_option from_millis (sv_hard_ttl_ms v)) = Inr t"
    and le: "epoch_ms_to_monotonic_ttl_basis now wall (sv_loaded_at_epoch_ms v)
        \<le> epoch_ms_to_monotonic_ttl_basis now wall (sv_extended_at_epoch_ms v)"
    and ce: "ce = from_parts (into_value_source (sv_source v)) t (secret_new mlock (sv_secret v))
        (epoch_ms_to_monotonic_ttl_basis now wall (sv_loaded_at_epoch_ms v))
        (epoch_ms_to_monotonic_ttl_basis now wall (sv_extended_at_epoch_ms v))
        (map_option (epoch_ms_to_monotonic now wall) (sv_pin_deadline_epoch_ms v))"
    by (auto simp: import_value_def Let_def split: sum.splits if_splits)
  have "entry_ok ce"
    unfolding ce using ttl_new_ok [OF t] le by (intro entry_ok_from_parts) simp_all
  moreover have "extended_at ce \<le> now"
    unfolding ce from_parts_def using ttl_basis_not_ahead [OF assms(3)] by simp
  ultimately show ?thesis using assms(2) by (simp add: entry_inv_def)
qed

lemma import_definition_ok:
  "import_definition k d = Inr def \<Longrightarrow> definition_ok def"
  by (auto simp: import_definition_def definition_new_cases definition_ok_def Let_def
      def_with_meta_def def_with_source_meta_def dest: ttl_new_ok split: sum.splits if_splits)

definition slot_inv ::
  "monotonic \<Rightarrow> string
   \<Rightarrow> cache_entry option \<times> definition_record option \<times> failure_record option
     \<times> guard_record option \<times> owner_principal option \<times> nat option \<times> refresh_claim option \<Rightarrow> bool"
where
  "slot_inv t k x =
     (case x of (val, def, failure, _, _, version, _) \<Rightarrow>
        pred_option (entry_inv t k) val
        \<and> pred_option (\<lambda>d. valid_key k \<and> definition_ok d) def
        \<and> pred_option (\<lambda>_. valid_key k) failure
        \<and> pred_option (\<lambda>v. 0 < v \<and> v \<le> u64_max) version)"

lemma store_inv_slots: "store_inv t s \<longleftrightarrow> (\<forall>k. slot_inv t k (slot s k))"
  by (auto simp: store_inv_def slot_inv_def slot_def fmpred_iff pred_option_def)

lemma installed_slot_inv:
  assumes "valid_key (se_key e)" and "offset now \<le> duration_max"
    and "read_value mlock now wall e = (Inr val :: 'd import_error + cache_entry option)"
    and "read_definition e = (Inr def :: 'd import_error + definition_record option)"
    and "pred_option (\<lambda>v. v \<le> u64_max) (se_version e)"
  shows "slot_inv now (se_key e) (installed_slot now wall e val def)"
proof -
  have "pred_option (entry_inv now (se_key e)) val"
    using assms(1-3) import_value_inv
    by (auto simp: read_value_def map_sum_case split: option.splits sum.splits)
  moreover have "pred_option (\<lambda>d. valid_key (se_key e) \<and> definition_ok d) def"
    using assms(1, 4) import_definition_ok
    by (auto simp: read_definition_def map_sum_case split: option.splits sum.splits)
  ultimately show ?thesis
    using assms(1, 5)
    by (auto simp: slot_inv_def installed_slot_def pred_option_def split: option.split)
qed

lemma slot_inv_empty [simp]: "slot_inv t k empty_slot"
  by (simp add: slot_inv_def)

lemma build_fresh [simp]:
  "slot (bundle_store (store_build b r c)) k = empty_slot"
  "access_token (bundle_store (store_build b r c)) = fst (fresh_process_local_token r c)"
  "token (control_cap (store_build b r c)) = fst (fresh_process_local_token r c)"
  by (simp_all add: store_build_def new_with_token_def slot_def Let_def)

text \<open>The versions a decoded entry can carry are \<open>u64\<close>.\<close>

definition wire_ok :: "snapshot_entry \<Rightarrow> bool" where
  "wire_ok e \<longleftrightarrow> pred_option (\<lambda>v. v \<le> u64_max) (se_version e)"

lemma import_sound:
  assumes "import_snapshot mlock r c b snap w clk = (Inr bundle :: 'd import_error + store_bundle)"
    and "offset (clk 0) \<le> duration_max" and "list_all wire_ok (snapshot_entries snap)"
  shows "is_supported_version snap \<and> distinct (map se_key (snapshot_entries snap))
    \<and> store_inv (clk 0) (bundle_store bundle)
    \<and> authorized (bundle_store bundle) (control_cap bundle)
    \<and> (\<forall>k. k \<notin> set (map se_key (snapshot_entries snap)) \<longrightarrow>
          slot (bundle_store bundle) k = empty_slot)
    \<and> (\<forall>k. guard_of (bundle_store bundle) k \<noteq> None
            \<or> refresh_claim_of (bundle_store bundle) k \<noteq> None \<longrightarrow>
          has_value (bundle_store bundle) k)"
proof -
  let ?es = "snapshot_entries snap"
  let ?b = "store_build b r c"
  let ?wall = "wall_now_epoch_ms w"
  from assms(1) obtain s where sup: "is_supported_version snap"
    and run: "import_entries mlock (clk 0) ?wall {} ?es (bundle_store ?b) = (Inr s :: 'd import_error + store)"
    and bun: "bundle = ?b\<lparr>bundle_store := s\<rparr>"
    by (auto simp: import_snapshot_def Let_def split: if_splits sum.splits)
  note facts = import_entries_Inr [OF run build_fresh(1)]
  have slot: "slot s k = empty_slot \<or> (\<exists>e \<in> set ?es. se_key e = k \<and> (\<exists>val def.
      slot s k = installed_slot (clk 0) ?wall e val def \<and> slot_inv (clk 0) k (slot s k)))" for k
  proof (cases "k \<in> set (map se_key ?es)")
    case False
    with facts show ?thesis by auto
  next
    case True
    then obtain e where e: "e \<in> set ?es" "se_key e = k" by auto
    with facts obtain val def where
        "read_value mlock (clk 0) ?wall e = (Inr val :: 'd import_error + cache_entry option)"
        "read_definition e = (Inr def :: 'd import_error + definition_record option)"
        "slot s k = installed_slot (clk 0) ?wall e val def" by blast
    moreover have "valid_key (se_key e)" and "pred_option (\<lambda>v. v \<le> u64_max) (se_version e)"
      using facts e(1) assms(3) by (auto simp: list_all_iff readable_entry_def wire_ok_def)
    ultimately show ?thesis
      using e installed_slot_inv [OF _ assms(2), of e mlock ?wall val def] by metis
  qed
  have "store_inv (clk 0) s"
    unfolding store_inv_slots using slot by (metis slot_inv_empty)
  moreover have "has_value s k"
    if "guard_of s k \<noteq> None \<or> refresh_claim_of s k \<noteq> None" for k
    using that slot [of k]
    by (auto simp: slot_def installed_slot_def guard_of_def refresh_claim_of_def has_value_def
        split: if_splits)
  ultimately show ?thesis
    using facts sup by (auto simp: bun authorized_def)
qed

text \<open>
  Property C27.  Whatever bytes were handed over, an import that succeeds builds a sound store:
  every key is valid and appeared once, the format version is supported, every TTL is well formed,
  no value claims to be loaded or extended in the future, every definition is a command, versions
  are positive, a guard or claim sits only beside a value, keys not in the snapshot are absent, and
  the fresh capability opens it.
\<close>

theorem import_builds_a_sound_store:
  assumes "import_snapshot mlock r c b snap w clk = (Inr bundle :: 'd import_error + store_bundle)"
    and "offset (clk 0) \<le> duration_max" and "list_all wire_ok (snapshot_entries snap)"
  shows "is_supported_version snap \<and> distinct (map se_key (snapshot_entries snap))
    \<and> store_inv (clk 0) (bundle_store bundle)
    \<and> authorized (bundle_store bundle) (control_cap bundle)
    \<and> (\<forall>k. k \<notin> set (map se_key (snapshot_entries snap)) \<longrightarrow>
          slot (bundle_store bundle) k = empty_slot)
    \<and> (\<forall>k. guard_of (bundle_store bundle) k \<noteq> None
            \<or> refresh_claim_of (bundle_store bundle) k \<noteq> None \<longrightarrow>
          has_value (bundle_store bundle) k)"
  using assms by (rule import_sound)

subsection \<open>The round trip\<close>

definition carried_ttl :: "ttl \<Rightarrow> ttl" where
  "carried_ttl t =
     \<lparr>ttl_soft = map_option (\<lambda>d. from_millis (as_millis d)) (ttl_soft t),
      ttl_hard = map_option (\<lambda>d. from_millis (as_millis d)) (ttl_hard t)\<rparr>"

definition ttl_fits :: "ttl \<Rightarrow> bool" where
  "ttl_fits t \<longleftrightarrow>
     pred_option (\<lambda>d. as_millis d \<le> u64_max) (ttl_soft t)
     \<and> pred_option (\<lambda>d. as_millis d \<le> u64_max) (ttl_hard t)"

text \<open>Every duration of the store fits in a \<open>u64\<close> of milliseconds (585 million years).\<close>

definition durations_fit :: "store \<Rightarrow> bool" where
  "durations_fit s \<longleftrightarrow>
     fmpred (\<lambda>k e. ttl_fits (entry_ttl e)) (entries s)
     \<and> fmpred (\<lambda>k d. ttl_fits (def_ttl d)) (definitions s)
     \<and> fmpred (\<lambda>k r. as_millis (retry_after r) \<le> u64_max) (failure_backoffs s)"

definition reanchor ::
  "monotonic \<Rightarrow> nat \<Rightarrow> monotonic \<Rightarrow> nat \<Rightarrow> monotonic \<Rightarrow> monotonic"
where
  "reanchor now wall now' wall' p =
     epoch_ms_to_monotonic_ttl_basis now' wall' (monotonic_to_epoch_ms now wall p)"

definition carried_entry ::
  "mlock \<Rightarrow> monotonic \<Rightarrow> nat \<Rightarrow> monotonic \<Rightarrow> nat \<Rightarrow> monotonic \<Rightarrow> cache_entry \<Rightarrow> cache_entry option"
where
  "carried_entry mlock now wall now' wall' t e =
     (if state e t = HardExpired then None
      else map_option
        (\<lambda>v. from_parts (entry_source e) (carried_ttl (entry_ttl e)) (secret_new mlock (data v))
               (reanchor now wall now' wall' (loaded_at e)) (reanchor now wall now' wall' (extended_at e))
               (map_option (\<lambda>p. epoch_ms_to_monotonic now' wall' (monotonic_to_epoch_ms now wall p))
                  (pin_deadline e)))
        (entry_value e))"

definition carried_definition :: "definition_record \<Rightarrow> definition_record" where
  "carried_definition d = d\<lparr>def_ttl := carried_ttl (def_ttl d)\<rparr>"

definition carried_failure ::
  "monotonic \<Rightarrow> nat \<Rightarrow> monotonic \<Rightarrow> nat \<Rightarrow> failure_record \<Rightarrow> failure_record"
where
  "carried_failure now wall now' wall' r =
     \<lparr>failed_at = epoch_ms_to_monotonic_for_failure now' wall'
                    (monotonic_to_epoch_ms now wall (failed_at r)),
      retry_after = from_millis (as_millis (retry_after r))\<rparr>"

lemma carried_ttl_new:
  assumes "ttl_ok t" and "ttl_fits t"
  shows "ttl_new (map_option from_millis (ttl_ms (ttl_soft t)))
      (map_option from_millis (ttl_ms (ttl_hard t))) = Inr (carried_ttl t)"
proof -
  obtain s h where t: "t = \<lparr>ttl_soft = s, ttl_hard = h\<rparr>" by (cases t)
  have "\<not> from_millis (as_millis d') < from_millis (as_millis d)"
    if "s = Some d" "h = Some d'" for d d'
    using assms(1) that as_millis_mono [of d d'] by (simp add: t ttl_ok_def not_less)
  with assms(2) show ?thesis
    by (cases s; cases h) (simp_all add: t ttl_new_def ttl_fits_def ttl_ms_def carried_ttl_def)
qed

lemma reanchor_mono:
  assumes "p \<le> q" and "wall \<le> u64_max" and "offset now' \<le> duration_max"
  shows "reanchor now wall now' wall' p \<le> reanchor now wall now' wall' q"
  unfolding reanchor_def using assms by (intro ttl_basis_monotone to_epoch_monotone)

lemma value_roundtrip:
  assumes "entry_ok e" and "ttl_fits (entry_ttl e)" and "wall \<le> u64_max"
    and "offset now' \<le> duration_max" and "fmlookup (entries s) k = Some e"
  shows "(case export_value s (monotonic_to_epoch_ms now wall) t k of
            None \<Rightarrow> Inr None
          | Some v \<Rightarrow> map_sum id Some (import_value mlock now' wall' k v))
       = Inr (carried_entry mlock now wall now' wall' t e)"
proof (cases "state e t = HardExpired \<or> entry_value e = None")
  case True
  then show ?thesis
    by (auto simp: export_value_def assms(5) peek_value_def carried_entry_def split: option.splits)
next
  case False
  then obtain v where v: "entry_value e = Some v" and live: "state e t \<noteq> HardExpired" by auto
  have "\<not> reanchor now wall now' wall' (extended_at e) < reanchor now wall now' wall' (loaded_at e)"
    using reanchor_mono [OF _ assms(3, 4)] assms(1) by (simp add: entry_ok_def not_less)
  moreover have "ttl_ok (entry_ttl e)" using assms(1) by (simp add: entry_ok_def)
  ultimately show ?thesis
    using live
    by (simp add: export_value_def assms(5) peek_value_def v with_exposed_def import_value_def
        carried_ttl_new assms(2) carried_entry_def reanchor_def Let_def option.map_comp comp_def)
qed

lemma definition_roundtrip:
  assumes "definition_ok d" and "ttl_fits (def_ttl d)"
  shows "import_definition k (export_definition d) = Inr (carried_definition d)"
  using assms
  by (auto simp: import_definition_def export_definition_def carried_ttl_new definition_ok_def
      definition_new_cases carried_definition_def def_with_meta_def def_with_source_meta_def
      value_meta_into_parts_def source_meta_into_parts_def value_meta_from_parts_def
      source_meta_from_parts_def Let_def)

lemma failure_roundtrip:
  "as_millis (retry_after r) \<le> u64_max \<Longrightarrow>
   import_failure now' wall' (export_failure (monotonic_to_epoch_ms now wall) r)
     = carried_failure now wall now' wall' r"
  by (simp add: import_failure_def export_failure_def carried_failure_def)

text \<open>What a restart makes of one key: everything, or nothing when no part of it is exported.\<close>

definition carried_slot ::
  "mlock \<Rightarrow> monotonic \<Rightarrow> nat \<Rightarrow> monotonic \<Rightarrow> nat \<Rightarrow> monotonic \<Rightarrow> store \<Rightarrow> string
   \<Rightarrow> cache_entry option \<times> definition_record option \<times> failure_record option
      \<times> guard_record option \<times> owner_principal option \<times> nat option \<times> refresh_claim option"
where
  "carried_slot mlock now wall now' wall' t s k =
     (let val = Option.bind (fmlookup (entries s) k) (carried_entry mlock now wall now' wall' t);
          def = map_option carried_definition (fmlookup (definitions s) k);
          failure = map_option (carried_failure now wall now' wall') (fmlookup (failure_backoffs s) k)
      in if val = None \<and> def = None \<and> failure = None \<and> fmlookup (versions s) k = None
         then empty_slot
         else (val, def, failure,
               (if val = None then None
                else map_option (\<lambda>g. snapshot_to_guard_record (guard_record_to_snapshot g))
                       (fmlookup (access_guards s) k)),
               fmlookup (owners s) k, fmlookup (versions s) k,
               (if val = None then None else fmlookup (refresh_claims s) k)))"


lemma export_key_slot:
  assumes "store_inv t s" and "durations_fit s" and "wall \<le> u64_max"
    and "offset now' \<le> duration_max" and "valid_key k"
  shows "case export_key s (monotonic_to_epoch_ms now wall) u k of
      None \<Rightarrow> carried_slot mlock now wall now' wall' u s k = empty_slot
    | Some e \<Rightarrow> (\<exists>val def.
        read_value mlock now' wall' e = (Inr val :: 'd import_error + cache_entry option)
        \<and> read_definition e = (Inr def :: 'd import_error + definition_record option)
        \<and> installed_slot now' wall' e val def = carried_slot mlock now wall now' wall' u s k)"
proof -
  let ?f = "monotonic_to_epoch_ms now wall"
  let ?val = "Option.bind (fmlookup (entries s) k) (carried_entry mlock now wall now' wall' u)"
  have val: "(case export_value s ?f u k of None \<Rightarrow> Inr None
      | Some v \<Rightarrow> map_sum id Some (import_value mlock now' wall' k v))
      = (Inr ?val :: 'd import_error + cache_entry option)"
  proof (cases "fmlookup (entries s) k")
    case None
    then show ?thesis by (simp add: export_value_def)
  next
    case (Some e)
    then have "entry_ok e" "ttl_fits (entry_ttl e)"
      using store_inv_entry [OF assms(1) Some] assms(2)
      by (auto simp: entry_inv_def durations_fit_def dest: fmpredD)
    from value_roundtrip [OF this assms(3, 4) Some] Some show ?thesis by simp
  qed
  have def: "(case map_option export_definition (fmlookup (definitions s) k) of None \<Rightarrow> Inr None
      | Some d \<Rightarrow> map_sum id Some (import_definition k d))
      = (Inr (map_option carried_definition (fmlookup (definitions s) k))
          :: 'd import_error + definition_record option)"
  proof (cases "fmlookup (definitions s) k")
    case (Some d)
    then have "definition_ok d" "ttl_fits (def_ttl d)"
      using store_inv_definition [OF assms(1) Some] assms(2)
      by (auto simp: durations_fit_def dest: fmpredD)
    with Some show ?thesis by (simp add: definition_roundtrip)
  qed simp
  have failure: "map_option (import_failure now' wall') (map_option (export_failure ?f) (fmlookup (failure_backoffs s) k))
      = map_option (carried_failure now wall now' wall') (fmlookup (failure_backoffs s) k)"
    using assms(2)
    by (cases "fmlookup (failure_backoffs s) k")
      (auto simp: failure_roundtrip durations_fit_def dest: fmpredD)
  have ver: "fmlookup (versions s) k = Some v \<Longrightarrow> 0 < v" for v
    using assms(1) by (auto simp: store_inv_def dest: fmpredD)
  have none: "export_value s ?f u k = None \<longleftrightarrow> ?val = None"
    using val by (auto simp: map_sum_case split: option.splits sum.splits) metis
  let ?skip = "?val = None \<and> fmlookup (definitions s) k = None
      \<and> fmlookup (failure_backoffs s) k = None \<and> fmlookup (versions s) k = None"
  have version: "(case fmlookup (versions s) k of Some v \<Rightarrow> if 0 < v then Some v else None | None \<Rightarrow> None)
      = fmlookup (versions s) k"
    using ver by (simp split: option.split)
  show ?thesis
  proof (cases ?skip)
    case True
    then have "export_key s ?f u k = None" using none by (simp add: export_key_def Let_def)
    moreover have "carried_slot mlock now wall now' wall' u s k = empty_slot"
      using True by (simp add: carried_slot_def)
    ultimately show ?thesis by simp
  next
    case False
    let ?e = "\<lparr>se_key = k, se_value = export_value s ?f u k,
        se_definition = map_option export_definition (fmlookup (definitions s) k),
        se_failure = map_option (export_failure ?f) (fmlookup (failure_backoffs s) k),
        se_guard = (if ?val = None then None
                    else map_option guard_record_to_snapshot (fmlookup (access_guards s) k)),
        se_owner = fmlookup (owners s) k, se_version = fmlookup (versions s) k,
        se_refresh_claim = (if ?val = None then None
                    else map_option refresh_claim_to_snapshot (fmlookup (refresh_claims s) k))\<rparr>"
    have "export_key s ?f u k = Some ?e"
      unfolding export_key_def Let_def version none using False by auto
    moreover have "installed_slot now' wall' ?e ?val
        (map_option carried_definition (fmlookup (definitions s) k))
        = carried_slot mlock now wall now' wall' u s k"
    proof -
      have "map_option snapshot_to_refresh_claim (map_option refresh_claim_to_snapshot x) = x" for x
        by (cases x) simp_all
      moreover have "(case fmlookup (versions s) k of None \<Rightarrow> None | Some v \<Rightarrow> if 0 < v then Some v else None)
          = fmlookup (versions s) k"
        using ver by (simp split: option.split)
      ultimately show ?thesis
        using False failure
        by (simp add: installed_slot_def carried_slot_def Let_def option.map_comp comp_def) auto
    qed
    moreover have "read_value mlock now' wall' ?e = (Inr ?val :: 'd import_error + cache_entry option)"
      unfolding read_value_def snapshot_entry.select_convs by (rule val)
    moreover have "read_definition ?e = (Inr (map_option carried_definition (fmlookup (definitions s) k))
        :: 'd import_error + definition_record option)"
      unfolding read_definition_def snapshot_entry.select_convs by (rule def)
    ultimately show ?thesis by (simp only: option.case) blast
  qed
qed

lemma restart_carries:
  assumes "authorized s cap" and "store_inv t s" and "durations_fit s"
    and "offset (clk' 0) \<le> duration_max"
  shows "\<exists>snap bundle.
      export_snapshot s cap w clk = (Inr snap :: unit export_error + store_snapshot)
      \<and> import_snapshot mlock r c b snap w' clk' = (Inr bundle :: unit import_error + store_bundle)
      \<and> (\<forall>i < length (export_keys s).
           slot (bundle_store bundle) (export_keys s ! i)
             = carried_slot mlock (clk 0) (wall_now_epoch_ms w) (clk' 0) (wall_now_epoch_ms w')
                 (clk (Suc i)) s (export_keys s ! i))
      \<and> (\<forall>k. k \<notin> set (export_keys s) \<longrightarrow> slot (bundle_store bundle) k = empty_slot)"
proof -
  let ?wall = "wall_now_epoch_ms w" and ?wall' = "wall_now_epoch_ms w'"
  let ?es = "export_entries s ?wall clk"
  let ?carried = "\<lambda>i k. carried_slot mlock (clk 0) ?wall (clk' 0) ?wall' (clk (Suc i)) s k"
  have export: "export_snapshot s cap w clk
      = (Inr (from_entries ?es) :: unit export_error + store_snapshot)"
    using assms(1) by (simp add: export_snapshot_def)
  have valid: "valid_key k" if "k \<in> set (export_keys s)" for k
    using that assms(2) by (auto simp: export_keys_set store_inv_def entry_inv_def dest: fmpredD)
  have key: "case export_key s (monotonic_to_epoch_ms (clk 0) ?wall) (clk (Suc i)) (export_keys s ! i) of
      None \<Rightarrow> ?carried i (export_keys s ! i) = empty_slot
    | Some e \<Rightarrow> (\<exists>val def.
        read_value mlock (clk' 0) ?wall' e = (Inr val :: unit import_error + cache_entry option)
        \<and> read_definition e = (Inr def :: unit import_error + definition_record option)
        \<and> installed_slot (clk' 0) ?wall' e val def = ?carried i (export_keys s ! i))"
    if "i < length (export_keys s)" for i
    using that by (intro export_key_slot [OF assms(2, 3) wall_now_le assms(4)] valid) simp
  have "readable_entry mlock (clk' 0) ?wall' TYPE(unit) e" if "e \<in> set ?es" for e
  proof -
    from that obtain i where i: "i < length (export_keys s)" and
      e: "export_key s (monotonic_to_epoch_ms (clk 0) ?wall) (clk (Suc i)) (export_keys s ! i) = Some e"
      unfolding export_entries_iff by blast
    have "valid_key (se_key e)" using i valid export_key_key [OF e] by simp
    with key [OF i] e show ?thesis by (auto simp: readable_entry_def)
  qed
  then have "\<exists>s'. import_entries mlock (clk' 0) ?wall' {} ?es
        (bundle_store (store_build b r c)) = (Inr s' :: unit import_error + store)"
    by (intro import_entries_succeeds) (simp_all add: list_all_iff export_entries_distinct)
  then obtain s' where run: "import_entries mlock (clk' 0) ?wall' {} ?es
        (bundle_store (store_build b r c)) = (Inr s' :: unit import_error + store)"
    by blast
  have "is_supported_version (from_entries ?es)" and "snapshot_entries (from_entries ?es) = ?es"
    by (auto simp: from_entries_def is_supported_version_def version_is_supported_def version_defs
        Let_def)
  then have import: "import_snapshot mlock r c b (from_entries ?es) w' clk'
      = (Inr ((store_build b r c)\<lparr>bundle_store := s'\<rparr>) :: unit import_error + store_bundle)"
    by (simp add: import_snapshot_def run Let_def)
  note facts = import_entries_Inr [OF run build_fresh(1)]
  have "slot s' (export_keys s ! i) = ?carried i (export_keys s ! i)"
    if i: "i < length (export_keys s)" for i
  proof (cases "export_key s (monotonic_to_epoch_ms (clk 0) ?wall) (clk (Suc i)) (export_keys s ! i)")
    case None
    have "export_keys s ! i \<notin> set (map se_key ?es)"
    proof
      assume "export_keys s ! i \<in> set (map se_key ?es)"
      then obtain j e where "j < length (export_keys s)" "se_key e = export_keys s ! i"
        "export_key s (monotonic_to_epoch_ms (clk 0) ?wall) (clk (Suc j)) (export_keys s ! j) = Some e"
        by (auto simp: export_entries_iff)
      then have "j = i" using i export_keys_distinct [of s] export_key_key
        by (metis nth_eq_iff_index_eq)
      with None \<open>export_key s _ _ (export_keys s ! j) = Some e\<close> show False by simp
    qed
    with facts key [OF i] None show ?thesis by simp
  next
    case (Some e)
    then have "e \<in> set ?es" and "se_key e = export_keys s ! i"
      using i export_key_key [OF Some] by (auto simp: export_entries_iff)
    with facts key [OF i] Some show ?thesis by fastforce
  qed
  moreover have "slot s' k = empty_slot" if "k \<notin> set (export_keys s)" for k
  proof -
    have "k \<notin> set (map se_key ?es)"
      using that by (auto simp: export_entries_iff dest!: export_key_key)
    with facts show ?thesis by simp
  qed
  ultimately show ?thesis using export import by auto
qed


text \<open>
  Property C13.  A graceful restart never loses or refuses what it exports.  For a sound store whose
  durations fit in \<open>u64\<close> milliseconds, the snapshot it exports is always accepted,
  whatever the two clocks and wall clocks say; and afterwards every exported key holds exactly its
  carried slot: the same secret bytes, source, metadata, guard, owner, version and claim, TTLs to
  the millisecond, and timestamps re-anchored in the new process; keys that are not exported are
  absent.
\<close>

theorem restart_carries_the_store:
  assumes "authorized s cap" and "store_inv t s" and "durations_fit s"
    and "offset (clk' 0) \<le> duration_max"
  shows "\<exists>snap bundle.
      export_snapshot s cap w clk = (Inr snap :: unit export_error + store_snapshot)
      \<and> import_snapshot mlock r c b snap w' clk' = (Inr bundle :: unit import_error + store_bundle)
      \<and> (\<forall>i < length (export_keys s).
           slot (bundle_store bundle) (export_keys s ! i)
             = carried_slot mlock (clk 0) (wall_now_epoch_ms w) (clk' 0) (wall_now_epoch_ms w')
                 (clk (Suc i)) s (export_keys s ! i))
      \<and> (\<forall>k. k \<notin> set (export_keys s) \<longrightarrow> slot (bundle_store bundle) k = empty_slot)"
  using assms by (rule restart_carries)

lemma demo_store_inv: "store_inv t demo_store"
proof -
  have "valid_key ''k''" by (simp add: valid_key_def)
  then show ?thesis
    by (simp add: store_inv_def demo_store_def new_with_token_def definition_ok_def demo_source_def
        demo_ttl_def ttl_ok_def fmpred_upd)
qed

lemma demo_durations_fit: "durations_fit demo_store"
  by (simp add: durations_fit_def demo_store_def new_with_token_def demo_ttl_def ttl_fits_def
      as_millis_def fmpred_upd)

theorem restart_carries_the_store_witness:
  "\<exists>snap bundle.
      export_snapshot demo_store demo_cap (Some 5) (demo_clock 9)
        = (Inr snap :: unit export_error + store_snapshot)
      \<and> import_snapshot (\<lambda>_. True) 1 2 store_builder_new snap (Some 7) (demo_clock 3)
        = (Inr bundle :: unit import_error + store_bundle)
      \<and> slot (bundle_store bundle) ''z'' = empty_slot"
proof -
  have "offset (demo_clock 3 0) \<le> duration_max" by (simp add: demo_clock_def duration_max_def)
  moreover have "''z'' \<notin> set (export_keys demo_store)"
    by (simp add: export_keys_set demo_store_def new_with_token_def)
  ultimately show ?thesis
    using restart_carries_the_store [OF demo_authorized demo_store_inv demo_durations_fit,
        of "demo_clock 3" "Some 5" "demo_clock 9" "\<lambda>_. True" 1 2 store_builder_new "Some 7"]
    by blast
qed

theorem import_builds_a_sound_store_witness:
  "\<exists>bundle. import_snapshot (\<lambda>_. True) 1 2 store_builder_new (from_entries [sample_snapshot_entry])
        (Some 7) (demo_clock 3) = (Inr bundle :: unit import_error + store_bundle)
      \<and> store_inv (Monotonic 3) (bundle_store bundle)"
proof -
  have "valid_key (se_key sample_snapshot_entry)"
    by (simp add: sample_snapshot_entry_def valid_key_def validate_key_syntax_def
        is_identifier_segment_def is_ascii_alphanumeric_def less_eq_char_def)
  then obtain s where "import_entries (\<lambda>_. True) (Monotonic 3) (wall_now_epoch_ms (Some 7)) {}
      [sample_snapshot_entry] (bundle_store (store_build store_builder_new 1 2))
        = (Inr s :: unit import_error + store)"
    by (simp add: import_entry_eq read_value_def read_definition_def sample_snapshot_entry_def)
  then have ok: "import_snapshot (\<lambda>_. True) 1 2 store_builder_new
        (from_entries [sample_snapshot_entry]) (Some 7) (demo_clock 3)
      = (Inr ((store_build store_builder_new 1 2)\<lparr>bundle_store := s\<rparr>)
          :: unit import_error + store_bundle)"
    using sample_supported
    by (simp add: import_snapshot_def Let_def demo_clock_def del: import_entries.simps)
      (simp add: from_entries_def)
  have "offset (demo_clock 3 0) \<le> duration_max"
    and "list_all wire_ok (snapshot_entries (from_entries [sample_snapshot_entry]))"
    by (simp_all add: demo_clock_def duration_max_def from_entries_def wire_ok_def
        sample_snapshot_entry_def u64_max_def)
  from import_builds_a_sound_store [OF ok this] ok show ?thesis
    by (auto simp: demo_clock_def)
qed

text \<open>
  A store whose key has an owner and a version but, after a value-only delete, no value; and one
  whose value has a hard TTL of \<open>2 ^ 64\<close> milliseconds.
\<close>

definition demo_owner :: owner_principal where
  "demo_owner = \<lparr>anchor = Apple, team_id = ''T'', signing_identifier = ''app''\<rparr>"

definition demo_value :: secret_bytes where
  "demo_value = \<lparr>data = [7], locked = False\<rparr>"

definition emptied_store :: store where
  "emptied_store = run_calls (new_with_token 5 0)
     [(demo_clock 1, CSet ''k'' Static demo_value ttl_never demo_cap),
      (demo_clock 2, CBumpVersion ''k'' demo_cap),
      (demo_clock 3, CSetOwner ''k'' demo_owner demo_cap),
      (demo_clock 4, CDelete ''k'' demo_cap)]"

lemma emptied_store_eq:
  "emptied_store = (new_with_token 5 0)\<lparr>versions := fmupd ''k'' 1 fmempty,
     owners := fmupd ''k'' demo_owner fmempty\<rparr>"
  by (simp add: emptied_store_def store_set_def check_cap_def demo_cap_def new_with_token_def
      bump_version_def set_owner_def store_delete_def version_of_def u64_max_def fmdrop_fmupd)

text \<open>
  A restart forgets what outlives a deleted value.  After a set, a version bump, an owner
  declaration and a value-only delete, the key is at version 1 and owned; a graceful restart
  succeeds and leaves it at version 0 and unowned, because only keys with a value, a definition or a
  failure record are exported.
\<close>

theorem restart_forgets_an_emptied_key:
  "version_of emptied_store ''k'' = 1 \<and> owner_of emptied_store ''k'' = Some demo_owner
   \<and> (\<exists>snap bundle.
        export_snapshot emptied_store demo_cap (Some 0) (demo_clock 9)
          = (Inr snap :: unit export_error + store_snapshot)
        \<and> import_snapshot (\<lambda>_. True) 1 2 store_builder_new snap (Some 0) (demo_clock 9)
          = (Inr bundle :: unit import_error + store_bundle)
        \<and> version_of (bundle_store bundle) ''k'' = 0
        \<and> owner_of (bundle_store bundle) ''k'' = None)"
proof -
  have "authorized emptied_store demo_cap"
    by (simp add: emptied_store_eq authorized_def new_with_token_def demo_cap_def)
  moreover have "store_inv (Monotonic 0) emptied_store" and "durations_fit emptied_store"
    by (simp_all add: emptied_store_eq store_inv_def durations_fit_def new_with_token_def fmpred_upd
        u64_max_def)
  moreover have "offset (demo_clock 9 0) \<le> duration_max"
    by (simp add: demo_clock_def duration_max_def)
  moreover have "''k'' \<notin> set (export_keys emptied_store)"
    by (simp add: export_keys_set emptied_store_eq new_with_token_def)
  ultimately have "\<exists>snap bundle.
        export_snapshot emptied_store demo_cap (Some 0) (demo_clock 9)
          = (Inr snap :: unit export_error + store_snapshot)
        \<and> import_snapshot (\<lambda>_. True) 1 2 store_builder_new snap (Some 0) (demo_clock 9)
          = (Inr bundle :: unit import_error + store_bundle)
        \<and> slot (bundle_store bundle) ''k'' = empty_slot"
    using restart_carries by blast
  then show ?thesis
    by (auto simp: emptied_store_eq version_of_def owner_of_def slot_def)
qed

end
