(* ===== verification/Store_Machine.thy ===== *)
theory Store_Machine
  imports Store_Props Handoff_Props
begin

text \<open>
  The life of a store as a state machine: calls by any client with any outcome, time passing, and
  graceful restarts into a new process.  What holds of every state reached, and the abstract register
  that a key implements.
\<close>

subsection \<open>The machine\<close>

text \<open>
  A state is the store of the running process with the time of its monotonic clock.  Within a call
  the readings move forward; a restart exports with the old clock and imports with the new one.
\<close>

definition ticking :: "monotonic \<Rightarrow> clock \<Rightarrow> monotonic \<Rightarrow> bool" where
  "ticking t clk t' \<longleftrightarrow> (\<forall>i. t \<le> clk i \<and> clk i \<le> t')"

inductive store_step :: "monotonic \<times> store \<Rightarrow> monotonic \<times> store \<Rightarrow> bool" where
  call: "call_ok c \<Longrightarrow> ticking t clk t' \<Longrightarrow> store_step (t, s) (t', after s clk c)"
| restart: "export_snapshot s cap w clk = (Inr snap :: unit export_error + store_snapshot) \<Longrightarrow>
    import_snapshot mlock r n b snap w' clk' = (Inr bdl :: unit import_error + store_bundle) \<Longrightarrow>
    offset (clk' 0) \<le> duration_max \<Longrightarrow>
    store_step (t, s) (clk' 0, bundle_store bdl)"

inductive reachable :: "monotonic \<times> store \<Rightarrow> bool" where
  start: "reachable (t, new_with_token tok d)"
| step: "reachable x \<Longrightarrow> store_step x y \<Longrightarrow> reachable y"

inductive_cases store_stepE: "store_step (t, s) (t', s')"

lemma after_inv:
  assumes "call_ok c" and "ticking t clk t'" and "store_inv t s"
  shows "store_inv t' (after s clk c)"
proof -
  have le: "t \<le> clk i" "clk i \<le> t'" for i using assms(2) by (auto simp: ticking_def)
  have tt: "t \<le> t'" using le order.trans by blast
  note here = store_inv_mono [OF assms(3) tt]
  show ?thesis
    using assms(1) here store_extend_inv [OF assms(3) tt] extend_authenticated_inv [OF assms(3) tt] le
    by (cases c) (simp_all add: fst_snd_brief store_op_invs)
qed

lemma version_bound: "store_inv t s \<Longrightarrow> fmlookup (versions s) k = Some v \<Longrightarrow> v \<le> u64_max"
  by (auto simp: store_inv_def dest: fmpredD)

lemma exported_wire_ok:
  assumes "export_snapshot s cap w clk = (Inr snap :: unit export_error + store_snapshot)"
    and "store_inv t s"
  shows "list_all wire_ok (snapshot_entries snap)"
proof -
  from assms(1) have snap: "snap = from_entries (export_entries s (wall_now_epoch_ms w) clk)"
    by (simp add: export_snapshot_def split: sum.splits)
  have "wire_ok e" if "export_key s f u k = Some e" for e f u k
    using that version_bound [OF assms(2), of k]
    by (auto simp: export_key_def wire_ok_def Let_def split: if_splits option.splits)
  then show ?thesis
    by (auto simp: snap from_entries_def Let_def list_all_iff export_entries_iff)
qed

lemma store_step_inv: "store_step (t, s) (t', s') \<Longrightarrow> store_inv t s \<Longrightarrow> store_inv t' s'"
proof (erule store_stepE)
  fix c clk
  assume "store_inv t s" "s' = after s clk c" "call_ok c" "ticking t clk t'"
  then show "store_inv t' s'" using after_inv by blast
next
  fix cap w clk mlock r n b w' clk' bdl and snap :: store_snapshot
  assume "store_inv t s" "t' = clk' 0" "s' = bundle_store bdl"
    and out: "export_snapshot s cap w clk = (Inr snap :: unit export_error + store_snapshot)"
    and "import_snapshot mlock r n b snap w' clk' = (Inr bdl :: unit import_error + store_bundle)"
    and "offset (clk' 0) \<le> duration_max"
  with import_sound exported_wire_ok [OF out] show "store_inv t' s'" by blast
qed

lemma reachable_inv: "reachable (t, s) \<Longrightarrow> store_inv t s"
proof (induction "(t, s)" arbitrary: t s rule: reachable.induct)
  case start
  then show ?case by (rule store_inv_new)
next
  case (step x)
  obtain t0 s0 where "x = (t0, s0)" by fastforce
  with step show ?case using store_step_inv by blast
qed


lemma demo_store_defined:
  "demo_store = after (new_with_token 5 30) (demo_clock 1)
     (CDefine ''k'' demo_source demo_ttl value_meta_new source_meta_new)"
proof -
  have "valid_key ''k''" by (simp add: valid_key_def)
  then show ?thesis
    by (simp add: demo_store_def define_with_meta_def validate_key_syntax_cases demo_source_def
        definition_new_cases new_with_token_def def_with_meta_def def_with_source_meta_def Let_def)
qed

lemma demo_reachable: "reachable (Monotonic 1, demo_store)"
proof -
  have "store_step (Monotonic 1, new_with_token 5 30) (Monotonic 1, demo_store)"
    unfolding demo_store_defined
    by (rule store_step.call) (simp_all add: demo_ttl_def ttl_ok_def ticking_def demo_clock_def)
  with reachable.start show ?thesis by (rule reachable.step)
qed


subsection \<open>A key is a register that may forget\<close>

text \<open>The last write of a run of calls to a key; \<open>r\<close> is what it holds at the start.\<close>

fun register :: "store \<Rightarrow> (clock \<times> call) list \<Rightarrow> string \<Rightarrow> secret_bytes option \<Rightarrow> secret_bytes option" where
  "register s [] k r = r"
| "register s ((clk, c) # cs) k r =
     register (after s clk c) cs k (case written s clk c k of None \<Rightarrow> r | Some w \<Rightarrow> w)"

lemma held_slot: "slot s' k = slot s k \<Longrightarrow> held s' k = held s k"
  by (simp add: slot_def held_def)

lemma held_same_instance:
  "same_instance (fmlookup (entries s) k) (fmlookup (entries s') k) \<Longrightarrow> held s' k \<in> {held s k, None}"
  by (auto simp: same_instance_def held_def split: option.splits)

lemma unwritten_held:
  assumes "written s clk c k = None"
  shows "held (after s clk c) k \<in> {held s k, None}"
proof (cases "sets_value c \<and> k = call_key c")
  case True
  then obtain src v tt cap where c: "c = CSet k src v tt cap" by (cases c) auto
  with assms have "\<not> fst (perform s clk c)" by (auto simp: written_def simp del: perform.simps split: if_splits)
  then have "after s clk c = s"
    by (simp add: c store_set_def split: sum.splits)
  then show ?thesis by simp
next
  case False
  then consider "k \<noteq> call_key c" | "\<not> sets_value c" by blast
  then show ?thesis
  proof cases
    case 1
    then show ?thesis using held_slot [OF slot_frame] by simp
  next
    case 2
    from instance_kept [OF this, of s k clk] assms show ?thesis
      by (auto dest: held_same_instance)
  qed
qed

lemma held_register:
  "held s k \<in> {r, None} \<Longrightarrow> held (run_calls s cs) k \<in> {register s cs k r, None}"
proof (induction cs arbitrary: s r)
  case Nil
  then show ?case by simp
next
  case (Cons x cs)
  obtain clk c where x: "x = (clk, c)" by fastforce
  have "held (after s clk c) k \<in> {case written s clk c k of None \<Rightarrow> r | Some w \<Rightarrow> w, None}"
    using Cons.prems unwritten_held [of s clk c k] written_held [of s clk c k]
    by (cases "written s clk c k") auto
  from Cons.IH [OF this] show ?case by (simp add: x del: perform.simps)
qed

lemma get_held:
  "fst (store_get s k cap now) = Inr (Some v) \<Longrightarrow> held s k = Some v"
  by (auto simp: store_get_def held_def entry_get_def evaluate_def Let_def zeroize_value_def
      split: sum.splits option.splits prod.splits entry_state.splits if_splits)

text \<open>
  Property C16.  A key is a register that may forget but never lies.  Whatever calls ran on a store
  since it was created, on this and on other keys, with whatever outcomes, a get that returns a
  value returns the last one written to that very key: the argument of the last successful set, or
  the output of the last approved command, whichever came last, and nothing if a deletion came
  after.
\<close>

theorem get_returns_the_last_write:
  assumes "fst (store_get (run_calls (new_with_token tok d) cs) k cap now) = Inr (Some v)"
  shows "register (new_with_token tok d) cs k None = Some v"
proof -
  have "held (new_with_token tok d) k \<in> {None, None}" by (simp add: held_def new_with_token_def)
  from held_register [OF this, of cs] get_held [OF assms] show ?thesis by simp
qed

theorem get_returns_the_last_write_witness:
  "register (new_with_token 5 30)
     [(demo_clock 1, CDefine ''k'' demo_source demo_ttl value_meta_new source_meta_new),
      (demo_clock 50, demo_fetch)] ''k'' None = Some \<lparr>data = [1, 2], locked = False\<rparr>"
proof (rule get_returns_the_last_write)
  have "run_calls (new_with_token 5 30)
      [(demo_clock 1, CDefine ''k'' demo_source demo_ttl value_meta_new source_meta_new),
       (demo_clock 50, demo_fetch)]
      = install_fetched demo_store ''k'' demo_source \<lparr>data = [1, 2], locked = False\<rparr> demo_ttl
          (Monotonic 50)"
    by (simp only: run_calls_simps demo_store_defined [symmetric] demo_fetch_perform fst_conv snd_conv)
  then show "fst (store_get (run_calls (new_with_token 5 30)
      [(demo_clock 1, CDefine ''k'' demo_source demo_ttl value_meta_new source_meta_new),
       (demo_clock 50, demo_fetch)]) ''k'' demo_cap (Monotonic 55))
      = Inr (Some \<lparr>data = [1, 2], locked = False\<rparr>)"
    by (simp only:)
      (simp add: store_get_def check_cap_def install_fetched_def demo_store_def demo_cap_def
        new_with_token_def entry_get_def evaluate_def entry_new_def state_def demo_ttl_def time_simps)
qed

end
