(* ===== verification/Guard_Eval.thy ===== *)
theory Guard_Eval
  imports Guard
begin

text \<open>
  The judge of access guards (\<open>crates/cache-warden-cli/src/daemon/guard.rs\<close>) and the construction of
  a guard record from what a setter declares (\<open>daemon/handler.rs\<close>: \<open>plan_guard_record\<close>,
  \<open>pin_ancestor\<close>, \<open>pin_ancestor_by_path\<close>, \<open>getter_to_pinned\<close>).  The observed ancestry chain and the
  peer credentials are arguments, as they are in the code.
\<close>

subsection \<open>Data\<close>

record getter_process =
  gp_info :: process_info
  gp_unique_id :: "64 word option"

record getter_audit_token =
  token_euid :: "32 word"
  token_ruid :: "32 word"

record constraint_eval =
  eval_kind :: string
  eval_strength :: string
  eval_label :: string
  eval_risk :: "string option"

record setter_pin =
  pin_pid :: pid
  pin_start_time :: "duration option"
  pin_unique_id :: "64 word option"
  pin_path :: string
  pin_name :: string

record guard_eval_output =
  eval_constraints :: "constraint_eval list"
  setter_pinned :: "setter_pin option"
  getter_matched :: "setter_pin option"

datatype denied_kind =
  DeniedEmptyRecord | DeniedMissingContext | DeniedSameUser | DeniedSameAncestor | DeniedCommand

fun denied_kind_label :: "denied_kind \<Rightarrow> string" where
  "denied_kind_label DeniedEmptyRecord = ''empty-record''"
| "denied_kind_label DeniedMissingContext = ''missing-context''"
| "denied_kind_label DeniedSameUser = ''same-user''"
| "denied_kind_label DeniedSameAncestor = ''same-ancestor''"
| "denied_kind_label DeniedCommand = ''command''"

definition COMMAND_RISK_NOTE :: string where
  "COMMAND_RISK_NOTE =
     ''weak: matches by executable basename or full path; any process that can be spawned under ''
     @ ''the same name in the requester''
     @ [CHR 0x27] @ ''s ancestry chain will pass''"

subsection \<open>Matching\<close>

definition same_process_entity :: "getter_process \<Rightarrow> pinned_process \<Rightarrow> bool" where
  "same_process_entity g p =
     (case (gp_unique_id g, pinned_unique_id p) of
        (Some a, Some b) \<Rightarrow> a = b
      | _ \<Rightarrow>
          (if pid (gp_info g) \<noteq> pinned_pid p then False
           else (case (start_time (gp_info g), pinned_start_time p) of
                   (Some a, Some b) \<Rightarrow> a = b
                 | _ \<Rightarrow> False)))"

definition find_in_chain :: "getter_process list \<Rightarrow> pinned_process \<Rightarrow> getter_process option" where
  "find_in_chain chain p = find (\<lambda>g. same_process_entity g p) chain"

definition looks_like_path :: "string \<Rightarrow> bool" where
  "looks_like_path s = (case s of [] \<Rightarrow> False | c # _ \<Rightarrow> c = CHR ''/'')"

definition command_matches_chain :: "getter_process list \<Rightarrow> string \<Rightarrow> bool" where
  "command_matches_chain chain name =
     list_ex
       (\<lambda>g. if looks_like_path name
            then (case path (gp_info g) of None \<Rightarrow> False | Some p \<Rightarrow> path_eq p name)
            else (case process_name (gp_info g) of None \<Rightarrow> False | Some b \<Rightarrow> b = name))
       chain"

definition pinned_to_snapshot :: "pinned_process \<Rightarrow> setter_pin" where
  "pinned_to_snapshot p =
     \<lparr>pin_pid = pinned_pid p, pin_start_time = pinned_start_time p,
      pin_unique_id = pinned_unique_id p, pin_path = pinned_path p, pin_name = pinned_name p\<rparr>"

definition getter_to_snapshot :: "getter_process \<Rightarrow> setter_pin" where
  "getter_to_snapshot g =
     \<lparr>pin_pid = pid (gp_info g), pin_start_time = start_time (gp_info g), pin_unique_id = gp_unique_id g,
      pin_path = (case path (gp_info g) of None \<Rightarrow> [] | Some p \<Rightarrow> p),
      pin_name = (case process_name (gp_info g) of None \<Rightarrow> [] | Some n \<Rightarrow> n)\<rparr>"

subsection \<open>The evaluation\<close>

fun ancestor_label :: "declared_ancestor \<Rightarrow> constraint_eval" where
  "ancestor_label (SameShell n) =
     \<lparr>eval_kind = ''same-shell'', eval_strength = ''strong'',
      eval_label = ''same-shell ('' @ n @ '')'', eval_risk = None\<rparr>"
| "ancestor_label (Named n) =
     \<lparr>eval_kind = ''same-ancestor'', eval_strength = ''strong'',
      eval_label = ''same-ancestor ('' @ n @ '')'', eval_risk = None\<rparr>"

text \<open>The loop over the constraints, with its three accumulators in one output record.\<close>

fun evaluate_loop ::
  "getter_process list \<Rightarrow> getter_audit_token option \<Rightarrow> guard_setter \<Rightarrow> guard_constraint list
   \<Rightarrow> guard_eval_output \<Rightarrow> denied_kind + guard_eval_output"
where
  "evaluate_loop chain token s [] out = Inr out"
| "evaluate_loop chain token s (SameUser # cs) out =
     (case token of
        None \<Rightarrow> Inl DeniedMissingContext
      | Some t \<Rightarrow>
          (if token_euid t \<noteq> euid s \<or> token_ruid t \<noteq> ruid s then Inl DeniedSameUser
           else evaluate_loop chain token s cs
                  (out\<lparr>eval_constraints := eval_constraints out
                        @ [\<lparr>eval_kind = ''same-user'', eval_strength = ''strong'',
                            eval_label = ''same-user'', eval_risk = None\<rparr>]\<rparr>)))"
| "evaluate_loop chain token s (SameAncestor d p # cs) out =
     (case find_in_chain chain p of
        None \<Rightarrow> Inl DeniedSameAncestor
      | Some g \<Rightarrow>
          (let out1 = out\<lparr>eval_constraints := eval_constraints out @ [ancestor_label d]\<rparr> in
           evaluate_loop chain token s cs
             (if setter_pinned out1 = None
              then out1\<lparr>setter_pinned := Some (pinned_to_snapshot p),
                        getter_matched := Some (getter_to_snapshot g)\<rparr>
              else out1)))"
| "evaluate_loop chain token s (CommandNamed n # cs) out =
     (if \<not> command_matches_chain chain n then Inl DeniedCommand
      else evaluate_loop chain token s cs
             (out\<lparr>eval_constraints := eval_constraints out
                   @ [\<lparr>eval_kind = ''command'', eval_strength = ''weak'',
                       eval_label = ''command ('' @ n @ '')'',
                       eval_risk = Some COMMAND_RISK_NOTE\<rparr>]\<rparr>))"

definition evaluate_guard ::
  "getter_process list \<Rightarrow> getter_audit_token option \<Rightarrow> guard_record \<Rightarrow> denied_kind + guard_eval_output"
where
  "evaluate_guard chain token g =
     (if constraints g = [] then Inl DeniedEmptyRecord
      else if chain = [] then Inl DeniedMissingContext
      else evaluate_loop chain token (setter g) (constraints g)
             \<lparr>eval_constraints = [], setter_pinned = None, getter_matched = None\<rparr>)"

end
