(* ===== verification/Wire.thy ===== *)
theory Wire
  imports Definitions
begin

text \<open>
  The control protocol between client and daemon, without its JSON encoding
  (\<open>crates/cache-warden-cli/src/protocol/wire.rs\<close>), and the namespace rules of composed keys
  (\<open>crates/cache-warden-cli/src/namespace.rs\<close>).  The texts of error messages are for people and are
  left out; every field a program reads is kept.
\<close>

subsection \<open>Namespaces\<close>

definition DEFAULT_NAMESPACE :: string where "DEFAULT_NAMESPACE = ''default''"
definition RESERVED_NAMESPACE_AUTHSOCK :: string where "RESERVED_NAMESPACE_AUTHSOCK = ''authsock''"

definition is_reserved_namespace :: "string \<Rightarrow> bool" where
  "is_reserved_namespace ns \<longleftrightarrow> ns = RESERVED_NAMESPACE_AUTHSOCK"

definition is_valid_identifier :: "string \<Rightarrow> bool" where
  "is_valid_identifier s \<longleftrightarrow>
     s \<noteq> [] \<and> list_all (\<lambda>b. is_ascii_alphanumeric b \<or> b = CHR ''_'') s"

definition compose_key :: "string \<Rightarrow> string \<Rightarrow> string" where
  "compose_key ns k = ns @ ''/'' @ k"

text \<open>\<open>str::split_once\<close>: the text before and after the first separator.\<close>

fun split_once :: "char \<Rightarrow> string \<Rightarrow> (string \<times> string) option" where
  "split_once c [] = None"
| "split_once c (x # xs) =
     (if x = c then Some ([], xs)
      else (case split_once c xs of None \<Rightarrow> None | Some (a, b) \<Rightarrow> Some (x # a, b)))"

definition split_composed :: "string \<Rightarrow> (string \<times> string) option" where
  "split_composed s =
     (case split_once (CHR ''/'') s of
        None \<Rightarrow> None
      | Some (ns, k) \<Rightarrow>
          (if is_valid_identifier ns \<and> is_valid_identifier k then Some (ns, k) else None))"

definition qualify :: "string \<Rightarrow> string \<Rightarrow> string" where
  "qualify reference_key ctx_ns =
     (if CHR ''/'' \<in> set reference_key then reference_key else compose_key ctx_ns reference_key)"

lemma split_once_append [simp]: "c \<notin> set a \<Longrightarrow> split_once c (a @ c # b) = Some (a, b)"
  by (induction a) auto

lemma split_once_parts: "split_once c s = Some (a, b) \<Longrightarrow> s = a @ c # b \<and> c \<notin> set a"
  by (induction s arbitrary: a) (auto split: option.splits if_splits)

lemma split_once_Some: "split_once c s = Some (a, b) \<longleftrightarrow> s = a @ c # b \<and> c \<notin> set a"
  using split_once_parts split_once_append by metis

lemma split_once_None: "split_once c s = None \<longleftrightarrow> c \<notin> set s"
  by (induction s) (auto split: option.splits)

lemma valid_identifier_segment: "is_valid_identifier s = is_identifier_segment s"
  by (simp add: is_valid_identifier_def is_identifier_segment_def)

lemma split_composed_Some:
  "split_composed s = Some (ns, k) \<longleftrightarrow>
     s = compose_key ns k \<and> is_valid_identifier ns \<and> is_valid_identifier k"
proof
  assume "split_composed s = Some (ns, k)"
  then show "s = compose_key ns k \<and> is_valid_identifier ns \<and> is_valid_identifier k"
    by (auto simp: split_composed_def compose_key_def dest!: split_once_parts
        split: option.splits if_splits)
next
  assume "s = compose_key ns k \<and> is_valid_identifier ns \<and> is_valid_identifier k"
  then show "split_composed s = Some (ns, k)"
    by (simp add: split_composed_def compose_key_def valid_identifier_segment identifier_no_slash)
qed

lemma split_composed_valid: "split_composed s = Some (ns, k) \<Longrightarrow> valid_key s"
  using split_namespaced [of ns k]
  by (auto simp: split_composed_Some valid_key_iff_split compose_key_def valid_identifier_segment)

subsection \<open>Typed sources\<close>

record value_meta_wire =
  vmw_type_label :: "string option"
  vmw_params :: "(string, string) fmap"

record command_spec_wire =
  csw_argv :: "string list"
  csw_cwd :: "string option"
  csw_env :: env_overlay

record op_spec_wire =
  osw_uri :: string
  osw_account :: "string option"

datatype source_spec_wire = SpecCommand command_spec_wire | SpecOp op_spec_wire

text \<open>\<open>str::trim\<close> leaves nothing exactly when every character is white space (of ASCII).\<close>

definition is_blank :: "string \<Rightarrow> bool" where
  "is_blank s \<longleftrightarrow> list_all (\<lambda>c. c = CHR '' '' \<or> (9 \<le> (of_char c :: nat) \<and> (of_char c :: nat) \<le> 13)) s"

definition starts_with :: "string \<Rightarrow> string \<Rightarrow> bool" where
  "starts_with p s \<longleftrightarrow> take (length p) s = p"

fun spec_validate :: "source_spec_wire \<Rightarrow> bool" where
  "spec_validate (SpecCommand c) = (csw_argv c \<noteq> [])"
| "spec_validate (SpecOp o') = (\<not> is_blank (osw_uri o') \<and> starts_with ''op://'' (osw_uri o'))"

fun spec_lower :: "source_spec_wire \<Rightarrow> value_source" where
  "spec_lower (SpecCommand c) = command_with (csw_argv c) (csw_cwd c) (csw_env c)"
| "spec_lower (SpecOp o') =
     command_source
       ([''op''] @ (case osw_account o' of None \<Rightarrow> [] | Some acct \<Rightarrow> [''--account'', acct])
        @ [''read'', osw_uri o'])"

definition NLC :: char where "NLC = CHR 0x0A"

text \<open>The lines \<open>k=v\<close> of an environment overlay, in the order of a \<open>BTreeMap\<close>.\<close>

definition env_lines :: "env_overlay \<Rightarrow> string list" where
  "env_lines e = map (\<lambda>k. k @ ''='' @ the (fmlookup e k)) (btree_keys e)"

fun to_source_meta :: "source_spec_wire \<Rightarrow> source_meta" where
  "to_source_meta (SpecCommand c) =
     with_kind ''command''
       ([(''argv'', join_with [NLC] (csw_argv c))]
        @ (case csw_cwd c of None \<Rightarrow> [] | Some d \<Rightarrow> [(''cwd'', d)])
        @ (if csw_env c = fmempty then []
           else [(''env'', join_with [NLC] (env_lines (csw_env c)))]))"
| "to_source_meta (SpecOp o') =
     with_kind ''op''
       ([(''uri'', osw_uri o')]
        @ (case osw_account o' of None \<Rightarrow> [] | Some acct \<Rightarrow> [(''account'', acct)]))"

definition parse_env :: "string \<Rightarrow> env_overlay" where
  "parse_env s =
     fold (\<lambda>(k, v). fmupd k v) (List.map_filter (split_once (CHR ''='')) (split_char NLC s)) fmempty"

definition from_source_meta :: "source_meta \<Rightarrow> source_spec_wire option" where
  "from_source_meta m =
     (case kind m of
        None \<Rightarrow> None
      | Some kd \<Rightarrow>
          (if kd = ''command''
           then (case source_meta_field m ''argv'' of
                   None \<Rightarrow> None
                 | Some s \<Rightarrow>
                     (if s = [] then None
                      else Some (SpecCommand
                             \<lparr>csw_argv = split_char NLC s, csw_cwd = source_meta_field m ''cwd'',
                              csw_env = (case source_meta_field m ''env'' of
                                           None \<Rightarrow> fmempty
                                         | Some e \<Rightarrow> parse_env e)\<rparr>)))
           else if kd = ''op''
           then (case source_meta_field m ''uri'' of
                   None \<Rightarrow> None
                 | Some u \<Rightarrow> Some (SpecOp
                       \<lparr>osw_uri = u, osw_account = source_meta_field m ''account''\<rparr>))
           else None))"

text \<open>What the flat slot can carry: no line break inside a line, and no \<open>=\<close> in a variable's name.\<close>

definition plain_env :: "env_overlay \<Rightarrow> bool" where
  "plain_env e \<longleftrightarrow> fmpred (\<lambda>k v. CHR ''='' \<notin> set k \<and> NLC \<notin> set k \<and> NLC \<notin> set v) e"

fun plain_spec :: "source_spec_wire \<Rightarrow> bool" where
  "plain_spec (SpecCommand c) \<longleftrightarrow>
     csw_argv c \<noteq> [] \<and> csw_argv c \<noteq> [[]] \<and> list_all (\<lambda>a. NLC \<notin> set a) (csw_argv c)
     \<and> plain_env (csw_env c)"
| "plain_spec (SpecOp o') = True"

lemma split_join:
  "xs \<noteq> [] \<Longrightarrow> list_all (\<lambda>a. c \<notin> set a) xs \<Longrightarrow> split_char c (join_with [c] xs) = xs"
  by (induction "[c]" xs rule: join_with.induct) (auto simp: split_char_single split_char_append)

lemma fold_fmupd_lookup:
  "distinct ks \<Longrightarrow> fmlookup (fold (\<lambda>k. fmupd k (f k)) ks m) x
     = (if x \<in> set ks then Some (f x) else fmlookup m x)"
  by (induction ks arbitrary: m) auto

lemma fold_env: "fold (\<lambda>k. fmupd k (the (fmlookup e k))) (btree_keys e) fmempty = e"
proof (rule fmap_ext)
  fix x
  show "fmlookup (fold (\<lambda>k. fmupd k (the (fmlookup e k))) (btree_keys e) fmempty) x = fmlookup e x"
    by (simp add: fold_fmupd_lookup fmdom_iff)
qed

lemma map_filter_all:
  "(\<And>x. x \<in> set xs \<Longrightarrow> f (g x) = Some (h x)) \<Longrightarrow> List.map_filter f (map g xs) = map h xs"
  by (induction xs) simp_all

lemma split_line: "CHR ''='' \<notin> set k \<Longrightarrow> split_once (CHR ''='') (k @ ''='' @ v) = Some (k, v)"
  by simp

lemma parse_env_lines:
  assumes "e \<noteq> fmempty" and "plain_env e"
  shows "parse_env (join_with [NLC] (env_lines e)) = e"
proof -
  have plain: "CHR ''='' \<notin> set k \<and> NLC \<notin> set k \<and> NLC \<notin> set (the (fmlookup e k))"
    if "k \<in> set (btree_keys e)" for k
    using that assms(2) by (auto simp: plain_env_def fmdom_iff dest: fmpredD)
  have "btree_keys e \<noteq> []"
    using assms(1) by (metis fold_env fold_simps(1))
  then have "env_lines e \<noteq> []" by (simp add: env_lines_def)
  moreover have "list_all (\<lambda>a. NLC \<notin> set a) (env_lines e)"
    using plain by (auto simp: env_lines_def list_all_iff NLC_def)
  ultimately have lines: "split_char NLC (join_with [NLC] (env_lines e)) = env_lines e"
    by (rule split_join)
  have "List.map_filter (split_once (CHR ''='')) (env_lines e)
      = map (\<lambda>k. (k, the (fmlookup e k))) (btree_keys e)"
    using plain by (auto simp: env_lines_def intro: map_filter_all)
  then show ?thesis
    using fold_env [of e] by (simp add: parse_env_def lines fold_map comp_def)
qed

lemma split_char_lines: "list_all (\<lambda>p. c \<notin> set p) (split_char c s)"
  using split_char_pieces by (auto simp: list_all_iff)

lemma split_char_blank: "split_char c s = [[]] \<longleftrightarrow> s = []"
  by (induction s) (auto split: list.splits)

lemma plain_parse_env: "plain_env (parse_env s)"
proof -
  have step: "plain_env (fold (\<lambda>(k, v). fmupd k v) kvs m)"
    if "plain_env m" and "list_all (\<lambda>(k, v). CHR ''='' \<notin> set k \<and> NLC \<notin> set k \<and> NLC \<notin> set v) kvs"
    for kvs m
    using that by (induction kvs arbitrary: m) (auto simp: plain_env_def fmpred_upd)
  have "CHR ''='' \<notin> set k \<and> NLC \<notin> set k \<and> NLC \<notin> set v"
    if "line \<in> set (split_char NLC s)" and "split_once (CHR ''='') line = Some (k, v)" for line k v
    using split_once_parts [OF that(2)] split_char_pieces [OF that(1)] by auto
  then show ?thesis
    unfolding parse_env_def
    by (intro step) (auto simp: plain_env_def list_all_iff List.map_filter_def)
qed

lemma from_source_meta_plain: "from_source_meta m = Some s \<Longrightarrow> plain_spec s"
  by (auto simp: from_source_meta_def split_char_lines split_char_blank plain_parse_env
      split: option.splits if_splits)
    (simp_all add: plain_env_def)

lemma command_slot:
  "source_meta_field (to_source_meta (SpecCommand c)) ''argv'' = Some (join_with [NLC] (csw_argv c))"
  "source_meta_field (to_source_meta (SpecCommand c)) ''cwd'' = csw_cwd c"
  "source_meta_field (to_source_meta (SpecCommand c)) ''env''
     = (if csw_env c = fmempty then None else Some (join_with [NLC] (env_lines (csw_env c))))"
  "kind (to_source_meta (SpecCommand c)) = Some ''command''"
  by (auto simp: source_meta_field_def with_kind_def split: option.split)

lemma op_slot:
  "source_meta_field (to_source_meta (SpecOp o')) ''uri'' = Some (osw_uri o')"
  "source_meta_field (to_source_meta (SpecOp o')) ''account'' = osw_account o'"
  "kind (to_source_meta (SpecOp o')) = Some ''op''"
  by (auto simp: source_meta_field_def with_kind_def split: option.split)

lemma join_with_blank: "join_with sep xs = [] \<Longrightarrow> sep \<noteq> [] \<Longrightarrow> xs = [] \<or> xs = [[]]"
  by (cases "(sep, xs)" rule: join_with.cases) auto

text \<open>
  When a typed source survives the opaque metadata slot.  A source read back from the slot it was
  rendered to is the same source exactly when no argument and no environment entry contains a line
  break, no variable name contains \<open>=\<close>, and the argument list is not a single empty
  word; an \<open>op\<close> source always survives.
\<close>

theorem source_meta_roundtrip:
  "from_source_meta (to_source_meta s) = Some s \<longleftrightarrow> plain_spec s"
proof
  assume "from_source_meta (to_source_meta s) = Some s"
  then show "plain_spec s" by (rule from_source_meta_plain)
next
  assume plain: "plain_spec s"
  show "from_source_meta (to_source_meta s) = Some s"
  proof (cases s)
    case (SpecCommand c)
    with plain have argv: "csw_argv c \<noteq> []" "csw_argv c \<noteq> [[]]"
        "list_all (\<lambda>a. NLC \<notin> set a) (csw_argv c)" and env: "plain_env (csw_env c)"
      by simp_all
    have "join_with [NLC] (csw_argv c) \<noteq> []" using join_with_blank argv by blast
    then show ?thesis
      using split_join [OF argv(1,3)] parse_env_lines [OF _ env]
      by (simp add: SpecCommand from_source_meta_def command_slot del: to_source_meta.simps)
  next
    case (SpecOp o')
    then show ?thesis by (simp add: from_source_meta_def op_slot del: to_source_meta.simps)
  qed
qed

text \<open>
  A command whose argument spans two lines, the usual shape of a shell script, comes back as a
  different command, with the lines as separate arguments.
\<close>

theorem multiline_argument_is_split:
  "from_source_meta (to_source_meta (SpecCommand
      \<lparr>csw_argv = [''sh'', ''-c'', ''cd /x'' @ [NLC] @ ''cat key''], csw_cwd = None, csw_env = fmempty\<rparr>))
   = Some (SpecCommand
      \<lparr>csw_argv = [''sh'', ''-c'', ''cd /x'', ''cat key''], csw_cwd = None, csw_env = fmempty\<rparr>)"
  by (simp add: from_source_meta_def command_slot NLC_def del: to_source_meta.simps)

subsection \<open>Requests\<close>

datatype guard_constraint_wire =
  WireSameUser | WireSameShell | WireSameAncestor string | WireCommand string

record signed_by_wire =
  sbw_anchor :: string
  sbw_team_id :: string
  sbw_identifier :: string

text \<open>The only \<open>SetSource\<close> is a static value, in base 64; the decoding is a parameter of the handler.\<close>

record set_request =
  set_key :: string
  set_value_b64 :: string
  set_soft_ttl_secs :: "nat option"
  set_hard_ttl_secs :: "nat option"
  set_guard_constraints :: "guard_constraint_wire list"
  set_expected_version :: "nat option"
  set_claim_token :: "string option"
  set_persist :: "bool option"
  set_signed_by :: "signed_by_wire option"

datatype request =
  Ping
| Status
| KvSet set_request
| KvDefine string source_spec_wire "nat option" "nat option" value_meta_wire
| KvGet string bool
| KvDel string bool
| KvList
| KvPin string nat
| KvUnpin string
| KvClaim string nat nat
| KvUnclaim string string
| VaultInit
| VaultUnlock "string option"
| KvOwnerClear string
| VaultLock
| VaultAddPasskey string bool
| RestartGraceful

subsection \<open>Responses\<close>

datatype error_kind =
  BadRequest | ErrNotFound | AuthFailed | NotRegenerable | ErrHardExpired | UpstreamFailed
| Internal | CasMismatch | AlreadyClaimed | ClaimTokenMismatch | VaultLocked
| VaultNotInitialized | RestartAborted

record wire_error =
  we_kind :: error_kind
  we_current_version :: "nat option"
  we_claim_expires_in_secs :: "nat option"

record entry_info =
  ei_name :: string
  ei_state :: string
  ei_regenerable :: bool
  ei_defined :: bool
  ei_has_value :: bool
  ei_pin_remaining_secs :: "nat option"
  ei_value_type :: "string option"
  ei_source :: "string option"
  ei_backoff_until_secs :: "nat option"
  ei_guard_summary :: "string list option"
  ei_owner_summary :: "string option"
  ei_version :: "nat option"
  ei_claim_expires_in_secs :: "nat option"
  ei_locked :: bool

datatype fda_status_wire = FdaGranted | FdaNotGranted | FdaNotApplicable | FdaUnknown

datatype vault_state_wire = WireUnlocked | WireLocked | WireNotInitialized

record vault_status_wire =
  vsw_state :: vault_state_wire
  vsw_vault_id :: "string option"
  vsw_slots :: "nat option"
  vsw_dek_generation :: "nat option"
  vsw_dev_rp_slot :: bool

datatype ok_payload =
  Pong
| StatusPayload "32 word" string string "entry_info list" "fda_status_wire option"
    "vault_status_wire option"
| GetPayload string
| GetVerified string
| ListPayload "string list" "entry_info list"
| Deleted bool
| SetPayload (set_guard_applied: "string list") (set_version: "nat option")
    (set_owner_applied: "string option")
| Defined
| PinnedAck nat
| UnpinnedAck bool
| Claimed nat string nat
| Unclaimed
| VaultInitialized string string
| CeremonyOpened string nat
| OwnerCleared
| VaultUnlocked nat
| VaultLockedAck
| Restarting

datatype response = RespOk ok_payload | RespErr wire_error

definition resp_error :: "error_kind \<Rightarrow> response" where
  "resp_error k =
     RespErr \<lparr>we_kind = k, we_current_version = None, we_claim_expires_in_secs = None\<rparr>"

definition set_ack_full :: "string list \<Rightarrow> nat \<Rightarrow> string option \<Rightarrow> response" where
  "set_ack_full guards version owner = RespOk (SetPayload guards (Some version) owner)"

definition set_ack_with_guard_and_version :: "string list \<Rightarrow> nat \<Rightarrow> response" where
  "set_ack_with_guard_and_version guards version = set_ack_full guards version None"

definition claimed_ack :: "nat \<Rightarrow> string \<Rightarrow> nat \<Rightarrow> response" where
  "claimed_ack version tok secs = RespOk (Claimed version tok secs)"

definition cas_mismatch :: "nat \<Rightarrow> response" where
  "cas_mismatch current =
     RespErr \<lparr>we_kind = CasMismatch, we_current_version = Some current,
              we_claim_expires_in_secs = None\<rparr>"

definition already_claimed :: "nat \<Rightarrow> response" where
  "already_claimed secs =
     RespErr \<lparr>we_kind = AlreadyClaimed, we_current_version = None,
              we_claim_expires_in_secs = Some secs\<rparr>"

fun is_ok :: "response \<Rightarrow> bool" where
  "is_ok (RespOk _) = True"
| "is_ok (RespErr _) = False"

subsection \<open>Display of a source\<close>

definition field_or_empty :: "source_meta \<Rightarrow> string \<Rightarrow> string" where
  "field_or_empty m f = (case source_meta_field m f of None \<Rightarrow> [] | Some v \<Rightarrow> v)"

definition source_meta_display :: "source_meta \<Rightarrow> string option" where
  "source_meta_display m =
     (case kind m of
        None \<Rightarrow> None
      | Some kd \<Rightarrow>
          (if kd = ''op''
           then Some (case source_meta_field m ''account'' of
                        Some acct \<Rightarrow> field_or_empty m ''uri'' @ '' (account '' @ acct @ '')''
                      | None \<Rightarrow> field_or_empty m ''uri'')
           else if kd = ''command'' then Some ''command''
           else Some (''kind: '' @ kd)))"

definition source_meta_display_verbose :: "source_meta \<Rightarrow> string option" where
  "source_meta_display_verbose m =
     (case kind m of
        None \<Rightarrow> None
      | Some kd \<Rightarrow>
          (if kd = ''command''
           then Some (''command: ''
                  @ map (\<lambda>c. if c = NLC then CHR '' '' else c) (field_or_empty m ''argv''))
           else source_meta_display m))"

definition value_meta_wire_is_empty :: "value_meta_wire \<Rightarrow> bool" where
  "value_meta_wire_is_empty m \<longleftrightarrow> vmw_type_label m = None \<and> vmw_params m = fmempty"

end
