(* ===== verification/Guard_Plan.thy ===== *)
theory Guard_Plan
  imports Guard_Eval Wire
begin

text \<open>
  How a guard record comes to be (\<open>crates/cache-warden-cli/src/daemon/handler.rs\<close>): the declaration of
  a \<open>kv.set\<close>, the daemon's policy, and the setter as the daemon observed it.  With the evaluator, the
  contract of the guard: who gets through, and that the setter itself does.
\<close>

record kv_policy =
  default_require_same_user :: bool
  shell_names :: "string list"

definition default_shell_names :: "string list" where
  "default_shell_names = [''zsh'', ''bash'', ''fish'', ''sh'', ''nu'']"

definition getter_to_pinned :: "getter_process \<Rightarrow> pinned_process" where
  "getter_to_pinned g =
     \<lparr>pinned_pid = pid (gp_info g), pinned_start_time = start_time (gp_info g),
      pinned_unique_id = gp_unique_id g,
      pinned_path = (case path (gp_info g) of None \<Rightarrow> [] | Some p \<Rightarrow> p),
      pinned_name = (case process_name (gp_info g) of None \<Rightarrow> [] | Some n \<Rightarrow> n)\<rparr>"

definition pin_ancestor :: "getter_process list \<Rightarrow> (string \<Rightarrow> bool) \<Rightarrow> pinned_process option" where
  "pin_ancestor chain predicate =
     map_option getter_to_pinned
       (find (\<lambda>g. case process_name (gp_info g) of None \<Rightarrow> False | Some b \<Rightarrow> predicate b) chain)"

definition pin_ancestor_by_path :: "getter_process list \<Rightarrow> string \<Rightarrow> pinned_process option" where
  "pin_ancestor_by_path chain full_path =
     map_option getter_to_pinned
       (find (\<lambda>g. case path (gp_info g) of None \<Rightarrow> False | Some p \<Rightarrow> path_eq p full_path) chain)"

text \<open>One declared constraint.\<close>

fun plan_constraint ::
  "kv_policy \<Rightarrow> getter_process list \<Rightarrow> guard_constraint_wire \<Rightarrow> response + guard_constraint"
where
  "plan_constraint pol chain WireSameUser = Inr SameUser"
| "plan_constraint pol chain WireSameShell =
     (case pin_ancestor chain (\<lambda>name. name \<in> set (shell_names pol)) of
        None \<Rightarrow> Inl (resp_error BadRequest)
      | Some p \<Rightarrow> Inr (SameAncestor (SameShell (pinned_name p)) p))"
| "plan_constraint pol chain (WireSameAncestor target) =
     (case (case pin_ancestor chain
                   (\<lambda>b. if looks_like_path target then False else b = target) of
              Some p \<Rightarrow> Some p
            | None \<Rightarrow>
                (if looks_like_path target then pin_ancestor_by_path chain target else None)) of
        None \<Rightarrow> Inl (resp_error BadRequest)
      | Some p \<Rightarrow> Inr (SameAncestor (Named target) p))"
| "plan_constraint pol chain (WireCommand name) = Inr (CommandNamed name)"

fun plan_constraints ::
  "kv_policy \<Rightarrow> getter_process list \<Rightarrow> guard_constraint_wire list \<Rightarrow> response + guard_constraint list"
where
  "plan_constraints pol chain [] = Inr []"
| "plan_constraints pol chain (w # ws) =
     (case plan_constraint pol chain w of
        Inl resp \<Rightarrow> Inl resp
      | Inr c \<Rightarrow>
          (case plan_constraints pol chain ws of
             Inl resp \<Rightarrow> Inl resp
           | Inr cs \<Rightarrow> Inr (c # cs)))"

definition plan_guard_record ::
  "guard_constraint_wire list \<Rightarrow> kv_policy \<Rightarrow> getter_audit_token option
   \<Rightarrow> getter_process list option \<Rightarrow> response + guard_record option"
where
  "plan_guard_record decl pol token guard_chain =
     (if decl = [] \<and> \<not> default_require_same_user pol then Inr None
      else (let effective = (if decl = [] then [WireSameUser] else decl) in
            case token of
              None \<Rightarrow> Inl (resp_error AuthFailed)
            | Some t \<Rightarrow>
                (let chain = (case guard_chain of None \<Rightarrow> [] | Some c \<Rightarrow> c) in
                 case plan_constraints pol chain effective of
                   Inl resp \<Rightarrow> Inl resp
                 | Inr cs \<Rightarrow>
                     Inr (Some (guard_record_new cs
                            \<lparr>euid = token_euid t, ruid = token_ruid t\<rparr>)))))"

fun constraint_kind_label :: "guard_constraint \<Rightarrow> string" where
  "constraint_kind_label SameUser = ''same-user''"
| "constraint_kind_label (SameAncestor (SameShell n) p) = ''same-shell''"
| "constraint_kind_label (SameAncestor (Named n) p) = ''same-ancestor''"
| "constraint_kind_label (CommandNamed n) = ''command''"

fun strong_label :: "guard_constraint \<Rightarrow> string option" where
  "strong_label SameUser = Some ''same-user''"
| "strong_label (SameAncestor (SameShell n) p) = Some (''same-shell ('' @ n @ '')'')"
| "strong_label (SameAncestor (Named n) p) = Some (''same-ancestor ('' @ n @ '')'')"
| "strong_label (CommandNamed n) = None"

fun weak_label :: "guard_constraint \<Rightarrow> string option" where
  "weak_label (CommandNamed n) = Some (''command ('' @ n @ '') (weak)'')"
| "weak_label _ = None"

definition summarize_guard_record :: "guard_record \<Rightarrow> string list" where
  "summarize_guard_record g =
     List.map_filter strong_label (constraints g) @ List.map_filter weak_label (constraints g)"

subsection \<open>What a guard demands\<close>

text \<open>Two observations are of the same process when something that tells processes apart says so.\<close>

definition same_entity :: "getter_process \<Rightarrow> pinned_process \<Rightarrow> bool" where
  "same_entity g p \<longleftrightarrow>
     (gp_unique_id g \<noteq> None \<and> gp_unique_id g = pinned_unique_id p)
     \<or> ((gp_unique_id g = None \<or> pinned_unique_id p = None) \<and> pid (gp_info g) = pinned_pid p
        \<and> start_time (gp_info g) \<noteq> None \<and> start_time (gp_info g) = pinned_start_time p)"

lemma same_process_entity_iff: "same_process_entity g p = same_entity g p"
  by (auto simp: same_process_entity_def same_entity_def split: option.splits)

fun runs_command :: "string \<Rightarrow> getter_process \<Rightarrow> bool" where
  "runs_command name g =
     (if looks_like_path name
      then (case path (gp_info g) of None \<Rightarrow> False | Some p \<Rightarrow> path_eq p name)
      else process_name (gp_info g) = Some name)"

fun demands :: "getter_process list \<Rightarrow> getter_audit_token option \<Rightarrow> guard_setter \<Rightarrow> guard_constraint \<Rightarrow> bool"
where
  "demands chain token s SameUser \<longleftrightarrow> token = Some \<lparr>token_euid = euid s, token_ruid = ruid s\<rparr>"
| "demands chain token s (SameAncestor d p) \<longleftrightarrow> list_ex (\<lambda>g. same_entity g p) chain"
| "demands chain token s (CommandNamed n) \<longleftrightarrow> list_ex (runs_command n) chain"

fun refusal :: "getter_audit_token option \<Rightarrow> guard_constraint \<Rightarrow> denied_kind" where
  "refusal token SameUser = (if token = None then DeniedMissingContext else DeniedSameUser)"
| "refusal token (SameAncestor d p) = DeniedSameAncestor"
| "refusal token (CommandNamed n) = DeniedCommand"

lemma command_matches_iff: "command_matches_chain chain n = list_ex (runs_command n) chain"
proof -
  have "(if looks_like_path n
         then (case path (gp_info g) of None \<Rightarrow> False | Some p \<Rightarrow> path_eq p n)
         else (case process_name (gp_info g) of None \<Rightarrow> False | Some b \<Rightarrow> b = n))
      = runs_command n g" for g
    by (simp split: option.split)
  then show ?thesis by (simp only: command_matches_chain_def)
qed

lemma find_in_chain_None: "find_in_chain chain p = None \<longleftrightarrow> \<not> list_ex (\<lambda>g. same_entity g p) chain"
  by (auto simp: find_in_chain_def find_None_iff list_ex_iff same_process_entity_iff)

lemma find_in_chain_ex:
  assumes "list_ex (\<lambda>g. same_entity g p) chain"
  obtains g where "find_in_chain chain p = Some g" and "g \<in> set chain" and "same_entity g p"
proof -
  obtain g where g: "find_in_chain chain p = Some g"
    using assms find_in_chain_None by (cases "find_in_chain chain p") auto
  then have "g \<in> set chain \<and> same_entity g p"
    by (auto simp: find_in_chain_def find_Some_iff same_process_entity_iff)
  with g that show ?thesis by blast
qed

fun describe :: "guard_constraint \<Rightarrow> constraint_eval" where
  "describe SameUser =
     \<lparr>eval_kind = ''same-user'', eval_strength = ''strong'', eval_label = ''same-user'', eval_risk = None\<rparr>"
| "describe (SameAncestor d p) = ancestor_label d"
| "describe (CommandNamed n) =
     \<lparr>eval_kind = ''command'', eval_strength = ''weak'', eval_label = ''command ('' @ n @ '')'',
      eval_risk = Some COMMAND_RISK_NOTE\<rparr>"

text \<open>The pair of identities shown to the user: those of one matched constraint.\<close>

definition identities_match :: "getter_process list \<Rightarrow> guard_constraint list \<Rightarrow> guard_eval_output \<Rightarrow> bool" where
  "identities_match chain cs out \<longleftrightarrow>
     (case (setter_pinned out, getter_matched out) of
        (None, None) \<Rightarrow> True
      | (Some a, Some b) \<Rightarrow>
          (\<exists>d p g. SameAncestor d p \<in> set cs \<and> g \<in> set chain \<and> same_entity g p
             \<and> a = pinned_to_snapshot p \<and> b = getter_to_snapshot g)
      | _ \<Rightarrow> False)"

lemma identities_match_labels [simp]:
  "identities_match chain all (out\<lparr>eval_constraints := xs\<rparr>) = identities_match chain all out"
  by (simp add: identities_match_def)

lemma evaluate_loop_ok:
  assumes "list_all (demands chain token s) cs"
    and "identities_match chain all out" and "set cs \<subseteq> set all"
  shows "\<exists>out'. evaluate_loop chain token s cs out = Inr out'
    \<and> eval_constraints out' = eval_constraints out @ map describe cs
    \<and> identities_match chain all out'"
  using assms
proof (induction cs arbitrary: out)
  case Nil
  then show ?case by simp
next
  case (Cons c cs)
  have "\<exists>out1. evaluate_loop chain token s (c # cs) out = evaluate_loop chain token s cs out1
      \<and> eval_constraints out1 = eval_constraints out @ [describe c] \<and> identities_match chain all out1"
  proof (cases c)
    case SameUser
    with Cons.prems show ?thesis
      by (intro exI [of _ "out\<lparr>eval_constraints := eval_constraints out @ [describe c]\<rparr>"]) simp
  next
    case (SameAncestor d p)
    with Cons.prems(1) obtain g where g: "find_in_chain chain p = Some g"
      and in_chain: "g \<in> set chain" "same_entity g p"
      by (auto elim: find_in_chain_ex)
    have "SameAncestor d p \<in> set all" using Cons.prems(3) SameAncestor by simp
    with in_chain have pair: "identities_match chain all
        (out\<lparr>setter_pinned := Some (pinned_to_snapshot p),
             getter_matched := Some (getter_to_snapshot g)\<rparr>)"
      by (auto simp: identities_match_def)
    let ?out = "out\<lparr>eval_constraints := eval_constraints out @ [describe c]\<rparr>"
    show ?thesis
    proof (cases "setter_pinned out = None")
      case True
      with pair show ?thesis
        by (intro exI [of _ "?out\<lparr>setter_pinned := Some (pinned_to_snapshot p),
             getter_matched := Some (getter_to_snapshot g)\<rparr>"])
          (simp add: SameAncestor g Let_def identities_match_def)
    next
      case False
      with Cons.prems(2) show ?thesis
        by (intro exI [of _ ?out]) (auto simp: SameAncestor g Let_def)
    qed
  next
    case (CommandNamed n)
    with Cons.prems show ?thesis
      by (intro exI [of _ "out\<lparr>eval_constraints := eval_constraints out @ [describe c]\<rparr>"])
        (simp add: command_matches_iff)
  qed
  then obtain out1 where one: "evaluate_loop chain token s (c # cs) out = evaluate_loop chain token s cs out1"
      "eval_constraints out1 = eval_constraints out @ [describe c]" "identities_match chain all out1"
    by blast
  with Cons.IH [of out1] Cons.prems show ?case by auto
qed

lemma evaluate_loop_refuses:
  assumes "\<not> list_all (demands chain token s) cs"
  shows "\<exists>pre c post. cs = pre @ c # post \<and> list_all (demands chain token s) pre
    \<and> \<not> demands chain token s c \<and> evaluate_loop chain token s cs out = Inl (refusal token c)"
  using assms
proof (induction cs arbitrary: out)
  case Nil
  then show ?case by simp
next
  case (Cons c cs)
  show ?case
  proof (cases "demands chain token s c")
    case False
    then have "evaluate_loop chain token s (c # cs) out = Inl (refusal token c)"
      by (cases c)
        (auto simp: command_matches_iff find_in_chain_None [symmetric] split: option.splits)
    with False show ?thesis by (intro exI [of _ "[]"] exI [of _ c] exI [of _ cs]) simp
  next
    case True
    then obtain out' where "evaluate_loop chain token s (c # cs) out = evaluate_loop chain token s cs out'"
      by (cases c)
        (auto simp: command_matches_iff Let_def elim: find_in_chain_ex split: option.splits)
    moreover from True Cons.prems obtain pre d post where "cs = pre @ d # post"
      "list_all (demands chain token s) pre" "\<not> demands chain token s d"
      "evaluate_loop chain token s cs out' = Inl (refusal token d)"
      using Cons.IH [of out'] by auto
    ultimately show ?thesis using True
      by (intro exI [of _ "c # pre"] exI [of _ d] exI [of _ post]) simp
  qed
qed

lemma guard_verdict_cases:
  "case evaluate_guard chain token g of
     Inr out \<Rightarrow> constraints g \<noteq> [] \<and> chain \<noteq> []
       \<and> list_all (demands chain token (setter g)) (constraints g)
       \<and> eval_constraints out = map describe (constraints g)
       \<and> identities_match chain (constraints g) out
   | Inl denied \<Rightarrow>
       (if constraints g = [] then denied = DeniedEmptyRecord
        else if chain = [] then denied = DeniedMissingContext
        else (\<exists>pre c post. constraints g = pre @ c # post
               \<and> list_all (demands chain token (setter g)) pre
               \<and> \<not> demands chain token (setter g) c \<and> denied = refusal token c))"
proof -
  let ?out = "\<lparr>eval_constraints = [], setter_pinned = None, getter_matched = None\<rparr>"
  have start: "identities_match chain (constraints g) ?out" by (simp add: identities_match_def)
  show ?thesis
  proof (cases "constraints g = [] \<or> chain = []")
    case True
    then show ?thesis by (auto simp: evaluate_guard_def)
  next
    case False
    then have run: "evaluate_guard chain token g
        = evaluate_loop chain token (setter g) (constraints g) ?out"
      by (simp add: evaluate_guard_def)
    show ?thesis
    proof (cases "list_all (demands chain token (setter g)) (constraints g)")
      case True
      from evaluate_loop_ok [OF True start] False True show ?thesis by (auto simp: run)
    next
      case some: False
      from evaluate_loop_refuses [OF this, of ?out] obtain pre c post where
          parts: "constraints g = pre @ c # post" "list_all (demands chain token (setter g)) pre"
            "\<not> demands chain token (setter g) c"
          and "evaluate_loop chain token (setter g) (constraints g) ?out = Inl (refusal token c)"
        by blast
      then show ?thesis using False by (simp add: run) (metis parts)
    qed
  qed
qed

text \<open>
  A guard admits exactly who meets every declared constraint, and fails closed.  The evaluation
  succeeds only for a known caller and a non-empty record all of whose constraints hold, reports
  each of them in order, and shows the identities of two observations that are of one process;
  otherwise it names the first constraint that fails, and nothing of the setter.
\<close>

theorem guard_verdict:
  "case evaluate_guard chain token g of
     Inr out \<Rightarrow> constraints g \<noteq> [] \<and> chain \<noteq> []
       \<and> list_all (demands chain token (setter g)) (constraints g)
       \<and> eval_constraints out = map describe (constraints g)
       \<and> identities_match chain (constraints g) out
   | Inl denied \<Rightarrow>
       (if constraints g = [] then denied = DeniedEmptyRecord
        else if chain = [] then denied = DeniedMissingContext
        else (\<exists>pre c post. constraints g = pre @ c # post
               \<and> list_all (demands chain token (setter g)) pre
               \<and> \<not> demands chain token (setter g) c \<and> denied = refusal token c))"
  by (rule guard_verdict_cases)

lemma guard_admits_iff:
  "(\<exists>out. evaluate_guard chain token g = Inr out) \<longleftrightarrow>
     constraints g \<noteq> [] \<and> chain \<noteq> [] \<and> list_all (demands chain token (setter g)) (constraints g)"
  using guard_verdict_cases [where chain = chain and token = token and g = g]
  by (cases "evaluate_guard chain token g") (auto split: if_splits)

subsection \<open>What a declaration demands\<close>

text \<open>
  A declared constraint, read against the setter's own chain and credentials: the caller has the same
  user, descends from the very process the setter descended from, or runs the named command.
\<close>

definition first_named :: "(string \<Rightarrow> bool) \<Rightarrow> getter_process list \<Rightarrow> getter_process option" where
  "first_named P chain =
     find (\<lambda>g. case process_name (gp_info g) of None \<Rightarrow> False | Some b \<Rightarrow> P b) chain"

definition first_at_path :: "string \<Rightarrow> getter_process list \<Rightarrow> getter_process option" where
  "first_at_path q chain =
     find (\<lambda>g. case path (gp_info g) of None \<Rightarrow> False | Some p \<Rightarrow> path_eq p q) chain"

fun anchor_of :: "kv_policy \<Rightarrow> getter_process list \<Rightarrow> guard_constraint_wire \<Rightarrow> getter_process option" where
  "anchor_of pol schain WireSameShell = first_named (\<lambda>n. n \<in> set (shell_names pol)) schain"
| "anchor_of pol schain (WireSameAncestor q) =
     (if looks_like_path q then first_at_path q schain else first_named (\<lambda>n. n = q) schain)"
| "anchor_of pol schain _ = None"

fun declared_holds ::
  "kv_policy \<Rightarrow> getter_process list \<Rightarrow> getter_audit_token
   \<Rightarrow> getter_process list \<Rightarrow> getter_audit_token option \<Rightarrow> guard_constraint_wire \<Rightarrow> bool"
where
  "declared_holds pol schain st chain token WireSameUser \<longleftrightarrow> token = Some st"
| "declared_holds pol schain st chain token (WireCommand n) \<longleftrightarrow> list_ex (runs_command n) chain"
| "declared_holds pol schain st chain token w \<longleftrightarrow>
     (case anchor_of pol schain w of
        None \<Rightarrow> False
      | Some a \<Rightarrow> list_ex (\<lambda>g. same_entity g (getter_to_pinned a)) chain)"

lemma pin_ancestor_named:
  "pin_ancestor chain P = map_option getter_to_pinned (first_named P chain)"
  by (simp add: pin_ancestor_def first_named_def)

lemma pin_ancestor_path:
  "pin_ancestor_by_path chain q = map_option getter_to_pinned (first_at_path q chain)"
  by (simp add: pin_ancestor_by_path_def first_at_path_def)

lemma first_named_False [simp]: "first_named (\<lambda>b. False) chain = None"
  by (auto simp: first_named_def find_None_iff split: option.split)

lemma first_named_basename:
  "first_named (\<lambda>b. if q then False else b = n) chain
     = (if q then None else first_named (\<lambda>b. b = n) chain)"
  by simp

lemma plan_constraint_holds:
  assumes "plan_constraint pol schain w = Inr c"
  shows "demands chain token \<lparr>euid = token_euid st, ruid = token_ruid st\<rparr> c
    = declared_holds pol schain st chain token w"
  using assms
  by (cases w)
    (auto simp only: plan_constraint.simps pin_ancestor_named pin_ancestor_path first_named_basename
        anchor_of.simps declared_holds.simps demands.simps
      split: option.splits if_splits,
     auto)

lemma plan_constraints_hold:
  assumes "plan_constraints pol schain ws = Inr cs"
  shows "list_all (demands chain token \<lparr>euid = token_euid st, ruid = token_ruid st\<rparr>) cs
    = list_all (declared_holds pol schain st chain token) ws \<and> length cs = length ws"
  using assms
proof (induction ws arbitrary: cs)
  case Nil
  then show ?case by simp
next
  case (Cons w ws)
  then show ?case
    by (auto simp: plan_constraint_holds split: sum.splits)
qed

lemma guard_means:
  assumes "plan_guard_record decl pol (Some st) (Some schain) = Inr (Some g)"
  shows "(\<exists>out. evaluate_guard chain token g = Inr out) \<longleftrightarrow>
     chain \<noteq> []
     \<and> list_all (declared_holds pol schain st chain token) (if decl = [] then [WireSameUser] else decl)"
proof -
  let ?ws = "if decl = [] then [WireSameUser] else decl"
  from assms obtain cs where plan: "plan_constraints pol schain ?ws = Inr cs"
    and g: "g = guard_record_new cs \<lparr>euid = token_euid st, ruid = token_ruid st\<rparr>"
    by (auto simp: plan_guard_record_def Let_def split: if_splits sum.splits)
  have "?ws \<noteq> []" by simp
  then have "cs \<noteq> []" using plan_constraints_hold [OF plan] by auto
  then show ?thesis
    unfolding guard_admits_iff
    using plan_constraints_hold [OF plan] by (simp add: g guard_record_new_def del: if_split)
qed

text \<open>
  Property C21.  A guard means what its setter declared.  If a set with the given constraints was
  accepted, a later caller passes the recorded guard exactly when its ancestry is known and every
  constraint holds between it and the setter as the daemon observed it: the same user, a descendant
  of the very shell or ancestor that the setter was under (never another process of that name), or
  the named command.
\<close>

theorem guard_means_its_declaration:
  assumes "plan_guard_record decl pol (Some st) (Some schain) = Inr (Some g)"
  shows "(\<exists>out. evaluate_guard chain token g = Inr out) \<longleftrightarrow>
     chain \<noteq> []
     \<and> list_all (declared_holds pol schain st chain token) (if decl = [] then [WireSameUser] else decl)"
  using assms by (rule guard_means)

text \<open>The daemon can tell the process apart: it knows its unique id or its start time.\<close>

definition identifiable :: "getter_process \<Rightarrow> bool" where
  "identifiable g \<longleftrightarrow> gp_unique_id g \<noteq> None \<or> start_time (gp_info g) \<noteq> None"

lemma same_entity_self: "identifiable g \<Longrightarrow> same_entity g (getter_to_pinned g)"
  by (auto simp: identifiable_def same_entity_def getter_to_pinned_def)

lemma anchor_in_chain: "anchor_of pol schain w = Some a \<Longrightarrow> a \<in> set schain"
  by (cases w) (auto simp: first_named_def first_at_path_def find_Some_iff split: if_splits)

lemma planned_anchor:
  assumes "plan_constraints pol schain ws = Inr cs" and "w \<in> set ws"
    and "w = WireSameShell \<or> (\<exists>q. w = WireSameAncestor q)"
  shows "\<exists>a. anchor_of pol schain w = Some a"
proof -
  from assms(1, 2) obtain c where "plan_constraint pol schain w = Inr c"
    by (induction ws arbitrary: cs) (auto split: sum.splits)
  with assms(3) show ?thesis
    by (auto simp only: plan_constraint.simps pin_ancestor_named pin_ancestor_path
          first_named_basename anchor_of.simps
        split: option.splits if_splits)
qed

text \<open>
  A guard never locks out its own setter: if the daemon could tell the setter's ancestors apart and
  the setter meets the command names it declared itself, the same process passes the guard right
  away.
\<close>

theorem guard_admits_its_setter:
  assumes "plan_guard_record decl pol (Some st) (Some schain) = Inr (Some g)"
    and "schain \<noteq> []" and "list_all identifiable schain"
    and "\<And>n. WireCommand n \<in> set decl \<Longrightarrow> list_ex (runs_command n) schain"
  shows "\<exists>out. evaluate_guard schain (Some st) g = Inr out"
proof -
  let ?ws = "if decl = [] then [WireSameUser] else decl"
  from assms(1) obtain cs where plan: "plan_constraints pol schain ?ws = Inr cs"
    by (auto simp: plan_guard_record_def Let_def split: if_splits sum.splits)
  have "declared_holds pol schain st schain (Some st) w" if w: "w \<in> set ?ws" for w
  proof (cases w)
    case WireSameUser
    then show ?thesis by simp
  next
    case (WireCommand n)
    with w assms(4) show ?thesis by (auto split: if_splits)
  next
    case WireSameShell
    then obtain a where a: "anchor_of pol schain w = Some a"
      using planned_anchor [OF plan w] by blast
    with WireSameShell assms(3) anchor_in_chain [OF a] show ?thesis
      by (auto simp: list_all_iff list_ex_iff simp del: anchor_of.simps intro: same_entity_self)
  next
    case (WireSameAncestor q)
    then obtain a where a: "anchor_of pol schain w = Some a"
      using planned_anchor [OF plan w] by blast
    with WireSameAncestor assms(3) anchor_in_chain [OF a] show ?thesis
      by (auto simp: list_all_iff list_ex_iff simp del: anchor_of.simps intro: same_entity_self)
  qed
  then show ?thesis
    unfolding guard_means [OF assms(1)] using assms(2) by (simp add: list_all_iff)
qed

text \<open>
  A process id alone never identifies anybody.  A pin recorded without a start time and without a
  unique id admits no caller at all, whatever its pid, path and name; so a reused pid is never
  mistaken for the setter's ancestor.
\<close>

theorem bare_pid_admits_nobody:
  assumes "SameAncestor d p \<in> set (constraints g)"
    and "pinned_unique_id p = None" and "pinned_start_time p = None"
  shows "\<nexists>out. evaluate_guard chain token g = Inr out"
proof -
  have "\<not> same_entity x p" for x using assms(2, 3) by (auto simp: same_entity_def)
  then have "\<not> demands chain token (setter g) (SameAncestor d p)" by (simp add: list_ex_iff)
  with assms(1) show ?thesis unfolding guard_admits_iff list_all_iff by blast
qed

text \<open>A shell and its child, observed by the daemon.\<close>

definition demo_shell :: getter_process where
  "demo_shell =
     \<lparr>gp_info = \<lparr>pid = 40, ppid = Some 1, path = Some ''/bin/zsh'', start_time = Some 7\<rparr>,
      gp_unique_id = None\<rparr>"

definition demo_tool :: getter_process where
  "demo_tool =
     \<lparr>gp_info = \<lparr>pid = 41, ppid = Some 40, path = Some ''/usr/bin/git'', start_time = Some 9\<rparr>,
      gp_unique_id = Some 3\<rparr>"

definition demo_policy :: kv_policy where
  "demo_policy = \<lparr>default_require_same_user = False, shell_names = default_shell_names\<rparr>"

definition demo_token :: getter_audit_token where
  "demo_token = \<lparr>token_euid = 501, token_ruid = 501\<rparr>"

definition demo_guard :: guard_record where
  "demo_guard = guard_record_new
     [SameUser, SameAncestor (SameShell ''zsh'') (getter_to_pinned demo_shell)] \<lparr>euid = 501, ruid = 501\<rparr>"

lemma demo_plan:
  "plan_guard_record [WireSameUser, WireSameShell] demo_policy (Some demo_token)
     (Some [demo_tool, demo_shell]) = Inr (Some demo_guard)"
  by (code_simp)

theorem guard_means_its_declaration_witness:
  "\<nexists>out. evaluate_guard [demo_tool] (Some demo_token) demo_guard = Inr out"
proof -
  have "\<not> list_all (declared_holds demo_policy [demo_tool, demo_shell] demo_token [demo_tool] (Some demo_token))
      [WireSameUser, WireSameShell]"
    by code_simp
  then show ?thesis
    using guard_means_its_declaration [OF demo_plan, of "[demo_tool]" "Some demo_token"] by simp
qed

theorem guard_admits_its_setter_witness:
  "\<exists>out. evaluate_guard [demo_tool, demo_shell] (Some demo_token) demo_guard = Inr out"
  by (rule guard_admits_its_setter [OF demo_plan])
    (simp_all add: identifiable_def demo_tool_def demo_shell_def)

theorem bare_pid_admits_nobody_witness:
  "\<nexists>out. evaluate_guard [demo_tool] None
      (guard_record_new [SameAncestor (Named ''git'') \<lparr>pinned_pid = 41, pinned_start_time = None,
         pinned_unique_id = None, pinned_path = [], pinned_name = ''git''\<rparr>] \<lparr>euid = 0, ruid = 0\<rparr>)
      = Inr out"
  by (rule bare_pid_admits_nobody) (auto simp: guard_record_new_def)

end
