(* ===== verification/Vault_Error.thy ===== *)
theory Vault_Error
  imports Prelude
begin

text \<open>
  The errors of the vault crate (\<open>crates/cache-warden-vault/src/error.rs\<close>).  An I/O error keeps its
  path and its kind; the reason of a malformed file, the name of a field and the stage of a failed
  decryption are the code's own words.
\<close>

datatype io_kind = AlreadyExists | IoNotFound | NotADirectory | OtherIo

datatype vault_error =
  BadMagic
| VaultUnsupportedVersion nat
| UnsupportedAlgorithm string nat
| UnknownSlotKind nat
| VaultTruncated
| FieldTooLarge string nat
| FileTooLarge nat
| VaultMalformed string
| DecryptFailed string
| NoMatchingSlot
| VaultCasMismatch nat
| VaultAlreadyClaimed nat
| ClaimRequired nat
| VaultClaimTokenMismatch
| MalformedClaimToken
| EntryNotFound
| SlotNotFound
| LastSlot
| MalformedRecoveryCode
| VaultIdMismatch
| NonContributoryExchange
| MalformedBody
| VaultIo string io_kind

type_synonym 'a vault_result = "vault_error + 'a"

text \<open>\<open>Result::and_then\<close>, the \<open>?\<close> of the code.\<close>

definition rbind :: "'e + 'a \<Rightarrow> ('a \<Rightarrow> 'e + 'b) \<Rightarrow> 'e + 'b" where
  "rbind r f = (case r of Inl e \<Rightarrow> Inl e | Inr x \<Rightarrow> f x)"

lemma rbind_simps [simp]: "rbind (Inl e) f = Inl e" "rbind (Inr x) f = f x"
  by (simp_all add: rbind_def)

lemma rbind_Inr: "rbind r f = Inr y \<longleftrightarrow> (\<exists>x. r = Inr x \<and> f x = Inr y)"
  by (cases r) simp_all

lemma ok_or_Inr [simp]: "ok_or e x = Inr y \<longleftrightarrow> x = Some y"
  by (cases x) simp_all

end
