(* ===== verification/Vault_Format.thy ===== *)
theory Vault_Format
  imports Vault_Error
begin

text \<open>
  The vault file (\<open>crates/cache-warden-vault/src/format.rs\<close>): a plaintext header with the recipient
  slots, then one sealed body.  Bytes are \<open>u8 list\<close>; a \<open>u16\<close>, \<open>u32\<close> or \<open>u64\<close> field is a natural
  number that is written modulo its width; a fixed-size array is a list whose length is part of the
  well-formedness predicate.  A reader takes the remaining input and returns what it read with the
  rest.
\<close>

subsection \<open>Fixed-width integers and text\<close>

fun be_bytes :: "nat \<Rightarrow> nat \<Rightarrow> u8 list" where
  "be_bytes 0 n = []"
| "be_bytes (Suc k) n = be_bytes k (n div 256) @ [of_nat n]"

definition be_value :: "u8 list \<Rightarrow> nat" where
  "be_value bs = foldl (\<lambda>a b. a * 256 + unat b) 0 bs"

definition string_bytes :: "string \<Rightarrow> u8 list" where
  "string_bytes s = map (\<lambda>c. of_nat (of_char c)) s"

definition bytes_string :: "u8 list \<Rightarrow> string" where
  "bytes_string bs = map (\<lambda>b. char_of (unat b)) bs"

text \<open>Well-formed UTF-8 (\<open>String::from_utf8\<close>): the byte sequences of the Unicode standard.\<close>

definition utf8_tail :: "u8 \<Rightarrow> bool" where
  "utf8_tail b \<longleftrightarrow> 0x80 \<le> b \<and> b \<le> 0xBF"

fun utf8_valid :: "u8 list \<Rightarrow> bool" where
  "utf8_valid [] = True"
| "utf8_valid (a # r) =
     (if a < 0x80 then utf8_valid r
      else (case r of
         [] \<Rightarrow> False
       | b # r1 \<Rightarrow>
           if 0xC2 \<le> a \<and> a \<le> 0xDF then utf8_tail b \<and> utf8_valid r1
           else (case r1 of
              [] \<Rightarrow> False
            | c # r2 \<Rightarrow>
                if 0xE0 \<le> a \<and> a \<le> 0xEF
                then utf8_tail b \<and> (a = 0xE0 \<longrightarrow> 0xA0 \<le> b) \<and> (a = 0xED \<longrightarrow> b \<le> 0x9F)
                     \<and> utf8_tail c \<and> utf8_valid r2
                else (case r2 of
                   [] \<Rightarrow> False
                 | d # r3 \<Rightarrow>
                     0xF0 \<le> a \<and> a \<le> 0xF4 \<and> utf8_tail b \<and> (a = 0xF0 \<longrightarrow> 0x90 \<le> b)
                       \<and> (a = 0xF4 \<longrightarrow> b \<le> 0x8F) \<and> utf8_tail c \<and> utf8_tail d \<and> utf8_valid r3))))"

subsection \<open>Constants and identifiers\<close>

text \<open>\<open>CWVAULT\<close> and a zero byte.\<close>

definition VAULT_MAGIC :: "u8 list" where
  "VAULT_MAGIC = [67, 87, 86, 65, 85, 76, 84, 0]"

definition VAULT_FORMAT_VERSION :: nat where "VAULT_FORMAT_VERSION = 2"
definition VAULT_MIN_SUPPORTED_VERSION :: nat where "VAULT_MIN_SUPPORTED_VERSION = 2"
definition SALT_LEN :: nat where "SALT_LEN = 32"
definition ID_LEN :: nat where "ID_LEN = 16"
definition NONCE_LEN :: nat where "NONCE_LEN = 24"
definition TAG_LEN :: nat where "TAG_LEN = 16"
definition PUBKEY_LEN :: nat where "PUBKEY_LEN = 32"
definition MAX_SLOTS :: nat where "MAX_SLOTS = 1024"
definition MAX_SLOT_FIELD_LEN :: nat where "MAX_SLOT_FIELD_LEN = 65536"
definition MAX_BODY_LEN :: nat where "MAX_BODY_LEN = 67108864"
definition MAX_FILE_LEN :: nat where "MAX_FILE_LEN = 83886080"

lemmas format_consts =
  VAULT_MIN_SUPPORTED_VERSION_def VAULT_FORMAT_VERSION_def SALT_LEN_def ID_LEN_def PUBKEY_LEN_def

type_synonym vault_id = "u8 list"
type_synonym slot_id = "u8 list"

datatype aead_alg = XChaCha20Poly1305
datatype kdf_alg = HkdfSha256
datatype slot_kind = PasskeyPrf | RecoverySlot

fun aead_id :: "aead_alg \<Rightarrow> nat" where
  "aead_id XChaCha20Poly1305 = 1"

definition aead_from_id :: "nat \<Rightarrow> aead_alg vault_result" where
  "aead_from_id i =
     (if i = 1 then Inr XChaCha20Poly1305 else Inl (UnsupportedAlgorithm ''aead_alg_id'' i))"

fun kdf_id :: "kdf_alg \<Rightarrow> nat" where
  "kdf_id HkdfSha256 = 1"

definition kdf_from_id :: "nat \<Rightarrow> kdf_alg vault_result" where
  "kdf_from_id i = (if i = 1 then Inr HkdfSha256 else Inl (UnsupportedAlgorithm ''kdf_alg_id'' i))"

fun slot_kind_id :: "slot_kind \<Rightarrow> nat" where
  "slot_kind_id PasskeyPrf = 1"
| "slot_kind_id RecoverySlot = 2"

definition slot_kind_from_id :: "nat \<Rightarrow> slot_kind vault_result" where
  "slot_kind_from_id i =
     (if i = 1 then Inr PasskeyPrf else if i = 2 then Inr RecoverySlot else Inl (UnknownSlotKind i))"

subsection \<open>Slots\<close>

record wrapped_dek =
  ephemeral_pub :: "u8 list"
  wrapped_sealed :: "u8 list"

record vault_slot =
  slot_id :: slot_id
  slot_kind :: slot_kind
  slot_pubkey :: "u8 list"
  slot_salt :: "u8 list"
  created_at_epoch_ms :: nat
  wrapped_privkey :: "u8 list"
  slot_wrapped_dek :: wrapped_dek
  rp_id :: string
  credential_id :: "u8 list"
  slot_label :: string
  credential_public_key :: "u8 list"

definition set_wrapped_dek :: "vault_slot \<Rightarrow> wrapped_dek \<Rightarrow> vault_slot" where
  "set_wrapped_dek s w = s\<lparr>slot_wrapped_dek := w\<rparr>"

definition ascii_lower :: "char \<Rightarrow> char" where
  "ascii_lower c = (if CHR ''A'' \<le> c \<and> c \<le> CHR ''Z'' then char_of (of_char c + 32 :: nat) else c)"

definition ends_with :: "string \<Rightarrow> string \<Rightarrow> bool" where
  "ends_with s t \<longleftrightarrow> length t \<le> length s \<and> drop (length s - length t) s = t"

definition is_dev_rp :: "vault_slot \<Rightarrow> bool" where
  "is_dev_rp s \<longleftrightarrow>
     slot_kind s = PasskeyPrf
       \<and> (let host = map ascii_lower (rp_id s) in
           host = ''localhost'' \<or> ends_with host ''.localhost'')"

definition binding_aad ::
  "vault_id \<Rightarrow> nat \<Rightarrow> slot_id \<Rightarrow> slot_kind \<Rightarrow> u8 list \<Rightarrow> u8 list"
where
  "binding_aad vid version sid k pubkey =
     vid @ be_bytes 4 version @ sid @ be_bytes 2 (slot_kind_id k) @ pubkey"

definition own_binding_aad :: "vault_slot \<Rightarrow> vault_id \<Rightarrow> nat \<Rightarrow> u8 list" where
  "own_binding_aad s vid version = binding_aad vid version (slot_id s) (slot_kind s) (slot_pubkey s)"

subsection \<open>Writing\<close>

definition put_blob :: "u8 list \<Rightarrow> u8 list" where
  "put_blob bytes = be_bytes 4 (length bytes) @ bytes"

definition slot_encode :: "vault_slot \<Rightarrow> u8 list" where
  "slot_encode s =
     slot_id s @ be_bytes 2 (slot_kind_id (slot_kind s)) @ slot_pubkey s @ slot_salt s
       @ be_bytes 8 (created_at_epoch_ms s) @ put_blob (wrapped_privkey s)
       @ ephemeral_pub (slot_wrapped_dek s) @ put_blob (wrapped_sealed (slot_wrapped_dek s))
       @ put_blob (string_bytes (rp_id s)) @ put_blob (credential_id s)
       @ put_blob (string_bytes (slot_label s)) @ put_blob (credential_public_key s)"

record vault_header =
  header_version :: nat
  header_vault_id :: vault_id
  header_generation :: nat
  header_aead :: aead_alg
  header_kdf :: kdf_alg
  header_slots :: "vault_slot list"

definition header_encode :: "vault_header \<Rightarrow> u8 list" where
  "header_encode h =
     VAULT_MAGIC @ be_bytes 4 (header_version h) @ header_vault_id h
       @ be_bytes 8 (header_generation h) @ be_bytes 2 (aead_id (header_aead h))
       @ be_bytes 2 (kdf_id (header_kdf h)) @ be_bytes 4 (length (header_slots h))
       @ concat (map slot_encode (header_slots h))"

definition encode_file :: "u8 list \<Rightarrow> u8 list \<Rightarrow> u8 list" where
  "encode_file header sealed_body = header @ be_bytes 8 (length sealed_body) @ sealed_body"

subsection \<open>Reading\<close>

definition take_n :: "nat \<Rightarrow> u8 list \<Rightarrow> (u8 list \<times> u8 list) vault_result" where
  "take_n n cursor =
     (if length cursor < n then Inl VaultTruncated else Inr (take n cursor, drop n cursor))"

definition take_uint :: "nat \<Rightarrow> u8 list \<Rightarrow> (nat \<times> u8 list) vault_result" where
  "take_uint width cursor = rbind (take_n width cursor) (\<lambda>(bs, rest). Inr (be_value bs, rest))"

definition take_blob :: "string \<Rightarrow> u8 list \<Rightarrow> (u8 list \<times> u8 list) vault_result" where
  "take_blob field cursor =
     rbind (take_uint 4 cursor) (\<lambda>(len, rest).
       if MAX_SLOT_FIELD_LEN < len then Inl (FieldTooLarge field len) else take_n len rest)"

definition take_utf8 :: "string \<Rightarrow> u8 list \<Rightarrow> (string \<times> u8 list) vault_result" where
  "take_utf8 field cursor =
     rbind (take_blob field cursor) (\<lambda>(bytes, rest).
       if utf8_valid bytes then Inr (bytes_string bytes, rest)
       else Inl (VaultMalformed ''a text field is not valid UTF-8''))"

definition slot_decode :: "u8 list \<Rightarrow> (vault_slot \<times> u8 list) vault_result" where
  "slot_decode cursor =
     rbind (take_n ID_LEN cursor) (\<lambda>(sid, cursor).
     rbind (take_uint 2 cursor) (\<lambda>(kid, cursor).
     rbind (slot_kind_from_id kid) (\<lambda>k.
     rbind (take_n PUBKEY_LEN cursor) (\<lambda>(pubkey, cursor).
     rbind (take_n SALT_LEN cursor) (\<lambda>(salt, cursor).
     rbind (take_uint 8 cursor) (\<lambda>(created, cursor).
     rbind (take_blob ''wrapped_privkey'' cursor) (\<lambda>(privkey, cursor).
     rbind (take_n PUBKEY_LEN cursor) (\<lambda>(ephemeral, cursor).
     rbind (take_blob ''wrapped_dek'' cursor) (\<lambda>(sealed, cursor).
     rbind (take_utf8 ''rp_id'' cursor) (\<lambda>(rp, cursor).
     rbind (take_blob ''credential_id'' cursor) (\<lambda>(cid, cursor).
     rbind (take_utf8 ''label'' cursor) (\<lambda>(label, cursor).
     rbind (take_blob ''credential_public_key'' cursor) (\<lambda>(cpk, cursor).
     Inr (\<lparr>slot_id = sid, slot_kind = k, slot_pubkey = pubkey, slot_salt = salt,
           created_at_epoch_ms = created, wrapped_privkey = privkey,
           slot_wrapped_dek = \<lparr>ephemeral_pub = ephemeral, wrapped_sealed = sealed\<rparr>,
           rp_id = rp, credential_id = cid, slot_label = label, credential_public_key = cpk\<rparr>,
          cursor))))))))))))))"

fun slots_decode :: "nat \<Rightarrow> u8 list \<Rightarrow> (vault_slot list \<times> u8 list) vault_result" where
  "slots_decode 0 cursor = Inr ([], cursor)"
| "slots_decode (Suc n) cursor =
     rbind (slot_decode cursor) (\<lambda>(s, cursor).
     rbind (slots_decode n cursor) (\<lambda>(ss, cursor). Inr (s # ss, cursor)))"

text \<open>Whether some slot has the id of an earlier one.\<close>

definition shares_slot_id :: "vault_slot list \<Rightarrow> bool" where
  "shares_slot_id slots \<longleftrightarrow>
     list_ex (\<lambda>i. list_ex (\<lambda>s. slot_id s = slot_id (slots ! i)) (take i slots)) [0..<length slots]"

definition header_decode :: "u8 list \<Rightarrow> (vault_header \<times> u8 list) vault_result" where
  "header_decode bytes =
     rbind (take_n 8 bytes) (\<lambda>(magic, cursor).
     if magic \<noteq> VAULT_MAGIC then Inl BadMagic else
     rbind (take_uint 4 cursor) (\<lambda>(version, cursor).
     if \<not> (VAULT_MIN_SUPPORTED_VERSION \<le> version \<and> version \<le> VAULT_FORMAT_VERSION)
     then Inl (VaultUnsupportedVersion version) else
     rbind (take_n ID_LEN cursor) (\<lambda>(vid, cursor).
     rbind (take_uint 8 cursor) (\<lambda>(generation, cursor).
     rbind (take_uint 2 cursor) (\<lambda>(aid, cursor).
     rbind (aead_from_id aid) (\<lambda>aead.
     rbind (take_uint 2 cursor) (\<lambda>(kid, cursor).
     rbind (kdf_from_id kid) (\<lambda>kdf.
     rbind (take_uint 4 cursor) (\<lambda>(slot_count, cursor).
     if slot_count = 0 then Inl (VaultMalformed ''a vault with no slots can never be opened'') else
     if MAX_SLOTS < slot_count then Inl (FieldTooLarge ''slot_count'' slot_count) else
     rbind (slots_decode slot_count cursor) (\<lambda>(slots, cursor).
     if shares_slot_id slots then Inl (VaultMalformed ''two slots share one slot_id'') else
     Inr (\<lparr>header_version = version, header_vault_id = vid, header_generation = generation,
           header_aead = aead, header_kdf = kdf, header_slots = slots\<rparr>, cursor)))))))))))"

record vault_file =
  file_header :: vault_header
  sealed_body :: "u8 list"

text \<open>The whole file: the value, and the header bytes as they were read.\<close>

definition vault_decode :: "u8 list \<Rightarrow> (vault_file \<times> u8 list) vault_result" where
  "vault_decode bytes =
     rbind (header_decode bytes) (\<lambda>(h, cursor).
     let header_len = length bytes - length cursor; aad = take header_len bytes in
     rbind (take_uint 8 cursor) (\<lambda>(body_len, cursor).
     if MAX_BODY_LEN < body_len then Inl (FieldTooLarge ''body_len'' body_len) else
     if body_len < NONCE_LEN + TAG_LEN
     then Inl (VaultMalformed ''body is too short to hold a nonce and an authentication tag'') else
     rbind (take_n body_len cursor) (\<lambda>(sealed, cursor).
     if cursor \<noteq> [] then Inl (VaultMalformed ''trailing bytes after the vault body'') else
     Inr (\<lparr>file_header = h, sealed_body = sealed\<rparr>, aad))))"

subsection \<open>Integers and text read back\<close>

lemma be_bytes_length [simp]: "length (be_bytes k n) = k"
  by (induction k arbitrary: n) simp_all

lemma be_value_snoc [simp]: "be_value [] = 0" "be_value (bs @ [b]) = be_value bs * 256 + unat b"
  by (simp_all add: be_value_def)

lemma byte_lt [simp]: "unat (b :: u8) < 256"
  using unsigned_less [of b] by simp

lemma be_byte_of_horner: "(of_nat (x * 256 + unat y) :: u8) = y"
proof -
  have "(256 :: u8) = 0" by simp
  then show ?thesis
    by (simp only: of_nat_add of_nat_mult of_nat_numeral mult_zero_right add_0 of_nat_unat ucast_id)
qed

lemma be_value_bytes [simp]: "n < 256 ^ k \<Longrightarrow> be_value (be_bytes k n) = n"
proof (induction k arbitrary: n)
  case 0
  then show ?case by simp
next
  case (Suc k)
  then have "n div 256 < 256 ^ k" by (simp add: less_mult_imp_div_less mult.commute)
  with Suc.IH show ?case by (simp add: unat_of_nat)
qed

lemma be_value_bound: "be_value bs < 256 ^ length bs"
proof (induction bs rule: rev_induct)
  case Nil
  show ?case by simp
next
  case (snoc b bs)
  have "be_value bs * 256 + unat b < (be_value bs + 1) * 256" by simp
  also have "\<dots> \<le> 256 ^ length bs * 256"
    using snoc by (intro mult_le_mono1) simp
  finally show ?case by (simp add: mult.commute)
qed

lemma be_bytes_value: "be_bytes (length bs) (be_value bs) = bs"
proof (induction bs rule: rev_induct)
  case Nil
  show ?case by simp
next
  case (snoc b bs)
  have "(be_value bs * 256 + unat b) div 256 = be_value bs"
    by (simp add: div_mult_self3)
  moreover have "(of_nat (be_value bs * 256 + unat b) :: u8) = b"
    by (rule be_byte_of_horner)
  ultimately show ?case using snoc by simp
qed

lemma string_bytes_inverse [simp]:
  "bytes_string (string_bytes s) = s" "string_bytes (bytes_string bs) = bs"
  by (simp_all add: bytes_string_def string_bytes_def o_def unat_of_nat
      map_idI of_char_mod_256 unsigned_less)

lemma string_bytes_length [simp]:
  "length (string_bytes s) = length s" "length (bytes_string bs) = length bs"
  by (simp_all add: string_bytes_def bytes_string_def)

lemma take_n_iff [simp]: "take_n n c = Inr (a, r) \<longleftrightarrow> length a = n \<and> c = a @ r"
  by (auto simp: take_n_def)

lemma take_uint_iff [simp]: "take_uint w c = Inr (v, r) \<longleftrightarrow> v < 256 ^ w \<and> c = be_bytes w v @ r"
proof
  assume "take_uint w c = Inr (v, r)"
  then obtain bs where "length bs = w" "c = bs @ r" "v = be_value bs"
    by (auto simp: take_uint_def rbind_Inr)
  then show "v < 256 ^ w \<and> c = be_bytes w v @ r"
    using be_value_bound [of bs] be_bytes_value [of bs] by simp
next
  assume "v < 256 ^ w \<and> c = be_bytes w v @ r"
  then show "take_uint w c = Inr (v, r)"
    by (simp add: take_uint_def take_n_def)
qed

lemma take_blob_iff [simp]:
  "take_blob f c = Inr (b, r) \<longleftrightarrow> length b \<le> MAX_SLOT_FIELD_LEN \<and> c = put_blob b @ r"
proof -
  have "take_blob f c = Inr (b, r) \<longleftrightarrow>
      (\<exists>n rest. n < 256 ^ 4 \<and> c = be_bytes 4 n @ rest \<and> n \<le> MAX_SLOT_FIELD_LEN
        \<and> length b = n \<and> rest = b @ r)"
    by (auto simp: take_blob_def rbind_Inr simp del: power_numeral)
  then show ?thesis
    by (auto simp: put_blob_def MAX_SLOT_FIELD_LEN_def)
qed

lemma take_utf8_iff [simp]:
  "take_utf8 f c = Inr (s, r) \<longleftrightarrow>
     length s \<le> MAX_SLOT_FIELD_LEN \<and> utf8_valid (string_bytes s) \<and> c = put_blob (string_bytes s) @ r"
proof -
  have "take_utf8 f c = Inr (s, r) \<longleftrightarrow>
      (\<exists>b. take_blob f c = Inr (b, r) \<and> utf8_valid b \<and> s = bytes_string b)"
    by (auto simp: take_utf8_def rbind_Inr split: if_splits simp del: take_blob_iff)
  moreover have "s = bytes_string b \<longleftrightarrow> b = string_bytes s" for b
    by auto
  ultimately show ?thesis by auto
qed

lemma ids_iff [simp]:
  "slot_kind_from_id i = Inr k \<longleftrightarrow> i = slot_kind_id k"
  "aead_from_id i = Inr a \<longleftrightarrow> i = aead_id a"
  "kdf_from_id i = Inr d \<longleftrightarrow> i = kdf_id d"
proof -
  show "slot_kind_from_id i = Inr k \<longleftrightarrow> i = slot_kind_id k"
    by (cases k) (auto simp: slot_kind_from_id_def)
  show "aead_from_id i = Inr a \<longleftrightarrow> i = aead_id a"
    by (cases a) (auto simp: aead_from_id_def)
  show "kdf_from_id i = Inr d \<longleftrightarrow> i = kdf_id d"
    by (cases d) (auto simp: kdf_from_id_def)
qed

subsection \<open>The decoder accepts exactly the encodings\<close>

definition slot_ok :: "vault_slot \<Rightarrow> bool" where
  "slot_ok s \<longleftrightarrow>
     length (slot_id s) = ID_LEN \<and> length (slot_pubkey s) = PUBKEY_LEN
       \<and> length (slot_salt s) = SALT_LEN \<and> created_at_epoch_ms s < 256 ^ 8
       \<and> length (wrapped_privkey s) \<le> MAX_SLOT_FIELD_LEN
       \<and> length (ephemeral_pub (slot_wrapped_dek s)) = PUBKEY_LEN
       \<and> length (wrapped_sealed (slot_wrapped_dek s)) \<le> MAX_SLOT_FIELD_LEN
       \<and> length (rp_id s) \<le> MAX_SLOT_FIELD_LEN \<and> utf8_valid (string_bytes (rp_id s))
       \<and> length (credential_id s) \<le> MAX_SLOT_FIELD_LEN
       \<and> length (slot_label s) \<le> MAX_SLOT_FIELD_LEN \<and> utf8_valid (string_bytes (slot_label s))
       \<and> length (credential_public_key s) \<le> MAX_SLOT_FIELD_LEN"

definition header_ok :: "vault_header \<Rightarrow> bool" where
  "header_ok h \<longleftrightarrow>
     VAULT_MIN_SUPPORTED_VERSION \<le> header_version h \<and> header_version h \<le> VAULT_FORMAT_VERSION
       \<and> length (header_vault_id h) = ID_LEN \<and> header_generation h < 256 ^ 8
       \<and> header_slots h \<noteq> [] \<and> length (header_slots h) \<le> MAX_SLOTS
       \<and> list_all slot_ok (header_slots h) \<and> distinct (map slot_id (header_slots h))"

definition file_ok :: "vault_file \<Rightarrow> bool" where
  "file_ok f \<longleftrightarrow>
     header_ok (file_header f) \<and> NONCE_LEN + TAG_LEN \<le> length (sealed_body f)
       \<and> length (sealed_body f) \<le> MAX_BODY_LEN"

definition file_encode :: "vault_file \<Rightarrow> u8 list" where
  "file_encode f = encode_file (header_encode (file_header f)) (sealed_body f)"

lemma kind_ids_small [simp]: "slot_kind_id k < 65536" "aead_id a < 65536" "kdf_id d < 65536"
proof -
  show "slot_kind_id k < 65536" by (cases k) simp_all
  show "aead_id a < 65536" by (cases a) simp
  show "kdf_id d < 65536" by (cases d) simp
qed

lemma reads [simp]:
  "length a = n \<Longrightarrow> take_n n (a @ r) = Inr (a, r)"
  "v < 256 ^ w \<Longrightarrow> take_uint w (be_bytes w v @ r) = Inr (v, r)"
  "length b \<le> MAX_SLOT_FIELD_LEN \<Longrightarrow> take_blob f (put_blob b @ r) = Inr (b, r)"
  "length s \<le> MAX_SLOT_FIELD_LEN \<Longrightarrow> utf8_valid (string_bytes s)
     \<Longrightarrow> take_utf8 f (put_blob (string_bytes s) @ r) = Inr (s, r)"
  "slot_kind_from_id (slot_kind_id k) = Inr k"
  "aead_from_id (aead_id al) = Inr al"
  "kdf_from_id (kdf_id kd) = Inr kd"
  by simp_all

lemma slot_decode_iff [simp]:
  "slot_decode c = Inr (s, r) \<longleftrightarrow> slot_ok s \<and> c = slot_encode s @ r"
proof
  assume "slot_decode c = Inr (s, r)"
  then show "slot_ok s \<and> c = slot_encode s @ r"
    by (clarsimp simp: slot_decode_def rbind_Inr slot_encode_def slot_ok_def)
next
  assume "slot_ok s \<and> c = slot_encode s @ r"
  then show "slot_decode c = Inr (s, r)"
    by (cases s) (clarsimp simp: slot_decode_def slot_encode_def slot_ok_def
        simp del: take_n_iff take_uint_iff take_blob_iff take_utf8_iff ids_iff)
qed

lemma slots_decode_iff [simp]:
  "slots_decode n c = Inr (ss, r) \<longleftrightarrow>
     length ss = n \<and> list_all slot_ok ss \<and> c = concat (map slot_encode ss) @ r"
proof (induction n arbitrary: c ss)
  case 0
  then show ?case by auto
next
  case (Suc n)
  then show ?case by (cases ss) (auto simp: rbind_Inr)
qed

lemma not_distinct_nth: "\<not> distinct xs \<longleftrightarrow> (\<exists>i<length xs. \<exists>j<i. xs ! j = xs ! i)"
proof
  assume "\<not> distinct xs"
  then obtain i j where ij: "i < length xs" "j < length xs" "i \<noteq> j" "xs ! i = xs ! j"
    by (auto simp: distinct_conv_nth)
  show "\<exists>i<length xs. \<exists>j<i. xs ! j = xs ! i"
  proof (cases "i < j")
    case True
    with ij show ?thesis by (intro exI [of _ j] conjI exI [of _ i]) simp_all
  next
    case False
    with ij show ?thesis by (intro exI [of _ i] conjI exI [of _ j]) simp_all
  qed
next
  assume "\<exists>i<length xs. \<exists>j<i. xs ! j = xs ! i"
  then obtain i j where "i < length xs" "j < i" "xs ! j = xs ! i" by blast
  then show "\<not> distinct xs"
    using nth_eq_iff_index_eq [of xs j i] by auto
qed

lemma earlier_twin:
  assumes "i < length ss"
  shows "list_ex (\<lambda>s. f s = f (ss ! i)) (take i ss) \<longleftrightarrow> (\<exists>j<i. map f ss ! j = map f ss ! i)"
proof -
  have "set (take i ss) = (!) ss ` {0..<i}"
    using assms by (simp add: nth_image)
  then have "list_ex (\<lambda>s. f s = f (ss ! i)) (take i ss) \<longleftrightarrow> (\<exists>j\<in>{0..<i}. f (ss ! j) = f (ss ! i))"
    by (simp add: list_ex_iff)
  also have "\<dots> \<longleftrightarrow> (\<exists>j\<in>{0..<i}. map f ss ! j = map f ss ! i)"
    by (rule bex_cong) (use assms in simp_all)
  finally show ?thesis by (simp add: Bex_def)
qed

lemma shares_slot_id_iff: "shares_slot_id ss \<longleftrightarrow> \<not> distinct (map slot_id ss)"
  unfolding not_distinct_nth shares_slot_id_def list_ex_iff [of _ "[0..<length ss]"]
  by (auto simp: earlier_twin simp del: nth_map)

lemma slots_read:
  "list_all slot_ok ss \<Longrightarrow> slots_decode (length ss) (concat (map slot_encode ss) @ r) = Inr (ss, r)"
  by simp

lemma header_decode_iff:
  "header_decode c = Inr (h, r) \<longleftrightarrow> header_ok h \<and> c = header_encode h @ r"
proof
  assume "header_decode c = Inr (h, r)"
  then show "header_ok h \<and> c = header_encode h @ r"
    by (auto simp: header_decode_def rbind_Inr header_ok_def header_encode_def shares_slot_id_iff
        not_less split: if_splits)
next
  have "length VAULT_MAGIC = 8" by (simp add: VAULT_MAGIC_def)
  moreover assume "header_ok h \<and> c = header_encode h @ r"
  ultimately show "header_decode c = Inr (h, r)"
    by (cases h) (clarsimp simp: header_decode_def header_ok_def header_encode_def
        shares_slot_id_iff slots_read format_consts MAX_SLOTS_def
        simp del: take_n_iff take_uint_iff take_blob_iff take_utf8_iff ids_iff)
qed

lemma vault_decode_iff:
  "vault_decode bytes = Inr (f, aad) \<longleftrightarrow>
     file_ok f \<and> aad = header_encode (file_header f) \<and> bytes = file_encode f"
proof -
  have "vault_decode bytes = Inr (f, aad) \<longleftrightarrow>
    (\<exists>cursor. header_decode bytes = Inr (file_header f, cursor)
       \<and> aad = take (length bytes - length cursor) bytes
       \<and> length (sealed_body f) \<le> MAX_BODY_LEN \<and> NONCE_LEN + TAG_LEN \<le> length (sealed_body f)
       \<and> cursor = be_bytes 8 (length (sealed_body f)) @ sealed_body f)"
  proof
    assume "vault_decode bytes = Inr (f, aad)"
    then show "\<exists>cursor. header_decode bytes = Inr (file_header f, cursor)
       \<and> aad = take (length bytes - length cursor) bytes
       \<and> length (sealed_body f) \<le> MAX_BODY_LEN \<and> NONCE_LEN + TAG_LEN \<le> length (sealed_body f)
       \<and> cursor = be_bytes 8 (length (sealed_body f)) @ sealed_body f"
      by (auto simp: vault_decode_def rbind_Inr Let_def not_less split: if_splits)
  next
    assume "\<exists>cursor. header_decode bytes = Inr (file_header f, cursor)
       \<and> aad = take (length bytes - length cursor) bytes
       \<and> length (sealed_body f) \<le> MAX_BODY_LEN \<and> NONCE_LEN + TAG_LEN \<le> length (sealed_body f)
       \<and> cursor = be_bytes 8 (length (sealed_body f)) @ sealed_body f"
    moreover have "take_n (length (sealed_body f)) (sealed_body f) = Inr (sealed_body f, [])" by simp
    ultimately show "vault_decode bytes = Inr (f, aad)"
      by (cases f) (clarsimp simp: vault_decode_def Let_def MAX_BODY_LEN_def not_less
          simp del: take_uint_iff take_n_iff)
  qed
  then show ?thesis
    by (auto simp: header_decode_iff file_ok_def file_encode_def encode_file_def)
qed

text \<open>
  Property C35.  The vault decoder accepts a byte string exactly when it is the encoding of a
  well-formed vault file, and returns that file together with its exact header bytes.  So every
  vault has one spelling: decoding what was encoded gives it back, re-encoding what was decoded
  gives the bytes back, and the authenticated data is what is on disk.
\<close>

theorem vault_decode_accepts_encodings:
  "vault_decode bytes = Inr (f, aad) \<longleftrightarrow>
     file_ok f \<and> bytes = encode_file aad (sealed_body f) \<and> aad = header_encode (file_header f)"
  using vault_decode_iff [of bytes f aad] by (auto simp: file_encode_def)

lemma prefix_free:
  assumes "file_ok f" and "file_ok g" and "file_encode f @ x = file_encode g"
  shows "x = []"
proof -
  have "header_decode (file_encode g) = Inr (file_header f, be_bytes 8 (length (sealed_body f)) @ sealed_body f @ x)"
    using assms(1) unfolding assms(3) [symmetric]
    by (simp add: header_decode_iff file_ok_def file_encode_def encode_file_def)
  moreover have "header_decode (file_encode g) = Inr (file_header g, be_bytes 8 (length (sealed_body g)) @ sealed_body g)"
    using assms(2) by (simp add: header_decode_iff file_ok_def file_encode_def encode_file_def)
  ultimately have eq: "be_bytes 8 (length (sealed_body f)) @ sealed_body f @ x
      = be_bytes 8 (length (sealed_body g)) @ sealed_body g" by (simp only: sum.inject prod.inject)
  have read: "take_uint 8 (be_bytes 8 (length (sealed_body h)) @ y) = Inr (length (sealed_body h), y)"
    if "file_ok h" for h y
    using that by (simp add: file_ok_def MAX_BODY_LEN_def del: take_uint_iff)
  have "Inr (length (sealed_body f), sealed_body f @ x)
      = (Inr (length (sealed_body g), sealed_body g) :: (nat \<times> u8 list) vault_result)"
    unfolding read [OF assms(1), symmetric] eq by (rule read [OF assms(2)])
  then have "length (sealed_body f @ x) = length (sealed_body f)" by simp
  then show ?thesis by simp
qed

text \<open>
  Neither a truncated vault file nor one with bytes appended is ever accepted.
\<close>

theorem vault_file_is_prefix_free:
  assumes "vault_decode bytes = Inr (f, aad)" and "x \<noteq> []"
  shows "vault_decode (bytes @ x) \<noteq> Inr (g, aad')" and "bytes = p @ x \<Longrightarrow> vault_decode p \<noteq> Inr (g, aad')"
  using assms prefix_free [of f g x] prefix_free [of g f x]
  by (auto simp: vault_decode_iff)

text \<open>
  A file that declares another format version than this build's is refused with that version,
  whatever follows the version field: no later field of it is looked at.
\<close>

theorem other_version_refused:
  assumes "v < 256 ^ 4" and "v \<noteq> VAULT_FORMAT_VERSION"
  shows "vault_decode (VAULT_MAGIC @ be_bytes 4 v @ rest) = Inl (VaultUnsupportedVersion v)"
proof -
  have "length VAULT_MAGIC = 8" by (simp add: VAULT_MAGIC_def)
  with assms show ?thesis
    by (simp add: vault_decode_def header_decode_def format_consts del: take_uint_iff take_n_iff)
qed

lemma be_bytes_inject:
  assumes "v < 256 ^ k" and "w < 256 ^ k" and "be_bytes k v = be_bytes k w"
  shows "v = w"
  using be_value_bytes [OF assms(1)] be_value_bytes [OF assms(2)] assms(3) by metis

lemma binding_aad_inject:
  assumes "length vid = ID_LEN" "length vid' = ID_LEN" "length sid = ID_LEN" "length sid' = ID_LEN"
    and "v < 256 ^ 4" "v' < 256 ^ 4"
    and "binding_aad vid v sid k pk = binding_aad vid' v' sid' k' pk'"
  shows "vid = vid' \<and> v = v' \<and> sid = sid' \<and> k = k' \<and> pk = pk'"
proof -
  have v: "be_bytes 4 v = be_bytes 4 v'" and k: "be_bytes 2 (slot_kind_id k) = be_bytes 2 (slot_kind_id k')"
    and rest: "vid = vid'" "sid = sid'" "pk = pk'"
    using assms by (simp_all add: binding_aad_def)
  have "v = v'" by (rule be_bytes_inject [OF assms(5,6) v])
  moreover have "slot_kind_id k = slot_kind_id k'"
    by (rule be_bytes_inject [OF _ _ k]) simp_all
  then have "k = k'" by (cases k; cases k') simp_all
  ultimately show ?thesis using rest by simp
qed

lemma slots_decode_error:
  "list_all slot_ok pre \<Longrightarrow> slot_decode c = Inl e
     \<Longrightarrow> slots_decode (length pre + Suc n) (concat (map slot_encode pre) @ c) = Inl e"
  by (induction pre) (auto simp: slot_decode_iff [THEN iffD2])

lemma oversized_label_slot:
  assumes "slot_ok (s\<lparr>slot_label := []\<rparr>)" and "MAX_SLOT_FIELD_LEN < length (slot_label s)"
    and "length (slot_label s) < 256 ^ 4"
  shows "slot_decode (slot_encode s @ r) = Inl (FieldTooLarge ''label'' (length (slot_label s)))"
proof -
  have "take_utf8 ''label'' (put_blob (string_bytes (slot_label s)) @ x)
      = Inl (FieldTooLarge ''label'' (length (slot_label s)))" for x
    using assms(2,3) by (simp add: take_utf8_def take_blob_def put_blob_def del: take_uint_iff)
  with assms(1) show ?thesis
    by (simp add: slot_decode_def slot_encode_def slot_ok_def
        del: take_n_iff take_uint_iff take_blob_iff take_utf8_iff ids_iff)
qed

lemma header_decode_slots:
  assumes "length vid = ID_LEN" and "gen < 256 ^ 8" and "0 < n" and "n \<le> MAX_SLOTS"
    and "slots_decode n c = Inl e"
  shows "header_decode (VAULT_MAGIC @ be_bytes 4 VAULT_FORMAT_VERSION @ vid @ be_bytes 8 gen
    @ be_bytes 2 (aead_id al) @ be_bytes 2 (kdf_id kd) @ be_bytes 4 n @ c) = Inl e"
proof -
  have "length VAULT_MAGIC = 8" by (simp add: VAULT_MAGIC_def)
  with assms show ?thesis
    by (simp add: header_decode_def format_consts MAX_SLOTS_def
        del: take_n_iff take_uint_iff ids_iff slots_decode_iff)
qed

text \<open>
  The writer does not check the bounds the reader enforces: a header whose slots are all fine but
  for one label of more than 64 KiB is encoded without complaint, and every file that starts with it
  is refused.
\<close>

theorem oversized_label_is_written_but_refused:
  assumes "header_slots h = pre @ s # post" and "list_all slot_ok pre"
    and "slot_ok (s\<lparr>slot_label := []\<rparr>)"
    and "MAX_SLOT_FIELD_LEN < length (slot_label s)" and "length (slot_label s) < 256 ^ 4"
    and "length (header_slots h) \<le> MAX_SLOTS" and "header_version h = VAULT_FORMAT_VERSION"
    and "length (header_vault_id h) = ID_LEN" and "header_generation h < 256 ^ 8"
  shows "vault_decode (encode_file (header_encode h) body)
    = Inl (FieldTooLarge ''label'' (length (slot_label s)))"
proof -
  let ?rest = "concat (map slot_encode post) @ be_bytes 8 (length body) @ body"
  have "slots_decode (length (header_slots h)) (concat (map slot_encode pre) @ slot_encode s @ ?rest)
      = Inl (FieldTooLarge ''label'' (length (slot_label s)))"
    using slots_decode_error [OF assms(2) oversized_label_slot [OF assms(3-5)], of "length post" ?rest]
    by (simp only: assms(1) length_append list.size add_Suc_right add_0_right)
  moreover have pos: "0 < length (header_slots h)" by (simp add: assms(1))
  ultimately have e: "header_decode (VAULT_MAGIC @ be_bytes 4 VAULT_FORMAT_VERSION
      @ header_vault_id h @ be_bytes 8 (header_generation h) @ be_bytes 2 (aead_id (header_aead h))
      @ be_bytes 2 (kdf_id (header_kdf h)) @ be_bytes 4 (length (header_slots h))
      @ concat (map slot_encode pre) @ slot_encode s @ ?rest)
      = Inl (FieldTooLarge ''label'' (length (slot_label s)))"
    using header_decode_slots [OF assms(8,9) pos assms(6)] by blast
  have slots: "concat (map slot_encode (header_slots h))
      = concat (map slot_encode pre) @ slot_encode s @ concat (map slot_encode post)"
    by (simp add: assms(1))
  have "header_decode (encode_file (header_encode h) body)
      = Inl (FieldTooLarge ''label'' (length (slot_label s)))"
    using e by (simp only: encode_file_def header_encode_def assms(7) slots append_assoc)
  then show ?thesis by (simp add: vault_decode_def)
qed

definition large_slot :: "nat \<Rightarrow> vault_slot" where
  "large_slot i = \<lparr>slot_id = be_bytes 16 i, slot_kind = PasskeyPrf, slot_pubkey = replicate 32 0,
     slot_salt = replicate 32 0, created_at_epoch_ms = 0, wrapped_privkey = [],
     slot_wrapped_dek = \<lparr>ephemeral_pub = replicate 32 0, wrapped_sealed = []\<rparr>, rp_id = [],
     credential_id = replicate 65536 0, slot_label = [], credential_public_key = replicate 65536 0\<rparr>"

definition large_file :: vault_file where
  "large_file = \<lparr>file_header = \<lparr>header_version = 2, header_vault_id = replicate 16 0,
     header_generation = 1, header_aead = XChaCha20Poly1305, header_kdf = HkdfSha256,
     header_slots = map large_slot [0..<1024]\<rparr>, sealed_body = replicate 40 0\<rparr>"

lemma large_slot_facts: "slot_ok (large_slot i)" "131072 \<le> length (slot_encode (large_slot i))"
  by (simp_all add: large_slot_def slot_ok_def format_consts MAX_SLOT_FIELD_LEN_def slot_encode_def
      put_blob_def string_bytes_def)

text \<open>
  The bound on a whole file is below what the bounds on its parts allow: some file the decoder
  accepts is longer than what the storage layer will read.
\<close>

theorem file_bound_below_structural_bound:
  "\<exists>f aad. vault_decode (file_encode f) = Inr (f, aad) \<and> MAX_FILE_LEN < length (file_encode f)"
proof -
  have "inj_on (be_bytes 16) {0..<1024}"
    by (rule inj_onI, rule be_bytes_inject [where k = 16]) simp_all
  then have "distinct (map (\<lambda>i. slot_id (large_slot i)) [0..<1024])"
    by (simp add: distinct_map large_slot_def)
  then have "file_ok large_file"
    by (simp add: file_ok_def large_file_def header_ok_def format_consts MAX_SLOTS_def NONCE_LEN_def
        TAG_LEN_def MAX_BODY_LEN_def list_all_iff large_slot_facts(1) o_def)
  then have "vault_decode (file_encode large_file) = Inr (large_file, header_encode (file_header large_file))"
    by (simp add: vault_decode_iff)
  moreover have "sum_list (map (\<lambda>i. 131072) [0..<1024])
      \<le> sum_list (map (\<lambda>i. length (slot_encode (large_slot i))) [0..<1024 :: nat])"
    by (rule sum_list_mono) (rule large_slot_facts(2))
  then have "MAX_FILE_LEN < length (file_encode large_file)"
    by (simp add: file_encode_def encode_file_def header_encode_def large_file_def length_concat o_def
        sum_list_triv MAX_FILE_LEN_def)
  ultimately show ?thesis by blast
qed

end
