(* ===== verification/Recovery.thy ===== *)
theory Recovery
  imports Vault_Error
begin

unbundle bit_operations_syntax

text \<open>
  The recovery code (\<open>crates/cache-warden-vault/src/recovery.rs\<close>): the 32 secret bytes behind a
  vault's last-resort credential and their Crockford Base32 form.  What a user types is a list of
  Unicode scalar values, as \<open>str::chars\<close> yields them.  The accumulators keep their width of 16 bits.
\<close>

definition CROCKFORD_ALPHABET :: string where
  "CROCKFORD_ALPHABET = ''0123456789ABCDEFGHJKMNPQRSTVWXYZ''"

definition CODE_CHARS :: nat where "CODE_CHARS = 52"
definition GROUP_LEN :: nat where "GROUP_LEN = 4"
definition KEY_LEN :: nat where "KEY_LEN = 32"

type_synonym scalar_value = nat

text \<open>\<open>char::to_ascii_uppercase\<close>, and the first position of a byte in the alphabet.\<close>

definition char_to_ascii_uppercase :: "scalar_value \<Rightarrow> scalar_value" where
  "char_to_ascii_uppercase ch = (if 97 \<le> ch \<and> ch \<le> 122 then ch - 32 else ch)"

fun position :: "('a \<Rightarrow> bool) \<Rightarrow> 'a list \<Rightarrow> nat option" where
  "position P [] = None"
| "position P (x # xs) = (if P x then Some 0 else map_option Suc (position P xs))"

text \<open>The cast \<open>up as u8\<close> keeps the low eight bits of the scalar value.\<close>

definition digit_value :: "scalar_value \<Rightarrow> nat option" where
  "digit_value ch =
     (let up = char_to_ascii_uppercase ch in
      if up = of_char (CHR ''I'') \<or> up = of_char (CHR ''L'') then Some 1
      else if up = of_char (CHR ''O'') then Some 0
      else position (\<lambda>a. of_char a = up mod 256) CROCKFORD_ALPHABET)"

definition is_separator :: "scalar_value \<Rightarrow> bool" where
  "is_separator ch \<longleftrightarrow> ch \<in> {45, 32, 9, 10, 13}"

fun read_digits :: "scalar_value list \<Rightarrow> nat list option" where
  "read_digits [] = Some []"
| "read_digits (ch # chs) =
     (if is_separator ch then read_digits chs
      else (case digit_value ch of
              None \<Rightarrow> None
            | Some d \<Rightarrow> map_option ((#) d) (read_digits chs)))"

text \<open>One round of the decoding loop on the accumulator, its bit count and the bytes written.\<close>

definition decode_step :: "16 word \<times> nat \<times> u8 list \<Rightarrow> nat \<Rightarrow> 16 word \<times> nat \<times> u8 list" where
  "decode_step st d =
     (let (acc, bits, out) = st;
          acc' = push_bit 5 acc OR of_nat d;
          bits' = bits + 5
      in if 8 \<le> bits'
         then (acc', bits' - 8,
               if length out < KEY_LEN then out @ [ucast (drop_bit (bits' - 8) acc')] else out)
         else (acc', bits', out))"

definition recovery_parse :: "scalar_value list \<Rightarrow> u8 list vault_result" where
  "recovery_parse input =
     rbind (ok_or MalformedRecoveryCode (read_digits input)) (\<lambda>digits.
       if length digits \<noteq> CODE_CHARS then Inl MalformedRecoveryCode
       else (let (acc, bits, secret) = foldl decode_step (0, 0, []) digits in
             if acc AND (push_bit bits 1 - 1) \<noteq> 0 then Inl MalformedRecoveryCode
             else Inr secret))"

text \<open>The closure \<open>emit\<close>, with the string and the number of characters written.\<close>

definition emit :: "string \<times> nat \<Rightarrow> nat \<Rightarrow> string \<times> nat" where
  "emit st v =
     (let (out, written) = st in
      ((if 0 < written \<and> written mod GROUP_LEN = 0 then out @ ''-'' else out)
         @ [CROCKFORD_ALPHABET ! v],
       written + 1))"

function emit_full :: "16 word \<Rightarrow> nat \<Rightarrow> string \<times> nat \<Rightarrow> nat \<times> string \<times> nat" where
  "emit_full acc bits st =
     (if 5 \<le> bits
      then emit_full acc (bits - 5) (emit st (unat (drop_bit (bits - 5) acc AND 0x1f)))
      else (bits, st))"
  by pat_completeness auto
termination by (relation "measure (\<lambda>(acc, bits, st). bits)") auto

declare emit_full.simps [simp del]

definition render_step ::
  "16 word \<times> nat \<times> string \<times> nat \<Rightarrow> u8 \<Rightarrow> 16 word \<times> nat \<times> string \<times> nat"
where
  "render_step st byte =
     (let (acc, bits, emitted) = st;
          acc' = push_bit 8 acc OR ucast byte
      in (acc', emit_full acc' (bits + 8) emitted))"

definition recovery_render :: "u8 list \<Rightarrow> string" where
  "recovery_render secret =
     (let (acc, bits, st) = foldl render_step (0, 0, [], 0) secret in
      fst (if 0 < bits then emit st (unat (push_bit (5 - bits) acc AND 0x1f)) else st))"

definition recovery_parse_str :: "string \<Rightarrow> u8 list vault_result" where
  "recovery_parse_str s = recovery_parse (map of_char s)"

subsection \<open>Bit strings\<close>

text \<open>
  The reference both loops are compared with: a code is the secret's bits, most significant first,
  cut into groups of five, the last one filled up with zeros.
\<close>

definition low_bits :: "nat \<Rightarrow> 'a :: len word \<Rightarrow> bool list" where
  "low_bits n w = map (bit w) (rev [0..<n])"

definition secret_bits :: "u8 list \<Rightarrow> bool list" where
  "secret_bits bs = concat (map (low_bits 8) bs)"

definition digit_bits :: "nat list \<Rightarrow> bool list" where
  "digit_bits ds = concat (map (\<lambda>d. low_bits 5 (of_nat d :: 16 word)) ds)"

lemma low_bits_length [simp]: "length (low_bits n w) = n"
  by (simp add: low_bits_def)

lemma low_bits_nth: "i < n \<Longrightarrow> low_bits n w ! i = bit w (n - 1 - i)"
  by (simp add: low_bits_def rev_nth)

lemma low_bits_eqI: "(\<And>k. k < n \<Longrightarrow> bit v k = bit w k) \<Longrightarrow> low_bits n v = low_bits n w"
  by (simp add: low_bits_def)

lemma low_bits_split: "low_bits (m + n) w = low_bits m (drop_bit n w) @ low_bits n w"
  by (rule nth_equalityI) (auto simp: low_bits_nth nth_append bit_simps add.commute)

lemma low_bits_shift:
  fixes acc :: "16 word"
  assumes "n + m \<le> 16" and "\<And>k. m \<le> k \<Longrightarrow> k < 16 \<Longrightarrow> \<not> bit x k"
  shows "low_bits (n + m) (push_bit m acc OR x) = low_bits n acc @ low_bits m x"
proof -
  have "low_bits n (drop_bit m (push_bit m acc OR x)) = low_bits n acc"
    using assms by (intro low_bits_eqI) (auto simp: bit_simps)
  moreover have "low_bits m (push_bit m acc OR x) = low_bits m x"
    by (intro low_bits_eqI) (auto simp: bit_simps)
  ultimately show ?thesis by (simp add: low_bits_split)
qed

lemma low_bits_inject:
  fixes v w :: "'a :: len word"
  assumes "low_bits n v = low_bits n w" and "k < n"
  shows "bit v k = bit w k"
  using assms low_bits_nth [of "n - 1 - k" n v] low_bits_nth [of "n - 1 - k" n w] by simp

lemma byte_inject: "low_bits 8 v = low_bits 8 w \<Longrightarrow> v = w" for v w :: u8
  by (rule bit_word_eqI) (rule low_bits_inject, assumption, simp)

lemma digit_word: "d < 32 \<Longrightarrow> \<not> bit (of_nat d :: 16 word) k" if "5 \<le> k" for k
proof -
  assume "d < 32"
  then have "(of_nat d :: 16 word) = take_bit 5 (of_nat d)"
    by (simp add: take_bit_nat_eq_self flip: of_nat_take_bit)
  then show ?thesis
    using that by (metis bit_take_bit_iff not_le)
qed

lemma digit_inject:
  assumes "low_bits 5 (of_nat d :: 16 word) = low_bits 5 (of_nat e :: 16 word)" and "d < 32" and "e < 32"
  shows "d = e"
proof -
  have "(of_nat d :: 16 word) = of_nat e"
    using low_bits_inject [OF assms(1)] digit_word assms(2,3)
    by (intro bit_word_eqI) (metis not_le)
  then have "unat (of_nat d :: 16 word) = unat (of_nat e :: 16 word)" by simp
  with assms(2,3) show ?thesis by (simp add: unat_of_nat)
qed

lemma secret_bits_simps [simp]:
  "secret_bits [] = []" "secret_bits (bs @ [b]) = secret_bits bs @ low_bits 8 b"
  "length (secret_bits bs) = 8 * length bs"
  by (simp_all add: secret_bits_def length_concat o_def sum_list_triv)

lemma digit_bits_simps [simp]:
  "digit_bits [] = []" "digit_bits (ds @ es) = digit_bits ds @ digit_bits es"
  "digit_bits [d] = low_bits 5 (of_nat d :: 16 word)"
  "length (digit_bits ds) = 5 * length ds"
  by (simp_all add: digit_bits_def length_concat o_def sum_list_triv)

lemma secret_bits_inject:
  "length bs = length cs \<Longrightarrow> secret_bits bs = secret_bits cs \<Longrightarrow> bs = cs"
  by (induction bs cs rule: list_induct2) (auto simp: secret_bits_def intro: byte_inject)

lemma digit_bits_inject:
  "length ds = length es \<Longrightarrow> digit_bits ds = digit_bits es \<Longrightarrow> \<forall>d\<in>set (ds @ es). d < 32 \<Longrightarrow> ds = es"
  by (induction ds es rule: list_induct2) (auto simp: digit_bits_def intro: digit_inject)

subsection \<open>The loops compute the bit strings\<close>

lemma unat_sextet: "unat (w AND 0x1f) < 32" for w :: "16 word"
proof -
  have "unat (w AND 0x1f) \<le> unat (0x1f :: 16 word)"
    using word_and_le1 [of w "0x1f"] by (simp only: word_le_nat_alt)
  then show ?thesis by simp
qed

lemma digit_of_word: "low_bits 5 (of_nat (unat (w AND 0x1f)) :: 16 word) = low_bits 5 w" for w :: "16 word"
proof -
  have "w AND 0x1f = take_bit 5 w" by (simp add: take_bit_eq_mask mask_eq_exp_minus_1)
  then show ?thesis by (intro low_bits_eqI) (simp add: bit_simps)
qed

lemma emit_full_digits:
  "\<exists>ds. emit_full acc bits st = (bits mod 5, foldl emit st ds) \<and> (\<forall>d\<in>set ds. d < 32)
     \<and> digit_bits ds @ low_bits (bits mod 5) acc = low_bits bits acc"
proof (induction acc bits st rule: emit_full.induct)
  case (1 acc bits st)
  show ?case
  proof (cases "5 \<le> bits")
    case False
    then show ?thesis
      by (intro exI [of _ "[]"]) (simp add: emit_full.simps [of acc bits])
  next
    case True
    let ?d = "unat (drop_bit (bits - 5) acc AND 0x1f)"
    from 1 [OF True] obtain ds where ds: "emit_full acc (bits - 5) (emit st ?d)
        = ((bits - 5) mod 5, foldl emit (emit st ?d) ds)" "\<forall>d\<in>set ds. d < 32"
      "digit_bits ds @ low_bits ((bits - 5) mod 5) acc = low_bits (bits - 5) acc" by blast
    have m: "(bits - 5) mod 5 = bits mod 5" using True by (simp add: le_mod_geq)
    have "low_bits bits acc = low_bits 5 (drop_bit (bits - 5) acc) @ low_bits (bits - 5) acc"
      using low_bits_split [of 5 "bits - 5" acc] True by simp
    with ds(3) have "digit_bits (?d # ds) @ low_bits (bits mod 5) acc = low_bits bits acc"
      using digit_of_word [of "drop_bit (bits - 5) acc"] by (simp add: m digit_bits_def)
    with ds True show ?thesis
      by (intro exI [of _ "?d # ds"]) (simp add: emit_full.simps [of acc bits] m unat_sextet)
  qed
qed

lemma render_step_simp:
  "render_step (acc, bits, st) b =
     (push_bit 8 acc OR ucast b, emit_full (push_bit 8 acc OR ucast b) (bits + 8) st)"
  by (simp add: render_step_def Let_def)

lemma render_digits:
  "\<exists>acc ds. foldl render_step (0, 0, [], 0) bs = (acc, 8 * length bs mod 5, foldl emit ([], 0) ds)
     \<and> (\<forall>d\<in>set ds. d < 32) \<and> digit_bits ds @ low_bits (8 * length bs mod 5) acc = secret_bits bs"
proof (induction bs rule: rev_induct)
  case Nil
  show ?case by (intro exI [of _ 0] exI [of _ "[]"]) (simp add: low_bits_def)
next
  case (snoc b bs)
  then obtain acc ds where IH: "foldl render_step (0, 0, [], 0) bs
      = (acc, 8 * length bs mod 5, foldl emit ([], 0) ds)" "\<forall>d\<in>set ds. d < 32"
    "digit_bits ds @ low_bits (8 * length bs mod 5) acc = secret_bits bs" by blast
  let ?n = "8 * length bs mod 5"
  let ?acc = "push_bit 8 acc OR ucast b :: 16 word"
  obtain es where es: "emit_full ?acc (?n + 8) (foldl emit ([], 0) ds)
      = ((?n + 8) mod 5, foldl emit (foldl emit ([], 0) ds) es)" "\<forall>d\<in>set es. d < 32"
    "digit_bits es @ low_bits ((?n + 8) mod 5) ?acc = low_bits (?n + 8) ?acc"
    using emit_full_digits [of ?acc "?n + 8"] by blast
  have n: "?n + 8 \<le> 16" "(?n + 8) mod 5 = 8 * length (bs @ [b]) mod 5"
    using mod_less_divisor [of 5 "8 * length bs"] by (simp_all add: mod_simps add.commute)
  have "low_bits (?n + 8) ?acc = low_bits ?n acc @ low_bits 8 (ucast b :: 16 word)"
    using n(1) by (intro low_bits_shift) (auto simp: bit_simps dest: bit_imp_le_length)
  moreover have "low_bits 8 (ucast b :: 16 word) = low_bits 8 b"
    by (simp add: low_bits_def bit_simps)
  ultimately have "digit_bits (ds @ es) @ low_bits ((?n + 8) mod 5) ?acc = secret_bits (bs @ [b])"
    using IH(3) es(3) by simp
  with IH es n show ?case
    by (intro exI [of _ ?acc] exI [of _ "ds @ es"]) (auto simp: render_step_simp)
qed

lemma decode_step_simp:
  "decode_step (acc, bits, out) d =
     (if 3 \<le> bits
      then (push_bit 5 acc OR of_nat d, bits - 3,
            if length out < KEY_LEN
            then out @ [ucast (drop_bit (bits - 3) (push_bit 5 acc OR of_nat d))] else out)
      else (push_bit 5 acc OR of_nat d, bits + 5, out))"
proof -
  have "bits + 5 - 8 = bits - 3" "(8 \<le> bits + 5) = (3 \<le> bits)" by simp_all
  then show ?thesis by (simp only: decode_step_def Let_def prod.case)
qed

lemma five_more:
  fixes x :: nat
  shows "3 \<le> x mod 8 \<Longrightarrow> (x + 5) mod 8 = x mod 8 - 3"
    and "3 \<le> x mod 8 \<Longrightarrow> (x + 5) div 8 = Suc (x div 8)"
    and "x mod 8 < 3 \<Longrightarrow> (x + 5) mod 8 = x mod 8 + 5"
    and "x mod 8 < 3 \<Longrightarrow> (x + 5) div 8 = x div 8"
proof -
  have x: "8 * (x div 8) + x mod 8 = x" "x mod 8 < 8" by simp_all
  have "y + 5 = (r - 3) + 8 * Suc q" if "8 * q + r = y" "3 \<le> r" for y q r :: nat
    using that by arith
  from this [OF x(1)] have up: "x + 5 = (x mod 8 - 3) + 8 * Suc (x div 8)" if "3 \<le> x mod 8"
    using that .
  have "y + 5 = (r + 5) + 8 * q" if "8 * q + r = y" for y q r :: nat
    using that by linarith
  from this [OF x(1)] have stay: "x + 5 = (x mod 8 + 5) + 8 * (x div 8)" .
  show "(x + 5) mod 8 = x mod 8 - 3" if "3 \<le> x mod 8"
    using x(2) by (subst up [OF that], subst mod_mult_self2) simp
  show "(x + 5) div 8 = Suc (x div 8)" if "3 \<le> x mod 8"
    using x(2) by (subst up [OF that], subst div_mult_self2) simp_all
  show "(x + 5) mod 8 = x mod 8 + 5" if "x mod 8 < 3"
    using that by (subst stay, subst mod_mult_self2) simp
  show "(x + 5) div 8 = x div 8" if "x mod 8 < 3"
    using that by (subst stay, subst div_mult_self2) simp_all
qed

lemma decode_bits:
  assumes "length ds \<le> CODE_CHARS" and "\<forall>d\<in>set ds. d < 32"
  shows "\<exists>acc out. foldl decode_step (0, 0, []) ds = (acc, 5 * length ds mod 8, out)
     \<and> length out = 5 * length ds div 8
     \<and> secret_bits out @ low_bits (5 * length ds mod 8) acc = digit_bits ds"
  using assms
proof (induction ds rule: rev_induct)
  case Nil
  show ?case by (intro exI [of _ 0] exI [of _ "[]"]) (simp add: low_bits_def)
next
  case (snoc d ds)
  then obtain acc out where IH: "foldl decode_step (0, 0, []) ds = (acc, 5 * length ds mod 8, out)"
    "length out = 5 * length ds div 8"
    "secret_bits out @ low_bits (5 * length ds mod 8) acc = digit_bits ds" by auto
  let ?n = "5 * length ds mod 8"
  let ?acc = "push_bit 5 acc OR of_nat d :: 16 word"
  have n: "?n < 8" by simp
  have d: "d < 32" using snoc.prems by simp
  have acc: "low_bits (?n + 5) ?acc = low_bits ?n acc @ low_bits 5 (of_nat d :: 16 word)"
    using n digit_word [OF _ d] by (intro low_bits_shift) auto
  have bits: "digit_bits (ds @ [d]) = secret_bits out @ low_bits (?n + 5) ?acc"
    by (simp only: acc digit_bits_simps append_assoc flip: IH(3))
  show ?case
  proof (cases "3 \<le> ?n")
    case True
    have q: "5 * length (ds @ [d]) mod 8 = ?n - 3" "5 * length (ds @ [d]) div 8 = Suc (5 * length ds div 8)"
      using five_more(1,2) [OF True] by (simp_all add: algebra_simps)
    have "length out < KEY_LEN"
      using IH(2) snoc.prems(1) by (simp add: CODE_CHARS_def KEY_LEN_def)
    moreover have "low_bits 8 (ucast (drop_bit (?n - 3) ?acc) :: u8) = low_bits 8 (drop_bit (?n - 3) ?acc)"
      by (intro low_bits_eqI) (simp add: bit_simps)
    moreover have "low_bits (?n + 5) ?acc = low_bits 8 (drop_bit (?n - 3) ?acc) @ low_bits (?n - 3) ?acc"
      using low_bits_split [of 8 "?n - 3" ?acc] True by (simp add: add.commute)
    ultimately show ?thesis
      using IH(1,2) True unfolding q bits
      by (intro exI [of _ ?acc] exI [of _ "out @ [ucast (drop_bit (?n - 3) ?acc)]"])
        (simp add: decode_step_simp del: drop_bit_or)
  next
    case False
    have q: "5 * length (ds @ [d]) mod 8 = ?n + 5" "5 * length (ds @ [d]) div 8 = 5 * length ds div 8"
      using five_more(3,4) [of "5 * length ds"] False by (simp_all add: algebra_simps)
    show ?thesis
      using IH(1,2) False unfolding q bits
      by (intro exI [of _ ?acc] exI [of _ out]) (simp add: decode_step_simp)
  qed
qed

lemma low_bits_zero:
  "low_bits n w = replicate n False \<longleftrightarrow> (\<forall>k<n. \<not> bit w k)"
proof
  show "\<forall>k<n. \<not> bit w k" if eq: "low_bits n w = replicate n False"
  proof (intro allI impI)
    fix k assume k: "k < n"
    then have "low_bits n w ! (n - 1 - k) = bit w k"
      by (simp add: low_bits_nth)
    with k show "\<not> bit w k" by (simp add: eq)
  qed
  show "low_bits n w = replicate n False" if "\<forall>k<n. \<not> bit w k"
    using that by (intro nth_equalityI) (simp_all add: low_bits_nth)
qed

lemma low_bits_zero_iff:
  "(w AND (push_bit n 1 - 1) = 0) \<longleftrightarrow> low_bits n w = replicate n False" for w :: "16 word"
proof -
  have "w AND (push_bit n 1 - 1) = take_bit n w"
    by (simp add: take_bit_eq_mask mask_eq_exp_minus_1 push_bit_eq_mult)
  moreover have "(take_bit n w = 0) = (\<forall>k<n. \<not> bit w k)"
  proof
    show "\<forall>k<n. \<not> bit w k" if "take_bit n w = 0"
    proof (intro allI impI)
      fix k assume "k < n"
      with arg_cong [OF that, of "\<lambda>v. bit v k"] show "\<not> bit w k"
        by (simp add: bit_simps)
    qed
    show "take_bit n w = 0" if "\<forall>k<n. \<not> bit w k"
      using that by (intro bit_word_eqI) (simp add: bit_simps)
  qed
  ultimately show ?thesis by (simp add: low_bits_zero)
qed

subsection \<open>Reading and writing characters\<close>

lemma read_digits_append:
  "read_digits (xs @ ys) =
     (case read_digits xs of None \<Rightarrow> None | Some ds \<Rightarrow> map_option ((@) ds) (read_digits ys))"
  by (induction xs) (auto split: option.splits simp: option.map_comp o_def map_option_case)

lemma alphabet_codes:
  "map of_char CROCKFORD_ALPHABET =
     [48, 49, 50, 51, 52, 53, 54, 55, 56, 57, 65, 66, 67, 68, 69, 70, 71, 72, 74, 75, 77, 78, 80, 81,
      82, 83, 84, 86, 87, 88, 89, 90 :: nat]"
  by (simp add: CROCKFORD_ALPHABET_def)

lemma position_distinct:
  "distinct (map f xs) \<Longrightarrow> i < length xs \<Longrightarrow> position (\<lambda>a. f a = f (xs ! i)) xs = Some i"
  by (induction xs arbitrary: i) (auto simp: less_Suc_eq_0_disj)

lemma alphabet_code_facts:
  assumes "d < 32"
  defines "c \<equiv> of_char (CROCKFORD_ALPHABET ! d) :: nat"
  shows "c < 97" "c \<noteq> 73" "c \<noteq> 76" "c \<noteq> 79" "\<not> is_separator c"
proof -
  have len: "length CROCKFORD_ALPHABET = 32" by (simp add: CROCKFORD_ALPHABET_def)
  then have "c \<in> set (map of_char CROCKFORD_ALPHABET)"
    using assms(1) by (simp add: c_def)
  then show "c < 97" "c \<noteq> 73" "c \<noteq> 76" "c \<noteq> 79" "\<not> is_separator c"
    unfolding alphabet_codes is_separator_def by auto
qed

lemma alphabet_digit:
  assumes "d < 32"
  shows "read_digits [of_char (CROCKFORD_ALPHABET ! d)] = Some [d]"
proof -
  have "distinct (map of_char CROCKFORD_ALPHABET :: nat list)" "length CROCKFORD_ALPHABET = 32"
    unfolding alphabet_codes by (simp_all add: CROCKFORD_ALPHABET_def)
  from position_distinct [OF this(1), of d] this(2) assms alphabet_code_facts [OF assms]
  show ?thesis
    by (simp add: digit_value_def char_to_ascii_uppercase_def Let_def)
qed

lemma emit_simp:
  "emit (out, w) v =
     ((if 0 < w \<and> w mod GROUP_LEN = 0 then out @ ''-'' else out) @ [CROCKFORD_ALPHABET ! v], w + 1)"
  by (simp add: emit_def)

lemma read_emitted:
  "\<forall>d\<in>set ds. d < 32 \<Longrightarrow> read_digits (map of_char (fst (foldl emit ([], n) ds))) = Some ds"
proof (induction ds rule: rev_induct)
  case Nil
  show ?case by simp
next
  case (snoc d ds)
  obtain out w where out: "foldl emit ([], n) ds = (out, w)" by fastforce
  have "read_digits (map of_char ''-'') = Some []" by (simp add: is_separator_def)
  with snoc alphabet_digit [of d] out show ?case
    by (simp add: emit_simp read_digits_append del: read_digits.simps(2))
qed

lemma position_lt: "position P xs = Some i \<Longrightarrow> i < length xs"
  by (induction xs arbitrary: i) (auto split: if_splits)

lemma digit_value_lt: "digit_value ch = Some d \<Longrightarrow> d < 32"
  using position_lt [of "\<lambda>a. of_char a = char_to_ascii_uppercase ch mod 256" CROCKFORD_ALPHABET d]
  by (auto simp: digit_value_def Let_def CROCKFORD_ALPHABET_def split: if_splits)

lemma read_digits_lt: "read_digits s = Some ds \<Longrightarrow> \<forall>d\<in>set ds. d < 32"
  by (induction s arbitrary: ds) (auto split: if_splits option.splits dest: digit_value_lt)

lemma rendered:
  assumes "length bs = KEY_LEN"
  shows "\<exists>ds. read_digits (map of_char (recovery_render bs)) = Some ds \<and> (\<forall>d\<in>set ds. d < 32)
    \<and> digit_bits ds = secret_bits bs @ replicate 4 False"
proof -
  obtain acc ds where r: "foldl render_step (0, 0, [], 0) bs = (acc, 1, foldl emit ([], 0) ds)"
    "\<forall>d\<in>set ds. d < 32" "digit_bits ds @ low_bits 1 acc = secret_bits bs"
    using render_digits [of bs] assms by (auto simp: KEY_LEN_def)
  let ?d = "unat (push_bit 4 acc AND 0x1f)"
  have "recovery_render bs = fst (foldl emit ([], 0) (ds @ [?d]))"
    by (simp add: recovery_render_def r(1))
  moreover have ok: "\<forall>d\<in>set (ds @ [?d]). d < 32"
    using r(2) unat_sextet [of "push_bit 4 acc"] by auto
  moreover have "low_bits 5 (push_bit 4 acc) = low_bits 1 acc @ replicate 4 False"
    using low_bits_shift [of 1 4 0 acc] low_bits_zero [of 4 "0 :: 16 word"] by simp
  then have "digit_bits (ds @ [?d]) = secret_bits bs @ replicate 4 False"
    using r(3) digit_of_word [of "push_bit 4 acc"] by (simp del: of_nat_unat)
  ultimately show ?thesis
    using read_emitted [OF ok, of 0] by auto
qed

lemma parsed:
  assumes "length ds = CODE_CHARS" and "\<forall>d\<in>set ds. d < 32"
  shows "(let (acc, bits, secret) = foldl decode_step (0, 0, []) ds in
      if acc AND (push_bit bits 1 - 1) \<noteq> 0 then Inl e else Inr secret) = Inr bs
    \<longleftrightarrow> length bs = KEY_LEN \<and> digit_bits ds = secret_bits bs @ replicate 4 False"
proof -
  obtain acc out where d: "foldl decode_step (0, 0, []) ds = (acc, 4, out)" "length out = KEY_LEN"
    "secret_bits out @ low_bits 4 acc = digit_bits ds"
    using decode_bits [of ds] assms by (auto simp: CODE_CHARS_def KEY_LEN_def)
  have "length bs = KEY_LEN \<and> digit_bits ds = secret_bits bs @ replicate 4 False
    \<longleftrightarrow> bs = out \<and> low_bits 4 acc = replicate 4 False"
    using d(2) secret_bits_inject [of out bs]
    by (auto simp flip: d(3) simp: append_eq_append_conv)
  then show ?thesis
    using low_bits_zero_iff [of acc 4] by (auto simp: d(1))
qed

text \<open>
  What a user types is accepted exactly when, with separators dropped and case and look-alike
  letters resolved, it reads digit for digit as the rendered code of some secret, and then that
  secret is the result.  So a rendered code parses back, spelling variants of it parse to the same
  secret, no two secrets share a code, and nothing else is accepted.
\<close>

theorem recovery_parse_iff:
  "recovery_parse input = Inr bs \<longleftrightarrow>
     length bs = KEY_LEN \<and> read_digits input = read_digits (map of_char (recovery_render bs))"
proof (cases "length bs = KEY_LEN")
  case False
  show ?thesis
  proof (cases "read_digits input")
    case (Some ds)
    then show ?thesis
      using False parsed [OF _ read_digits_lt [OF Some], where bs = bs and e = MalformedRecoveryCode]
      by (simp add: recovery_parse_def)
  qed (simp add: recovery_parse_def False)
next
  case True
  then obtain cs where cs: "read_digits (map of_char (recovery_render bs)) = Some cs"
    "\<forall>d\<in>set cs. d < 32" "digit_bits cs = secret_bits bs @ replicate 4 False"
    using rendered by blast
  have "5 * length cs = 260"
    using arg_cong [OF cs(3), of length] True by (simp add: KEY_LEN_def)
  then have len: "length cs = CODE_CHARS" by (simp add: CODE_CHARS_def)
  show ?thesis
  proof (cases "read_digits input")
    case None
    then show ?thesis by (simp add: recovery_parse_def cs(1))
  next
    case (Some ds)
    have lt: "\<forall>d\<in>set ds. d < 32" by (rule read_digits_lt [OF Some])
    have "length ds = CODE_CHARS \<and> digit_bits ds = digit_bits cs \<longleftrightarrow> ds = cs"
      using digit_bits_inject [of ds cs] lt cs(2) len by auto
    then show ?thesis
      using parsed [OF _ lt, where bs = bs and e = MalformedRecoveryCode] True len
      by (simp add: recovery_parse_def Some cs(1,3) split: if_split) blast
  qed
qed

theorem recovery_parse_iff_witness:
  "recovery_parse_str (recovery_render (replicate 32 255)) = Inr (replicate 32 255)"
  unfolding recovery_parse_str_def recovery_parse_iff by (simp add: KEY_LEN_def)

text \<open>
  The alphabet test compares only the low eight bits of a scalar value: every character whose code
  differs from an alphabet character's by a multiple of 256, such as U+0130 for the digit 0 or
  U+0141 for the letter A, is taken for it, although it is outside the alphabet and no documented
  alias.
\<close>

theorem foreign_characters_pass_for_digits:
  assumes "d < 32"
  shows "digit_value (of_char (CROCKFORD_ALPHABET ! d) + 256 * k) = Some d"
proof (cases k)
  case 0
  then show ?thesis using alphabet_digit [OF assms] alphabet_code_facts(5) [OF assms]
    by (simp split: option.splits)
next
  case (Suc j)
  have "distinct (map of_char CROCKFORD_ALPHABET :: nat list)" "length CROCKFORD_ALPHABET = 32"
    unfolding alphabet_codes by (simp_all add: CROCKFORD_ALPHABET_def)
  from position_distinct [OF this(1), of d] this(2) assms
  have found: "position (\<lambda>a. of_char a = (of_char (CROCKFORD_ALPHABET ! d) :: nat)) CROCKFORD_ALPHABET = Some d"
    by simp
  let ?ch = "of_char (CROCKFORD_ALPHABET ! d) + 256 * k"
  have "?ch mod 256 = of_char (CROCKFORD_ALPHABET ! d)"
    using alphabet_code_facts(1) [OF assms] by simp
  moreover have "256 \<le> ?ch" using Suc by simp
  ultimately show ?thesis using found
    by (simp add: digit_value_def char_to_ascii_uppercase_def Let_def del: of_char_mod_256)
qed

theorem foreign_characters_pass_for_digits_witness:
  "digit_value 0x130 = Some 0 \<and> digit_value 0x141 = Some 10"
  using foreign_characters_pass_for_digits [of 0 1] foreign_characters_pass_for_digits [of 10 1]
  by (simp_all add: CROCKFORD_ALPHABET_def)

end
