(* ===== verification/Vault_Crypto.thy ===== *)
theory Vault_Crypto
  imports Vault_Format Recovery
begin

text \<open>
  Key derivation, sealing and the wrapping of the data key (\<open>crates/cache-warden-vault/src/crypto.rs\<close>).
  The primitives are third-party crates and a parameter: XChaCha20-Poly1305 (\<open>aead_encrypt\<close>,
  \<open>aead_decrypt\<close>), HKDF-SHA256 with a 32-byte output (\<open>hkdf\<close>) and X25519 (\<open>x25519_public\<close>,
  \<open>diffie_hellman\<close>, \<open>was_contributory\<close>).  What the operating system's random generator yields is an
  argument of the operation that draws it.
\<close>

record crypto_lib =
  aead_encrypt :: "u8 list \<Rightarrow> u8 list \<Rightarrow> u8 list \<Rightarrow> u8 list \<Rightarrow> u8 list"
  aead_decrypt :: "u8 list \<Rightarrow> u8 list \<Rightarrow> u8 list \<Rightarrow> u8 list \<Rightarrow> u8 list option"
  hkdf :: "u8 list option \<Rightarrow> u8 list \<Rightarrow> u8 list \<Rightarrow> u8 list"
  x25519_public :: "u8 list \<Rightarrow> u8 list"
  diffie_hellman :: "u8 list \<Rightarrow> u8 list \<Rightarrow> u8 list"
  was_contributory :: "u8 list \<Rightarrow> bool"

text \<open>
  The documented behaviour the vault relies on: decryption under the key, nonce and associated data
  of an encryption gives the plaintext back, a ciphertext is the plaintext and a tag, a public key
  has 32 bytes, and the two sides of an exchange agree.
\<close>

definition crypto_ok :: "crypto_lib \<Rightarrow> bool" where
  "crypto_ok lib \<longleftrightarrow>
     (\<forall>k n a p. aead_decrypt lib k n a (aead_encrypt lib k n a p) = Some p)
       \<and> (\<forall>k n a p. length (aead_encrypt lib k n a p) = length p + TAG_LEN)
       \<and> (\<forall>s. length (x25519_public lib s) = PUBKEY_LEN)
       \<and> (\<forall>s t. diffie_hellman lib s (x25519_public lib t) = diffie_hellman lib t (x25519_public lib s))"

text \<open>\<open>cw-vault-slot-kek\<close> and \<open>cw-vault-dek-wrap\<close>.\<close>

definition KEK_INFO_LABEL :: "u8 list" where
  "KEK_INFO_LABEL = string_bytes ''cw-vault-slot-kek''"

definition DEK_WRAP_INFO_LABEL :: "u8 list" where
  "DEK_WRAP_INFO_LABEL = string_bytes ''cw-vault-dek-wrap''"

definition derive_kek ::
  "crypto_lib \<Rightarrow> u8 list \<Rightarrow> u8 list \<Rightarrow> vault_id \<Rightarrow> nat \<Rightarrow> slot_id \<Rightarrow> u8 list"
where
  "derive_kek lib input_secret salt vid version sid =
     hkdf lib (Some salt) input_secret (vid @ be_bytes 4 version @ sid @ KEK_INFO_LABEL)"

definition seal :: "crypto_lib \<Rightarrow> u8 list \<Rightarrow> u8 list \<Rightarrow> u8 list \<Rightarrow> u8 list \<Rightarrow> u8 list" where
  "seal lib nonce key aad plaintext = nonce @ aead_encrypt lib key nonce aad plaintext"

definition open_sealed ::
  "crypto_lib \<Rightarrow> u8 list \<Rightarrow> u8 list \<Rightarrow> u8 list \<Rightarrow> string \<Rightarrow> u8 list vault_result"
where
  "open_sealed lib key aad sealed stg =
     (if length sealed < NONCE_LEN + TAG_LEN then Inl (DecryptFailed stg)
      else ok_or (DecryptFailed stg)
             (aead_decrypt lib key (take NONCE_LEN sealed) aad (drop NONCE_LEN sealed)))"

definition derive_wrap_key ::
  "crypto_lib \<Rightarrow> u8 list \<Rightarrow> vault_id \<Rightarrow> slot_id \<Rightarrow> u8 list \<Rightarrow> u8 list \<Rightarrow> u8 list"
where
  "derive_wrap_key lib shared vid sid eph recipient_pub =
     hkdf lib None shared (DEK_WRAP_INFO_LABEL @ vid @ sid @ eph @ recipient_pub)"

text \<open>The randomness of one wrap: the ephemeral secret and the nonce.\<close>

record wrap_random =
  ephemeral_secret :: "u8 list"
  wrap_nonce :: "u8 list"

definition wrap_dek ::
  "crypto_lib \<Rightarrow> wrap_random \<Rightarrow> u8 list \<Rightarrow> u8 list \<Rightarrow> vault_id \<Rightarrow> slot_id \<Rightarrow> u8 list
   \<Rightarrow> wrapped_dek vault_result"
where
  "wrap_dek lib rnd dek recipient_pub vid sid aad =
     (let eph = x25519_public lib (ephemeral_secret rnd);
          shared = diffie_hellman lib (ephemeral_secret rnd) recipient_pub
      in if \<not> was_contributory lib shared then Inl NonContributoryExchange
         else Inr \<lparr>ephemeral_pub = eph,
                   wrapped_sealed = seal lib (wrap_nonce rnd)
                     (derive_wrap_key lib shared vid sid eph recipient_pub) aad dek\<rparr>)"

definition unwrap_dek ::
  "crypto_lib \<Rightarrow> wrapped_dek \<Rightarrow> u8 list \<Rightarrow> vault_id \<Rightarrow> slot_id \<Rightarrow> u8 list \<Rightarrow> u8 list vault_result"
where
  "unwrap_dek lib wrapped recipient_secret vid sid aad =
     (let recipient_pub = x25519_public lib recipient_secret;
          shared = diffie_hellman lib recipient_secret (ephemeral_pub wrapped)
      in if \<not> was_contributory lib shared then Inl NonContributoryExchange
         else open_sealed lib (derive_wrap_key lib shared vid sid (ephemeral_pub wrapped) recipient_pub)
                aad (wrapped_sealed wrapped) ''wrapped DEK'')"

definition generate_recipient :: "crypto_lib \<Rightarrow> u8 list \<Rightarrow> u8 list \<times> u8 list" where
  "generate_recipient lib secret = (secret, x25519_public lib secret)"

lemma open_seal:
  "crypto_ok lib \<Longrightarrow> length nonce = NONCE_LEN \<Longrightarrow> open_sealed lib k aad (seal lib nonce k aad p) stg = Inr p"
  by (simp add: open_sealed_def seal_def crypto_ok_def)

lemma seal_length: "crypto_ok lib \<Longrightarrow> length (seal lib nonce k aad p) = length nonce + length p + TAG_LEN"
  by (simp add: seal_def crypto_ok_def)

lemma unwrap_wrapped:
  assumes "crypto_ok lib" and "length (wrap_nonce rnd) = NONCE_LEN"
    and "wrap_dek lib rnd dek (x25519_public lib secret) vid sid aad = Inr w"
  shows "unwrap_dek lib w secret vid sid aad = Inr dek"
proof -
  have "diffie_hellman lib (ephemeral_secret rnd) (x25519_public lib secret)
      = diffie_hellman lib secret (x25519_public lib (ephemeral_secret rnd))"
    using assms(1) by (simp add: crypto_ok_def)
  with assms show ?thesis
    by (auto simp: wrap_dek_def unwrap_dek_def Let_def open_seal split: if_splits)
qed

end
