(* ===== verification/Vault_Storage.thy ===== *)
theory Vault_Storage
  imports Vault_Format
begin

text \<open>
  Where the vault lives and how its file is replaced
  (\<open>crates/cache-warden-vault/src/storage.rs\<close>).  A path is the pair of its directory and its file
  name.  The file system's contents are a finite map from paths to bytes, and what each system call
  answers is a parameter of the operation, so that every failure the code handles can occur.  An
  operation returns its result with the contents of the file system after each of its steps, the
  last one being what it leaves.
\<close>

type_synonym file_path = "string \<times> string"
type_synonym disk = "(file_path, u8 list) fmap"

definition FILE_MODE :: nat where "FILE_MODE = 384"
definition DIR_MODE :: nat where "DIR_MODE = 448"
definition DEFAULT_PROFILE :: string where "DEFAULT_PROFILE = ''default''"

definition is_absolute :: "string \<Rightarrow> bool" where
  "is_absolute p \<longleftrightarrow> p \<noteq> [] \<and> hd p = CHR ''/''"

text \<open>\<open>Path::join\<close> of a relative path.\<close>

definition path_join :: "string \<Rightarrow> string \<Rightarrow> string" where
  "path_join p q = (if p = [] \<or> last p = CHR ''/'' then p @ q else p @ ''/'' @ q)"

definition default_state_dir :: "(string \<Rightarrow> string option) \<Rightarrow> string option" where
  "default_state_dir var =
     (case var ''XDG_STATE_HOME'' of
        Some xdg \<Rightarrow> (if is_absolute xdg then Some (path_join xdg ''cache-warden'') else
                     (case var ''HOME'' of None \<Rightarrow> None | Some home \<Rightarrow>
                        if \<not> is_absolute home then None
                        else Some (path_join home ''.local/state/cache-warden'')))
      | None \<Rightarrow>
          (case var ''HOME'' of None \<Rightarrow> None | Some home \<Rightarrow>
             if \<not> is_absolute home then None
             else Some (path_join home ''.local/state/cache-warden'')))"

definition vault_path :: "string \<Rightarrow> string \<Rightarrow> file_path" where
  "vault_path dir profile = (dir, ''vault-'' @ profile @ ''.cwv'')"

subsection \<open>System calls\<close>

datatype dir_meta = IsDir nat | NotDir | MetaErr io_kind

text \<open>\<open>None\<close> is success.  \<open>sys_written\<close> is how much of the data a failing write has stored.\<close>

record sys_answers =
  sys_dir_meta :: dir_meta
  sys_set_permissions :: "io_kind option"
  sys_create_dir :: "io_kind option"
  sys_open :: "io_kind option"
  sys_write :: "io_kind option"
  sys_written :: nat
  sys_sync :: "io_kind option"
  sys_rename :: "io_kind option"
  sys_open_dir :: "io_kind option"
  sys_sync_dir :: "io_kind option"
  sys_remove :: "io_kind option"

definition answer :: "string \<Rightarrow> io_kind option \<Rightarrow> unit vault_result" where
  "answer path a = (case a of None \<Rightarrow> Inr () | Some k \<Rightarrow> Inl (VaultIo path k))"

definition path_text :: "file_path \<Rightarrow> string" where
  "path_text p = path_join (fst p) (snd p)"

text \<open>The returned mode is the directory's afterwards.\<close>

definition ensure_dir :: "sys_answers \<Rightarrow> string \<Rightarrow> nat vault_result" where
  "ensure_dir sys dir =
     (case sys_dir_meta sys of
        IsDir m \<Rightarrow>
          (let mode = m mod 512 in
           if mode mod 64 \<noteq> 0
           then rbind (answer dir (sys_set_permissions sys)) (\<lambda>_. Inr DIR_MODE)
           else Inr mode)
      | NotDir \<Rightarrow> Inl (VaultIo dir NotADirectory)
      | MetaErr k \<Rightarrow>
          (if k = IoNotFound
           then rbind (answer dir (sys_create_dir sys)) (\<lambda>_.
                rbind (answer dir (sys_set_permissions sys)) (\<lambda>_. Inr DIR_MODE))
           else Inl (VaultIo dir k)))"

definition hex_digit :: "nat \<Rightarrow> char" where
  "hex_digit d = (if d < 10 then char_of (48 + d) else char_of (87 + d))"

definition hex_byte :: "u8 \<Rightarrow> string" where
  "hex_byte b = [hex_digit (unat b div 16), hex_digit (unat b mod 16)]"

definition id_display :: "u8 list \<Rightarrow> string" where
  "id_display bs = concat (map hex_byte bs)"

definition temp_path :: "u8 list \<Rightarrow> file_path \<Rightarrow> file_path" where
  "temp_path suffix path = (fst path, ''.'' @ snd path @ ''.tmp-'' @ id_display suffix)"

definition write_and_sync ::
  "sys_answers \<Rightarrow> file_path \<Rightarrow> u8 list \<Rightarrow> disk \<Rightarrow> unit vault_result \<times> disk list"
where
  "write_and_sync sys tmp contents d =
     (if fmlookup d tmp \<noteq> None then (Inl (VaultIo (path_text tmp) AlreadyExists), [d]) else
      case sys_open sys of Some k \<Rightarrow> (Inl (VaultIo (path_text tmp) k), [d])
      | None \<Rightarrow>
          (case sys_write sys of
             Some k \<Rightarrow> (Inl (VaultIo (path_text tmp) k),
                        [d, fmupd tmp [] d, fmupd tmp (take (sys_written sys) contents) d])
           | None \<Rightarrow> (answer (path_text tmp) (sys_sync sys), [d, fmupd tmp [] d, fmupd tmp contents d])))"

definition rename_file :: "file_path \<Rightarrow> file_path \<Rightarrow> disk \<Rightarrow> disk" where
  "rename_file src dst d =
     (case fmlookup d src of None \<Rightarrow> d | Some c \<Rightarrow> fmupd dst c (fmdrop src d))"

definition remove_file :: "sys_answers \<Rightarrow> file_path \<Rightarrow> disk \<Rightarrow> disk" where
  "remove_file sys path d = (if sys_remove sys = None then fmdrop path d else d)"

definition storage_commit ::
  "sys_answers \<Rightarrow> u8 list \<Rightarrow> file_path \<Rightarrow> u8 list \<Rightarrow> disk \<Rightarrow> unit vault_result \<times> disk list"
where
  "storage_commit sys suffix path contents d =
     (case ensure_dir sys (fst path) of
        Inl e \<Rightarrow> (Inl e, [d])
      | Inr _ \<Rightarrow>
          (let tmp = temp_path suffix path;
               (result, ds) =
                 (case write_and_sync sys tmp contents d of
                    (Inl e, ds) \<Rightarrow> (Inl e, ds)
                  | (Inr _, ds) \<Rightarrow>
                      (case sys_rename sys of
                         Some k \<Rightarrow> (Inl (VaultIo (path_text path) k), ds)
                       | None \<Rightarrow>
                           (rbind (answer (fst path) (sys_open_dir sys)) (\<lambda>_.
                              answer (fst path) (sys_sync_dir sys)),
                            ds @ [rename_file tmp path (last ds)])))
           in (case result of
                 Inl e \<Rightarrow> (Inl e, ds @ [remove_file sys tmp (last ds)])
               | Inr _ \<Rightarrow> (Inr (), ds))))"

definition storage_create_new ::
  "sys_answers \<Rightarrow> file_path \<Rightarrow> u8 list \<Rightarrow> disk \<Rightarrow> unit vault_result \<times> disk list"
where
  "storage_create_new sys path contents d =
     (case ensure_dir sys (fst path) of
        Inl e \<Rightarrow> (Inl e, [d])
      | Inr _ \<Rightarrow>
          if fmlookup d path \<noteq> None then (Inl (VaultIo (path_text path) AlreadyExists), [d]) else
          case sys_open sys of
            Some k \<Rightarrow> (Inl (VaultIo (path_text path) k), [d])
          | None \<Rightarrow>
              (let (result, ds) =
                 (case sys_write sys of
                    Some k \<Rightarrow> (Inl (VaultIo (path_text path) k),
                               [d, fmupd path [] d, fmupd path (take (sys_written sys) contents) d])
                  | None \<Rightarrow>
                      (rbind (answer (path_text path) (sys_sync sys)) (\<lambda>_.
                       rbind (answer (fst path) (sys_open_dir sys)) (\<lambda>_.
                         answer (fst path) (sys_sync_dir sys))),
                       [d, fmupd path [] d, fmupd path contents d]))
               in (case result of
                     Inl e \<Rightarrow> (Inl e, ds @ [remove_file sys path (last ds)])
                   | Inr _ \<Rightarrow> (Inr (), ds))))"

definition storage_read :: "file_path \<Rightarrow> disk \<Rightarrow> u8 list vault_result" where
  "storage_read path d =
     (case fmlookup d path of
        None \<Rightarrow> Inl (VaultIo (path_text path) IoNotFound)
      | Some bytes \<Rightarrow>
          (if MAX_FILE_LEN < length bytes then Inl (FileTooLarge (length bytes)) else Inr bytes))"

lemma temp_path_other: "temp_path suffix path \<noteq> path"
  by (cases path) (auto simp: temp_path_def dest: arg_cong [of _ _ length])

subsection \<open>Atomic replacement\<close>

lemma rename_lookup:
  "p \<noteq> q \<Longrightarrow> fmlookup (rename_file p q d) r =
     (if fmlookup d p = None then fmlookup d r
      else if r = q then fmlookup d p else if r = p then None else fmlookup d r)"
  by (auto simp: rename_file_def split: option.splits)

lemma remove_lookup:
  "fmlookup (remove_file sys p d) r = (if r = p \<and> sys_remove sys = None then None else fmlookup d r)"
  by (simp add: remove_file_def)

lemma answer_Inr [simp]: "answer p a = Inr u \<longleftrightarrow> a = None"
  by (cases a) (simp_all add: answer_def)

lemma answer_simps [simp]: "answer p None = Inr ()" "answer p (Some k) = Inl (VaultIo p k)"
  by (simp_all add: answer_def)

lemma write_and_sync_states:
  assumes "write_and_sync sys tmp contents d = (r, ds)" and "q \<noteq> tmp"
  shows "ds \<noteq> [] \<and> (\<forall>s\<in>set ds. fmlookup s q = fmlookup d q)
    \<and> (r = Inr () \<longrightarrow> last ds = fmupd tmp contents d \<and> fmlookup d tmp = None)"
  using assms by (auto simp: write_and_sync_def split: if_splits option.splits)

text \<open>The states of a commit, relative to the path and the temporary name.\<close>

lemma commit_states:
  assumes "storage_commit sys suffix path contents d = (r, ds)"
  shows "ds \<noteq> []
    \<and> (\<forall>s\<in>set ds. fmlookup s path \<in> {fmlookup d path, Some contents}
         \<and> (\<forall>q. q \<noteq> path \<and> q \<noteq> temp_path suffix path \<longrightarrow> fmlookup s q = fmlookup d q))
    \<and> (r = Inr () \<longrightarrow> last ds = fmupd path contents (fmdrop (temp_path suffix path) d))"
proof -
  let ?tmp = "temp_path suffix path"
  have other: "?tmp \<noteq> path" "path \<noteq> ?tmp" using temp_path_other [of suffix path] by auto
  show ?thesis
  proof (cases "ensure_dir sys (fst path)")
    case (Inl e)
    with assms show ?thesis by (auto simp: storage_commit_def)
  next
    case (Inr m)
    obtain w ws where w: "write_and_sync sys ?tmp contents d = (w, ws)" by fastforce
    have ws: "ws \<noteq> []" "\<And>s q. s \<in> set ws \<Longrightarrow> q \<noteq> ?tmp \<Longrightarrow> fmlookup s q = fmlookup d q"
      "w = Inr () \<Longrightarrow> last ws = fmupd ?tmp contents d"
      using write_and_sync_states [OF w] write_and_sync_states [OF w other(2)] by blast+
    note last_ws = ws(2) [OF last_in_set [OF ws(1)]]
    show ?thesis
    proof (cases w)
      case (Inl e)
      with assms Inr w have "ds = ws @ [remove_file sys ?tmp (last ws)]" "r = Inl e"
        by (simp_all add: storage_commit_def)
      then show ?thesis
        using ws(1) ws(2) [OF _ other(2)] ws(2) last_ws other by (auto simp: remove_lookup)
    next
      case (Inr u)
      then have lw: "last ws = fmupd ?tmp contents d" using ws(3) by simp
      show ?thesis
      proof (cases "sys_rename sys")
        case (Some k)
        with assms Inr w \<open>ensure_dir sys (fst path) = Inr m\<close>
        have "ds = ws @ [remove_file sys ?tmp (last ws)]" "r = Inl (VaultIo (path_text path) k)"
          by (simp_all add: storage_commit_def)
        then show ?thesis
          using ws(1) ws(2) [OF _ other(2)] ws(2) last_ws other by (auto simp: remove_lookup)
      next
        case None
        let ?d = "rename_file ?tmp path (last ws)"
        have d: "?d = fmupd path contents (fmdrop ?tmp (fmupd ?tmp contents d))"
          by (simp add: lw rename_file_def)
        have drop: "fmdrop ?tmp (fmupd ?tmp contents d) = fmdrop ?tmp d"
          by (simp add: fmfilter_alt_defs)
        let ?r = "rbind (answer (fst path) (sys_open_dir sys)) (\<lambda>_. answer (fst path) (sys_sync_dir sys))"
        have "r = ?r \<and> ds = (if ?r = Inr () then ws @ [?d] else ws @ [?d, remove_file sys ?tmp ?d])"
          using assms Inr w None \<open>ensure_dir sys (fst path) = Inr m\<close>
          by (cases ?r) (auto simp: storage_commit_def Let_def)
        then show ?thesis
          using ws(1) ws(2) [OF _ other(2)] ws(2) other
          by (auto simp: remove_lookup d drop split: if_splits)
      qed
    qed
  qed
qed

text \<open>
  Property C32.  Whatever the system calls answer, at every moment of a commit the vault's path
  holds either its old contents or the complete new ones, and no other file but the temporary one is
  touched.  A commit reported as done has installed the new contents and left no temporary file.
\<close>

theorem commit_is_atomic:
  assumes "storage_commit sys suffix path contents d = (r, ds)"
  shows "(\<forall>s\<in>set ds. fmlookup s path \<in> {fmlookup d path, Some contents}
         \<and> (\<forall>q. q \<noteq> path \<and> q \<noteq> temp_path suffix path \<longrightarrow> fmlookup s q = fmlookup d q))
    \<and> (r = Inr () \<longrightarrow> last ds = fmupd path contents (fmdrop (temp_path suffix path) d))"
  using commit_states [OF assms] by blast

definition answers_ok :: sys_answers where
  "answers_ok = \<lparr>sys_dir_meta = IsDir DIR_MODE, sys_set_permissions = None, sys_create_dir = None,
     sys_open = None, sys_write = None, sys_written = 0, sys_sync = None, sys_rename = None,
     sys_open_dir = None, sys_sync_dir = None, sys_remove = None\<rparr>"

text \<open>With every answer positive and the temporary name free, a commit succeeds.\<close>

lemma commit_succeeds:
  assumes "fmlookup d (temp_path suffix path) = None"
  shows "fst (storage_commit answers_ok suffix path contents d) = Inr ()"
  using assms by (simp add: storage_commit_def answers_ok_def ensure_dir_def DIR_MODE_def
      write_and_sync_def Let_def)

theorem commit_is_atomic_witness:
  "last (snd (storage_commit answers_ok [1] (''/d'', ''v'') [7] (fmupd (''/d'', ''v'') [6] fmempty)))
     = fmupd (''/d'', ''v'') [7] (fmdrop (temp_path [1] (''/d'', ''v'')) (fmupd (''/d'', ''v'') [6] fmempty))"
proof -
  obtain r ds where c: "storage_commit answers_ok [1] (''/d'', ''v'') [7] (fmupd (''/d'', ''v'') [6] fmempty)
      = (r, ds)" by fastforce
  moreover have "fmlookup (fmupd (''/d'', ''v'') [6] fmempty) (temp_path [1] (''/d'', ''v'')) = None"
    using temp_path_other [of "[1]" "(''/d'', ''v'')"] by (auto simp del: fmlookup_dom_iff)
  ultimately have "r = Inr ()"
    using commit_succeeds [of _ "[1]" "(''/d'', ''v'')" "[7]"] by (metis fst_conv)
  with commit_is_atomic [OF c] c show ?thesis by simp
qed

text \<open>An exclusive create never touches a file that is there.\<close>

lemma create_keeps_existing:
  "fmlookup d path \<noteq> None \<Longrightarrow> \<exists>e. storage_create_new sys path contents d = (Inl e, [d])"
  by (auto simp: storage_create_new_def split: sum.splits)

lemma create_states:
  assumes "storage_create_new sys path contents d = (r, ds)"
  shows "ds \<noteq> [] \<and> (\<forall>s\<in>set ds. \<forall>q. q \<noteq> path \<longrightarrow> fmlookup s q = fmlookup d q)
    \<and> (r = Inr () \<longrightarrow> fmlookup d path = None \<and> last ds = fmupd path contents d)"
proof -
  let ?r = "rbind (answer (path_text path) (sys_sync sys)) (\<lambda>_.
    rbind (answer (fst path) (sys_open_dir sys)) (\<lambda>_. answer (fst path) (sys_sync_dir sys)))"
  show ?thesis
    using assms
    by (cases ?r; auto simp: storage_create_new_def remove_lookup split: sum.splits if_splits option.splits)
qed

text \<open>
  A commit whose random temporary name collides with another commit's temporary file removes that
  file on its way out.
\<close>

lemma collision_removes_the_other_file:
  assumes "fmlookup d (temp_path suffix path) = Some other" and "sys_remove sys = None"
    and "ensure_dir sys (fst path) = Inr m"
  shows "fmlookup (last (snd (storage_commit sys suffix path contents d))) (temp_path suffix path) = None"
  using assms by (simp add: storage_commit_def write_and_sync_def remove_lookup Let_def)

end
