(* ===== verification/Vault_Claim.thy ===== *)
theory Vault_Claim
  imports Vault_Error
begin

unbundle bit_operations_syntax

text \<open>
  The refresh claim of the vault (\<open>crates/cache-warden-vault/src/claim.rs\<close>): the token, its
  unpadded base64url form, and the claim recorded on an entry.  The bytes of the operating system's
  random generator are an argument of what draws them.
\<close>

definition TOKEN_BYTES :: nat where "TOKEN_BYTES = 16"
definition TOKEN_CHARS :: nat where "TOKEN_CHARS = 22"

definition BASE64URL_ALPHABET :: string where
  "BASE64URL_ALPHABET = ''ABCDEFGHIJKLMNOPQRSTUVWXYZabcdefghijklmnopqrstuvwxyz0123456789-_''"

text \<open>
  \<open>bytes.chunks(3)\<close>, each chunk padded with zero bytes to one 24-bit number, of which one character
  more than the chunk has bytes is written.
\<close>

definition chunk_number :: "u8 \<Rightarrow> u8 \<Rightarrow> u8 \<Rightarrow> 32 word" where
  "chunk_number b0 b1 b2 = push_bit 16 (ucast b0) OR push_bit 8 (ucast b1) OR ucast b2"

definition chunk_char :: "32 word \<Rightarrow> nat \<Rightarrow> char" where
  "chunk_char n i = BASE64URL_ALPHABET ! unat (drop_bit (18 - 6 * i) n AND 0x3f)"

fun base64url_encode :: "u8 list \<Rightarrow> string" where
  "base64url_encode [] = []"
| "base64url_encode [a] = map (chunk_char (chunk_number a 0 0)) [0..<2]"
| "base64url_encode [a, b] = map (chunk_char (chunk_number a b 0)) [0..<3]"
| "base64url_encode (a # b # c # rest) =
     map (chunk_char (chunk_number a b c)) [0..<4] @ base64url_encode rest"

definition is_base64url_char :: "char \<Rightarrow> bool" where
  "is_base64url_char c \<longleftrightarrow> is_ascii_alphanumeric c \<or> c = CHR ''-'' \<or> c = CHR ''_''"

text \<open>\<open>ClaimToken\<close> is a string; the constant-time comparison is equality.\<close>

definition claim_token_generate :: "u8 list \<Rightarrow> string" where
  "claim_token_generate raw = base64url_encode raw"

definition claim_token_parse :: "string \<Rightarrow> string vault_result" where
  "claim_token_parse s =
     (if length s \<noteq> TOKEN_CHARS \<or> \<not> list_all is_base64url_char s
      then Inl MalformedClaimToken else Inr s)"

definition claim_token_matches :: "string \<Rightarrow> string \<Rightarrow> bool" where
  "claim_token_matches self other \<longleftrightarrow> self = other"

record vault_claim =
  vc_token :: string
  vc_claimed_at_epoch_ms :: nat
  vc_expires_at_epoch_ms :: nat

definition vault_claim_active_at :: "vault_claim \<Rightarrow> nat \<Rightarrow> bool" where
  "vault_claim_active_at c now_epoch_ms \<longleftrightarrow> now_epoch_ms < vc_expires_at_epoch_ms c"

definition vault_claim_remaining_ms :: "vault_claim \<Rightarrow> nat \<Rightarrow> nat" where
  "vault_claim_remaining_ms c now_epoch_ms = vc_expires_at_epoch_ms c - now_epoch_ms"

subsection \<open>The encoding is injective\<close>

lemma alphabet_facts:
  "length BASE64URL_ALPHABET = 64" "distinct BASE64URL_ALPHABET"
  "list_all is_base64url_char BASE64URL_ALPHABET"
  by (simp_all add: BASE64URL_ALPHABET_def is_base64url_char_def is_ascii_alphanumeric_def
      less_eq_char_def)

lemma sextet_bound: "unat ((w :: 32 word) AND 0x3f) < 64"
proof -
  have "w AND 0x3f \<le> 0x3f"
    by (rule word_and_le1)
  then have "unat (w AND 0x3f) \<le> unat (0x3f :: 32 word)"
    by (simp only: word_le_nat_alt)
  then show ?thesis by simp
qed

lemma chunk_char_eq:
  "chunk_char n i = chunk_char m i \<longleftrightarrow>
     drop_bit (18 - 6 * i) n AND 0x3f = drop_bit (18 - 6 * i) m AND 0x3f"
  using nth_eq_iff_index_eq [OF alphabet_facts(2)] sextet_bound
  by (simp add: chunk_char_def alphabet_facts(1) word_unat_eq_iff)

lemma chunk_char_ok: "is_base64url_char (chunk_char n i)"
  using alphabet_facts(3) sextet_bound
  by (simp add: chunk_char_def list_all_length alphabet_facts(1))

lemma sextet_bits:
  assumes "drop_bit s n AND 0x3f = drop_bit s m AND (0x3f :: 32 word)" and "k < 6" and "s + k < 32"
  shows "bit n (s + k) = bit m (s + k)"
proof -
  have "bit (drop_bit s n AND mask 6) k = bit (drop_bit s m AND (mask 6 :: 32 word)) k"
    using assms(1) by (simp add: mask_eq_exp_minus_1)
  with assms(2,3) show ?thesis
    by (simp add: bit_simps add.commute)
qed

lemma sextets_bits:
  assumes same: "\<And>i. i < j \<Longrightarrow> chunk_char n i = chunk_char m i" and "24 - 6 * j \<le> k" and "k < 24"
  shows "bit n k = bit m k"
proof -
  have step: "bit n k = bit m k" if "i < j" "18 - 6 * i \<le> k" "k < 24 - 6 * i" "i < 4" for i
    using sextet_bits [of "18 - 6 * i" n m "k - (18 - 6 * i)"] same [OF that(1)] that
    by (simp add: chunk_char_eq)
  consider "18 \<le> k" | "12 \<le> k" "k < 18" | "6 \<le> k" "k < 12" | "k < 6" by linarith
  then show ?thesis
    using assms(2,3) step [of 0] step [of 1] step [of 2] step [of 3]
    by cases auto
qed

lemma chunk_bits:
  "k < 8 \<Longrightarrow> bit (chunk_number a b c) (16 + k) = bit a k"
  "k < 8 \<Longrightarrow> bit (chunk_number a b c) (8 + k) = bit b k"
  "k < 8 \<Longrightarrow> bit (chunk_number a b c) k = bit c k"
  by (auto simp: chunk_number_def bit_simps dest: bit_imp_le_length)

lemma chunk_bytes:
  assumes "\<And>i. i < j \<Longrightarrow> chunk_char (chunk_number a b c) i = chunk_char (chunk_number a' b' c') i"
  shows "2 \<le> j \<Longrightarrow> a = a'" and "3 \<le> j \<Longrightarrow> b = b'" and "4 \<le> j \<Longrightarrow> c = c'"
proof -
  have same: "bit (chunk_number a b c) k = bit (chunk_number a' b' c') k"
    if "24 - 6 * j \<le> k" "k < 24" for k
    by (rule sextets_bits [OF assms that])
  have "bit a k = bit a' k" if "2 \<le> j" "k < 8" for k
    using same [of "16 + k"] chunk_bits(1) [of k a b c] chunk_bits(1) [of k a' b' c'] that by simp
  then show "2 \<le> j \<Longrightarrow> a = a'" by (intro bit_word_eqI) simp
  have "bit b k = bit b' k" if "3 \<le> j" "k < 8" for k
    using same [of "8 + k"] chunk_bits(2) [of k a b c] chunk_bits(2) [of k a' b' c'] that by simp
  then show "3 \<le> j \<Longrightarrow> b = b'" by (intro bit_word_eqI) simp
  have "bit c k = bit c' k" if "4 \<le> j" "k < 8" for k
    using same [of k] chunk_bits(3) [of k a b c] chunk_bits(3) [of k a' b' c'] that by simp
  then show "4 \<le> j \<Longrightarrow> c = c'" by (intro bit_word_eqI) simp
qed

lemma chunk_maps:
  assumes "map (chunk_char (chunk_number a b c)) [0..<j]
    = map (chunk_char (chunk_number a' b' c')) [0..<j]"
  shows "2 \<le> j \<Longrightarrow> a = a'" and "3 \<le> j \<Longrightarrow> b = b'" and "4 \<le> j \<Longrightarrow> c = c'"
proof -
  have "chunk_char (chunk_number a b c) i = chunk_char (chunk_number a' b' c') i" if "i < j" for i
    using assms that by (simp only: map_eq_conv) simp
  note bytes = chunk_bytes [OF this]
  show "2 \<le> j \<Longrightarrow> a = a'" by (rule bytes(1))
  show "3 \<le> j \<Longrightarrow> b = b'" by (rule bytes(2))
  show "4 \<le> j \<Longrightarrow> c = c'" by (rule bytes(3))
qed

lemma encode_length: "length (base64url_encode bs) = (4 * length bs + 2) div 3"
  by (induction bs rule: base64url_encode.induct) simp_all

lemma encode_chars: "list_all is_base64url_char (base64url_encode bs)"
  by (induction bs rule: base64url_encode.induct) (auto simp: chunk_char_ok list_all_iff)

lemma encoded_length_mono: "x < y \<Longrightarrow> (4 * x + 2) div 3 < (4 * y + 2) div (3 :: nat)"
proof -
  assume "x < y"
  then have "((4 * x + 2) + 3) div 3 \<le> (4 * y + 2) div 3"
    by (intro div_le_mono) simp
  then show ?thesis
    by (simp only: div_add_self2)
qed

lemma encode_length_eq:
  assumes "base64url_encode as = base64url_encode bs"
  shows "length bs = length as"
proof -
  have "(4 * length as + 2) div 3 = (4 * length bs + 2) div 3"
    using arg_cong [OF assms, of length] by (simp only: encode_length)
  then show ?thesis
    using encoded_length_mono [of "length as" "length bs"]
      encoded_length_mono [of "length bs" "length as"]
    by (cases "length as" "length bs" rule: linorder_cases) simp_all
qed

lemma encode_injective: "base64url_encode as = base64url_encode bs \<Longrightarrow> as = bs"
proof (induction "as" arbitrary: bs rule: base64url_encode.induct)
  case 1
  then show ?case using encode_length_eq [OF 1] by simp
next
  case (2 a)
  then obtain a' where bs: "bs = [a']"
    using encode_length_eq [OF 2] by (auto simp: length_Suc_conv)
  with 2 show ?case using chunk_maps(1) [of a 0 0 2 a' 0 0] by (simp del: map_eq_conv)
next
  case (3 a b)
  then obtain a' b' where bs: "bs = [a', b']"
    using encode_length_eq [OF 3] by (auto simp: length_Suc_conv)
  with 3 show ?case using chunk_maps(1,2) [of a b 0 3 a' b' 0] by (simp del: map_eq_conv)
next
  case (4 a b c rest)
  obtain a' b' c' rest' where bs: "bs = a' # b' # c' # rest'"
    using encode_length_eq [OF 4(2)] by (auto simp: length_Suc_conv)
  let ?as = "map (chunk_char (chunk_number a b c)) [0..<4]"
  let ?bs = "map (chunk_char (chunk_number a' b' c')) [0..<4]"
  have "?as @ base64url_encode rest = ?bs @ base64url_encode rest'"
    using 4(2) unfolding bs by (simp only: base64url_encode.simps)
  then have "?as = ?bs \<and> base64url_encode rest = base64url_encode rest'"
    by (subst (asm) append_eq_append_conv) simp_all
  with 4(1) show ?case using chunk_maps [of a b c 4 a' b' c'] by (simp add: bs del: map_eq_conv)
qed

text \<open>
  Every minted token has the shape the parser asks for, so the parser gives it back unchanged, and
  two tokens are equal only if the random bytes behind them are: the encoding loses none of the 128
  bits.
\<close>

theorem claim_token_roundtrip:
  assumes "length raw = TOKEN_BYTES"
  shows "claim_token_parse (claim_token_generate raw) = Inr (claim_token_generate raw)
    \<and> (claim_token_matches (claim_token_generate raw) (claim_token_generate raw') \<longleftrightarrow> raw' = raw)"
  using assms encode_chars [of raw] encode_injective [of raw raw']
  by (auto simp: claim_token_parse_def claim_token_generate_def claim_token_matches_def encode_length
      TOKEN_BYTES_def TOKEN_CHARS_def)

theorem claim_token_roundtrip_witness:
  "claim_token_parse (claim_token_generate (replicate 16 255))
    = Inr (claim_token_generate (replicate 16 255))"
  by (rule conjunct1, rule claim_token_roundtrip) (simp add: TOKEN_BYTES_def)

lemma token_example: "claim_token_generate [0, 16, 131, 16, 81] = ''ABCDEFE''"
  by code_simp

end
