(* ===== verification/Vault.thy ===== *)
theory Vault
  imports Vault_Crypto Vault_Storage Vault_Claim
begin

text \<open>
  The vault's contents and its two states (\<open>crates/cache-warden-vault/src/body.rs\<close> and
  \<open>vault.rs\<close>).  Every mutation commits the file first and installs the new state only then; it
  returns its result, the vault afterwards and the states the file system went through.  The wall
  clock is \<open>clk\<close>, giving the successive readings of one call; JSON values are of type \<open>'j\<close>, and
  serializing the body is \<open>serde_json\<close>'s and part of the library parameter.
\<close>

subsection \<open>The body\<close>

definition BODY_VERSION :: nat where "BODY_VERSION = 1"

datatype vault_source =
  VaultStatic
| VaultCommand "string list" "string option" "(string, string) fmap"

record vault_value_meta =
  vm_type_name :: "string option"
  vm_params :: "(string, string) fmap"

record vault_definition =
  vd_source :: vault_source
  vd_soft_ttl_ms :: "nat option"
  vd_hard_ttl_ms :: "nat option"
  vd_source_meta_kind :: "string option"
  vd_source_meta_fields :: "(string, string) fmap"

record 'j vault_entry =
  ve_key :: string
  ve_secret :: "u8 list"
  ve_cas_version :: nat
  ve_refresh_claim :: "vault_claim option"
  ve_value_meta :: "vault_value_meta option"
  ve_definition :: "vault_definition option"
  ve_guard :: "'j option"
  ve_owner :: "'j option"
  ve_updated_at_epoch_ms :: nat

definition vault_entry_new :: "string \<Rightarrow> u8 list \<Rightarrow> nat \<Rightarrow> 'j vault_entry" where
  "vault_entry_new key secret now =
     \<lparr>ve_key = key, ve_secret = secret, ve_cas_version = 1, ve_refresh_claim = None,
      ve_value_meta = None, ve_definition = None, ve_guard = None, ve_owner = None,
      ve_updated_at_epoch_ms = now\<rparr>"

record 'j vault_body =
  body_version :: nat
  body_entries :: "'j vault_entry list"

definition vault_body_new :: "'j vault_entry list \<Rightarrow> 'j vault_body" where
  "vault_body_new es = \<lparr>body_version = BODY_VERSION, body_entries = es\<rparr>"

record 'j vault_lib =
  vl_crypto :: crypto_lib
  vl_to_writer :: "'j vault_body \<Rightarrow> u8 list"
  vl_from_slice :: "u8 list \<Rightarrow> 'j vault_body option"

definition to_plaintext :: "'j vault_lib \<Rightarrow> 'j vault_body \<Rightarrow> u8 list" where
  "to_plaintext lib b = vl_to_writer lib b"

definition from_plaintext :: "'j vault_lib \<Rightarrow> u8 list \<Rightarrow> 'j vault_body vault_result" where
  "from_plaintext lib bytes = ok_or MalformedBody (vl_from_slice lib bytes)"

subsection \<open>The two states\<close>

record locked_vault =
  lv_path :: file_path
  lv_file :: vault_file
  lv_header_aad :: "u8 list"

record 'j unlocked_vault =
  uv_path :: file_path
  uv_vault_id :: vault_id
  uv_format_version :: nat
  uv_dek_generation :: nat
  uv_aead_alg :: aead_alg
  uv_kdf_alg :: kdf_alg
  uv_slots :: "vault_slot list"
  uv_dek :: "u8 list"
  uv_entries :: "(string, 'j vault_entry) fmap"

definition locked_open :: "disk \<Rightarrow> file_path \<Rightarrow> locked_vault vault_result" where
  "locked_open d path =
     rbind (storage_read path d) (\<lambda>bytes.
     rbind (vault_decode bytes) (\<lambda>(file, header_aad).
     Inr \<lparr>lv_path = path, lv_file = file, lv_header_aad = header_aad\<rparr>))"

definition open_expecting :: "disk \<Rightarrow> file_path \<Rightarrow> vault_id \<Rightarrow> locked_vault vault_result" where
  "open_expecting d path expected =
     rbind (locked_open d path) (\<lambda>v.
     if header_vault_id (file_header (lv_file v)) \<noteq> expected then Inl VaultIdMismatch else Inr v)"

definition locked_slots :: "locked_vault \<Rightarrow> vault_slot list" where
  "locked_slots v = header_slots (file_header (lv_file v))"

definition has_dev_rp_slot :: "vault_slot list \<Rightarrow> bool" where
  "has_dev_rp_slot slots \<longleftrightarrow> list_ex is_dev_rp slots"

fun insert_entries ::
  "'j vault_entry list \<Rightarrow> (string, 'j vault_entry) fmap \<Rightarrow> (string, 'j vault_entry) fmap vault_result"
where
  "insert_entries [] m = Inr m"
| "insert_entries (e # es) m =
     (if fmlookup m (ve_key e) \<noteq> None then Inl (VaultMalformed ''two entries share one key'')
      else insert_entries es (fmupd (ve_key e) e m))"

definition parse_entries :: "'j vault_lib \<Rightarrow> u8 list \<Rightarrow> (string, 'j vault_entry) fmap vault_result" where
  "parse_entries lib plaintext =
     rbind (from_plaintext lib plaintext) (\<lambda>body. insert_entries (body_entries body) fmempty)"

definition unlocked_of ::
  "locked_vault \<Rightarrow> u8 list \<Rightarrow> (string, 'j vault_entry) fmap \<Rightarrow> 'j unlocked_vault"
where
  "unlocked_of v dek es =
     (let h = file_header (lv_file v) in
      \<lparr>uv_path = lv_path v, uv_vault_id = header_vault_id h, uv_format_version = header_version h,
       uv_dek_generation = header_generation h, uv_aead_alg = header_aead h,
       uv_kdf_alg = header_kdf h, uv_slots = header_slots h, uv_dek = dek, uv_entries = es\<rparr>)"

definition unlock_with_dek :: "'j vault_lib \<Rightarrow> locked_vault \<Rightarrow> u8 list \<Rightarrow> 'j unlocked_vault vault_result" where
  "unlock_with_dek lib v dek =
     (if length dek \<noteq> KEY_LEN then Inl (VaultMalformed ''a handed-off data key was not 32 bytes'')
      else rbind (open_sealed (vl_crypto lib) dek (lv_header_aad v) (sealed_body (lv_file v)) ''contents'') (\<lambda>plaintext.
           rbind (parse_entries lib plaintext) (\<lambda>es. Inr (unlocked_of v dek es))))"

definition static_secret_from :: "u8 list \<Rightarrow> u8 list vault_result" where
  "static_secret_from bytes =
     (if length bytes = 32 then Inr bytes
      else Inl (VaultMalformed ''a slot private key decrypted to something other than 32 bytes''))"

text \<open>The loop over the slots of a kind, up to the one the credential opens.\<close>

fun try_slots ::
  "'j vault_lib \<Rightarrow> locked_vault \<Rightarrow> u8 list \<Rightarrow> slot_kind \<Rightarrow> vault_slot list \<Rightarrow> 'j unlocked_vault vault_result"
where
  "try_slots lib v input_secret knd [] = Inl NoMatchingSlot"
| "try_slots lib v input_secret knd (s # ss) =
     (let vid = header_vault_id (file_header (lv_file v));
          version = header_version (file_header (lv_file v));
          aad = own_binding_aad s vid version;
          kek = derive_kek (vl_crypto lib) input_secret (slot_salt s) vid version (slot_id s)
      in if slot_kind s \<noteq> knd then try_slots lib v input_secret knd ss
         else case open_sealed (vl_crypto lib) kek aad (wrapped_privkey s) ''slot private key'' of
                Inl _ \<Rightarrow> try_slots lib v input_secret knd ss
              | Inr privkey \<Rightarrow>
                  rbind (static_secret_from privkey) (\<lambda>secret.
                  rbind (unwrap_dek (vl_crypto lib) (slot_wrapped_dek s) secret vid (slot_id s) aad) (\<lambda>dek.
                  if length dek \<noteq> KEY_LEN
                  then Inl (VaultMalformed ''a wrapped DEK decrypted to something other than a 32-byte key'')
                  else rbind (open_sealed (vl_crypto lib) dek (lv_header_aad v) (sealed_body (lv_file v)) ''contents'') (\<lambda>plaintext.
                       rbind (parse_entries lib plaintext) (\<lambda>es. Inr (unlocked_of v dek es))))))"

definition unlock_with_secret ::
  "'j vault_lib \<Rightarrow> locked_vault \<Rightarrow> u8 list \<Rightarrow> slot_kind \<Rightarrow> 'j unlocked_vault vault_result"
where
  "unlock_with_secret lib v input_secret knd = try_slots lib v input_secret knd (locked_slots v)"

definition unlock_with_recovery_code ::
  "'j vault_lib \<Rightarrow> locked_vault \<Rightarrow> u8 list \<Rightarrow> 'j unlocked_vault vault_result"
where
  "unlock_with_recovery_code lib v code = unlock_with_secret lib v code RecoverySlot"

definition unlock_with_prf_output ::
  "'j vault_lib \<Rightarrow> locked_vault \<Rightarrow> u8 list \<Rightarrow> 'j unlocked_vault vault_result"
where
  "unlock_with_prf_output lib v prf = unlock_with_secret lib v prf PasskeyPrf"

subsection \<open>Writing the file\<close>

definition body_values :: "(string, 'j vault_entry) fmap \<Rightarrow> 'j vault_entry list" where
  "body_values m = map (\<lambda>k. the (fmlookup m k)) (btree_keys m)"

definition header_of :: "'j unlocked_vault \<Rightarrow> vault_slot list \<Rightarrow> nat \<Rightarrow> vault_header" where
  "header_of v slots generation =
     \<lparr>header_version = uv_format_version v, header_vault_id = uv_vault_id v,
      header_generation = generation, header_aead = uv_aead_alg v, header_kdf = uv_kdf_alg v,
      header_slots = slots\<rparr>"

definition encode_with_dek ::
  "'j vault_lib \<Rightarrow> u8 list \<Rightarrow> 'j unlocked_vault \<Rightarrow> vault_slot list \<Rightarrow> nat
   \<Rightarrow> (string, 'j vault_entry) fmap \<Rightarrow> u8 list \<Rightarrow> u8 list"
where
  "encode_with_dek lib nonce v slots generation es dek =
     (let plaintext = to_plaintext lib (vault_body_new (body_values es));
          header = header_encode (header_of v slots generation)
      in encode_file header (seal (vl_crypto lib) nonce dek header plaintext))"

text \<open>What one commit draws and meets: the answers of the system, the suffix and the nonce.\<close>

record commit_env =
  ce_sys :: sys_answers
  ce_suffix :: "u8 list"
  ce_nonce :: "u8 list"

definition commit_with_dek ::
  "'j vault_lib \<Rightarrow> commit_env \<Rightarrow> 'j unlocked_vault \<Rightarrow> u8 list \<Rightarrow> vault_slot list \<Rightarrow> nat
   \<Rightarrow> (string, 'j vault_entry) fmap \<Rightarrow> disk \<Rightarrow> unit vault_result \<times> disk list"
where
  "commit_with_dek lib env v dek slots generation es d =
     storage_commit (ce_sys env) (ce_suffix env) (uv_path v)
       (encode_with_dek lib (ce_nonce env) v slots generation es dek) d"

definition commit_vault ::
  "'j vault_lib \<Rightarrow> commit_env \<Rightarrow> 'j unlocked_vault \<Rightarrow> vault_slot list \<Rightarrow> nat
   \<Rightarrow> (string, 'j vault_entry) fmap \<Rightarrow> disk \<Rightarrow> unit vault_result \<times> disk list"
where
  "commit_vault lib env v slots generation es d =
     commit_with_dek lib env v (uv_dek v) slots generation es d"

text \<open>\<open>self.commit(...)?\<close>, then the new state and the success value.\<close>

definition then_install ::
  "unit vault_result \<times> disk list \<Rightarrow> 'j unlocked_vault \<Rightarrow> 'j unlocked_vault \<Rightarrow> 'a
   \<Rightarrow> 'a vault_result \<times> 'j unlocked_vault \<times> disk list"
where
  "then_install c v v' x =
     (case fst c of Inl e \<Rightarrow> (Inl e, v, snd c) | Inr _ \<Rightarrow> (Inr x, v', snd c))"

subsection \<open>Entries\<close>

definition active_claim_of :: "'j vault_entry \<Rightarrow> nat \<Rightarrow> vault_claim option" where
  "active_claim_of e now =
     (case ve_refresh_claim e of
        None \<Rightarrow> None
      | Some c \<Rightarrow> (if vault_claim_active_at c now then Some c else None))"

definition check_claim :: "'j vault_entry \<Rightarrow> string option \<Rightarrow> nat \<Rightarrow> unit vault_result" where
  "check_claim existing token now =
     (case active_claim_of existing now of
        None \<Rightarrow> Inr ()
      | Some active \<Rightarrow>
          (case token of
             None \<Rightarrow> Inl (ClaimRequired (vc_expires_at_epoch_ms active))
           | Some t \<Rightarrow>
               (if \<not> claim_token_matches (vc_token active) t then Inl VaultClaimTokenMismatch
                else Inr ())))"

definition write_entry ::
  "'j vault_lib \<Rightarrow> commit_env \<Rightarrow> nat \<Rightarrow> 'j unlocked_vault \<Rightarrow> 'j vault_entry \<Rightarrow> nat \<Rightarrow> disk
   \<Rightarrow> nat vault_result \<times> 'j unlocked_vault \<times> disk list"
where
  "write_entry lib env now v e version d =
     (let e' = e\<lparr>ve_cas_version := version, ve_refresh_claim := None, ve_updated_at_epoch_ms := now\<rparr>;
          next_entries = fmupd (ve_key e') e' (uv_entries v)
      in then_install (commit_vault lib env v (uv_slots v) (uv_dek_generation v) next_entries d)
           v (v\<lparr>uv_entries := next_entries\<rparr>) version)"

definition vault_upsert ::
  "'j vault_lib \<Rightarrow> commit_env \<Rightarrow> (nat \<Rightarrow> nat) \<Rightarrow> 'j unlocked_vault \<Rightarrow> 'j vault_entry
   \<Rightarrow> string option \<Rightarrow> disk \<Rightarrow> nat vault_result \<times> 'j unlocked_vault \<times> disk list"
where
  "vault_upsert lib env clk v e token d =
     (let current = fmlookup (uv_entries v) (ve_key e);
          next_version = u64_saturating_add (case current of None \<Rightarrow> 0 | Some x \<Rightarrow> ve_cas_version x) 1
      in case (case current of None \<Rightarrow> Inr () | Some existing \<Rightarrow> check_claim existing token (clk 0)) of
           Inl err \<Rightarrow> (Inl err, v, [d])
         | Inr _ \<Rightarrow> write_entry lib env (clk 1) v e next_version d)"

text \<open>The increment wraps in a release build; \<open>u64::MAX\<close> writes are out of reach.\<close>

definition vault_upsert_cas ::
  "'j vault_lib \<Rightarrow> commit_env \<Rightarrow> (nat \<Rightarrow> nat) \<Rightarrow> 'j unlocked_vault \<Rightarrow> 'j vault_entry \<Rightarrow> nat
   \<Rightarrow> string option \<Rightarrow> disk \<Rightarrow> nat vault_result \<times> 'j unlocked_vault \<times> disk list"
where
  "vault_upsert_cas lib env clk v e expected token d =
     (let current = fmlookup (uv_entries v) (ve_key e);
          current_version = (case current of None \<Rightarrow> 0 | Some x \<Rightarrow> ve_cas_version x)
      in if current_version \<noteq> expected then (Inl (VaultCasMismatch current_version), v, [d])
         else case (case current of None \<Rightarrow> Inr () | Some existing \<Rightarrow> check_claim existing token (clk 0)) of
                Inl err \<Rightarrow> (Inl err, v, [d])
              | Inr _ \<Rightarrow> write_entry lib env (clk 1) v e (as_u64 (current_version + 1)) d)"

definition claim_refresh ::
  "'j vault_lib \<Rightarrow> commit_env \<Rightarrow> u8 list \<Rightarrow> nat \<Rightarrow> 'j unlocked_vault \<Rightarrow> string \<Rightarrow> nat \<Rightarrow> duration
   \<Rightarrow> disk \<Rightarrow> string vault_result \<times> 'j unlocked_vault \<times> disk list"
where
  "claim_refresh lib env raw now v key expected ttl d =
     (case fmlookup (uv_entries v) key of
        None \<Rightarrow> (Inl EntryNotFound, v, [d])
      | Some e \<Rightarrow>
          if ve_cas_version e \<noteq> expected then (Inl (VaultCasMismatch (ve_cas_version e)), v, [d])
          else case active_claim_of e now of
                 Some active \<Rightarrow> (Inl (VaultAlreadyClaimed (vc_expires_at_epoch_ms active)), v, [d])
               | None \<Rightarrow>
                   (let token = claim_token_generate raw;
                        c = \<lparr>vc_token = token, vc_claimed_at_epoch_ms = now,
                             vc_expires_at_epoch_ms = u64_saturating_add now (min (as_millis ttl) u64_max)\<rparr>;
                        next_entries = fmupd key (e\<lparr>ve_refresh_claim := Some c\<rparr>) (uv_entries v)
                    in then_install (commit_vault lib env v (uv_slots v) (uv_dek_generation v) next_entries d)
                         v (v\<lparr>uv_entries := next_entries\<rparr>) token))"

definition release_claim ::
  "'j vault_lib \<Rightarrow> commit_env \<Rightarrow> nat \<Rightarrow> 'j unlocked_vault \<Rightarrow> string \<Rightarrow> string \<Rightarrow> disk
   \<Rightarrow> unit vault_result \<times> 'j unlocked_vault \<times> disk list"
where
  "release_claim lib env now v key token d =
     (case fmlookup (uv_entries v) key of
        None \<Rightarrow> (Inl EntryNotFound, v, [d])
      | Some e \<Rightarrow>
          (let next_entries = fmupd key (e\<lparr>ve_refresh_claim := None\<rparr>) (uv_entries v);
               clear = then_install (commit_vault lib env v (uv_slots v) (uv_dek_generation v) next_entries d)
                         v (v\<lparr>uv_entries := next_entries\<rparr>) ()
           in case active_claim_of e now of
                None \<Rightarrow> (if ve_refresh_claim e = None then (Inr (), v, [d]) else clear)
              | Some active \<Rightarrow>
                  (if \<not> claim_token_matches (vc_token active) token
                   then (Inl VaultClaimTokenMismatch, v, [d]) else clear)))"

definition vault_active_claim :: "'j unlocked_vault \<Rightarrow> string \<Rightarrow> nat \<Rightarrow> vault_claim option" where
  "vault_active_claim v key now =
     (case fmlookup (uv_entries v) key of None \<Rightarrow> None | Some e \<Rightarrow> active_claim_of e now)"

definition vault_delete ::
  "'j vault_lib \<Rightarrow> commit_env \<Rightarrow> 'j unlocked_vault \<Rightarrow> string \<Rightarrow> disk
   \<Rightarrow> bool vault_result \<times> 'j unlocked_vault \<times> disk list"
where
  "vault_delete lib env v key d =
     (if fmlookup (uv_entries v) key = None then (Inr False, v, [d])
      else (let next_entries = fmdrop key (uv_entries v) in
            then_install (commit_vault lib env v (uv_slots v) (uv_dek_generation v) next_entries d)
              v (v\<lparr>uv_entries := next_entries\<rparr>) True))"

subsection \<open>Slots\<close>

record slot_random =
  sr_slot_id :: slot_id
  sr_secret :: "u8 list"
  sr_nonce :: "u8 list"
  sr_wrap :: wrap_random

definition build_slot ::
  "crypto_lib \<Rightarrow> slot_random \<Rightarrow> nat \<Rightarrow> slot_kind \<Rightarrow> u8 list \<Rightarrow> vault_id \<Rightarrow> nat \<Rightarrow> u8 list \<Rightarrow> u8 list
   \<Rightarrow> string \<Rightarrow> u8 list \<Rightarrow> u8 list \<Rightarrow> string \<Rightarrow> vault_slot vault_result"
where
  "build_slot lib rnd now knd dek vid version input_secret salt rp cid cpk label =
     (let sid = sr_slot_id rnd;
          (secret, pubkey) = generate_recipient lib (sr_secret rnd);
          aad = binding_aad vid version sid knd pubkey;
          kek = derive_kek lib input_secret salt vid version sid;
          wrapped = seal lib (sr_nonce rnd) kek aad secret
      in rbind (wrap_dek lib (sr_wrap rnd) dek pubkey vid sid aad) (\<lambda>wdek.
         Inr \<lparr>slot_id = sid, slot_kind = knd, slot_pubkey = pubkey, slot_salt = salt,
              created_at_epoch_ms = now, wrapped_privkey = wrapped, slot_wrapped_dek = wdek,
              rp_id = rp, credential_id = cid, slot_label = label, credential_public_key = cpk\<rparr>))"

definition vault_initialize ::
  "'j vault_lib \<Rightarrow> commit_env \<Rightarrow> slot_random \<Rightarrow> nat \<Rightarrow> vault_id \<Rightarrow> u8 list \<Rightarrow> u8 list \<Rightarrow> u8 list
   \<Rightarrow> file_path \<Rightarrow> disk \<Rightarrow> ('j unlocked_vault \<times> u8 list) vault_result \<times> disk list"
where
  "vault_initialize lib env rnd now vid dek code salt path d =
     (case build_slot (vl_crypto lib) rnd now RecoverySlot dek vid VAULT_FORMAT_VERSION code salt
             [] [] [] ''recovery code'' of
        Inl e \<Rightarrow> (Inl e, [d])
      | Inr s \<Rightarrow>
          (let v = \<lparr>uv_path = path, uv_vault_id = vid, uv_format_version = VAULT_FORMAT_VERSION,
                    uv_dek_generation = 1, uv_aead_alg = XChaCha20Poly1305, uv_kdf_alg = HkdfSha256,
                    uv_slots = [s], uv_dek = dek, uv_entries = fmempty\<rparr>;
               bytes = encode_with_dek lib (ce_nonce env) v (uv_slots v) (uv_dek_generation v)
                         (uv_entries v) (uv_dek v)
           in case storage_create_new (ce_sys env) path bytes d of
                (Inl e, ds) \<Rightarrow> (Inl e, ds)
              | (Inr _, ds) \<Rightarrow> (Inr (v, code), ds)))"

definition add_slot ::
  "'j vault_lib \<Rightarrow> commit_env \<Rightarrow> 'j unlocked_vault \<Rightarrow> vault_slot vault_result \<Rightarrow> (vault_slot \<Rightarrow> 'a)
   \<Rightarrow> disk \<Rightarrow> 'a vault_result \<times> 'j unlocked_vault \<times> disk list"
where
  "add_slot lib env v built result d =
     (case built of
        Inl e \<Rightarrow> (Inl e, v, [d])
      | Inr s \<Rightarrow>
          (let next_slots = uv_slots v @ [s] in
           then_install (commit_vault lib env v next_slots (uv_dek_generation v) (uv_entries v) d)
             v (v\<lparr>uv_slots := next_slots\<rparr>) (result s)))"

definition add_recovery_slot ::
  "'j vault_lib \<Rightarrow> commit_env \<Rightarrow> slot_random \<Rightarrow> nat \<Rightarrow> u8 list \<Rightarrow> u8 list \<Rightarrow> 'j unlocked_vault \<Rightarrow> string
   \<Rightarrow> disk \<Rightarrow> (slot_id \<times> u8 list) vault_result \<times> 'j unlocked_vault \<times> disk list"
where
  "add_recovery_slot lib env rnd now code salt v label d =
     add_slot lib env v
       (build_slot (vl_crypto lib) rnd now RecoverySlot (uv_dek v) (uv_vault_id v)
          (uv_format_version v) code salt [] [] [] label)
       (\<lambda>s. (slot_id s, code)) d"

definition add_passkey_slot ::
  "'j vault_lib \<Rightarrow> commit_env \<Rightarrow> slot_random \<Rightarrow> nat \<Rightarrow> 'j unlocked_vault \<Rightarrow> u8 list \<Rightarrow> u8 list
   \<Rightarrow> string \<Rightarrow> u8 list \<Rightarrow> u8 list \<Rightarrow> string \<Rightarrow> disk
   \<Rightarrow> slot_id vault_result \<times> 'j unlocked_vault \<times> disk list"
where
  "add_passkey_slot lib env rnd now v prf_output salt rp cid cpk label d =
     (if cid = [] \<or> cpk = []
      then (Inl (VaultMalformed ''a passkey slot needs both a credential id and its public key''), v, [d])
      else add_slot lib env v
             (build_slot (vl_crypto lib) rnd now PasskeyPrf (uv_dek v) (uv_vault_id v)
                (uv_format_version v) prf_output salt rp cid cpk label)
             slot_id d)"

text \<open>The loop that wraps the new key for every slot; it draws one \<open>wrap_random\<close> per slot.\<close>

fun rewrap_slots ::
  "crypto_lib \<Rightarrow> (nat \<Rightarrow> wrap_random) \<Rightarrow> nat \<Rightarrow> u8 list \<Rightarrow> vault_id \<Rightarrow> nat \<Rightarrow> vault_slot list
   \<Rightarrow> vault_slot list vault_result"
where
  "rewrap_slots lib rnd i dek vid version [] = Inr []"
| "rewrap_slots lib rnd i dek vid version (s # ss) =
     rbind (wrap_dek lib (rnd i) dek (slot_pubkey s) vid (slot_id s) (own_binding_aad s vid version)) (\<lambda>w.
     rbind (rewrap_slots lib rnd (Suc i) dek vid version ss) (\<lambda>ss'.
     Inr (set_wrapped_dek s w # ss')))"

definition rotate_onto ::
  "'j vault_lib \<Rightarrow> commit_env \<Rightarrow> (nat \<Rightarrow> wrap_random) \<Rightarrow> u8 list \<Rightarrow> 'j unlocked_vault \<Rightarrow> vault_slot list
   \<Rightarrow> disk \<Rightarrow> unit vault_result \<times> 'j unlocked_vault \<times> disk list"
where
  "rotate_onto lib env rnd new_dek v slots d =
     (case rewrap_slots (vl_crypto lib) rnd 0 new_dek (uv_vault_id v) (uv_format_version v) slots of
        Inl e \<Rightarrow> (Inl e, v, [d])
      | Inr slots' \<Rightarrow>
          (let generation = as_u64 (uv_dek_generation v + 1) in
           then_install (commit_with_dek lib env v new_dek slots' generation (uv_entries v) d)
             v (v\<lparr>uv_slots := slots', uv_dek := new_dek, uv_dek_generation := generation\<rparr>) ()))"

definition rotate_dek ::
  "'j vault_lib \<Rightarrow> commit_env \<Rightarrow> (nat \<Rightarrow> wrap_random) \<Rightarrow> u8 list \<Rightarrow> 'j unlocked_vault \<Rightarrow> disk
   \<Rightarrow> unit vault_result \<times> 'j unlocked_vault \<times> disk list"
where
  "rotate_dek lib env rnd new_dek v d = rotate_onto lib env rnd new_dek v (uv_slots v) d"

definition remove_slot ::
  "'j vault_lib \<Rightarrow> commit_env \<Rightarrow> (nat \<Rightarrow> wrap_random) \<Rightarrow> u8 list \<Rightarrow> 'j unlocked_vault \<Rightarrow> slot_id \<Rightarrow> disk
   \<Rightarrow> unit vault_result \<times> 'j unlocked_vault \<times> disk list"
where
  "remove_slot lib env rnd new_dek v sid d =
     (case position (\<lambda>s. slot_id s = sid) (uv_slots v) of
        None \<Rightarrow> (Inl SlotNotFound, v, [d])
      | Some index \<Rightarrow>
          if length (uv_slots v) = 1 then (Inl LastSlot, v, [d])
          else rotate_onto lib env rnd new_dek v
                 (take index (uv_slots v) @ drop (Suc index) (uv_slots v)) d)"

definition export_dek :: "'j unlocked_vault \<Rightarrow> u8 list" where
  "export_dek v = uv_dek v"

definition vault_lock :: "'j unlocked_vault \<Rightarrow> disk \<Rightarrow> locked_vault vault_result" where
  "vault_lock v d = locked_open d (uv_path v)"

end
