(* ===== verification/Vault_Props.thy ===== *)
theory Vault_Props
  imports Vault
begin

text \<open>
  What holds of the vault as a whole: a mutation is all or nothing, the file reopens to the vault
  that wrote it, credentials keep opening it across additions, removals and rotations, and the
  version and the claim of an entry arbitrate its writers.
\<close>

subsection \<open>Operations as one step\<close>

datatype 'j vault_op =
  OpUpsert "'j vault_entry" "string option"
| OpUpsertCas "'j vault_entry" nat "string option"
| OpClaim "u8 list" string nat duration
| OpRelease string string
| OpDelete string
| OpAddRecovery slot_random "u8 list" "u8 list" string
| OpAddPasskey slot_random "u8 list" "u8 list" string "u8 list" "u8 list" string
| OpRotate "nat \<Rightarrow> wrap_random" "u8 list"
| OpRemove "nat \<Rightarrow> wrap_random" "u8 list" slot_id

definition error_of :: "'a vault_result \<times> 'v \<times> disk list \<Rightarrow> vault_error option \<times> 'v \<times> disk list" where
  "error_of r = (case fst r of Inl e \<Rightarrow> Some e | Inr _ \<Rightarrow> None, snd r)"

fun run_vault_op ::
  "'j vault_lib \<Rightarrow> commit_env \<Rightarrow> (nat \<Rightarrow> nat) \<Rightarrow> 'j vault_op \<Rightarrow> 'j unlocked_vault \<Rightarrow> disk
   \<Rightarrow> vault_error option \<times> 'j unlocked_vault \<times> disk list"
where
  "run_vault_op lib env clk (OpUpsert e t) v d = error_of (vault_upsert lib env clk v e t d)"
| "run_vault_op lib env clk (OpUpsertCas e n t) v d = error_of (vault_upsert_cas lib env clk v e n t d)"
| "run_vault_op lib env clk (OpClaim raw k n ttl) v d = error_of (claim_refresh lib env raw (clk 0) v k n ttl d)"
| "run_vault_op lib env clk (OpRelease k t) v d = error_of (release_claim lib env (clk 0) v k t d)"
| "run_vault_op lib env clk (OpDelete k) v d = error_of (vault_delete lib env v k d)"
| "run_vault_op lib env clk (OpAddRecovery rnd code salt l) v d =
     error_of (add_recovery_slot lib env rnd (clk 0) code salt v l d)"
| "run_vault_op lib env clk (OpAddPasskey rnd prfo salt rp cid cpk l) v d =
     error_of (add_passkey_slot lib env rnd (clk 0) v prfo salt rp cid cpk l d)"
| "run_vault_op lib env clk (OpRotate rnd dek) v d = error_of (rotate_dek lib env rnd dek v d)"
| "run_vault_op lib env clk (OpRemove rnd dek sid) v d = error_of (remove_slot lib env rnd dek v sid d)"

text \<open>Every operation either does nothing or commits the state it means to install.\<close>

definition committed ::
  "unit vault_result \<times> disk list \<Rightarrow> 'v \<Rightarrow> 'v \<Rightarrow> vault_error option \<times> 'v \<times> disk list"
where
  "committed c v w = (case fst c of Inl e \<Rightarrow> (Some e, v, snd c) | Inr _ \<Rightarrow> (None, w, snd c))"

definition commits ::
  "'j vault_lib \<Rightarrow> commit_env \<Rightarrow> 'j unlocked_vault \<Rightarrow> 'j unlocked_vault \<Rightarrow> disk
   \<Rightarrow> vault_error option \<times> 'j unlocked_vault \<times> disk list \<Rightarrow> bool"
where
  "commits lib env v w d r \<longleftrightarrow>
     uv_path w = uv_path v \<and> uv_vault_id w = uv_vault_id v
       \<and> uv_format_version w = uv_format_version v \<and> uv_aead_alg w = uv_aead_alg v
       \<and> uv_kdf_alg w = uv_kdf_alg v
       \<and> r = committed (commit_with_dek lib env v (uv_dek w) (uv_slots w) (uv_dek_generation w)
               (uv_entries w) d) v w"

lemma error_of_install: "error_of (then_install c v w x) = committed c v w"
  by (simp add: then_install_def error_of_def committed_def split: sum.splits)

lemma error_of_simps [simp]:
  "error_of (Inl e, v, ds) = (Some e, v, ds)" "error_of (Inr x, v, ds) = (None, v, ds)"
  by (simp_all add: error_of_def)

lemma commits_entries:
  "commits lib env v (v\<lparr>uv_entries := es\<rparr>) d
     (error_of (then_install (commit_vault lib env v (uv_slots v) (uv_dek_generation v) es d) v
        (v\<lparr>uv_entries := es\<rparr>) x))"
  by (simp add: commits_def commit_vault_def error_of_install)

lemma commits_slots:
  "commits lib env v (v\<lparr>uv_slots := ss\<rparr>) d
     (error_of (then_install (commit_vault lib env v ss (uv_dek_generation v) (uv_entries v) d) v
        (v\<lparr>uv_slots := ss\<rparr>) x))"
  by (simp add: commits_def commit_vault_def error_of_install)

lemma commits_rotation:
  "commits lib env v (v\<lparr>uv_slots := ss, uv_dek := k, uv_dek_generation := g\<rparr>) d
     (error_of (then_install (commit_with_dek lib env v k ss g (uv_entries v) d) v
        (v\<lparr>uv_slots := ss, uv_dek := k, uv_dek_generation := g\<rparr>) x))"
  by (simp add: commits_def error_of_install)

lemmas commits_intros = commits_entries commits_slots commits_rotation

lemma op_commits:
  assumes "run_vault_op lib env clk p v d = r"
  shows "snd r = (v, [d]) \<or> (\<exists>w. commits lib env v w d r)"
proof (cases p)
  case (OpUpsert e t)
  then show ?thesis using assms
    by (auto simp: vault_upsert_def write_entry_def Let_def split: option.splits sum.splits
        intro: commits_entries)
next
  case (OpUpsertCas e n t)
  then show ?thesis using assms
    by (auto simp: vault_upsert_cas_def write_entry_def Let_def split: option.splits sum.splits if_splits
        intro: commits_entries)
next
  case (OpClaim raw k n ttl)
  then show ?thesis using assms
    by (auto simp: claim_refresh_def Let_def split: option.splits if_splits intro: commits_entries)
next
  case (OpRelease k t)
  then show ?thesis using assms
    by (auto simp: release_claim_def Let_def split: option.splits if_splits intro: commits_entries)
next
  case (OpDelete k)
  then show ?thesis using assms
    by (auto simp: vault_delete_def Let_def split: if_splits intro: commits_entries)
next
  case (OpAddRecovery rnd code salt l)
  then show ?thesis using assms
    by (auto simp: add_recovery_slot_def add_slot_def Let_def split: sum.splits intro: commits_intros)
next
  case (OpAddPasskey rnd prfo salt rp cid cpk l)
  then show ?thesis using assms
    by (auto simp: add_passkey_slot_def add_slot_def Let_def split: sum.splits if_splits
        intro: commits_intros)
next
  case (OpRotate rnd dek)
  then show ?thesis using assms
    by (auto simp: rotate_dek_def rotate_onto_def Let_def split: sum.splits intro: commits_intros)
next
  case (OpRemove rnd dek sid)
  then show ?thesis using assms
    by (auto simp: remove_slot_def rotate_onto_def Let_def split: sum.splits option.splits if_splits
        intro: commits_intros)
qed

subsection \<open>All or nothing\<close>

definition file_bytes :: "'j vault_lib \<Rightarrow> u8 list \<Rightarrow> 'j unlocked_vault \<Rightarrow> u8 list" where
  "file_bytes lib nonce v =
     encode_with_dek lib nonce v (uv_slots v) (uv_dek_generation v) (uv_entries v) (uv_dek v)"

definition stored_as :: "'j vault_lib \<Rightarrow> 'j unlocked_vault \<Rightarrow> u8 list \<Rightarrow> bool" where
  "stored_as lib v bytes \<longleftrightarrow> (\<exists>nonce. length nonce = NONCE_LEN \<and> bytes = file_bytes lib nonce v)"

lemma commit_file_bytes:
  assumes "commits lib env v w d r"
  shows "commit_with_dek lib env v (uv_dek w) (uv_slots w) (uv_dek_generation w) (uv_entries w) d
    = storage_commit (ce_sys env) (ce_suffix env) (uv_path w) (file_bytes lib (ce_nonce env) w) d"
  using assms by (simp add: commits_def commit_with_dek_def file_bytes_def encode_with_dek_def header_of_def)

lemma committed_cases:
  assumes "commits lib env v w d (r, v', ds)"
  shows "storage_commit (ce_sys env) (ce_suffix env) (uv_path w) (file_bytes lib (ce_nonce env) w) d
      = (case r of None \<Rightarrow> Inr () | Some e \<Rightarrow> Inl e, ds)"
    and "v' = (if r = None then w else v)"
proof -
  obtain c cs where c: "storage_commit (ce_sys env) (ce_suffix env) (uv_path w) (file_bytes lib (ce_nonce env) w) d
      = (c, cs)" by fastforce
  have "(r, v', ds) = committed (c, cs) v w"
    using assms commit_file_bytes [OF assms] c by (simp add: commits_def)
  with c show "storage_commit (ce_sys env) (ce_suffix env) (uv_path w) (file_bytes lib (ce_nonce env) w) d
      = (case r of None \<Rightarrow> Inr () | Some e \<Rightarrow> Inl e, ds)"
    and "v' = (if r = None then w else v)"
    by (auto simp: committed_def split: sum.splits)
qed

lemma vault_op_effect:
  assumes op: "run_vault_op lib env clk p v d = (r, v', ds)" and nonce: "length (ce_nonce env) = NONCE_LEN"
  shows "uv_path v' = uv_path v \<and> (r \<noteq> None \<longrightarrow> v' = v)
    \<and> (r = None \<longrightarrow> (v' = v \<and> ds = [d])
         \<or> (\<exists>bytes. fmlookup (last ds) (uv_path v) = Some bytes \<and> stored_as lib v' bytes))
    \<and> (\<forall>s\<in>set ds. fmlookup s (uv_path v) = fmlookup d (uv_path v)
         \<or> (\<exists>w bytes. fmlookup s (uv_path v) = Some bytes \<and> stored_as lib w bytes \<and> (r = None \<longrightarrow> w = v')))"
  using op_commits [OF op]
proof
  assume "snd (r, v', ds) = (v, [d])"
  then show ?thesis by simp
next
  assume "\<exists>w. commits lib env v w d (r, v', ds)"
  then obtain w where w: "commits lib env v w d (r, v', ds)" ..
  have path: "uv_path w = uv_path v" using w by (simp add: commits_def)
  have bytes: "stored_as lib w (file_bytes lib (ce_nonce env) w)"
    using nonce by (auto simp: stored_as_def)
  note states = commit_states [OF committed_cases(1) [OF w]]
  show ?thesis
    using states committed_cases(2) [OF w] path bytes by (cases r) auto
qed

text \<open>
  Property C12.  A vault operation that fails leaves the open vault exactly as it was, and one that
  succeeds has durably stored the state it leaves.  At every moment in between the file holds the
  old contents or one complete new vault, for a success the very one now in memory.
\<close>

theorem vault_op_is_all_or_nothing:
  assumes "run_vault_op lib env clk p v d = (r, v', ds)" and "length (ce_nonce env) = NONCE_LEN"
    and "fmlookup d (uv_path v) = Some old" and "stored_as lib v old"
  shows "(r \<noteq> None \<longrightarrow> v' = v)
    \<and> (r = None \<longrightarrow> (\<exists>bytes. fmlookup (last ds) (uv_path v') = Some bytes \<and> stored_as lib v' bytes))
    \<and> (\<forall>s\<in>set ds. fmlookup s (uv_path v) = Some old
         \<or> (\<exists>w bytes. fmlookup s (uv_path v) = Some bytes \<and> stored_as lib w bytes \<and> (r = None \<longrightarrow> w = v')))"
  using vault_op_effect [OF assms(1,2)] assms(3,4) by auto

subsection \<open>The file reopens to the vault that wrote it\<close>

text \<open>
  What the reader's bounds and the serializer demand of a vault: a well-formed header, a body within
  its limit, the whole file within the limit of a file, entries stored under their own keys, and a
  body that \<open>serde_json\<close> reads back.
\<close>

definition vault_fits :: "'j vault_lib \<Rightarrow> 'j unlocked_vault \<Rightarrow> bool" where
  "vault_fits lib v \<longleftrightarrow>
     header_ok (header_of v (uv_slots v) (uv_dek_generation v))
       \<and> length (uv_dek v) = KEY_LEN
       \<and> (\<forall>k\<in>set (btree_keys (uv_entries v)). ve_key (the (fmlookup (uv_entries v) k)) = k)
       \<and> (let body = vault_body_new (body_values (uv_entries v)); plaintext = to_plaintext lib body in
           vl_from_slice lib plaintext = Some body
             \<and> NONCE_LEN + length plaintext + TAG_LEN \<le> MAX_BODY_LEN
             \<and> length (header_encode (header_of v (uv_slots v) (uv_dek_generation v))) + 8
                 + NONCE_LEN + length plaintext + TAG_LEN \<le> MAX_FILE_LEN)"

lemma insert_entries_keys:
  assumes "distinct ks" and "\<forall>k\<in>set ks. fmlookup m k = None \<and> ve_key (f k) = k"
  shows "insert_entries (map f ks) m = Inr (fold (\<lambda>k. fmupd k (f k)) ks m)"
  using assms
proof (induction ks arbitrary: m)
  case Nil
  then show ?case by simp
next
  case (Cons k ks)
  have "\<forall>q\<in>set ks. fmlookup (fmupd k (f k) m) q = None \<and> ve_key (f q) = q"
    using Cons.prems by auto
  with Cons.IH [of "fmupd k (f k) m"] Cons.prems show ?case by simp
qed

lemma fold_upd_lookup:
  "fmlookup (fold (\<lambda>k. fmupd k (f k)) ks m) q = (if q \<in> set ks then Some (f q) else fmlookup m q)"
  by (induction ks arbitrary: m) auto

lemma parse_stored:
  assumes "vault_fits lib v"
  shows "parse_entries lib (to_plaintext lib (vault_body_new (body_values (uv_entries v)))) = Inr (uv_entries v)"
proof -
  let ?m = "uv_entries v" and ?f = "\<lambda>k. the (fmlookup (uv_entries v) k)"
  have "insert_entries (body_values ?m) fmempty = Inr (fold (\<lambda>k. fmupd k (?f k)) (btree_keys ?m) fmempty)"
    unfolding body_values_def using assms
    by (intro insert_entries_keys) (auto simp: vault_fits_def)
  also have "fold (\<lambda>k. fmupd k (?f k)) (btree_keys ?m) fmempty = ?m"
    by (rule fmap_ext) (auto simp: fold_upd_lookup fmdom_iff)
  finally show ?thesis
    using assms by (simp add: parse_entries_def from_plaintext_def vault_fits_def Let_def vault_body_new_def)
qed

lemma reopened:
  assumes "crypto_ok (vl_crypto lib)" and "vault_fits lib v"
    and "stored_as lib v bytes" and "fmlookup d (uv_path v) = Some bytes"
  shows "\<exists>lv. locked_open d (uv_path v) = Inr lv \<and> lv_path lv = uv_path v
    \<and> file_header (lv_file lv) = header_of v (uv_slots v) (uv_dek_generation v)
    \<and> open_sealed (vl_crypto lib) (uv_dek v) (lv_header_aad lv) (sealed_body (lv_file lv)) ''contents''
        = Inr (to_plaintext lib (vault_body_new (body_values (uv_entries v))))"
proof -
  let ?h = "header_of v (uv_slots v) (uv_dek_generation v)"
  let ?p = "to_plaintext lib (vault_body_new (body_values (uv_entries v)))"
  obtain nonce where n: "length nonce = NONCE_LEN" "bytes = file_bytes lib nonce v"
    using assms(3) by (auto simp: stored_as_def)
  let ?s = "seal (vl_crypto lib) nonce (uv_dek v) (header_encode ?h) ?p"
  let ?f = "\<lparr>file_header = ?h, sealed_body = ?s\<rparr>"
  have len: "length ?s = NONCE_LEN + length ?p + TAG_LEN"
    using seal_length [OF assms(1)] n(1) by simp
  have "bytes = file_encode ?f" "file_ok ?f"
    using n assms(2) len
    by (simp_all add: file_bytes_def encode_with_dek_def file_encode_def file_ok_def vault_fits_def Let_def)
  then have "vault_decode bytes = Inr (?f, header_encode ?h)"
    by (simp add: vault_decode_iff)
  moreover have "length bytes = length (header_encode ?h) + 8 + NONCE_LEN + length ?p + TAG_LEN"
    using \<open>bytes = file_encode ?f\<close> len by (simp add: file_encode_def encode_file_def)
  then have "storage_read (uv_path v) d = Inr bytes"
    using assms(2,4) by (simp add: storage_read_def vault_fits_def Let_def)
  ultimately show ?thesis
    using open_seal [OF assms(1) n(1), of "uv_dek v" "header_encode ?h" ?p "''contents''"]
    by (simp add: locked_open_def)
qed

lemma unlocked_same:
  assumes "lv_path lv = uv_path v"
    and "file_header (lv_file lv) = header_of v (uv_slots v) (uv_dek_generation v)"
  shows "unlocked_of lv (uv_dek v) (uv_entries v) = v"
  using assms by (simp add: unlocked_of_def header_of_def)

subsection \<open>Credentials\<close>

text \<open>
  What it means that a slot of a vault is opened by an input secret: the key derived from it opens
  the slot's private key, which is the one of the slot's public key and unwraps the data key.
\<close>

definition slot_opens :: "'j vault_lib \<Rightarrow> 'j unlocked_vault \<Rightarrow> u8 list \<Rightarrow> vault_slot \<Rightarrow> bool" where
  "slot_opens lib v input_secret s \<longleftrightarrow>
     (let vid = uv_vault_id v; version = uv_format_version v; aad = own_binding_aad s vid version;
          kek = derive_kek (vl_crypto lib) input_secret (slot_salt s) vid version (slot_id s)
      in case open_sealed (vl_crypto lib) kek aad (wrapped_privkey s) ''slot private key'' of
           Inl _ \<Rightarrow> False
         | Inr privkey \<Rightarrow> length privkey = 32 \<and> slot_pubkey s = x25519_public (vl_crypto lib) privkey
             \<and> unwrap_dek (vl_crypto lib) (slot_wrapped_dek s) privkey vid (slot_id s) aad = Inr (uv_dek v))"

text \<open>The cryptographic expectation that a foreign credential opens no private key of a slot.\<close>

definition slot_refuses :: "'j vault_lib \<Rightarrow> 'j unlocked_vault \<Rightarrow> u8 list \<Rightarrow> vault_slot \<Rightarrow> bool" where
  "slot_refuses lib v input_secret s \<longleftrightarrow>
     (let vid = uv_vault_id v; version = uv_format_version v;
          kek = derive_kek (vl_crypto lib) input_secret (slot_salt s) vid version (slot_id s)
      in \<exists>e. open_sealed (vl_crypto lib) kek (own_binding_aad s vid version) (wrapped_privkey s)
               ''slot private key'' = Inl e)"

lemma try_slots_skip:
  assumes "header_vault_id (file_header (lv_file lv)) = uv_vault_id v"
    and "header_version (file_header (lv_file lv)) = uv_format_version v"
    and "\<forall>s\<in>set pre. slot_kind s = knd \<longrightarrow> slot_refuses lib v input_secret s"
  shows "try_slots lib lv input_secret knd (pre @ ss) = try_slots lib lv input_secret knd ss"
  using assms(3) by (induction pre) (auto simp: assms(1,2) Let_def slot_refuses_def)

lemma unlock_stored:
  assumes crypto: "crypto_ok (vl_crypto lib)" and fits: "vault_fits lib v"
    and stored: "stored_as lib v bytes" "fmlookup d (uv_path v) = Some bytes"
    and slots: "uv_slots v = pre @ s # post" "slot_opens lib v input_secret s"
    and refuse: "\<forall>t\<in>set pre. slot_kind t = slot_kind s \<longrightarrow> slot_refuses lib v input_secret t"
  shows "\<exists>lv. locked_open d (uv_path v) = Inr lv
    \<and> unlock_with_secret lib lv input_secret (slot_kind s) = Inr v \<and> unlock_with_dek lib lv (uv_dek v) = Inr v"
proof -
  obtain lv where lv: "locked_open d (uv_path v) = Inr lv" "lv_path lv = uv_path v"
    "file_header (lv_file lv) = header_of v (uv_slots v) (uv_dek_generation v)"
    "open_sealed (vl_crypto lib) (uv_dek v) (lv_header_aad lv) (sealed_body (lv_file lv)) ''contents''
      = Inr (to_plaintext lib (vault_body_new (body_values (uv_entries v))))"
    using reopened [OF crypto fits stored] by blast
  have h: "header_vault_id (file_header (lv_file lv)) = uv_vault_id v"
    "header_version (file_header (lv_file lv)) = uv_format_version v"
    "locked_slots lv = pre @ s # post"
    using slots(1) by (simp_all add: lv(3) header_of_def locked_slots_def)
  have dek: "length (uv_dek v) = KEY_LEN" using fits by (simp add: vault_fits_def)
  have same: "unlocked_of lv (uv_dek v) (uv_entries v) = v"
    using unlocked_same [OF lv(2,3)] .
  have "unlock_with_dek lib lv (uv_dek v) = Inr v"
    by (simp add: unlock_with_dek_def dek lv(4) parse_stored [OF fits] same)
  moreover obtain priv where priv:
    "open_sealed (vl_crypto lib)
       (derive_kek (vl_crypto lib) input_secret (slot_salt s) (uv_vault_id v) (uv_format_version v) (slot_id s))
       (own_binding_aad s (uv_vault_id v) (uv_format_version v)) (wrapped_privkey s) ''slot private key'' = Inr priv"
    "length priv = 32"
    "unwrap_dek (vl_crypto lib) (slot_wrapped_dek s) priv (uv_vault_id v) (slot_id s)
       (own_binding_aad s (uv_vault_id v) (uv_format_version v)) = Inr (uv_dek v)"
    using slots(2) by (auto simp: slot_opens_def Let_def split: sum.splits)
  have "unlock_with_secret lib lv input_secret (slot_kind s) = Inr v"
    by (simp add: unlock_with_secret_def h(3) try_slots_skip [OF h(1,2) refuse] h(1,2)
        static_secret_from_def dek lv(4) parse_stored [OF fits] same Let_def priv)
  ultimately show ?thesis using lv(1) by blast
qed

text \<open>A newly built slot is opened by the secret it was built from.\<close>

lemma built_slot:
  assumes "build_slot lib rnd now knd dek vid version input_secret salt rp cid cpk label = Inr s"
  shows "slot_id s = sr_slot_id rnd \<and> slot_kind s = knd \<and> slot_salt s = salt
    \<and> slot_pubkey s = x25519_public lib (sr_secret rnd)
    \<and> wrapped_privkey s = seal lib (sr_nonce rnd)
        (derive_kek lib input_secret salt vid version (slot_id s)) (own_binding_aad s vid version) (sr_secret rnd)
    \<and> wrap_dek lib (sr_wrap rnd) dek (slot_pubkey s) vid (slot_id s) (own_binding_aad s vid version)
        = Inr (slot_wrapped_dek s)"
  using assms by (auto simp: build_slot_def generate_recipient_def Let_def rbind_Inr own_binding_aad_def)

definition slot_random_ok :: "slot_random \<Rightarrow> bool" where
  "slot_random_ok rnd \<longleftrightarrow> length (sr_secret rnd) = 32 \<and> length (sr_nonce rnd) = NONCE_LEN
     \<and> length (wrap_nonce (sr_wrap rnd)) = NONCE_LEN"

lemma built_slot_opens:
  assumes "crypto_ok (vl_crypto lib)" and "slot_random_ok rnd"
    and "build_slot (vl_crypto lib) rnd now knd (uv_dek v) (uv_vault_id v) (uv_format_version v)
      input_secret salt rp cid cpk label = Inr s"
  shows "slot_opens lib v input_secret s"
proof -
  note b = built_slot [OF assms(3)]
  have "unwrap_dek (vl_crypto lib) (slot_wrapped_dek s) (sr_secret rnd) (uv_vault_id v) (slot_id s)
      (own_binding_aad s (uv_vault_id v) (uv_format_version v)) = Inr (uv_dek v)"
    using b assms(2)
    by (intro unwrap_wrapped [OF assms(1), of "sr_wrap rnd"]) (clarsimp simp: slot_random_ok_def)+
  with b assms(2) open_seal [OF assms(1)] show ?thesis
    by (simp add: slot_opens_def slot_random_ok_def Let_def)
qed

lemma rewrapped:
  assumes "rewrap_slots lib rnd i dek vid version ss = Inr ss'"
  shows "map slot_id ss' = map slot_id ss
    \<and> (\<forall>j<length ss. \<exists>w. ss' ! j = set_wrapped_dek (ss ! j) w
         \<and> wrap_dek lib (rnd (i + j)) dek (slot_pubkey (ss ! j)) vid (slot_id (ss ! j))
              (own_binding_aad (ss ! j) vid version) = Inr w)"
  using assms
proof (induction ss arbitrary: i ss')
  case Nil
  then show ?case by simp
next
  case (Cons s ss)
  then obtain w ts where w: "wrap_dek lib (rnd i) dek (slot_pubkey s) vid (slot_id s)
      (own_binding_aad s vid version) = Inr w" "rewrap_slots lib rnd (Suc i) dek vid version ss = Inr ts"
    "ss' = set_wrapped_dek s w # ts"
    by (auto simp: rbind_Inr)
  from Cons.IH [OF w(2)] w show ?case
    by (auto simp: set_wrapped_dek_def less_Suc_eq_0_disj)
qed

lemma rewrapped_opens:
  assumes crypto: "crypto_ok (vl_crypto lib)" and nonces: "\<forall>i. length (wrap_nonce (rnd i)) = NONCE_LEN"
    and rewrap: "rewrap_slots (vl_crypto lib) rnd 0 dek (uv_vault_id v) (uv_format_version v) ss = Inr ss'"
    and s: "s \<in> set ss" "slot_opens lib v input_secret s"
    and w: "uv_vault_id w = uv_vault_id v" "uv_format_version w = uv_format_version v" "uv_dek w = dek"
  shows "\<exists>s'\<in>set ss'. slot_id s' = slot_id s \<and> slot_kind s' = slot_kind s \<and> slot_opens lib w input_secret s'"
proof -
  obtain j where j: "j < length ss" "ss ! j = s"
    using s(1) by (auto simp: in_set_conv_nth)
  obtain d where d: "ss' ! j = set_wrapped_dek s d"
    "wrap_dek (vl_crypto lib) (rnd j) dek (slot_pubkey s) (uv_vault_id v) (slot_id s)
      (own_binding_aad s (uv_vault_id v) (uv_format_version v)) = Inr d"
    using rewrapped [OF rewrap] j by auto
  have "length ss' = length ss"
    using map_eq_imp_length_eq rewrapped [OF rewrap] by blast
  then have mem: "set_wrapped_dek s d \<in> set ss'"
    using j d(1) by (metis nth_mem)
  obtain priv where priv: "slot_pubkey s = x25519_public (vl_crypto lib) priv"
    using s(2) by (auto simp: slot_opens_def Let_def split: sum.splits)
  have "slot_opens lib w input_secret (set_wrapped_dek s d)"
    using s(2) d(2) unwrap_wrapped [OF crypto, of "rnd j" dek _ "uv_vault_id v" "slot_id s" _ d] nonces
    by (auto simp: slot_opens_def Let_def set_wrapped_dek_def own_binding_aad_def w split: sum.splits)
  with mem show ?thesis
    by (intro bexI [of _ "set_wrapped_dek s d"]) (simp_all add: set_wrapped_dek_def)
qed

definition op_random_ok :: "'j vault_op \<Rightarrow> bool" where
  "op_random_ok p \<longleftrightarrow>
     (case p of
        OpAddRecovery rnd _ _ _ \<Rightarrow> slot_random_ok rnd
      | OpAddPasskey rnd _ _ _ _ _ _ \<Rightarrow> slot_random_ok rnd
      | OpRotate rnd _ \<Rightarrow> (\<forall>i. length (wrap_nonce (rnd i)) = NONCE_LEN)
      | OpRemove rnd _ _ \<Rightarrow> (\<forall>i. length (wrap_nonce (rnd i)) = NONCE_LEN)
      | _ \<Rightarrow> True)"

lemma committed_vault:
  "committed c v w = (r, v', ds) \<Longrightarrow> v' = (if r = None then w else v)"
  by (auto simp: committed_def split: sum.splits)

lemma slot_opens_same:
  "uv_vault_id w = uv_vault_id v \<Longrightarrow> uv_format_version w = uv_format_version v \<Longrightarrow> uv_dek w = uv_dek v
     \<Longrightarrow> slot_opens lib w = slot_opens lib v"
  by (intro ext) (simp add: slot_opens_def Let_def split: sum.splits)

lemma position_others:
  "position P xs = Some i \<Longrightarrow> x \<in> set xs \<Longrightarrow> \<not> P x \<Longrightarrow> x \<in> set (take i xs @ drop (Suc i) xs)"
  by (induction xs arbitrary: i) (auto split: if_splits)

lemma position_found: "position P xs = Some i \<Longrightarrow> i < length xs \<and> P (xs ! i)"
  by (induction xs arbitrary: i) (auto split: if_splits)

text \<open>What an operation does to the recipients of a vault.\<close>

lemma op_keeps_credentials:
  assumes op: "run_vault_op lib env clk p v d = (r, v', ds)" and rnd: "op_random_ok p"
    and crypto: "crypto_ok (vl_crypto lib)"
    and s: "s \<in> set (uv_slots v)" "slot_opens lib v input_secret s"
    and kept: "\<And>rnd dek sid. p = OpRemove rnd dek sid \<Longrightarrow> r = None \<Longrightarrow> sid \<noteq> slot_id s"
  shows "\<exists>s'\<in>set (uv_slots v'). slot_id s' = slot_id s \<and> slot_kind s' = slot_kind s
    \<and> slot_opens lib v' input_secret s'"
proof -
  have same: ?thesis if "set (uv_slots v) \<subseteq> set (uv_slots v')" "uv_vault_id v' = uv_vault_id v"
    "uv_format_version v' = uv_format_version v" "uv_dek v' = uv_dek v"
    using s that by (auto simp: slot_opens_same [OF that(2-4)])
  have rotated: ?thesis
    if rot: "rotate_onto lib env rn dek v ss d = (x, v', ds)" and nonces: "\<forall>i. length (wrap_nonce (rn i)) = NONCE_LEN"
      and member: "x = Inr () \<Longrightarrow> s \<in> set ss" for rn dek ss x
  proof (cases x)
    case (Inl e)
    then have "v' = v"
      using rot by (auto simp: rotate_onto_def Let_def then_install_def split: sum.splits)
    then show ?thesis using same by simp
  next
    case (Inr u)
    then obtain ss' g where ss': "rewrap_slots (vl_crypto lib) rn 0 dek (uv_vault_id v) (uv_format_version v) ss = Inr ss'"
      "v' = v\<lparr>uv_slots := ss', uv_dek := dek, uv_dek_generation := g\<rparr>"
      using rot by (fastforce simp: rotate_onto_def Let_def then_install_def split: sum.splits)
    show ?thesis
      using rewrapped_opens [OF crypto nonces ss'(1) member s(2), of v'] Inr ss'(2) by simp
  qed
  show ?thesis
  proof (cases p)
    case (OpRotate rn dek)
    then obtain x where "rotate_onto lib env rn dek v (uv_slots v) d = (x, v', ds)"
      using op by (auto simp: rotate_dek_def error_of_def prod_eq_iff)
    then show ?thesis using rotated rnd s(1) OpRotate by (simp add: op_random_ok_def)
  next
    case (OpRemove rn dek sid)
    show ?thesis
    proof (cases "position (\<lambda>t. slot_id t = sid) (uv_slots v) = None \<or> length (uv_slots v) = 1")
      case True
      then have "v' = v" using op OpRemove by (auto simp: remove_slot_def split: option.splits)
      then show ?thesis using same by simp
    next
      case False
      then obtain i where i: "position (\<lambda>t. slot_id t = sid) (uv_slots v) = Some i" by auto
      let ?ss = "take i (uv_slots v) @ drop (Suc i) (uv_slots v)"
      obtain x where x: "rotate_onto lib env rn dek v ?ss d = (x, v', ds)" "r = (case x of Inl e \<Rightarrow> Some e | Inr _ \<Rightarrow> None)"
        using op OpRemove False i by (auto simp: remove_slot_def error_of_def prod_eq_iff)
      have "s \<in> set ?ss" if "x = Inr ()"
        using position_others [OF i, of s] s(1) kept [OF OpRemove] x(2) that by simp
      then show ?thesis using rotated [OF x(1)] rnd OpRemove by (simp add: op_random_ok_def)
    qed
  next
    case (OpUpsert e t)
    then show ?thesis using op
      by (intro same) (auto simp: vault_upsert_def write_entry_def error_of_install Let_def
          dest: committed_vault split: option.splits sum.splits if_splits)
  next
    case (OpUpsertCas e n t)
    then show ?thesis using op
      by (intro same) (auto simp: vault_upsert_cas_def write_entry_def error_of_install Let_def
          dest: committed_vault split: option.splits sum.splits if_splits)
  next
    case (OpClaim raw k n ttl)
    then show ?thesis using op
      by (intro same) (auto simp: claim_refresh_def error_of_install Let_def
          dest: committed_vault split: option.splits sum.splits if_splits)
  next
    case (OpRelease k t)
    then show ?thesis using op
      by (intro same) (auto simp: release_claim_def error_of_install Let_def
          dest: committed_vault split: option.splits sum.splits if_splits)
  next
    case (OpDelete k)
    then show ?thesis using op
      by (intro same) (auto simp: vault_delete_def error_of_install Let_def
          dest: committed_vault split: if_splits)
  next
    case (OpAddRecovery rn code salt l)
    then show ?thesis using op
      by (intro same) (auto simp: add_recovery_slot_def add_slot_def error_of_install Let_def
          dest: committed_vault split: sum.splits if_splits)
  next
    case (OpAddPasskey rn pr salt rp cid cpk l)
    then show ?thesis using op
      by (intro same) (auto simp: add_passkey_slot_def add_slot_def error_of_install Let_def
          dest: committed_vault split: sum.splits if_splits)
  qed
qed

subsection \<open>A run of operations\<close>

text \<open>
  A run in which the slot \<open>sid\<close> is never removed, and in which a failed commit failed before its
  rename took effect (a commit that fails later leaves the new file in place, see below).
\<close>

inductive vault_run ::
  "'j vault_lib \<Rightarrow> slot_id \<Rightarrow> 'j unlocked_vault \<Rightarrow> disk \<Rightarrow> 'j unlocked_vault \<Rightarrow> disk \<Rightarrow> bool"
  for lib :: "'j vault_lib" and sid :: slot_id and v0 :: "'j unlocked_vault" and d0 :: disk
where
  start: "vault_run lib sid v0 d0 v0 d0"
| step: "vault_run lib sid v0 d0 v d \<Longrightarrow> run_vault_op lib env clk p v d = (r, v', ds)
     \<Longrightarrow> length (ce_nonce env) = NONCE_LEN \<Longrightarrow> op_random_ok p
     \<Longrightarrow> (r \<noteq> None \<longrightarrow> fmlookup (last ds) (uv_path v) = fmlookup d (uv_path v))
     \<Longrightarrow> (r = None \<longrightarrow> (\<forall>rnd dek. p \<noteq> OpRemove rnd dek sid))
     \<Longrightarrow> vault_run lib sid v0 d0 v' (last ds)"

definition on_disk :: "'j vault_lib \<Rightarrow> 'j unlocked_vault \<Rightarrow> disk \<Rightarrow> bool" where
  "on_disk lib v d \<longleftrightarrow> (\<exists>bytes. fmlookup d (uv_path v) = Some bytes \<and> stored_as lib v bytes)"

lemma run_invariant:
  assumes "vault_run lib sid v0 d0 v d" and "crypto_ok (vl_crypto lib)" and "on_disk lib v0 d0"
    and "s0 \<in> set (uv_slots v0)" "slot_id s0 = sid" "slot_opens lib v0 input_secret s0"
  shows "on_disk lib v d \<and> uv_path v = uv_path v0
    \<and> (\<exists>s\<in>set (uv_slots v). slot_id s = sid \<and> slot_kind s = slot_kind s0 \<and> slot_opens lib v input_secret s)"
  using assms(1)
proof induction
  case start
  then show ?case using assms(3-6) by blast
next
  case (step v d env clk p r v' ds)
  then obtain s where s: "s \<in> set (uv_slots v)" "slot_id s = sid" "slot_kind s = slot_kind s0"
    "slot_opens lib v input_secret s" by blast
  note effect = vault_op_effect [OF step.hyps(2,3)]
  have "on_disk lib v' (last ds)"
  proof (cases r)
    case None
    then show ?thesis using effect step.IH by (auto simp: on_disk_def)
  next
    case (Some e)
    then have "v' = v" "fmlookup (last ds) (uv_path v) = fmlookup d (uv_path v)"
      using effect step.hyps(5) by auto
    then show ?thesis using step.IH by (auto simp: on_disk_def)
  qed
  moreover have "uv_path v' = uv_path v0" using effect step.IH by simp
  moreover have "\<exists>s'\<in>set (uv_slots v'). slot_id s' = slot_id s \<and> slot_kind s' = slot_kind s
      \<and> slot_opens lib v' input_secret s'"
    by (rule op_keeps_credentials [OF step.hyps(2,4) assms(2) s(1,4)]) (use step.hyps(6) s(2) in auto)
  ultimately show ?case using s(2,3) by auto
qed

lemma run_opens:
  assumes run: "vault_run lib sid v0 d0 v d" "crypto_ok (vl_crypto lib)" "on_disk lib v0 d0"
    and s0: "s0 \<in> set (uv_slots v0)" "slot_id s0 = sid" "slot_opens lib v0 input_secret s0"
    and fits: "vault_fits lib v"
    and refuse: "\<forall>t\<in>set (uv_slots v). slot_kind t = slot_kind s0 \<and> slot_id t \<noteq> sid
      \<longrightarrow> slot_refuses lib v input_secret t"
  shows "\<exists>lv. locked_open d (uv_path v0) = Inr lv
    \<and> unlock_with_secret lib lv input_secret (slot_kind s0) = Inr v"
proof -
  obtain s where s: "s \<in> set (uv_slots v)" "slot_id s = sid" "slot_kind s = slot_kind s0"
    "slot_opens lib v input_secret s" and disk: "on_disk lib v d" "uv_path v = uv_path v0"
    using run_invariant [OF run s0] by blast
  obtain pre post where slots: "uv_slots v = pre @ s # post"
    using split_list [OF s(1)] by blast
  have "distinct (map slot_id (uv_slots v))"
    using fits by (simp add: vault_fits_def header_ok_def header_of_def)
  then have pre: "\<forall>t\<in>set pre. slot_kind t = slot_kind s \<longrightarrow> slot_refuses lib v input_secret t"
    using refuse s(2,3) by (auto simp: slots image_iff)
  obtain bytes where b: "stored_as lib v bytes" "fmlookup d (uv_path v) = Some bytes"
    using disk(1) by (auto simp: on_disk_def)
  from unlock_stored [OF run(2) fits b slots s(4) pre] show ?thesis
    using disk(2) s(3) by auto
qed

lemma initialized:
  assumes init: "vault_initialize lib env rnd now vid dek code salt path d = (Inr (v0, c), ds)"
    and crypto: "crypto_ok (vl_crypto lib)" and rnd: "slot_random_ok rnd"
    and nonce: "length (ce_nonce env) = NONCE_LEN"
  shows "c = code \<and> uv_path v0 = path \<and> on_disk lib v0 (last ds)
    \<and> (\<exists>s. uv_slots v0 = [s] \<and> slot_id s = sr_slot_id rnd \<and> slot_kind s = RecoverySlot
         \<and> slot_opens lib v0 code s)
    \<and> fmlookup d path = None \<and> uv_entries v0 = fmempty"
proof -
  obtain s where s: "build_slot (vl_crypto lib) rnd now RecoverySlot dek vid VAULT_FORMAT_VERSION code salt
      [] [] [] ''recovery code'' = Inr s"
    using init by (auto simp: vault_initialize_def split: sum.splits)
  let ?v = "\<lparr>uv_path = path, uv_vault_id = vid, uv_format_version = VAULT_FORMAT_VERSION,
    uv_dek_generation = 1, uv_aead_alg = XChaCha20Poly1305, uv_kdf_alg = HkdfSha256,
    uv_slots = [s], uv_dek = dek, uv_entries = fmempty\<rparr>"
  have v: "v0 = ?v" "c = code"
    "storage_create_new (ce_sys env) path (file_bytes lib (ce_nonce env) ?v) d = (Inr (), ds)"
    using init s by (auto simp: vault_initialize_def file_bytes_def Let_def split: sum.splits prod.splits)
  have "slot_opens lib ?v code s"
    by (rule built_slot_opens [OF crypto rnd]) (use s in simp)
  moreover have "on_disk lib ?v (last ds)" "fmlookup d path = None"
    using create_states [OF v(3)] nonce by (auto simp: on_disk_def stored_as_def)
  ultimately show ?thesis using built_slot [OF s] v(1,2) by simp
qed


subsection \<open>A failure that is on disk\<close>

lemma late_failure:
  assumes "fmlookup d (temp_path suffix path) = None" and "sys = answers_ok\<lparr>sys_sync_dir := Some k\<rparr>"
  shows "\<exists>ds. storage_commit sys suffix path contents d = (Inl (VaultIo (fst path) k), ds)
    \<and> fmlookup (last ds) path = Some contents"
  using assms temp_path_other [of suffix path]
  by (auto simp: storage_commit_def answers_ok_def ensure_dir_def DIR_MODE_def write_and_sync_def Let_def
      remove_lookup rename_lookup)

lemma distinct_without:
  assumes "distinct xs" and "i < length xs"
  shows "xs ! i \<notin> set (take i xs @ drop (Suc i) xs)"
proof -
  have "distinct (take i xs @ xs ! i # drop (Suc i) xs)"
    using assms by (simp only: id_take_nth_drop [symmetric])
  then show ?thesis by auto
qed

text \<open>
  When only the last step of a commit fails, syncing the directory after the rename, a slot removal
  reports failure and stays undone in memory although the file already carries it: the slot is gone
  from the file and the data key has been replaced.
\<close>

theorem failed_removal_may_be_on_disk:
  assumes "position (\<lambda>s. slot_id s = sid) (uv_slots v) = Some i" and "1 < length (uv_slots v)"
    and "distinct (map slot_id (uv_slots v))"
    and "rewrap_slots (vl_crypto lib) rnd 0 new_dek (uv_vault_id v) (uv_format_version v)
      (take i (uv_slots v) @ drop (Suc i) (uv_slots v)) = Inr slots'"
    and "ce_sys env = answers_ok\<lparr>sys_sync_dir := Some k\<rparr>" and "length (ce_nonce env) = NONCE_LEN"
    and "fmlookup d (temp_path (ce_suffix env) (uv_path v)) = None"
  shows "\<exists>ds w bytes. remove_slot lib env rnd new_dek v sid d = (Inl (VaultIo (fst (uv_path v)) k), v, ds)
    \<and> fmlookup (last ds) (uv_path v) = Some bytes \<and> stored_as lib w bytes
    \<and> sid \<notin> slot_id ` set (uv_slots w) \<and> uv_dek w = new_dek"
proof -
  let ?w = "v\<lparr>uv_slots := slots', uv_dek := new_dek, uv_dek_generation := as_u64 (uv_dek_generation v + 1)\<rparr>"
  obtain ds where ds: "storage_commit (ce_sys env) (ce_suffix env) (uv_path v) (file_bytes lib (ce_nonce env) ?w) d
      = (Inl (VaultIo (fst (uv_path v)) k), ds)" "fmlookup (last ds) (uv_path v) = Some (file_bytes lib (ce_nonce env) ?w)"
    using late_failure [OF assms(7,5)] by blast
  have "commit_with_dek lib env v new_dek slots' (as_u64 (uv_dek_generation v + 1)) (uv_entries v) d
      = (Inl (VaultIo (fst (uv_path v)) k), ds)"
    using ds(1) by (simp add: commit_with_dek_def file_bytes_def encode_with_dek_def header_of_def)
  then have "remove_slot lib env rnd new_dek v sid d = (Inl (VaultIo (fst (uv_path v)) k), v, ds)"
    using assms(1,2,4) by (simp add: remove_slot_def rotate_onto_def then_install_def)
  moreover have "sid \<notin> slot_id ` set slots'"
  proof -
    have "map slot_id slots' = take i (map slot_id (uv_slots v)) @ drop (Suc i) (map slot_id (uv_slots v))"
      using rewrapped [OF assms(4)] by (simp add: take_map drop_map)
    moreover have "i < length (uv_slots v) \<and> slot_id (uv_slots v ! i) = sid"
      using position_found [OF assms(1)] by simp
    ultimately have "sid \<notin> set (map slot_id slots')"
      using distinct_without [OF assms(3), of i] by simp
    then show ?thesis by simp
  qed
  moreover have "stored_as lib ?w (file_bytes lib (ce_nonce env) ?w)"
    using assms(6) by (auto simp: stored_as_def)
  ultimately show ?thesis using ds(2) by (intro exI [of _ ds] exI [of _ ?w] exI) auto
qed

definition demo_crypto :: crypto_lib where
  "demo_crypto = \<lparr>aead_encrypt = (\<lambda>k n a p. p @ replicate 16 0),
     aead_decrypt = (\<lambda>k n a c. if length c < 16 then None else Some (take (length c - 16) c)),
     hkdf = (\<lambda>salt ikm info. replicate 32 0), x25519_public = (\<lambda>s. replicate 32 7),
     diffie_hellman = (\<lambda>s p. [1]), was_contributory = (\<lambda>x. True)\<rparr>"

definition demo_entry :: "string vault_entry" where
  "demo_entry = vault_entry_new ''ns/k'' [1, 2, 3] 5"

definition demo_vault_lib :: "string vault_lib" where
  "demo_vault_lib = \<lparr>vl_crypto = demo_crypto, vl_to_writer = (\<lambda>b. []),
     vl_from_slice = (\<lambda>bs. Some (vault_body_new [demo_entry]))\<rparr>"

definition demo_random :: slot_random where
  "demo_random = \<lparr>sr_slot_id = replicate 16 1, sr_secret = replicate 32 2, sr_nonce = replicate 24 3,
     sr_wrap = \<lparr>ephemeral_secret = replicate 32 4, wrap_nonce = replicate 24 5\<rparr>\<rparr>"

definition demo_env :: commit_env where
  "demo_env = \<lparr>ce_sys = answers_ok, ce_suffix = [9], ce_nonce = replicate 24 6\<rparr>"

lemma demo_crypto_ok: "crypto_ok (vl_crypto demo_vault_lib)"
  by (simp add: demo_vault_lib_def demo_crypto_def crypto_ok_def TAG_LEN_def PUBKEY_LEN_def)

lemma demo_ok: "slot_random_ok demo_random" "length (ce_nonce demo_env) = NONCE_LEN"
  by (simp_all add: demo_random_def demo_env_def slot_random_ok_def NONCE_LEN_def)

lemma demo_initialized:
  "\<exists>v0 ds s. vault_initialize demo_vault_lib demo_env demo_random 5 (replicate 16 8) (replicate 32 9)
       (replicate 32 10) (replicate 32 11) (''/d'', ''v'') fmempty = (Inr (v0, replicate 32 10), ds)
     \<and> uv_slots v0 = [s] \<and> slot_ok s \<and> slot_id s = sr_slot_id demo_random \<and> uv_entries v0 = fmempty
     \<and> uv_path v0 = (''/d'', ''v'') \<and> last ds = fmupd (''/d'', ''v'') (file_bytes demo_vault_lib (ce_nonce demo_env) v0) fmempty
     \<and> uv_vault_id v0 = replicate 16 8 \<and> uv_format_version v0 = 2 \<and> uv_dek_generation v0 = 1
     \<and> length (uv_dek v0) = KEY_LEN \<and> length (slot_encode s) \<le> 1000"
  by (simp add: vault_initialize_def build_slot_def generate_recipient_def wrap_dek_def demo_vault_lib_def
      demo_crypto_def demo_random_def Let_def seal_def storage_create_new_def demo_env_def answers_ok_def
      ensure_dir_def DIR_MODE_def slot_ok_def format_consts MAX_SLOT_FIELD_LEN_def string_bytes_def
      file_bytes_def KEY_LEN_def slot_encode_def put_blob_def)

lemma demo_fits:
  assumes "uv_slots v0 = [s]" "slot_ok s" "uv_vault_id v0 = replicate 16 8" "uv_format_version v0 = 2"
    "uv_dek_generation v0 = 1" "length (uv_dek v0) = KEY_LEN" "length (slot_encode s) \<le> 1000"
  shows "vault_fits demo_vault_lib (v0\<lparr>uv_entries := fmupd ''ns/k'' demo_entry fmempty\<rparr>)"
proof -
  have "btree_keys (fmupd ''ns/k'' demo_entry fmempty) = [''ns/k'']"
    by (simp add: btree_keys_def)
  then show ?thesis
    using assms
    by (simp add: vault_fits_def header_ok_def header_of_def format_consts MAX_SLOTS_def Let_def body_values_def
        demo_vault_lib_def demo_entry_def vault_entry_new_def NONCE_LEN_def TAG_LEN_def MAX_BODY_LEN_def
        MAX_FILE_LEN_def header_encode_def VAULT_MAGIC_def to_plaintext_def)
qed

lemma demo_upsert:
  assumes "uv_entries v0 = fmempty" and "fmlookup d (temp_path [9] (uv_path v0)) = None"
  shows "\<exists>ds. run_vault_op demo_vault_lib demo_env (\<lambda>_. 5) (OpUpsert demo_entry None) v0 d
    = (None, v0\<lparr>uv_entries := fmupd ''ns/k'' demo_entry fmempty\<rparr>, ds)"
  using assms commit_succeeds [of d "[9]" "uv_path v0"]
  by (simp add: vault_upsert_def write_entry_def Let_def error_of_install committed_def commit_vault_def
      commit_with_dek_def demo_env_def demo_entry_def vault_entry_new_def u64_max_def prod_eq_iff
      split: sum.splits)


definition demo_slot :: "u8 \<Rightarrow> vault_slot" where
  "demo_slot i = \<lparr>slot_id = replicate 16 i, slot_kind = RecoverySlot, slot_pubkey = replicate 32 7,
     slot_salt = replicate 32 0, created_at_epoch_ms = 0, wrapped_privkey = [],
     slot_wrapped_dek = \<lparr>ephemeral_pub = replicate 32 7, wrapped_sealed = []\<rparr>, rp_id = [],
     credential_id = [], slot_label = [], credential_public_key = []\<rparr>"

definition demo_claimed :: "string vault_entry" where
  "demo_claimed = demo_entry\<lparr>ve_refresh_claim := Some \<lparr>vc_token = ''T'', vc_claimed_at_epoch_ms = 0,
     vc_expires_at_epoch_ms = 100\<rparr>\<rparr>"

definition demo_vault :: "string unlocked_vault" where
  "demo_vault = \<lparr>uv_path = (''/d'', ''v''), uv_vault_id = replicate 16 8, uv_format_version = 2,
     uv_dek_generation = 1, uv_aead_alg = XChaCha20Poly1305, uv_kdf_alg = HkdfSha256,
     uv_slots = [demo_slot 1, demo_slot 2], uv_dek = replicate 32 9,
     uv_entries = fmupd ''ns/k'' demo_claimed fmempty\<rparr>"

theorem failed_removal_may_be_on_disk_witness:
  "\<exists>ds w bytes. remove_slot demo_vault_lib (demo_env\<lparr>ce_sys := answers_ok\<lparr>sys_sync_dir := Some OtherIo\<rparr>\<rparr>)
       (\<lambda>_. sr_wrap demo_random) (replicate 32 1) demo_vault (replicate 16 2) fmempty
     = (Inl (VaultIo (fst (uv_path demo_vault)) OtherIo), demo_vault, ds)
   \<and> fmlookup (last ds) (uv_path demo_vault) = Some bytes \<and> stored_as demo_vault_lib w bytes
   \<and> replicate 16 2 \<notin> slot_id ` set (uv_slots w) \<and> uv_dek w = replicate 32 1"
  by (rule failed_removal_may_be_on_disk [where i = 1 and slots' = "[set_wrapped_dek (demo_slot 1)
        \<lparr>ephemeral_pub = replicate 32 7, wrapped_sealed = replicate 24 5 @ replicate 32 1 @ replicate 16 0\<rparr>]"])
    (simp_all add: demo_vault_def demo_slot_def demo_env_def demo_vault_lib_def demo_crypto_def wrap_dek_def
      demo_random_def Let_def seal_def NONCE_LEN_def)

theorem vault_op_is_all_or_nothing_witness:
  "\<exists>v v' ds bytes. run_vault_op demo_vault_lib demo_env (\<lambda>_. 5) (OpUpsert demo_entry None) v
      (fmupd (uv_path v) (file_bytes demo_vault_lib (ce_nonce demo_env) v) fmempty) = (None, v', ds)
     \<and> fmlookup (last ds) (uv_path v') = Some bytes \<and> stored_as demo_vault_lib v' bytes"
proof -
  let ?v = "demo_vault\<lparr>uv_entries := fmempty\<rparr>"
  let ?d = "fmupd (uv_path ?v) (file_bytes demo_vault_lib (ce_nonce demo_env) ?v) fmempty"
  have "fmlookup ?d (temp_path [9] (uv_path ?v)) = None"
    using temp_path_other [of "[9]" "uv_path ?v"] by (auto simp del: fmlookup_dom_iff)
  then obtain ds where u: "run_vault_op demo_vault_lib demo_env (\<lambda>_. 5) (OpUpsert demo_entry None) ?v ?d
      = (None, ?v\<lparr>uv_entries := fmupd ''ns/k'' demo_entry fmempty\<rparr>, ds)"
    using demo_upsert [of ?v ?d] by auto
  have "stored_as demo_vault_lib ?v (file_bytes demo_vault_lib (ce_nonce demo_env) ?v)"
    using demo_ok(2) by (auto simp: stored_as_def)
  with vault_op_is_all_or_nothing [OF u demo_ok(2), of "file_bytes demo_vault_lib (ce_nonce demo_env) ?v"]
  obtain bytes where
    "fmlookup (last ds) (uv_path (?v\<lparr>uv_entries := fmupd ''ns/k'' demo_entry fmempty\<rparr>)) = Some bytes"
    "stored_as demo_vault_lib (?v\<lparr>uv_entries := fmupd ''ns/k'' demo_entry fmempty\<rparr>) bytes" by auto
  with u show ?thesis by blast
qed

end
