(* ===== verification/Vault_Arbiter.thy ===== *)
theory Vault_Arbiter
  imports Vault_Props
begin

text \<open>
  How the version and the claim of a vault entry arbitrate between its writers
  (\<open>crates/cache-warden-vault/src/vault.rs\<close>: \<open>upsert\<close>, \<open>upsert_cas\<close>, \<open>claim_refresh\<close>,
  \<open>release_claim\<close>).
\<close>

subsection \<open>One operation on one key\<close>

fun presents :: "'j vault_op \<Rightarrow> string \<Rightarrow> string \<Rightarrow> bool" where
  "presents (OpUpsert e t) k tok \<longleftrightarrow> ve_key e = k \<and> t = Some tok"
| "presents (OpUpsertCas e n t) k tok \<longleftrightarrow> ve_key e = k \<and> t = Some tok"
| "presents (OpRelease k' t) k tok \<longleftrightarrow> k' = k \<and> t = tok"
| "presents _ k tok \<longleftrightarrow> False"

text \<open>Only a write changes an entry beyond its claim, and only a delete removes it.\<close>

fun writes :: "'j vault_op \<Rightarrow> string \<Rightarrow> bool" where
  "writes (OpUpsert e t) k \<longleftrightarrow> ve_key e = k"
| "writes (OpUpsertCas e n t) k \<longleftrightarrow> ve_key e = k"
| "writes _ k \<longleftrightarrow> False"

lemma write_entry_lookup:
  assumes "error_of (write_entry lib env now v x n d) = (r, v', ds)"
  shows "fmlookup (uv_entries v') k =
    (if r = None \<and> k = ve_key x
     then Some (x\<lparr>ve_cas_version := n, ve_refresh_claim := None, ve_updated_at_epoch_ms := now\<rparr>)
     else fmlookup (uv_entries v) k)"
  using assms committed_vault
  by (auto simp: write_entry_def Let_def error_of_install dest!: committed_vault)

lemma fenced_write:
  assumes "check_claim e t now = Inr ()" and "active_claim_of e now = Some c"
  shows "t = Some (vc_token c)"
  using assms by (auto simp: check_claim_def claim_token_matches_def split: option.splits if_splits)

lemma rotate_entries:
  "error_of (rotate_onto lib env rnd dek v ss d) = (r, v', ds) \<Longrightarrow> uv_entries v' = uv_entries v"
  by (auto simp: rotate_onto_def Let_def error_of_install dest!: committed_vault split: sum.splits)

lemma slot_ops_entries:
  assumes "run_vault_op lib env clk p v d = (r, v', ds)"
    and "case p of OpUpsert _ _ \<Rightarrow> False | OpUpsertCas _ _ _ \<Rightarrow> False | OpClaim _ _ _ _ \<Rightarrow> False
      | OpRelease _ _ \<Rightarrow> False | OpDelete _ \<Rightarrow> False | _ \<Rightarrow> True"
  shows "uv_entries v' = uv_entries v"
  using assms
  by (cases p) (auto simp: add_recovery_slot_def add_passkey_slot_def add_slot_def rotate_dek_def
      remove_slot_def Let_def error_of_install dest!: committed_vault dest: rotate_entries
      split: sum.splits if_splits option.splits)

text \<open>
  Property C30.  While a refresh claim on an entry is active, no operation but one that presents the
  claim's own token changes the entry in any way; deleting it is the only exception.
\<close>

theorem claim_fences_out_others:
  assumes "run_vault_op lib env clk p v d = (r, v', ds)"
    and "fmlookup (uv_entries v) k = Some e" and "active_claim_of e (clk 0) = Some c"
    and "\<not> presents p k (vc_token c)" and "p \<noteq> OpDelete k"
  shows "fmlookup (uv_entries v') k = Some e"
proof (cases p)
  case (OpUpsert x t)
  show ?thesis
  proof (cases "ve_key x = k \<and> check_claim e t (clk 0) = Inr ()")
    case True
    then show ?thesis using fenced_write [OF _ assms(3)] assms(4) OpUpsert by auto
  next
    case False
    then show ?thesis
      using assms(1,2) OpUpsert write_entry_lookup [of lib env "clk 1" v x _ d r v' ds k]
      by (auto simp: vault_upsert_def Let_def split: sum.splits option.splits)
  qed
next
  case (OpUpsertCas x n t)
  show ?thesis
  proof (cases "ve_key x = k \<and> check_claim e t (clk 0) = Inr ()")
    case True
    then show ?thesis using fenced_write [OF _ assms(3)] assms(4) OpUpsertCas by auto
  next
    case False
    then show ?thesis
      using assms(1,2) OpUpsertCas write_entry_lookup [of lib env "clk 1" v x _ d r v' ds k]
      by (auto simp: vault_upsert_cas_def Let_def split: sum.splits option.splits if_splits)
  qed
next
  case (OpClaim raw k' n ttl)
  then show ?thesis
    using assms(1-3)
    by (auto simp: claim_refresh_def Let_def error_of_install dest!: committed_vault
        split: option.splits if_splits)
next
  case (OpRelease k' t)
  then show ?thesis
    using assms(1-4)
    by (auto simp: release_claim_def Let_def error_of_install claim_token_matches_def
        dest!: committed_vault split: option.splits if_splits)
next
  case (OpDelete k')
  then show ?thesis
    using assms(1,2,5)
    by (auto simp: vault_delete_def Let_def error_of_install dest!: committed_vault split: if_splits)
qed (use assms(1,2) slot_ops_entries [OF assms(1)] in auto)

lemma op_on_entry:
  assumes "run_vault_op lib env clk p v d = (r, v', ds)"
    and "fmlookup (uv_entries v) k = Some e" and "ve_cas_version e < u64_max" and "p \<noteq> OpDelete k"
  shows "\<exists>e'. fmlookup (uv_entries v') k = Some e'
    \<and> (if r = None \<and> writes p k then ve_cas_version e' = ve_cas_version e + 1 \<and> ve_refresh_claim e' = None
       else e'\<lparr>ve_refresh_claim := ve_refresh_claim e\<rparr> = e)"
proof -
  have small: "as_u64 (ve_cas_version e + 1) = ve_cas_version e + 1"
    "u64_saturating_add (ve_cas_version e) 1 = ve_cas_version e + 1"
    using assms(3) by (simp_all add: as_u64_def u64_max_def u64_saturating_add_def)
  show ?thesis
  proof (cases p)
    case (OpUpsert x t)
    then show ?thesis
      using assms(1,2) small write_entry_lookup [of lib env "clk 1" v x _ d r v' ds k]
      by (auto simp: vault_upsert_def Let_def split: sum.splits option.splits)
  next
    case (OpUpsertCas x n t)
    then show ?thesis
      using assms(1,2) small write_entry_lookup [of lib env "clk 1" v x _ d r v' ds k]
      by (auto simp: vault_upsert_cas_def Let_def split: sum.splits option.splits if_splits)
  next
    case (OpClaim raw k' n ttl)
    then show ?thesis
      using assms(1,2)
      by (auto simp: claim_refresh_def Let_def error_of_install dest!: committed_vault
          split: option.splits if_splits)
  next
    case (OpRelease k' t)
    then show ?thesis
      using assms(1,2)
      by (auto simp: release_claim_def Let_def error_of_install dest!: committed_vault
          split: option.splits if_splits)
  next
    case (OpDelete k')
    then show ?thesis
      using assms(1,2,4)
      by (auto simp: vault_delete_def Let_def error_of_install dest!: committed_vault split: if_splits)
  qed (use assms(1,2) slot_ops_entries [OF assms(1)] in auto)
qed


subsection \<open>The losers of a race\<close>

text \<open>Any number of operations that do not delete \<open>k\<close> and do not exhaust its version.\<close>

inductive keeps_key ::
  "'j vault_lib \<Rightarrow> string \<Rightarrow> 'j unlocked_vault \<Rightarrow> 'j unlocked_vault \<Rightarrow> bool"
  for lib :: "'j vault_lib" and k :: string and v0 :: "'j unlocked_vault"
where
  kept_start: "keeps_key lib k v0 v0"
| kept_op: "keeps_key lib k v0 v \<Longrightarrow> run_vault_op lib env clk p v d = (r, v', ds) \<Longrightarrow> p \<noteq> OpDelete k
     \<Longrightarrow> (\<forall>e. fmlookup (uv_entries v) k = Some e \<longrightarrow> ve_cas_version e < u64_max)
     \<Longrightarrow> keeps_key lib k v0 v'"

lemma keeps_version:
  assumes "keeps_key lib k v0 v" and "fmlookup (uv_entries v0) k = Some e0"
  shows "\<exists>e. fmlookup (uv_entries v) k = Some e \<and> ve_cas_version e0 \<le> ve_cas_version e"
  using assms(1)
proof induction
  case kept_start
  then show ?case using assms(2) by simp
next
  case (kept_op v env clk p d r v' ds)
  then obtain e where e: "fmlookup (uv_entries v) k = Some e" "ve_cas_version e0 \<le> ve_cas_version e" by blast
  obtain e' where e': "fmlookup (uv_entries v') k = Some e'"
    "if r = None \<and> writes p k then ve_cas_version e' = ve_cas_version e + 1 \<and> ve_refresh_claim e' = None
     else e'\<lparr>ve_refresh_claim := ve_refresh_claim e\<rparr> = e"
    using op_on_entry [OF kept_op.hyps(2) e(1) _ kept_op.hyps(3)] kept_op.hyps(4) e(1) by blast
  have "ve_cas_version e \<le> ve_cas_version e'"
  proof (cases "r = None \<and> writes p k")
    case False
    then have "ve_cas_version (e'\<lparr>ve_refresh_claim := ve_refresh_claim e\<rparr>) = ve_cas_version e"
      using e'(2) by (simp del: vault_entry.simps) 
    then show ?thesis by simp
  qed (use e' in simp)
  with e e' show ?case by auto
qed


subsection \<open>Concrete instances\<close>

theorem claim_fences_out_others_witness:
  "fmlookup (uv_entries (fst (snd (run_vault_op demo_vault_lib demo_env (\<lambda>_. 5) (OpUpsert demo_entry None)
     demo_vault fmempty)))) ''ns/k'' = Some demo_claimed"
proof -
  obtain r v' ds where u: "run_vault_op demo_vault_lib demo_env (\<lambda>_. 5) (OpUpsert demo_entry None)
      demo_vault fmempty = (r, v', ds)" by (metis prod_cases3)
  have "fmlookup (uv_entries v') ''ns/k'' = Some demo_claimed"
    by (rule claim_fences_out_others [OF u])
      (auto simp: demo_vault_def demo_claimed_def active_claim_of_def vault_claim_active_at_def)
  then show ?thesis by (simp only: u fst_conv snd_conv)
qed

lemma demo_cas:
  "\<exists>ds. vault_upsert_cas demo_vault_lib demo_env (\<lambda>_. 5) demo_vault demo_entry 1 (Some ''T'') fmempty
    = (Inr 2, demo_vault\<lparr>uv_entries := fmupd ''ns/k'' (demo_entry\<lparr>ve_cas_version := 2\<rparr>) fmempty\<rparr>, ds)"
  using commit_succeeds [of fmempty "[9]" "uv_path demo_vault"]
  by (simp add: vault_upsert_cas_def write_entry_def Let_def then_install_def commit_vault_def check_claim_def
      commit_with_dek_def demo_env_def demo_entry_def vault_entry_new_def as_u64_def prod_eq_iff demo_vault_def
      demo_claimed_def active_claim_of_def vault_claim_active_at_def claim_token_matches_def numeral_2_eq_2
      split: sum.splits)



end
