(* ===== verification/Vault_State.thy ===== *)
theory Vault_State
  imports Vault Wire
begin

text \<open>
  The daemon's view of the vault (\<open>crates/cache-warden-cli/src/daemon/vault_state.rs\<close>): not created
  yet, closed, or open.  Opening reads the file again; the random bytes of a new vault and the answers
  of the file system are arguments.
\<close>

datatype vault_init_error = InitAlreadyExists | InitVault vault_error

datatype vault_unlock_error = UnlockNotInitialized | UnlockVault vault_error

datatype 'j vault_state =
  NotInitialized file_path
| VaultClosed locked_vault
| VaultOpen "'j unlocked_vault"

definition vault_state_open_at :: "disk \<Rightarrow> file_path \<Rightarrow> 'j vault_state vault_result" where
  "vault_state_open_at d loc =
     (case locked_open d loc of
        Inr v \<Rightarrow> Inr (VaultClosed v)
      | Inl (VaultIo _ IoNotFound) \<Rightarrow> Inr (NotInitialized loc)
      | Inl e \<Rightarrow> Inl e)"

fun vault_state_path :: "'j vault_state \<Rightarrow> file_path" where
  "vault_state_path (NotInitialized loc) = loc"
| "vault_state_path (VaultClosed v) = lv_path v"
| "vault_state_path (VaultOpen v) = uv_path v"

fun is_unlocked :: "'j vault_state \<Rightarrow> bool" where
  "is_unlocked (VaultOpen v) = True"
| "is_unlocked _ = False"

fun unlocked :: "'j vault_state \<Rightarrow> 'j unlocked_vault option" where
  "unlocked (VaultOpen v) = Some v"
| "unlocked _ = None"

fun vault_state_has_dev_rp_slot :: "'j vault_state \<Rightarrow> bool" where
  "vault_state_has_dev_rp_slot (NotInitialized loc) = False"
| "vault_state_has_dev_rp_slot (VaultClosed v) = has_dev_rp_slot (locked_slots v)"
| "vault_state_has_dev_rp_slot (VaultOpen v) = has_dev_rp_slot (uv_slots v)"

text \<open>The random bytes of a new vault.\<close>

record init_random =
  ir_slot :: slot_random
  ir_vault_id :: vault_id
  ir_dek :: "u8 list"
  ir_code :: "u8 list"
  ir_salt :: "u8 list"

definition vault_state_init ::
  "'j vault_lib \<Rightarrow> commit_env \<Rightarrow> init_random \<Rightarrow> nat \<Rightarrow> 'j vault_state \<Rightarrow> disk
   \<Rightarrow> (vault_init_error + (vault_id \<times> u8 list)) \<times> 'j vault_state \<times> disk list"
where
  "vault_state_init lib ce rnd now st d =
     (case st of
        NotInitialized loc \<Rightarrow>
          (case vault_initialize lib ce (ir_slot rnd) now (ir_vault_id rnd) (ir_dek rnd) (ir_code rnd)
                  (ir_salt rnd) loc d of
             (Inl e, ds) \<Rightarrow> (Inl (InitVault e), st, ds)
           | (Inr (v, recovery), ds) \<Rightarrow> (Inr (uv_vault_id v, recovery), VaultOpen v, ds))
      | _ \<Rightarrow> (Inl InitAlreadyExists, st, [d]))"

text \<open>The two ways to open differ in the credential; the file is read again in both.\<close>

definition reopen ::
  "(locked_vault \<Rightarrow> 'j unlocked_vault vault_result) \<Rightarrow> disk \<Rightarrow> 'j vault_state
   \<Rightarrow> (vault_unlock_error + unit) \<times> 'j vault_state"
where
  "reopen credential d st =
     (case st of
        VaultOpen v \<Rightarrow> (Inr (), st)
      | NotInitialized loc \<Rightarrow> (Inl UnlockNotInitialized, st)
      | VaultClosed v \<Rightarrow>
          (case rbind (locked_open d (lv_path v)) credential of
             Inl e \<Rightarrow> (Inl (UnlockVault e), st)
           | Inr u \<Rightarrow> (Inr (), VaultOpen u)))"

definition vault_state_unlock ::
  "'j vault_lib \<Rightarrow> u8 list \<Rightarrow> disk \<Rightarrow> 'j vault_state \<Rightarrow> (vault_unlock_error + unit) \<times> 'j vault_state"
where
  "vault_state_unlock lib recovery = reopen (\<lambda>v. unlock_with_recovery_code lib v recovery)"

definition vault_state_unlock_with_prf_output ::
  "'j vault_lib \<Rightarrow> u8 list \<Rightarrow> disk \<Rightarrow> 'j vault_state \<Rightarrow> (vault_unlock_error + unit) \<times> 'j vault_state"
where
  "vault_state_unlock_with_prf_output lib prf = reopen (\<lambda>v. unlock_with_prf_output lib v prf)"

definition vault_state_lock :: "disk \<Rightarrow> 'j vault_state \<Rightarrow> unit vault_result \<times> 'j vault_state" where
  "vault_state_lock d st =
     (if is_unlocked st
      then (case vault_state_open_at d (vault_state_path st) of
              Inl e \<Rightarrow> (Inl e, st)
            | Inr st' \<Rightarrow> (Inr (), st'))
      else (Inr (), st))"

fun status_wire :: "'j vault_state \<Rightarrow> vault_status_wire" where
  "status_wire (NotInitialized loc) =
     \<lparr>vsw_state = WireNotInitialized, vsw_vault_id = None, vsw_slots = None, vsw_dek_generation = None,
      vsw_dev_rp_slot = False\<rparr>"
| "status_wire (VaultClosed v) =
     (let h = file_header (lv_file v) in
      \<lparr>vsw_state = WireLocked, vsw_vault_id = Some (id_display (header_vault_id h)),
       vsw_slots = Some (length (header_slots h)), vsw_dek_generation = Some (header_generation h),
       vsw_dev_rp_slot = has_dev_rp_slot (header_slots h)\<rparr>)"
| "status_wire (VaultOpen v) =
     \<lparr>vsw_state = WireUnlocked, vsw_vault_id = Some (id_display (uv_vault_id v)),
      vsw_slots = Some (length (uv_slots v)), vsw_dek_generation = Some (uv_dek_generation v),
      vsw_dev_rp_slot = has_dev_rp_slot (uv_slots v)\<rparr>"

definition resolve_path ::
  "(string \<Rightarrow> string option) \<Rightarrow> string option \<Rightarrow> string option \<Rightarrow> string option"
where
  "resolve_path ce loc profile =
     (case loc of
        Some p \<Rightarrow> Some p
      | None \<Rightarrow>
          map_option
            (\<lambda>dir. path_text (vault_path dir (case profile of None \<Rightarrow> DEFAULT_PROFILE | Some p \<Rightarrow> p)))
            (default_state_dir ce))"

subsection \<open>Opening and closing\<close>

lemma open_at_cases:
  assumes "vault_state_open_at d loc = Inr st"
  shows "(\<exists>v. locked_open d loc = Inr v \<and> st = VaultClosed v)
    \<or> (\<exists>p. locked_open d loc = Inl (VaultIo p IoNotFound) \<and> st = NotInitialized loc)"
  using assms
  by (auto simp: vault_state_open_at_def split: sum.splits vault_error.splits io_kind.splits)

lemma open_at_closed: "vault_state_open_at d loc = Inr st \<Longrightarrow> \<not> is_unlocked st"
  by (auto dest: open_at_cases)

lemma locked_open_path: "locked_open d loc = Inr v \<Longrightarrow> lv_path v = loc"
  by (auto simp: locked_open_def rbind_def split: sum.splits)

lemma open_at_path: "vault_state_open_at d loc = Inr st \<Longrightarrow> vault_state_path st = loc"
  by (auto dest!: open_at_cases locked_open_path)

lemma locked_after_lock: "vault_state_lock d st = (Inr (), st') \<Longrightarrow> \<not> is_unlocked st'"
  by (auto simp: vault_state_lock_def open_at_closed split: if_splits sum.splits)

lemma failed_lock_keeps: "vault_state_lock d st = (Inl e, st') \<Longrightarrow> st' = st"
  by (auto simp: vault_state_lock_def split: if_splits sum.splits)

lemma failed_reopen_keeps: "reopen credential d st = (Inl e, st') \<Longrightarrow> st' = st"
  by (auto simp: reopen_def split: vault_state.splits sum.splits)

lemma reopen_unlocks: "reopen credential d st = (Inr (), st') \<Longrightarrow> is_unlocked st'"
  by (auto simp: reopen_def split: vault_state.splits sum.splits)

end
