(* ===== verification/Handler.thy ===== *)
theory Handler
  imports Store_Machine Guard_Plan Vault_State Handoff
begin

text \<open>
  The daemon's brain (\<open>crates/cache-warden-cli/src/daemon/handler.rs\<close>): every request of the control
  protocol, against the store and the vault.  A handler returns its response, the daemon's state
  afterwards and what it did to the outside (prompts and upstream commands).  The texts of the error
  messages and the daemon's own log lines are left out, and so is the poisoning of the vault's mutex,
  which needs a panic of another request.
\<close>

subsection \<open>What a request is handled with\<close>

datatype guard_check_mode = Evaluate | AlreadyApproved

text \<open>
  The context of one request.  The clocks are the successive readings of the request, some of them
  skipped on some paths.  \<open>hc_satisfies\<close> is the code-signature verifier at the connection's audit
  token, \<open>hc_signed_by_supported\<close> whether the platform has code signing; base 64, JSON and the
  derivation of a one-time code from its seed are parameters.
\<close>

record 'j handler_ctx =
  hc_auth :: authenticator
  hc_runner :: source_runner
  hc_clock :: clock
  hc_wall :: "nat \<Rightarrow> nat"
  hc_cap :: capability
  hc_otp_cap :: capability
  hc_derive_code :: "u8 list \<Rightarrow> value_meta \<Rightarrow> string + string"
  hc_pid :: "32 word"
  hc_version :: string
  hc_socket :: string
  hc_full_disk_access :: "fda_status_wire option"
  hc_requester :: "process_info list option"
  hc_kv_process_policies :: "(string, string list) fmap"
  hc_satisfies :: "owner_principal \<Rightarrow> bool"
  hc_signed_by_supported :: bool
  hc_persisted_keys :: "string fset"
  hc_guard_chain :: "getter_process list option"
  hc_guard_audit_token :: "getter_audit_token option"
  hc_kv_policy :: kv_policy
  hc_guard_check_mode :: guard_check_mode
  hc_mlock :: mlock
  hc_decode_b64 :: "string \<Rightarrow> u8 list option"
  hc_encode_b64 :: "u8 list \<Rightarrow> string"
  hc_guard_to_json :: "snapshot_guard \<Rightarrow> 'j option"
  hc_guard_of_json :: "'j \<Rightarrow> snapshot_guard option"
  hc_owner_to_json :: "owner_principal \<Rightarrow> 'j option"
  hc_owner_of_json :: "'j \<Rightarrow> owner_principal option"
  hc_vault_lib :: "'j vault_lib"
  hc_commit_env :: commit_env
  hc_claim_bytes :: "u8 list"
  hc_init_random :: init_random

record 'j daemon_state =
  dm_store :: store
  dm_vault :: "'j vault_state option"
  dm_disk :: disk

type_synonym 'j outcome = "response \<times> 'j daemon_state \<times> effect list"

definition reply_only :: "'j daemon_state \<Rightarrow> response \<Rightarrow> 'j outcome" where
  "reply_only dm resp = (resp, dm, [])"

text \<open>\<open>if let Some(resp) = ... { return resp; }\<close>\<close>

definition unless_refused ::
  "'j daemon_state \<Rightarrow> response option \<Rightarrow> 'j outcome \<Rightarrow> 'j outcome"
where
  "unless_refused dm refused continue =
     (case refused of Some resp \<Rightarrow> reply_only dm resp | None \<Rightarrow> continue)"

definition readings_from :: "nat \<Rightarrow> (nat \<Rightarrow> 'a) \<Rightarrow> nat \<Rightarrow> 'a" where
  "readings_from n clk = (\<lambda>i. clk (n + i))"

definition as_secs :: "duration \<Rightarrow> nat" where
  "as_secs d = d div 1000000000"

definition secs_of_ms :: "nat \<Rightarrow> nat" where
  "secs_of_ms ms = (ms + 999) div 1000"

definition opt_from_secs :: "nat option \<Rightarrow> duration option" where
  "opt_from_secs = map_option from_secs"

definition meta_from_wire :: "value_meta_wire \<Rightarrow> value_meta" where
  "meta_from_wire m =
     (case vmw_type_label m of
        None \<Rightarrow>
          (if vmw_params m = fmempty then value_meta_new
           else \<lparr>type_label = Some [], params = vmw_params m\<rparr>)
      | Some label \<Rightarrow> \<lparr>type_label = Some label, params = vmw_params m\<rparr>)"

subsection \<open>Gates on the key\<close>

definition validate_protocol_key :: "string \<Rightarrow> response option" where
  "validate_protocol_key key = (if split_composed key \<noteq> None then None else Some (resp_error BadRequest))"

definition reject_reserved_namespace_write :: "string \<Rightarrow> response option" where
  "reject_reserved_namespace_write key =
     (case split_composed key of
        Some (ns, _) \<Rightarrow> (if is_reserved_namespace ns then Some (resp_error BadRequest) else None)
      | None \<Rightarrow> None)"

definition reject_reserved_namespace_read :: "string \<Rightarrow> response option" where
  "reject_reserved_namespace_read key =
     (case split_once (CHR ''/'') key of
        Some (ns, _) \<Rightarrow> (if is_reserved_namespace ns then Some (resp_error BadRequest) else None)
      | None \<Rightarrow> None)"

definition require_owner :: "store \<Rightarrow> 'j handler_ctx \<Rightarrow> string \<Rightarrow> response option" where
  "require_owner s ctx key =
     (case owner_of s key of
        None \<Rightarrow> None
      | Some owner \<Rightarrow> (if hc_satisfies ctx owner then None else Some (resp_error AuthFailed)))"

definition parse_signed_by :: "'j handler_ctx \<Rightarrow> signed_by_wire \<Rightarrow> response + owner_principal" where
  "parse_signed_by ctx decl =
     (if \<not> hc_signed_by_supported ctx then Inl (resp_error BadRequest)
      else map_err (\<lambda>_. resp_error BadRequest)
             (owner_declare (sbw_anchor decl) (sbw_team_id decl) (sbw_identifier decl)))"

text \<open>The process-access gate (\<open>crates/cache-warden-authsock/src/process_policy.rs\<close>).\<close>

definition chain_allowed :: "process_info list \<Rightarrow> string list \<Rightarrow> bool" where
  "chain_allowed chain allowed \<longleftrightarrow>
     allowed = []
     \<or> list_ex (\<lambda>info. case process_name info of Some name \<Rightarrow> name \<in> set allowed | None \<Rightarrow> False) chain"

definition chain_gate_passes :: "process_info list option \<Rightarrow> string list \<Rightarrow> bool" where
  "chain_gate_passes requester allowed =
     (if allowed = [] then True
      else (case requester of Some chain \<Rightarrow> chain_allowed chain allowed | None \<Rightarrow> False))"

subsection \<open>What the vault says about a key\<close>

definition vault_is_unlocked :: "'j vault_state option \<Rightarrow> bool" where
  "vault_is_unlocked vault = (case vault of None \<Rightarrow> True | Some st \<Rightarrow> is_unlocked st)"

definition locked_keys :: "'j handler_ctx \<Rightarrow> 'j vault_state option \<Rightarrow> string fset" where
  "locked_keys ctx vault = (if vault_is_unlocked vault then {||} else hc_persisted_keys ctx)"

datatype vault_ownership = Unrelated | OwnedByVault | UnavailableVault response

definition vault_ownership :: "'j handler_ctx \<Rightarrow> 'j vault_state option \<Rightarrow> string \<Rightarrow> vault_ownership" where
  "vault_ownership ctx vault key =
     (case vault of
        None \<Rightarrow> Unrelated
      | Some (VaultOpen v) \<Rightarrow> (if fmlookup (uv_entries v) key \<noteq> None then OwnedByVault else Unrelated)
      | Some st \<Rightarrow>
          (if key |\<notin>| hc_persisted_keys ctx then Unrelated
           else (case st of
                   VaultClosed _ \<Rightarrow> UnavailableVault (resp_error VaultLocked)
                 | _ \<Rightarrow> UnavailableVault (resp_error VaultNotInitialized))))"

definition require_unlocked_vault :: "'j vault_state option \<Rightarrow> response option" where
  "require_unlocked_vault vault =
     (case vault of
        None \<Rightarrow> Some (resp_error VaultNotInitialized)
      | Some (VaultOpen _) \<Rightarrow> None
      | Some (VaultClosed _) \<Rightarrow> Some (resp_error VaultLocked)
      | Some (NotInitialized _) \<Rightarrow> Some (resp_error VaultNotInitialized))"

subsection \<open>The claim fence\<close>

definition MAX_CLAIM_SECS :: nat where "MAX_CLAIM_SECS = 3600"

definition held_token_matches :: "string \<Rightarrow> string \<Rightarrow> bool" where
  "held_token_matches stored supplied =
     (case (claim_token_parse stored, claim_token_parse supplied) of
        (Inr a, Inr b) \<Rightarrow> claim_token_matches a b
      | _ \<Rightarrow> False)"

definition active_refresh_claim :: "store \<Rightarrow> string \<Rightarrow> nat \<Rightarrow> refresh_claim option" where
  "active_refresh_claim s key now =
     (case refresh_claim_of s key of
        None \<Rightarrow> None
      | Some c \<Rightarrow> (if is_active_at c now then Some c else None))"

definition check_claim_fence :: "store \<Rightarrow> string \<Rightarrow> string option \<Rightarrow> nat \<Rightarrow> response option" where
  "check_claim_fence s key tok now =
     (case active_refresh_claim s key now of
        None \<Rightarrow> None
      | Some active \<Rightarrow>
          (case tok of
             None \<Rightarrow> Some (resp_error ClaimTokenMismatch)
           | Some t \<Rightarrow>
               (if \<not> held_token_matches (claim_token active) t then Some (resp_error ClaimTokenMismatch)
                else None)))"

subsection \<open>Setting\<close>

text \<open>After the value is stored: the guard, the version and the claim.\<close>

definition settle_set ::
  "'j handler_ctx \<Rightarrow> string \<Rightarrow> guard_record option \<Rightarrow> store \<Rightarrow> response \<times> store"
where
  "settle_set ctx key plan s1 =
     (let cap = hc_cap ctx;
          guarded =
            (case plan of
               Some g \<Rightarrow>
                 (case set_guard s1 key g cap of
                    (Inl _, s2) \<Rightarrow> (Inl (resp_error Internal), snd (store_delete s2 key cap))
                  | (Inr _, s2) \<Rightarrow> (Inr (map constraint_kind_label (constraints g)), s2))
             | None \<Rightarrow>
                 (case clear_guard s1 key cap of
                    (Inl _, s2) \<Rightarrow> (Inl (resp_error Internal), s2)
                  | (Inr _, s2) \<Rightarrow> (Inr [], s2)))
      in case guarded of
           (Inl resp, s2) \<Rightarrow> (resp, s2)
         | (Inr labels, s2) \<Rightarrow>
             (case bump_version s2 key cap of
                (Inl _, s3) \<Rightarrow> (resp_error Internal, s3)
              | (Inr version, s3) \<Rightarrow>
                  (case clear_refresh_claim s3 key cap of
                     (Inl _, s4) \<Rightarrow> (resp_error Internal, s4)
                   | (Inr _, s4) \<Rightarrow> (set_ack_with_guard_and_version labels version, s4))))"

definition handle_set ::
  "store \<Rightarrow> 'j handler_ctx \<Rightarrow> string \<Rightarrow> string \<Rightarrow> nat option \<Rightarrow> nat option
   \<Rightarrow> guard_constraint_wire list \<Rightarrow> response \<times> store"
where
  "handle_set s ctx key value_b64 soft_secs hard_secs decl =
     (case validate_protocol_key key of
        Some resp \<Rightarrow> (resp, s)
      | None \<Rightarrow>
     (case reject_reserved_namespace_write key of
        Some resp \<Rightarrow> (resp, s)
      | None \<Rightarrow>
     (case plan_guard_record decl (hc_kv_policy ctx) (hc_guard_audit_token ctx) (hc_guard_chain ctx) of
        Inl resp \<Rightarrow> (resp, s)
      | Inr plan \<Rightarrow>
     (case ttl_new (opt_from_secs soft_secs) (opt_from_secs hard_secs) of
        Inl _ \<Rightarrow> (resp_error BadRequest, s)
      | Inr t \<Rightarrow>
     (case hc_decode_b64 ctx value_b64 of
        None \<Rightarrow> (resp_error BadRequest, s)
      | Some bytes \<Rightarrow>
     (case store_set s key Static (secret_new (hc_mlock ctx) bytes) t (hc_cap ctx) (hc_clock ctx 0) of
        (Inl (SetInvalidKey _), s1) \<Rightarrow> (resp_error BadRequest, s1)
      | (Inl SetCapMismatch, s1) \<Rightarrow> (resp_error Internal, s1)
      | (Inr _, s1) \<Rightarrow> settle_set ctx key plan s1))))))"

text \<open>\<open>map(...).transpose()\<close> of a fallible conversion on an optional value.\<close>

definition convert_opt :: "('a \<Rightarrow> 'b option) \<Rightarrow> 'a option \<Rightarrow> 'b option option" where
  "convert_opt f x = (case x of None \<Rightarrow> Some None | Some a \<Rightarrow> map_option Some (f a))"

definition write_through_to_vault ::
  "store \<Rightarrow> 'j handler_ctx \<Rightarrow> 'j vault_state option \<Rightarrow> disk \<Rightarrow> string \<Rightarrow> string \<Rightarrow> string option
   \<Rightarrow> response option \<times> 'j vault_state option \<times> disk"
where
  "write_through_to_vault s ctx vault d key value_b64 tok =
     (case hc_decode_b64 ctx value_b64 of
        None \<Rightarrow> (Some (resp_error BadRequest), vault, d)
      | Some bytes \<Rightarrow>
     (case vault of
        None \<Rightarrow> (Some (resp_error VaultNotInitialized), vault, d)
      | Some st \<Rightarrow>
     (case unlocked st of
        None \<Rightarrow> (Some (resp_error VaultLocked), vault, d)
      | Some v \<Rightarrow>
     (case convert_opt (hc_guard_to_json ctx \<circ> guard_record_to_snapshot) (guard_of s key) of
        None \<Rightarrow> (Some (resp_error Internal), vault, d)
      | Some guard_json \<Rightarrow>
     (case convert_opt (hc_owner_to_json ctx) (owner_of s key) of
        None \<Rightarrow> (Some (resp_error Internal), vault, d)
      | Some owner_json \<Rightarrow>
     (let entry = (vault_entry_new key bytes (hc_wall ctx 1))
                    \<lparr>ve_cas_version := version_of s key, ve_guard := guard_json, ve_owner := owner_json\<rparr>;
          parsed = (case tok of
                   None \<Rightarrow> None
                 | Some t \<Rightarrow> (case claim_token_parse t of Inl _ \<Rightarrow> None | Inr p \<Rightarrow> Some p))
      in case vault_upsert (hc_vault_lib ctx) (hc_commit_env ctx) (readings_from 2 (hc_wall ctx)) v entry parsed d of
           (r, v', ds) \<Rightarrow>
             ((case r of Inr _ \<Rightarrow> None | Inl _ \<Rightarrow> Some (resp_error Internal)),
              Some (VaultOpen v'), last ds)))))))"

definition report_owner :: "store \<Rightarrow> string \<Rightarrow> response \<Rightarrow> response" where
  "report_owner s key resp =
     (case (owner_of s key, resp) of
        (Some owner, RespOk (SetPayload guards version _)) \<Rightarrow>
          RespOk (SetPayload guards version (Some (owner_summary owner)))
      | _ \<Rightarrow> resp)"

definition declared_owner_of ::
  "'j handler_ctx \<Rightarrow> signed_by_wire option \<Rightarrow> response + owner_principal option"
where
  "declared_owner_of ctx decl =
     (case decl of
        None \<Rightarrow> Inr None
      | Some w \<Rightarrow> (case parse_signed_by ctx w of Inl resp \<Rightarrow> Inl resp | Inr p \<Rightarrow> Inr (Some p)))"

definition wants_persistence :: "'j handler_ctx \<Rightarrow> set_request \<Rightarrow> bool" where
  "wants_persistence ctx r \<longleftrightarrow> set_persist r = Some True \<or> set_key r |\<in>| hc_persisted_keys ctx"

text \<open>What is decided before anything is written, in the order of the code.\<close>

definition set_refusal :: "'j daemon_state \<Rightarrow> 'j handler_ctx \<Rightarrow> set_request \<Rightarrow> response option" where
  "set_refusal dm ctx r =
     (let s = dm_store dm; key = set_key r in
      if wants_persistence ctx r \<and> set_hard_ttl_secs r \<noteq> None then Some (resp_error BadRequest)
      else case (if wants_persistence ctx r then require_unlocked_vault (dm_vault dm) else None) of
             Some resp \<Rightarrow> Some resp
           | None \<Rightarrow>
               (case set_expected_version r of
                  Some expected \<Rightarrow>
                    (if version_of s key \<noteq> expected then Some (cas_mismatch (version_of s key))
                     else check_claim_fence s key (set_claim_token r) (hc_wall ctx 0))
                | None \<Rightarrow> check_claim_fence s key (set_claim_token r) (hc_wall ctx 0)))"

definition handle_kv_set :: "'j daemon_state \<Rightarrow> 'j handler_ctx \<Rightarrow> set_request \<Rightarrow> 'j outcome" where
  "handle_kv_set dm ctx r =
     (let key = set_key r; persist = wants_persistence ctx r in
      unless_refused dm (validate_protocol_key key)
     (unless_refused dm (require_owner (dm_store dm) ctx key)
     (case declared_owner_of ctx (set_signed_by r) of
        Inl resp \<Rightarrow> reply_only dm resp
      | Inr declared_owner \<Rightarrow>
      unless_refused dm (set_refusal dm ctx r)
     (let (resp, s1) = handle_set (dm_store dm) ctx key (set_value_b64 r) (set_soft_ttl_secs r)
                         (if persist then None else set_hard_ttl_secs r) (set_guard_constraints r)
      in if \<not> is_ok resp then (resp, dm\<lparr>dm_store := s1\<rparr>, [])
         else (let s2 = (case declared_owner of
                           None \<Rightarrow> s1 | Some p \<Rightarrow> snd (set_owner s1 key p (hc_cap ctx)));
                   resp' = report_owner s2 key resp;
                   dm2 = dm\<lparr>dm_store := s2\<rparr>
               in if \<not> persist then (resp', dm2, [])
                  else (case write_through_to_vault s2 ctx (dm_vault dm) (dm_disk dm) key
                               (set_value_b64 r) (set_claim_token r) of
                          (failed, vault', d') \<Rightarrow>
                            ((case failed of Some e \<Rightarrow> e | None \<Rightarrow> resp'),
                             dm2\<lparr>dm_vault := vault', dm_disk := d'\<rparr>, [])))))))"

subsection \<open>The vault's entries in the store\<close>

text \<open>One key of \<open>install_vault_entries\<close>: whether it was restored, and the store afterwards.\<close>

definition restore_entry ::
  "'j handler_ctx \<Rightarrow> monotonic \<Rightarrow> nat \<Rightarrow> 'j unlocked_vault \<Rightarrow> string \<Rightarrow> store \<Rightarrow> bool \<times> store"
where
  "restore_entry ctx now wall v key s =
     (let cap = hc_cap ctx; undo = (\<lambda>s'. (False, snd (store_delete s' key cap))) in
      case fmlookup (uv_entries v) key of
        None \<Rightarrow> (False, s)
      | Some e \<Rightarrow>
     (case ttl_new (case ve_definition e of
                      None \<Rightarrow> None | Some df \<Rightarrow> map_option from_millis (vd_soft_ttl_ms df)) None of
        Inl _ \<Rightarrow> (False, s)
      | Inr t \<Rightarrow>
     (case (convert_opt (hc_guard_of_json ctx) (ve_guard e), convert_opt (hc_owner_of_json ctx) (ve_owner e)) of
        (None, _) \<Rightarrow> (False, s)
      | (_, None) \<Rightarrow> (False, s)
      | (Some g, Some own) \<Rightarrow>
     (case store_set s key Static (secret_new (hc_mlock ctx) (ve_secret e)) t cap now of
        (Inl _, s1) \<Rightarrow> (False, s1)
      | (Inr _, s1) \<Rightarrow>
     (case restore_version s1 key (ve_cas_version e) cap of
        (Inl _, s2) \<Rightarrow> undo s2
      | (Inr _, s2) \<Rightarrow>
     (case (case g of
              None \<Rightarrow> (Inr (), s2)
            | Some record' \<Rightarrow> set_guard s2 key (snapshot_to_guard_record record') cap) of
        (Inl _, s3) \<Rightarrow> undo s3
      | (Inr _, s3) \<Rightarrow>
     (case (case own of None \<Rightarrow> (Inr (), s3) | Some p \<Rightarrow> set_owner s3 key p cap) of
        (Inl _, s4) \<Rightarrow> undo s4
      | (Inr _, s4) \<Rightarrow>
          (True,
           (case vault_active_claim v key wall of
              None \<Rightarrow> s4
            | Some c \<Rightarrow>
                snd (set_refresh_claim s4 key
                       (refresh_claim_new (vc_token c) (vc_claimed_at_epoch_ms c)
                          (vc_expires_at_epoch_ms c)) cap))))))))))"

fun install_keys ::
  "'j handler_ctx \<Rightarrow> nat \<Rightarrow> 'j unlocked_vault \<Rightarrow> string list \<Rightarrow> nat \<Rightarrow> store \<Rightarrow> nat \<times> store"
where
  "install_keys ctx i v [] restored s = (restored, s)"
| "install_keys ctx i v (key # keys) restored s =
     (let (ok, s') = restore_entry ctx (hc_clock ctx i) (hc_wall ctx i) v key s in
      install_keys ctx (Suc i) v keys (if ok then restored + 1 else restored) s')"

definition install_vault_entries ::
  "'j handler_ctx \<Rightarrow> 'j unlocked_vault \<Rightarrow> store \<Rightarrow> nat \<times> store"
where
  "install_vault_entries ctx v s = install_keys ctx 0 v (btree_keys (uv_entries v)) 0 s"

subsection \<open>Claims\<close>

text \<open>\<open>Ok(None)\<close>: the key is not the vault's.\<close>

definition take_claim_in_vault ::
  "'j handler_ctx \<Rightarrow> 'j vault_state option \<Rightarrow> disk \<Rightarrow> string \<Rightarrow> nat \<Rightarrow> nat
   \<Rightarrow> (response + string option) \<times> 'j vault_state option \<times> disk"
where
  "take_claim_in_vault ctx vault d key expected duration_secs =
     (case vault of
        Some (VaultOpen v) \<Rightarrow>
          (if fmlookup (uv_entries v) key = None then (Inr None, vault, d)
           else (case claim_refresh (hc_vault_lib ctx) (hc_commit_env ctx) (hc_claim_bytes ctx) (hc_wall ctx 1)
                        v key expected (from_secs duration_secs) d of
                   (r, v', ds) \<Rightarrow>
                     ((case r of
                         Inr tok \<Rightarrow> Inr (Some tok)
                       | Inl (VaultCasMismatch current) \<Rightarrow> Inl (cas_mismatch current)
                       | Inl (VaultAlreadyClaimed expires) \<Rightarrow>
                           Inl (already_claimed (secs_of_ms (expires - hc_wall ctx 2)))
                       | Inl _ \<Rightarrow> Inl (resp_error Internal)),
                      Some (VaultOpen v'), last ds)))
      | _ \<Rightarrow> (Inr None, vault, d))"

definition release_claim_in_vault ::
  "'j handler_ctx \<Rightarrow> 'j vault_state option \<Rightarrow> disk \<Rightarrow> string \<Rightarrow> string
   \<Rightarrow> response option \<times> 'j vault_state option \<times> disk"
where
  "release_claim_in_vault ctx vault d key tok =
     (case vault of
        Some (VaultOpen v) \<Rightarrow>
          (if fmlookup (uv_entries v) key = None then (None, vault, d)
           else (case claim_token_parse tok of
                   Inl _ \<Rightarrow> (Some (resp_error Internal), vault, d)
                 | Inr parsed \<Rightarrow>
                     (case release_claim (hc_vault_lib ctx) (hc_commit_env ctx) (hc_wall ctx 1) v key parsed d of
                        (r, v', ds) \<Rightarrow>
                          ((case r of Inr _ \<Rightarrow> None | Inl _ \<Rightarrow> Some (resp_error Internal)),
                           Some (VaultOpen v'), last ds))))
      | _ \<Rightarrow> (None, vault, d))"

definition unavailable :: "vault_ownership \<Rightarrow> response option" where
  "unavailable ow = (case ow of UnavailableVault resp \<Rightarrow> Some resp | _ \<Rightarrow> None)"

definition handle_claim ::
  "'j daemon_state \<Rightarrow> 'j handler_ctx \<Rightarrow> string \<Rightarrow> nat \<Rightarrow> nat \<Rightarrow> 'j outcome"
where
  "handle_claim dm ctx key expected_version duration_secs =
     (let s = dm_store dm; current = version_of s key; now = hc_wall ctx 0 in
      unless_refused dm (validate_protocol_key key)
     (unless_refused dm (unavailable (vault_ownership ctx (dm_vault dm) key))
     (if \<not> has_value s key then reply_only dm (resp_error ErrNotFound)
      else if duration_secs = 0 \<or> MAX_CLAIM_SECS < duration_secs then reply_only dm (resp_error BadRequest)
      else if current \<noteq> expected_version then reply_only dm (cas_mismatch current)
      else case active_refresh_claim s key now of
             Some active \<Rightarrow> reply_only dm (already_claimed (secs_of_ms (remaining_ms active now)))
           | None \<Rightarrow>
               (case take_claim_in_vault ctx (dm_vault dm) (dm_disk dm) key current duration_secs of
                  (Inl resp, vault', d') \<Rightarrow> (resp, dm\<lparr>dm_vault := vault', dm_disk := d'\<rparr>, [])
                | (Inr from_vault, vault', d') \<Rightarrow>
                    (let tok = (case from_vault of
                                  Some t \<Rightarrow> t | None \<Rightarrow> claim_token_generate (hc_claim_bytes ctx));
                         expires = u64_saturating_add now (min (duration_secs * 1000) u64_max);
                         c = refresh_claim_new tok now expires;
                         dm' = dm\<lparr>dm_vault := vault', dm_disk := d'\<rparr>
                     in case set_refresh_claim s key c (hc_cap ctx) of
                          (Inl _, s') \<Rightarrow> (resp_error Internal, dm'\<lparr>dm_store := s'\<rparr>, [])
                        | (Inr _, s') \<Rightarrow>
                            (claimed_ack current tok duration_secs, dm'\<lparr>dm_store := s'\<rparr>, []))))))"

definition handle_unclaim ::
  "'j daemon_state \<Rightarrow> 'j handler_ctx \<Rightarrow> string \<Rightarrow> string \<Rightarrow> 'j outcome"
where
  "handle_unclaim dm ctx key tok =
     (let s = dm_store dm in
      unless_refused dm (validate_protocol_key key)
     (unless_refused dm (unavailable (vault_ownership ctx (dm_vault dm) key))
     (unless_refused dm
        (case active_refresh_claim s key (hc_wall ctx 0) of
           None \<Rightarrow> None
         | Some active \<Rightarrow>
             (if \<not> held_token_matches (claim_token active) tok then Some (resp_error ClaimTokenMismatch)
              else None))
     (case release_claim_in_vault ctx (dm_vault dm) (dm_disk dm) key tok of
        (failed, vault', d') \<Rightarrow>
          (let dm' = dm\<lparr>dm_vault := vault', dm_disk := d'\<rparr> in
           case failed of
             Some resp \<Rightarrow> (resp, dm', [])
           | None \<Rightarrow>
               (case clear_refresh_claim s key (hc_cap ctx) of
                  (Inl _, s') \<Rightarrow> (resp_error Internal, dm'\<lparr>dm_store := s'\<rparr>, [])
                | (Inr _, s') \<Rightarrow> (RespOk Unclaimed, dm'\<lparr>dm_store := s'\<rparr>, [])))))))"

subsection \<open>Deleting\<close>

definition delete_from_vault ::
  "'j handler_ctx \<Rightarrow> 'j vault_state option \<Rightarrow> disk \<Rightarrow> string
   \<Rightarrow> response option \<times> 'j vault_state option \<times> disk"
where
  "delete_from_vault ctx vault d key =
     (case vault of
        None \<Rightarrow> (None, vault, d)
      | Some (VaultOpen v) \<Rightarrow>
          (case vault_delete (hc_vault_lib ctx) (hc_commit_env ctx) v key d of
             (r, v', ds) \<Rightarrow>
               ((case r of Inr _ \<Rightarrow> None | Inl _ \<Rightarrow> Some (resp_error Internal)),
                Some (VaultOpen v'), last ds))
      | Some _ \<Rightarrow> (Some (resp_error VaultLocked), vault, d))"

text \<open>\<open>unwrap_or(false)\<close>\<close>

definition ok_or_false :: "'e + bool \<Rightarrow> bool" where
  "ok_or_false r = (case r of Inl _ \<Rightarrow> False | Inr b \<Rightarrow> b)"

definition handle_del ::
  "'j daemon_state \<Rightarrow> 'j handler_ctx \<Rightarrow> string \<Rightarrow> bool \<Rightarrow> 'j outcome"
where
  "handle_del dm ctx key with_define =
     (let s = dm_store dm in
      case vault_ownership ctx (dm_vault dm) key of
        UnavailableVault resp \<Rightarrow> reply_only dm resp
      | Unrelated \<Rightarrow>
          (case (if with_define then delete_with_definition s key (hc_cap ctx)
                 else store_delete s key (hc_cap ctx)) of
             (r, s') \<Rightarrow> (RespOk (Deleted (ok_or_false r)), dm\<lparr>dm_store := s'\<rparr>, []))
      | OwnedByVault \<Rightarrow>
          (case delete_from_vault ctx (dm_vault dm) (dm_disk dm) key of
             (failed, vault', d') \<Rightarrow>
               (let dm' = dm\<lparr>dm_vault := vault', dm_disk := d'\<rparr> in
                case failed of
                  Some resp \<Rightarrow> (resp, dm', [])
                | None \<Rightarrow>
                    (RespOk (Deleted True),
                     dm'\<lparr>dm_store := snd (delete_with_definition s key (hc_cap ctx))\<rparr>, []))))"

subsection \<open>Creating, opening and closing the vault\<close>

definition handle_vault_init :: "'j daemon_state \<Rightarrow> 'j handler_ctx \<Rightarrow> 'j outcome" where
  "handle_vault_init dm ctx =
     (case dm_vault dm of
        None \<Rightarrow> reply_only dm (resp_error VaultNotInitialized)
      | Some st \<Rightarrow>
          (case vault_state_init (hc_vault_lib ctx) (hc_commit_env ctx) (hc_init_random ctx) (hc_wall ctx 0)
                  st (dm_disk dm) of
             (r, st', ds) \<Rightarrow>
               ((case r of
                   Inl _ \<Rightarrow> resp_error BadRequest
                 | Inr (vid, recovery) \<Rightarrow>
                     RespOk (VaultInitialized (id_display vid) (recovery_render recovery))),
                dm\<lparr>dm_vault := Some st', dm_disk := last ds\<rparr>, [])))"

definition handle_vault_unlock :: "'j daemon_state \<Rightarrow> 'j handler_ctx \<Rightarrow> string \<Rightarrow> 'j outcome" where
  "handle_vault_unlock dm ctx recovery_text =
     (case dm_vault dm of
        None \<Rightarrow> reply_only dm (resp_error VaultNotInitialized)
      | Some st \<Rightarrow>
     (case recovery_parse_str recovery_text of
        Inl _ \<Rightarrow> reply_only dm (resp_error BadRequest)
      | Inr recovery \<Rightarrow>
     (case vault_state_unlock (hc_vault_lib ctx) recovery (dm_disk dm) st of
        (Inr _, st') \<Rightarrow>
          (let (restored, s') = (case unlocked st' of
                                   None \<Rightarrow> (0, dm_store dm)
                                 | Some v \<Rightarrow> install_vault_entries ctx v (dm_store dm))
           in (RespOk (VaultUnlocked restored), dm\<lparr>dm_store := s', dm_vault := Some st'\<rparr>, []))
      | (Inl UnlockNotInitialized, st') \<Rightarrow>
          (resp_error VaultNotInitialized, dm\<lparr>dm_vault := Some st'\<rparr>, [])
      | (Inl (UnlockVault _), st') \<Rightarrow> (resp_error AuthFailed, dm\<lparr>dm_vault := Some st'\<rparr>, []))))"

definition evict :: "capability \<Rightarrow> string list \<Rightarrow> store \<Rightarrow> store" where
  "evict cap keys s = fold (\<lambda>key s. snd (store_delete s key cap)) keys s"

definition handle_vault_lock :: "'j daemon_state \<Rightarrow> 'j handler_ctx \<Rightarrow> 'j outcome" where
  "handle_vault_lock dm ctx =
     (case dm_vault dm of
        None \<Rightarrow> reply_only dm (resp_error VaultNotInitialized)
      | Some st \<Rightarrow>
     (case unlocked st of
        None \<Rightarrow> reply_only dm (RespOk VaultLockedAck)
      | Some v \<Rightarrow>
     (case vault_state_lock (dm_disk dm) st of
        (Inl _, st') \<Rightarrow> (resp_error Internal, dm\<lparr>dm_vault := Some st'\<rparr>, [])
      | (Inr _, st') \<Rightarrow>
          (RespOk VaultLockedAck,
           dm\<lparr>dm_vault := Some st',
              dm_store := evict (hc_cap ctx) (btree_keys (uv_entries v)) (dm_store dm)\<rparr>, []))))"

end
