(* ===== verification/Handler_Dispatch.thy ===== *)
theory Handler_Dispatch
  imports Handler
begin

text \<open>
  The reading half of the request handler (\<open>crates/cache-warden-cli/src/daemon/handler.rs\<close>): the
  retrieval chain of \<open>kv.get\<close> with its gates, definitions, pins, the value-free listings, and the
  dispatch over all requests.  The one-time-password adapter is \<open>daemon/otp_adapter.rs\<close>.
\<close>

subsection \<open>One-time passwords\<close>

definition OTP_TYPE :: string where "OTP_TYPE = ''otp''"

definition meta_is_otp :: "value_meta \<Rightarrow> bool" where
  "meta_is_otp m \<longleftrightarrow> type_label m = Some OTP_TYPE"

definition meta_of :: "store \<Rightarrow> string \<Rightarrow> value_meta" where
  "meta_of s key = (case definition_of s key of None \<Rightarrow> value_meta_new | Some d \<Rightarrow> def_meta d)"

datatype otp_error = OtpCap cap_error | OtpNoValue | OtpDerive string

definition otp_get_code ::
  "'j handler_ctx \<Rightarrow> store \<Rightarrow> string \<Rightarrow> monotonic \<Rightarrow> (otp_error + string) \<times> store"
where
  "otp_get_code ctx s key now =
     (let vmeta = meta_of s key in
      case store_get s key (hc_otp_cap ctx) now of
        (Inl e, s') \<Rightarrow> (Inl (OtpCap e), s')
      | (Inr None, s') \<Rightarrow> (Inl OtpNoValue, s')
      | (Inr (Some secret), s') \<Rightarrow>
          (map_err OtpDerive (with_exposed secret (\<lambda>seed. hc_derive_code ctx seed vmeta)), s'))"

subsection \<open>Shaping the answer\<close>

definition finish_get :: "store \<Rightarrow> 'j handler_ctx \<Rightarrow> string \<Rightarrow> bool \<Rightarrow> string \<Rightarrow> response \<times> store" where
  "finish_get s ctx key dry_run st =
     (if meta_is_otp (meta_of s key)
      then (case otp_get_code ctx s key (hc_clock ctx 7) of
              (Inr digits, s') \<Rightarrow>
                (if dry_run then (RespOk (GetVerified st), s')
                 else (RespOk (GetPayload (hc_encode_b64 ctx (string_bytes digits))), s'))
            | (Inl (OtpDerive _), s') \<Rightarrow> (resp_error BadRequest, s')
            | (Inl _, s') \<Rightarrow> (resp_error Internal, s'))
      else (case store_get s key (hc_cap ctx) (hc_clock ctx 7) of
              (Inr (Some secret), s') \<Rightarrow>
                (if dry_run then (RespOk (GetVerified st), s')
                 else (with_exposed secret (\<lambda>bytes. RespOk (GetPayload (hc_encode_b64 ctx bytes))), s'))
            | (_, s') \<Rightarrow> (resp_error Internal, s')))"

text \<open>\<open>store.get(...).ok().flatten().is_some()\<close>\<close>

definition value_readable :: "store \<Rightarrow> 'j handler_ctx \<Rightarrow> string \<Rightarrow> monotonic \<Rightarrow> bool \<times> store" where
  "value_readable s ctx key now =
     (case store_get s key (hc_cap ctx) now of
        (Inr (Some _), s') \<Rightarrow> (True, s')
      | (_, s') \<Rightarrow> (False, s'))"

definition finish_if_readable :: "store \<Rightarrow> 'j handler_ctx \<Rightarrow> string \<Rightarrow> bool \<Rightarrow> response \<times> store" where
  "finish_if_readable s ctx key dry_run =
     (case value_readable s ctx key (hc_clock ctx 6) of
        (True, s') \<Rightarrow> finish_get s' ctx key dry_run ''active''
      | (False, s') \<Rightarrow> (resp_error Internal, s'))"

subsection \<open>Recovering a value that is not readable\<close>

definition with_effects :: "response \<times> store \<Rightarrow> effect list \<Rightarrow> response \<times> store \<times> effect list" where
  "with_effects p effs = (fst p, snd p, effs)"

definition lazy_generate ::
  "store \<Rightarrow> 'j handler_ctx \<Rightarrow> string \<Rightarrow> bool \<Rightarrow> response \<times> store \<times> effect list"
where
  "lazy_generate s ctx key dry_run =
     (case get_or_regenerate s key (hc_runner ctx) (hc_auth ctx) (hc_requester ctx) (hc_cap ctx)
             (readings_from 2 (hc_clock ctx)) of
        (Inr _, s', effs) \<Rightarrow> with_effects (finish_if_readable s' ctx key dry_run) effs
      | (Inl DefUndefined, s', effs) \<Rightarrow> (resp_error ErrNotFound, s', effs)
      | (Inl DefValueResident, s', effs) \<Rightarrow> with_effects (finish_if_readable s' ctx key dry_run) effs
      | (Inl (DefRunFailed _), s', effs) \<Rightarrow> (resp_error UpstreamFailed, s', effs)
      | (Inl (DefAuthFailed _), s', effs) \<Rightarrow> (resp_error AuthFailed, s', effs)
      | (Inl (DefBackoff _), s', effs) \<Rightarrow> (resp_error UpstreamFailed, s', effs)
      | (Inl DefCapMismatch, s', effs) \<Rightarrow> (resp_error Internal, s', effs))"

definition extend_and_read ::
  "store \<Rightarrow> 'j handler_ctx \<Rightarrow> string \<Rightarrow> bool \<Rightarrow> response \<times> store \<times> effect list"
where
  "extend_and_read s ctx key dry_run =
     (case extend_authenticated s key (hc_auth ctx) (hc_requester ctx) (hc_cap ctx)
             (readings_from 2 (hc_clock ctx)) of
        (Inr _, s', effs) \<Rightarrow> with_effects (finish_if_readable s' ctx key dry_run) effs
      | (Inl ExtAuthNotFound, s', effs) \<Rightarrow> (resp_error ErrNotFound, s', effs)
      | (Inl ExtAuthHardExpired, s', effs) \<Rightarrow> (resp_error AuthFailed, s', effs)
      | (Inl (ExtAuthFailed _), s', effs) \<Rightarrow> (resp_error AuthFailed, s', effs)
      | (Inl ExtAuthCapMismatch, s', effs) \<Rightarrow> (resp_error Internal, s', effs))"

definition regenerate_and_read ::
  "store \<Rightarrow> 'j handler_ctx \<Rightarrow> string \<Rightarrow> bool \<Rightarrow> response \<times> store \<times> effect list"
where
  "regenerate_and_read s ctx key dry_run =
     (case store_regenerate s key (hc_runner ctx) (hc_auth ctx) (hc_requester ctx) (hc_cap ctx)
             (readings_from 2 (hc_clock ctx)) of
        (Inr _, s', effs) \<Rightarrow> with_effects (finish_if_readable s' ctx key dry_run) effs
      | (Inl RegenNotFound, s', effs) \<Rightarrow> (resp_error ErrNotFound, s', effs)
      | (Inl RegenNotRegenerable, s', effs) \<Rightarrow> (resp_error NotRegenerable, s', effs)
      | (Inl RegenNotHardExpired, s', effs) \<Rightarrow> (resp_error Internal, s', effs)
      | (Inl (RegenRunFailed _), s', effs) \<Rightarrow> (resp_error UpstreamFailed, s', effs)
      | (Inl (RegenAuthFailed _), s', effs) \<Rightarrow> (resp_error AuthFailed, s', effs)
      | (Inl (RegenBackoff _), s', effs) \<Rightarrow> (resp_error UpstreamFailed, s', effs)
      | (Inl RegenCapMismatch, s', effs) \<Rightarrow> (resp_error Internal, s', effs))"

subsection \<open>Reading\<close>

definition process_refusal :: "'j handler_ctx \<Rightarrow> string \<Rightarrow> response option" where
  "process_refusal ctx key =
     (case fmlookup (hc_kv_process_policies ctx) key of
        None \<Rightarrow> None
      | Some allowed \<Rightarrow>
          (if chain_gate_passes (hc_requester ctx) allowed then None else Some (resp_error AuthFailed)))"

definition guard_refusal :: "store \<Rightarrow> 'j handler_ctx \<Rightarrow> string \<Rightarrow> response option" where
  "guard_refusal s ctx key =
     (if hc_guard_check_mode ctx = Evaluate
      then (case guard_of s key of
              None \<Rightarrow> None
            | Some g \<Rightarrow>
                (case hc_guard_chain ctx of
                   None \<Rightarrow> Some (resp_error AuthFailed)
                 | Some chain \<Rightarrow>
                     (case evaluate_guard chain (hc_guard_audit_token ctx) g of
                        Inr _ \<Rightarrow> None
                      | Inl _ \<Rightarrow> Some (resp_error AuthFailed))))
      else None)"

fun first_refusal :: "response option list \<Rightarrow> response option" where
  "first_refusal [] = None"
| "first_refusal (Some resp # gates) = Some resp"
| "first_refusal (None # gates) = first_refusal gates"

text \<open>The four gates, in the order of the code; none of them changes anything.\<close>

definition get_refusal :: "store \<Rightarrow> 'j handler_ctx \<Rightarrow> string \<Rightarrow> response option" where
  "get_refusal s ctx key =
     first_refusal
       [reject_reserved_namespace_read key, require_owner s ctx key, process_refusal ctx key,
        guard_refusal s ctx key]"

text \<open>No value is resident.\<close>

definition get_absent ::
  "store \<Rightarrow> 'j handler_ctx \<Rightarrow> 'j vault_state option \<Rightarrow> string \<Rightarrow> bool \<Rightarrow> response \<times> store \<times> effect list"
where
  "get_absent s ctx vault key dry_run =
     (case unavailable (vault_ownership ctx vault key) of
        Some resp \<Rightarrow> (resp, s, [])
      | None \<Rightarrow>
          (if is_defined s key then lazy_generate s ctx key dry_run
           else if key |\<in>| hc_persisted_keys ctx then (resp_error NotRegenerable, s, [])
           else (resp_error ErrNotFound, s, [])))"

definition retrieve ::
  "store \<Rightarrow> 'j handler_ctx \<Rightarrow> 'j vault_state option \<Rightarrow> string \<Rightarrow> bool \<Rightarrow> response \<times> store \<times> effect list"
where
  "retrieve s ctx vault key dry_run =
     (case value_readable s ctx key (hc_clock ctx 0) of
        (True, s0) \<Rightarrow> with_effects (finish_get s0 ctx key dry_run ''active'') []
      | (False, s0) \<Rightarrow>
          (case store_state_of s0 key (hc_clock ctx 1) of
             (None, s1) \<Rightarrow> get_absent s1 ctx vault key dry_run
           | (Some Active, s1) \<Rightarrow> (resp_error Internal, s1, [])
           | (Some SoftExpired, s1) \<Rightarrow> extend_and_read s1 ctx key dry_run
           | (Some HardExpired, s1) \<Rightarrow>
               (if is_defined s1 key then lazy_generate s1 ctx key dry_run
                else regenerate_and_read s1 ctx key dry_run)))"

definition handle_get :: "'j daemon_state \<Rightarrow> 'j handler_ctx \<Rightarrow> string \<Rightarrow> bool \<Rightarrow> 'j outcome" where
  "handle_get dm ctx key dry_run =
     unless_refused dm (get_refusal (dm_store dm) ctx key)
       (case retrieve (dm_store dm) ctx (dm_vault dm) key dry_run of
          (resp, s', effs) \<Rightarrow> (resp, dm\<lparr>dm_store := s'\<rparr>, effs))"

subsection \<open>Defining and pinning\<close>

definition handle_define ::
  "store \<Rightarrow> string \<Rightarrow> source_spec_wire \<Rightarrow> nat option \<Rightarrow> nat option \<Rightarrow> value_meta_wire \<Rightarrow> response \<times> store"
where
  "handle_define s key spec soft_secs hard_secs vmeta =
     (case validate_protocol_key key of
        Some resp \<Rightarrow> (resp, s)
      | None \<Rightarrow>
     (case reject_reserved_namespace_write key of
        Some resp \<Rightarrow> (resp, s)
      | None \<Rightarrow>
     (if \<not> spec_validate spec then (resp_error BadRequest, s)
      else
     (case ttl_new (opt_from_secs soft_secs) (opt_from_secs hard_secs) of
        Inl _ \<Rightarrow> (resp_error BadRequest, s)
      | Inr t \<Rightarrow>
     (case define_with_meta s key (spec_lower spec) t (meta_from_wire vmeta) (to_source_meta spec) of
        (Inr _, s') \<Rightarrow> (RespOk Defined, s')
      | (Inl _, s') \<Rightarrow> (resp_error BadRequest, s'))))))"

definition handle_pin :: "store \<Rightarrow> 'j handler_ctx \<Rightarrow> string \<Rightarrow> nat \<Rightarrow> response \<times> store \<times> effect list" where
  "handle_pin s ctx key duration_secs =
     (let deadline = mono_saturating_add (hc_clock ctx 0) (from_secs duration_secs) in
      case pin_authenticated s key deadline (hc_auth ctx) (hc_requester ctx) (hc_cap ctx)
             (readings_from 1 (hc_clock ctx)) of
        (Inr _, s', effs) \<Rightarrow> (RespOk (PinnedAck duration_secs), s', effs)
      | (Inl PinNotFound, s', effs) \<Rightarrow> (resp_error ErrNotFound, s', effs)
      | (Inl PinAuthHardExpired, s', effs) \<Rightarrow> (resp_error ErrHardExpired, s', effs)
      | (Inl (PinAuthFailed _), s', effs) \<Rightarrow> (resp_error AuthFailed, s', effs)
      | (Inl PinCapMismatch, s', effs) \<Rightarrow> (resp_error Internal, s', effs))"

subsection \<open>Listings\<close>

fun state_str :: "entry_state \<Rightarrow> string" where
  "state_str Active = ''active''"
| "state_str SoftExpired = ''soft_expired''"
| "state_str HardExpired = ''hard_expired''"

definition entry_info_of ::
  "store \<Rightarrow> 'j handler_ctx \<Rightarrow> string fset \<Rightarrow> nat \<Rightarrow> string \<Rightarrow> entry_info option"
where
  "entry_info_of s ctx hidden i name =
     (let now = hc_clock ctx 0; wall = hc_wall ctx 0; defd = is_defined s name;
          def = definition_of s name
      in map_option
           (\<lambda>st. \<lparr>ei_name = name, ei_state = st,
                  ei_regenerable =
                    (defd \<or> (case source_of s name of None \<Rightarrow> False | Some src \<Rightarrow> is_regenerable src)),
                  ei_defined = defd, ei_has_value = has_value s name,
                  ei_pin_remaining_secs =
                    map_option (\<lambda>dl. as_secs (saturating_duration_since dl now)) (pin_deadline_of s name),
                  ei_value_type =
                    (case def of
                       None \<Rightarrow> None
                     | Some d \<Rightarrow>
                         (case type_label (def_meta d) of
                            None \<Rightarrow> None | Some t \<Rightarrow> (if t = [] then None else Some t))),
                  ei_source =
                    (case def of None \<Rightarrow> None | Some d \<Rightarrow> source_meta_display (def_source_meta d)),
                  ei_backoff_until_secs =
                    map_option as_secs (failure_backoff_remaining s name (hc_clock ctx (2 * i + 2))),
                  ei_guard_summary = map_option summarize_guard_record (guard_of s name),
                  ei_owner_summary = map_option owner_summary (owner_of s name),
                  ei_version = (if version_of s name = 0 then None else Some (version_of s name)),
                  ei_claim_expires_in_secs =
                    map_option (\<lambda>c. secs_of_ms (remaining_ms c wall)) (active_refresh_claim s name wall),
                  ei_locked = (name |\<in>| hidden)\<rparr>)
           (case entry_state_pure s name (hc_clock ctx (2 * i + 1)) of
              Some st \<Rightarrow> Some (state_str st)
            | None \<Rightarrow> (if defd then Some ''defined'' else None)))"

fun entry_infos ::
  "store \<Rightarrow> 'j handler_ctx \<Rightarrow> string fset \<Rightarrow> nat \<Rightarrow> string list \<Rightarrow> entry_info list"
where
  "entry_infos s ctx hidden i [] = []"
| "entry_infos s ctx hidden i (name # names) =
     (case entry_info_of s ctx hidden i name of
        None \<Rightarrow> entry_infos s ctx hidden (Suc i) names
      | Some info \<Rightarrow> info # entry_infos s ctx hidden (Suc i) names)"

definition collect_entry_infos :: "store \<Rightarrow> 'j handler_ctx \<Rightarrow> string fset \<Rightarrow> entry_info list" where
  "collect_entry_infos s ctx hidden = entry_infos s ctx hidden 0 (list_filtered s (\<lambda>_ _. True))"

definition handle_status :: "'j daemon_state \<Rightarrow> 'j handler_ctx \<Rightarrow> response" where
  "handle_status dm ctx =
     RespOk (StatusPayload (hc_pid ctx) (hc_version ctx) (hc_socket ctx)
       (collect_entry_infos (dm_store dm) ctx (locked_keys ctx (dm_vault dm)))
       (hc_full_disk_access ctx) (map_option status_wire (dm_vault dm)))"

definition handle_list :: "'j daemon_state \<Rightarrow> 'j handler_ctx \<Rightarrow> response" where
  "handle_list dm ctx =
     (let infos = collect_entry_infos (dm_store dm) ctx (locked_keys ctx (dm_vault dm)) in
      RespOk (ListPayload (map ei_name infos) infos))"

subsection \<open>Dispatch\<close>

definition on_store :: "'j daemon_state \<Rightarrow> response \<times> store \<Rightarrow> 'j outcome" where
  "on_store dm p = (fst p, dm\<lparr>dm_store := snd p\<rparr>, [])"

definition handle_unpin :: "store \<Rightarrow> 'j handler_ctx \<Rightarrow> string \<Rightarrow> response \<times> store" where
  "handle_unpin s ctx key =
     (case store_unpin s key (hc_cap ctx) of
        (Inr True, s') \<Rightarrow> (RespOk (UnpinnedAck True), s')
      | (Inr False, s') \<Rightarrow> (resp_error ErrNotFound, s')
      | (Inl _, s') \<Rightarrow> (resp_error Internal, s'))"

definition handle_owner_clear :: "store \<Rightarrow> 'j handler_ctx \<Rightarrow> string \<Rightarrow> response \<times> store" where
  "handle_owner_clear s ctx key =
     (case clear_owner s key (hc_cap ctx) of
        (Inr True, s') \<Rightarrow> (RespOk OwnerCleared, s')
      | (Inr False, s') \<Rightarrow> (resp_error ErrNotFound, s')
      | (Inl _, s') \<Rightarrow> (resp_error Internal, s'))"

text \<open>\<open>require_owner\<close> in front of a handler.\<close>

definition for_owner :: "'j daemon_state \<Rightarrow> 'j handler_ctx \<Rightarrow> string \<Rightarrow> 'j outcome \<Rightarrow> 'j outcome" where
  "for_owner dm ctx key continue = unless_refused dm (require_owner (dm_store dm) ctx key) continue"

fun handle_request :: "'j daemon_state \<Rightarrow> 'j handler_ctx \<Rightarrow> request \<Rightarrow> 'j outcome" where
  "handle_request dm ctx Ping = reply_only dm (RespOk Pong)"
| "handle_request dm ctx Status = reply_only dm (handle_status dm ctx)"
| "handle_request dm ctx KvList = reply_only dm (handle_list dm ctx)"
| "handle_request dm ctx (KvDel key with_define) =
     for_owner dm ctx key (handle_del dm ctx key with_define)"
| "handle_request dm ctx (KvSet r) = handle_kv_set dm ctx r"
| "handle_request dm ctx VaultInit = handle_vault_init dm ctx"
| "handle_request dm ctx (VaultUnlock (Some recovery)) = handle_vault_unlock dm ctx recovery"
| "handle_request dm ctx (VaultUnlock None) = reply_only dm (resp_error Internal)"
| "handle_request dm ctx (KvOwnerClear key) =
     for_owner dm ctx key (on_store dm (handle_owner_clear (dm_store dm) ctx key))"
| "handle_request dm ctx VaultLock = handle_vault_lock dm ctx"
| "handle_request dm ctx (VaultAddPasskey _ _) = reply_only dm (resp_error Internal)"
| "handle_request dm ctx (KvClaim key expected secs) =
     for_owner dm ctx key (handle_claim dm ctx key expected secs)"
| "handle_request dm ctx (KvUnclaim key tok) = for_owner dm ctx key (handle_unclaim dm ctx key tok)"
| "handle_request dm ctx (KvDefine key spec soft hard vmeta) =
     for_owner dm ctx key (on_store dm (handle_define (dm_store dm) key spec soft hard vmeta))"
| "handle_request dm ctx (KvGet key dry_run) = handle_get dm ctx key dry_run"
| "handle_request dm ctx (KvPin key secs) =
     for_owner dm ctx key
       (case handle_pin (dm_store dm) ctx key secs of
          (resp, s', effs) \<Rightarrow> (resp, dm\<lparr>dm_store := s'\<rparr>, effs))"
| "handle_request dm ctx (KvUnpin key) =
     for_owner dm ctx key (on_store dm (handle_unpin (dm_store dm) ctx key))"
| "handle_request dm ctx RestartGraceful = reply_only dm (resp_error Internal)"

end
