(* ===== verification/Handler_Calls.thy ===== *)
theory Handler_Calls
  imports Handler_Dispatch Vault_Arbiter
begin

text \<open>
  The request handler over the store's interface: every request changes the store by a run of store
  calls on its own key, made with the daemon's capabilities, authenticator and clock.  So whatever
  holds of store calls holds of requests: the frame, the store invariant, and consent.
\<close>

subsection \<open>Runs of calls\<close>

definition handler_call :: "'j handler_ctx \<Rightarrow> string set \<Rightarrow> clock \<Rightarrow> call \<Rightarrow> bool" where
  "handler_call ctx keys clk c \<longleftrightarrow>
     call_key c \<in> keys \<and> call_ok c \<and> (\<exists>n. clk = readings_from n (hc_clock ctx))
     \<and> call_cap c \<in> {None, Some (hc_cap ctx), Some (hc_otp_cap ctx)}
     \<and> (asks c \<longrightarrow> call_auth c = hc_auth ctx)"

inductive calls_made :: "'j handler_ctx \<Rightarrow> string set \<Rightarrow> store \<Rightarrow> effect list \<Rightarrow> store \<Rightarrow> bool"
  for ctx :: "'j handler_ctx" and keys :: "string set"
where
  no_call: "calls_made ctx keys s [] s"
| one_more: "calls_made ctx keys s effs s1 \<Longrightarrow> handler_call ctx keys clk c
    \<Longrightarrow> calls_made ctx keys s (effs @ effects s1 clk c) (after s1 clk c)"

lemma calls_trans:
  assumes "calls_made ctx keys s1 effs' s2" and "calls_made ctx keys s effs s1"
  shows "calls_made ctx keys s (effs @ effs') s2"
  using assms
proof induction
  case no_call
  then show ?case by simp
next
  case (one_more s2 effs' s3 clk c)
  from calls_made.one_more [OF one_more.IH [OF one_more.prems] one_more.hyps(2)]
  show ?case by simp
qed

lemma calls_wider: "calls_made ctx keys s effs s' \<Longrightarrow> keys \<subseteq> keys' \<Longrightarrow> calls_made ctx keys' s effs s'"
  by (induction rule: calls_made.induct)
    (auto intro!: calls_made.intros simp: handler_call_def simp del: perform.simps)

lemma single_call: "handler_call ctx keys clk c \<Longrightarrow> calls_made ctx keys s (effects s clk c) (after s clk c)"
  using calls_made.one_more [OF calls_made.no_call] by fastforce

lemma snd_brief [simp]: "snd (brief r) = snd r"
  by (simp add: brief_def)

text \<open>The operations a handler uses, each as one call in front of the rest.\<close>

lemma quiet_call:
  assumes "snd (perform s (readings_from n (hc_clock ctx)) c) = (s1, [])"
    and "call_key c \<in> keys" "call_ok c" "call_cap c \<in> {None, Some (hc_cap ctx), Some (hc_otp_cap ctx)}"
    and "asks c \<longrightarrow> call_auth c = hc_auth ctx"
    and "calls_made ctx keys s1 effs s'"
  shows "calls_made ctx keys s effs s'"
proof -
  have "handler_call ctx keys (readings_from n (hc_clock ctx)) c"
    using assms(2-5) by (auto simp: handler_call_def)
  from single_call [OF this, of s] have "calls_made ctx keys s [] s1" by (simp add: assms(1))
  from calls_trans [OF assms(6) this] show ?thesis by simp
qed

lemma readings_from_0 [simp]: "readings_from n clk 0 = clk n"
  by (simp add: readings_from_def)

lemma set_first:
  assumes "store_set s k src v t (hc_cap ctx) (hc_clock ctx n) = (r, s1)" and "k \<in> keys" "ttl_ok t"
    and "calls_made ctx keys s1 effs s'"
  shows "calls_made ctx keys s effs s'"
  by (rule quiet_call [of s n ctx "CSet k src v t (hc_cap ctx)"]) (use assms in simp_all)

lemma get_first:
  assumes "store_get s k cap (hc_clock ctx n) = (r, s1)" and "k \<in> keys"
    and "cap = hc_cap ctx \<or> cap = hc_otp_cap ctx" and "calls_made ctx keys s1 effs s'"
  shows "calls_made ctx keys s effs s'"
  by (rule quiet_call [of s n ctx "CGet k cap"]) (use assms in auto)

lemma state_first:
  assumes "store_state_of s k (hc_clock ctx n) = (r, s1)" and "k \<in> keys"
    and "calls_made ctx keys s1 effs s'"
  shows "calls_made ctx keys s effs s'"
  by (rule quiet_call [of s n ctx "CStateOf k"]) (use assms in auto)

lemma unpin_first:
  assumes "store_unpin s k (hc_cap ctx) = (r, s1)" and "k \<in> keys"
    and "calls_made ctx keys s1 effs s'"
  shows "calls_made ctx keys s effs s'"
  by (rule quiet_call [of s 0 ctx "CUnpin k (hc_cap ctx)"]) (use assms in auto)

lemma delete_first:
  assumes "store_delete s k (hc_cap ctx) = (r, s1)" and "k \<in> keys"
    and "calls_made ctx keys s1 effs s'"
  shows "calls_made ctx keys s effs s'"
  by (rule quiet_call [of s 0 ctx "CDelete k (hc_cap ctx)"]) (use assms in auto)

lemma delete_with_definition_first:
  assumes "delete_with_definition s k (hc_cap ctx) = (r, s1)" and "k \<in> keys"
    and "calls_made ctx keys s1 effs s'"
  shows "calls_made ctx keys s effs s'"
  by (rule quiet_call [of s 0 ctx "CDeleteWithDefinition k (hc_cap ctx)"]) (use assms in auto)

lemma define_first:
  assumes "define_with_meta s k src t vm sm = (r, s1)" and "k \<in> keys" "ttl_ok t"
    and "calls_made ctx keys s1 effs s'"
  shows "calls_made ctx keys s effs s'"
  by (rule quiet_call [of s 0 ctx "CDefine k src t vm sm"]) (use assms in auto)

lemma set_guard_first:
  assumes "set_guard s k g (hc_cap ctx) = (r, s1)" and "k \<in> keys"
    and "calls_made ctx keys s1 effs s'"
  shows "calls_made ctx keys s effs s'"
  by (rule quiet_call [of s 0 ctx "CSetGuard k g (hc_cap ctx)"]) (use assms in auto)

lemma clear_guard_first:
  assumes "clear_guard s k (hc_cap ctx) = (r, s1)" and "k \<in> keys"
    and "calls_made ctx keys s1 effs s'"
  shows "calls_made ctx keys s effs s'"
  by (rule quiet_call [of s 0 ctx "CClearGuard k (hc_cap ctx)"]) (use assms in auto)

lemma set_owner_first:
  assumes "set_owner s k p (hc_cap ctx) = (r, s1)" and "k \<in> keys"
    and "calls_made ctx keys s1 effs s'"
  shows "calls_made ctx keys s effs s'"
  by (rule quiet_call [of s 0 ctx "CSetOwner k p (hc_cap ctx)"]) (use assms in auto)

lemma clear_owner_first:
  assumes "clear_owner s k (hc_cap ctx) = (r, s1)" and "k \<in> keys"
    and "calls_made ctx keys s1 effs s'"
  shows "calls_made ctx keys s effs s'"
  by (rule quiet_call [of s 0 ctx "CClearOwner k (hc_cap ctx)"]) (use assms in auto)

lemma bump_first:
  assumes "bump_version s k (hc_cap ctx) = (r, s1)" and "k \<in> keys"
    and "calls_made ctx keys s1 effs s'"
  shows "calls_made ctx keys s effs s'"
  by (rule quiet_call [of s 0 ctx "CBumpVersion k (hc_cap ctx)"]) (use assms in auto)

lemma restore_first:
  assumes "restore_version s k v (hc_cap ctx) = (r, s1)" and "k \<in> keys" "v \<le> u64_max"
    and "calls_made ctx keys s1 effs s'"
  shows "calls_made ctx keys s effs s'"
  by (rule quiet_call [of s 0 ctx "CRestoreVersion k v (hc_cap ctx)"]) (use assms in auto)

lemma set_claim_first:
  assumes "set_refresh_claim s k c (hc_cap ctx) = (r, s1)" and "k \<in> keys"
    and "calls_made ctx keys s1 effs s'"
  shows "calls_made ctx keys s effs s'"
  by (rule quiet_call [of s 0 ctx "CSetClaim k c (hc_cap ctx)"]) (use assms in auto)

lemma clear_claim_first:
  assumes "clear_refresh_claim s k (hc_cap ctx) = (r, s1)" and "k \<in> keys"
    and "calls_made ctx keys s1 effs s'"
  shows "calls_made ctx keys s effs s'"
  by (rule quiet_call [of s 0 ctx "CClearClaim k (hc_cap ctx)"]) (use assms in auto)

lemmas calls_first =
  set_first get_first state_first unpin_first delete_first delete_with_definition_first define_first
  set_guard_first clear_guard_first set_owner_first clear_owner_first bump_first restore_first
  set_claim_first clear_claim_first

text \<open>The three operations that may run a command or prompt.\<close>

lemma loud_call:
  assumes "snd (perform s (readings_from n (hc_clock ctx)) c) = (s1, effs)"
    and "call_key c \<in> keys" "call_ok c" "call_cap c = Some (hc_cap ctx)" "call_auth c = hc_auth ctx"
    and "calls_made ctx keys s1 [] s'"
  shows "calls_made ctx keys s effs s'"
proof -
  have "handler_call ctx keys (readings_from n (hc_clock ctx)) c"
    using assms(2-5) by (auto simp: handler_call_def)
  from single_call [OF this, of s] have "calls_made ctx keys s effs s1" by (simp add: assms(1))
  from calls_trans [OF assms(6) this] show ?thesis by simp
qed

lemma extend_first:
  assumes "extend_authenticated s k (hc_auth ctx) r (hc_cap ctx) (readings_from n (hc_clock ctx)) = (x, s1, effs)"
    and "k \<in> keys" and "calls_made ctx keys s1 [] s'"
  shows "calls_made ctx keys s effs s'"
  by (rule loud_call [of s n ctx "CExtendAuth k (hc_auth ctx) r (hc_cap ctx)"])
    (use assms in simp_all)

lemma regenerate_first:
  assumes "store_regenerate s k run (hc_auth ctx) r (hc_cap ctx) (readings_from n (hc_clock ctx)) = (x, s1, effs)"
    and "k \<in> keys" and "calls_made ctx keys s1 [] s'"
  shows "calls_made ctx keys s effs s'"
  by (rule loud_call [of s n ctx "CRegenerate k run (hc_auth ctx) r (hc_cap ctx)"])
    (use assms in simp_all)

lemma get_or_regenerate_first:
  assumes "get_or_regenerate s k run (hc_auth ctx) r (hc_cap ctx) (readings_from n (hc_clock ctx)) = (x, s1, effs)"
    and "k \<in> keys" and "calls_made ctx keys s1 [] s'"
  shows "calls_made ctx keys s effs s'"
  by (rule loud_call [of s n ctx "CGetOrRegenerate k run (hc_auth ctx) r (hc_cap ctx)"])
    (use assms in simp_all)

lemma pin_first:
  assumes "pin_authenticated s k dl (hc_auth ctx) r (hc_cap ctx) (readings_from n (hc_clock ctx)) = (x, s1, effs)"
    and "k \<in> keys" and "calls_made ctx keys s1 [] s'"
  shows "calls_made ctx keys s effs s'"
  by (rule loud_call [of s n ctx "CPin k dl (hc_auth ctx) r (hc_cap ctx)"])
    (use assms in simp_all)

lemmas loud_first = extend_first regenerate_first get_or_regenerate_first pin_first

subsection \<open>Handlers as runs of calls\<close>

lemma last_call:
  "k \<in> keys \<Longrightarrow> calls_made ctx keys s [] (snd (store_delete s k (hc_cap ctx)))"
  "k \<in> keys \<Longrightarrow> calls_made ctx keys s [] (snd (delete_with_definition s k (hc_cap ctx)))"
  "k \<in> keys \<Longrightarrow> calls_made ctx keys s [] (snd (set_owner s k p (hc_cap ctx)))"
  "k \<in> keys \<Longrightarrow> calls_made ctx keys s [] (snd (set_refresh_claim s k c (hc_cap ctx)))"
  by (rule delete_first [OF prod.collapse [symmetric]], assumption, rule no_call)
    (rule delete_with_definition_first [OF prod.collapse [symmetric]], assumption, rule no_call,
     rule set_owner_first [OF prod.collapse [symmetric]], assumption, rule no_call,
     rule set_claim_first [OF prod.collapse [symmetric]], assumption, rule no_call)

lemma settle_set_calls:
  assumes "settle_set ctx key plan s = (resp, s')"
  shows "calls_made ctx {key} s [] s'"
  using assms
  by (auto simp: settle_set_def Let_def split: option.splits sum.splits prod.splits)
    (rule no_call last_call singletonI | erule calls_first)+

lemma handle_set_calls:
  assumes "handle_set s ctx key b64 soft hard decl = (resp, s')"
  shows "calls_made ctx {key} s [] s'"
  using assms
  by (auto simp: handle_set_def dest!: ttl_new_ok split: option.splits sum.splits prod.splits set_error.splits)
    (rule no_call singletonI | erule calls_first settle_set_calls | assumption)+

lemma finish_get_calls:
  assumes "finish_get s ctx key dry st = (resp, s')"
  shows "calls_made ctx {key} s [] s'"
  using assms
  by (auto simp: finish_get_def otp_get_code_def Let_def map_err_def
      split: option.splits sum.splits prod.splits if_splits otp_error.splits)
    (rule no_call singletonI disjI1 disjI2 refl | erule calls_first)+

lemma finish_if_readable_calls:
  assumes "finish_if_readable s ctx key dry = (resp, s')"
  shows "calls_made ctx {key} s [] s'"
  using assms
  by (auto simp: finish_if_readable_def value_readable_def
      split: option.splits sum.splits prod.splits if_splits bool.splits)
    (rule no_call singletonI disjI1 refl | erule calls_first finish_get_calls)+

lemma with_effects_eq:
  "with_effects p effs = (resp, s', effs') \<longleftrightarrow> p = (resp, s') \<and> effs' = effs"
  by (cases p) (auto simp: with_effects_def)

lemma lazy_generate_calls:
  assumes "lazy_generate s ctx key dry = (resp, s', effs)"
  shows "calls_made ctx {key} s effs s'"
  using assms
  by (auto simp: lazy_generate_def with_effects_eq split: sum.splits prod.splits regenerate_def_outcome.splits)
    (rule no_call singletonI | erule loud_first finish_if_readable_calls)+

lemma extend_and_read_calls:
  assumes "extend_and_read s ctx key dry = (resp, s', effs)"
  shows "calls_made ctx {key} s effs s'"
  using assms
  by (auto simp: extend_and_read_def with_effects_eq split: sum.splits prod.splits extend_auth_outcome.splits)
    (rule no_call singletonI | erule loud_first finish_if_readable_calls)+

lemma regenerate_and_read_calls:
  assumes "regenerate_and_read s ctx key dry = (resp, s', effs)"
  shows "calls_made ctx {key} s effs s'"
  using assms
  by (auto simp: regenerate_and_read_def with_effects_eq split: sum.splits prod.splits regenerate_outcome.splits)
    (rule no_call singletonI | erule loud_first finish_if_readable_calls)+

lemma retrieve_calls:
  assumes "retrieve s ctx vault key dry = (resp, s', effs)"
  shows "calls_made ctx {key} s effs s'"
  using assms
  by (auto simp: retrieve_def get_absent_def value_readable_def with_effects_eq
      split: sum.splits prod.splits option.splits bool.splits entry_state.splits if_splits)
    (rule no_call singletonI disjI1 refl
      | erule calls_first finish_get_calls lazy_generate_calls extend_and_read_calls
          regenerate_and_read_calls)+

lemma handle_pin_calls:
  assumes "handle_pin s ctx key secs = (resp, s', effs)"
  shows "calls_made ctx {key} s effs s'"
  using assms
  by (auto simp: handle_pin_def Let_def split: sum.splits prod.splits pin_auth_outcome.splits)
    (rule no_call singletonI | erule loud_first)+

lemma handle_define_calls:
  assumes "handle_define s key spec soft hard vm = (resp, s')"
  shows "calls_made ctx {key} s [] s'"
  using assms
  by (auto simp: handle_define_def dest!: ttl_new_ok split: sum.splits prod.splits option.splits if_splits)
    (rule no_call singletonI | erule calls_first | assumption)+

lemma side_handler_calls:
  "handle_unpin s ctx key = (resp, s') \<Longrightarrow> calls_made ctx {key} s [] s'"
  "handle_owner_clear s ctx key = (resp, s') \<Longrightarrow> calls_made ctx {key} s [] s'"
  by (auto simp: handle_unpin_def handle_owner_clear_def split: sum.splits prod.splits bool.splits)
    (rule no_call singletonI | erule calls_first)+

subsection \<open>Requests as runs of calls\<close>

lemma handle_get_calls:
  assumes "handle_get dm ctx key dry = (resp, dm', effs)"
  shows "calls_made ctx {key} (dm_store dm) effs (dm_store dm')"
  using assms
  by (auto simp: handle_get_def unless_refused_def reply_only_def split: option.splits prod.splits)
    (rule no_call | erule retrieve_calls)+

lemma handle_kv_set_calls:
  assumes "handle_kv_set dm ctx r = (resp, dm', effs)"
  shows "calls_made ctx {set_key r} (dm_store dm) effs (dm_store dm')"
proof (cases "dm_store dm' = dm_store dm \<and> effs = []")
  case True
  then show ?thesis by (simp add: no_call)
next
  case False
  have hs: "calls_made ctx {set_key r} (dm_store dm) [] s1"
    if "handle_set (dm_store dm) ctx (set_key r) (set_value_b64 r) so ha gs = (x, s1)" for so ha gs x s1
    using that by (rule handle_set_calls)
  have own: "calls_made ctx {set_key r} (dm_store dm) [] (snd (set_owner s1 (set_key r) p (hc_cap ctx)))"
    if "handle_set (dm_store dm) ctx (set_key r) (set_value_b64 r) so ha gs = (x, s1)" for so ha gs x s1 p
    using calls_trans [OF last_call(3) hs [OF that]] by simp
  show ?thesis
    using assms False
    by (auto simp: handle_kv_set_def unless_refused_def reply_only_def Let_def
        split: option.splits prod.splits sum.splits if_splits dest: hs own)
qed

lemma handle_claim_calls:
  assumes "handle_claim dm ctx key n secs = (resp, dm', effs)"
  shows "calls_made ctx {key} (dm_store dm) effs (dm_store dm')"
  using assms
  by (auto simp: handle_claim_def unless_refused_def reply_only_def Let_def
      split: option.splits prod.splits sum.splits if_splits)
    (rule no_call singletonI | erule calls_first)+

lemma handle_unclaim_calls:
  assumes "handle_unclaim dm ctx key tok = (resp, dm', effs)"
  shows "calls_made ctx {key} (dm_store dm) effs (dm_store dm')"
  using assms
  by (auto simp: handle_unclaim_def unless_refused_def reply_only_def Let_def
      split: option.splits prod.splits sum.splits if_splits)
    (rule no_call singletonI | erule calls_first)+

lemma handle_del_calls:
  assumes "handle_del dm ctx key with_define = (resp, dm', effs)"
  shows "calls_made ctx {key} (dm_store dm) effs (dm_store dm')"
  using assms
  by (auto simp: handle_del_def reply_only_def Let_def
      split: option.splits prod.splits sum.splits if_splits vault_ownership.splits)
    (rule no_call singletonI last_call | erule calls_first)+

text \<open>The vault's keys, and that its versions are \<open>u64\<close> values, as their type has it.\<close>

fun vault_keys :: "'j vault_state option \<Rightarrow> string set" where
  "vault_keys (Some (VaultOpen v)) = set (btree_keys (uv_entries v))"
| "vault_keys _ = {}"

definition vault_typed :: "'j vault_state option \<Rightarrow> bool" where
  "vault_typed vault \<longleftrightarrow>
     (\<forall>v key e. vault = Some (VaultOpen v) \<longrightarrow> fmlookup (uv_entries v) key = Some e \<longrightarrow> ve_cas_version e \<le> u64_max)"

lemma undo_calls:
  "k \<in> keys \<Longrightarrow> (b, snd (store_delete s k (hc_cap ctx))) = (ok, s') \<Longrightarrow> calls_made ctx keys s [] s'"
  using last_call(1) by auto

lemma restore_entry_calls:
  assumes "restore_entry ctx (hc_clock ctx n) wall v key s = (ok, s')"
    and "\<And>e. fmlookup (uv_entries v) key = Some e \<Longrightarrow> ve_cas_version e \<le> u64_max"
  shows "calls_made ctx {key} s [] s'"
proof (cases "fmlookup (uv_entries v) key")
  case None
  then show ?thesis using assms(1) by (simp add: restore_entry_def no_call)
next
  case (Some e)
  then have small: "ve_cas_version e \<le> u64_max" by (rule assms(2))
  show ?thesis
    using assms(1) small
    by (auto simp: restore_entry_def Some Let_def dest!: ttl_new_ok
        split: option.splits sum.splits prod.splits)
      (rule no_call singletonI last_call | erule calls_first | assumption)+
qed

lemma install_keys_calls:
  assumes "install_keys ctx i v keys n s = (n', s')"
    and "\<And>key e. fmlookup (uv_entries v) key = Some e \<Longrightarrow> ve_cas_version e \<le> u64_max"
  shows "calls_made ctx (set keys) s [] s'"
  using assms(1)
proof (induction keys arbitrary: i n s)
  case Nil
  then show ?case by (simp add: no_call)
next
  case (Cons key keys)
  obtain ok s1 where s1: "restore_entry ctx (hc_clock ctx i) (hc_wall ctx i) v key s = (ok, s1)" by fastforce
  have "calls_made ctx (set keys) s1 [] s'" using Cons.prems by (auto simp: s1 intro: Cons.IH)
  then have "calls_made ctx (set (key # keys)) s1 [] s'" by (rule calls_wider) auto
  moreover have "calls_made ctx (set (key # keys)) s [] s1"
    by (rule calls_wider [OF restore_entry_calls [OF s1 assms(2)]]) auto
  ultimately show ?case using calls_trans by fastforce
qed

lemma evict_calls: "calls_made ctx (set keys) s [] (evict (hc_cap ctx) keys s)"
proof (induction keys arbitrary: s)
  case Nil
  then show ?case by (simp add: evict_def no_call)
next
  case (Cons key keys)
  have "calls_made ctx (set (key # keys)) (snd (store_delete s key (hc_cap ctx))) []
      (evict (hc_cap ctx) (key # keys) s)"
    by (rule calls_wider) (use Cons.IH in \<open>auto simp: evict_def\<close>)
  from calls_trans [OF this last_call(1)] show ?case by simp
qed

lemma handle_vault_unlock_calls:
  assumes "handle_vault_unlock dm ctx text' = (resp, dm', effs)" and "vault_typed (dm_vault dm')"
  shows "calls_made ctx (vault_keys (dm_vault dm')) (dm_store dm) effs (dm_store dm')"
proof (cases "dm_store dm' = dm_store dm \<and> effs = []")
  case True
  then show ?thesis by (simp add: no_call)
next
  case False
  with assms(1) obtain v n s' where v: "dm_vault dm' = Some (VaultOpen v)" "effs = []"
    and "install_vault_entries ctx v (dm_store dm) = (n, dm_store dm')"
    by (auto simp: handle_vault_unlock_def reply_only_def Let_def unlocked.simps
        split: option.splits sum.splits prod.splits vault_unlock_error.splits elim!: unlocked.elims)
  then show ?thesis
    using assms(2) install_keys_calls [where ctx = ctx and v = v and keys = "btree_keys m" for m, simplified]
    by (fastforce simp: install_vault_entries_def vault_typed_def)
qed

lemma handle_vault_lock_calls:
  assumes "handle_vault_lock dm ctx = (resp, dm', effs)"
  shows "calls_made ctx (vault_keys (dm_vault dm)) (dm_store dm) effs (dm_store dm')"
  using assms evict_calls [where ctx = ctx and keys = "btree_keys m" for m, simplified]
  by (auto simp: handle_vault_lock_def reply_only_def no_call
      split: option.splits sum.splits prod.splits elim!: unlocked.elims)

fun request_key :: "request \<Rightarrow> string option" where
  "request_key (KvSet r) = Some (set_key r)"
| "request_key (KvDefine key _ _ _ _) = Some key"
| "request_key (KvGet key _) = Some key"
| "request_key (KvDel key _) = Some key"
| "request_key (KvPin key _) = Some key"
| "request_key (KvUnpin key) = Some key"
| "request_key (KvClaim key _ _) = Some key"
| "request_key (KvUnclaim key _) = Some key"
| "request_key (KvOwnerClear key) = Some key"
| "request_key _ = None"

definition keys_touched :: "'j daemon_state \<Rightarrow> request \<Rightarrow> 'j daemon_state \<Rightarrow> string set" where
  "keys_touched dm req dm' =
     (case request_key req of
        Some key \<Rightarrow> {key}
      | None \<Rightarrow> vault_keys (dm_vault dm) \<union> vault_keys (dm_vault dm'))"

lemma for_owner_cases:
  assumes "for_owner dm ctx key continue = (resp, dm', effs)"
  shows "(dm' = dm \<and> effs = [] \<and> require_owner (dm_store dm) ctx key = Some resp)
    \<or> (require_owner (dm_store dm) ctx key = None \<and> continue = (resp, dm', effs))"
  using assms by (auto simp: for_owner_def unless_refused_def reply_only_def split: option.splits)

lemma on_store_eq: "on_store dm p = (resp, dm', effs) \<longleftrightarrow>
    (\<exists>s'. p = (resp, s') \<and> dm' = dm\<lparr>dm_store := s'\<rparr>) \<and> effs = []"
  by (cases p) (auto simp: on_store_def)

lemma request_calls:
  assumes "handle_request dm ctx req = (resp, dm', effs)"
    and "(\<exists>r. req = VaultUnlock r) \<Longrightarrow> vault_typed (dm_vault dm')"
  shows "calls_made ctx (keys_touched dm req dm') (dm_store dm) effs (dm_store dm')"
proof (cases req)
  case (VaultUnlock r)
  then show ?thesis
    using assms handle_vault_unlock_calls [of dm ctx _ resp dm' effs]
    by (cases r) (auto simp: reply_only_def keys_touched_def no_call intro: calls_wider)
next
  case VaultLock
  then show ?thesis
    using assms handle_vault_lock_calls [of dm ctx resp dm' effs]
    by (auto simp: keys_touched_def intro: calls_wider)
next
  case VaultInit
  then show ?thesis
    using assms by (auto simp: handle_vault_init_def reply_only_def no_call split: option.splits prod.splits)
next
  case (KvPin key secs)
  then show ?thesis
    using assms(1)
    by (auto simp: keys_touched_def no_call dest!: for_owner_cases dest: handle_pin_calls split: prod.splits)
next
  case (KvDefine key spec soft hard vm)
  then show ?thesis
    using assms(1)
    by (auto simp: keys_touched_def no_call on_store_eq dest!: for_owner_cases)
      (rule handle_define_calls)
next
  case (KvUnpin key)
  then show ?thesis
    using assms(1)
    by (auto simp: keys_touched_def no_call on_store_eq dest!: for_owner_cases)
      (rule side_handler_calls)
next
  case (KvOwnerClear key)
  then show ?thesis
    using assms(1)
    by (auto simp: keys_touched_def no_call on_store_eq dest!: for_owner_cases)
      (rule side_handler_calls)
qed (use assms(1) in \<open>auto simp: keys_touched_def reply_only_def no_call dest!: for_owner_cases
    dest: handle_kv_set_calls handle_get_calls handle_del_calls handle_claim_calls handle_unclaim_calls\<close>)

end
