(* ===== verification/Handler_Props.thy ===== *)
theory Handler_Props
  imports Handler_Calls
begin

text \<open>
  What the request handler promises its clients: what a request can touch, who gets to see a value and
  who gets to change it, and that a refusal leaves no trace.
\<close>

subsection \<open>What runs of calls do\<close>

lemma calls_frame: "calls_made ctx keys s effs s' \<Longrightarrow> k \<notin> keys \<Longrightarrow> slot s' k = slot s k"
proof (induction rule: calls_made.induct)
  case (one_more s effs s1 clk c)
  then have "k \<noteq> call_key c" by (auto simp: handler_call_def)
  with one_more show ?case by (simp add: slot_frame del: perform.simps)
qed simp

lemma calls_token:
  "calls_made ctx keys s effs s' \<Longrightarrow>
   access_token s' = access_token s \<and> failure_backoff_duration s' = failure_backoff_duration s"
proof (induction rule: calls_made.induct)
  case (one_more s effs s1 clk c)
  then show ?case using calls_touch_one_key [of c s1 clk] by simp
qed simp

lemma calls_authorized: "calls_made ctx keys s effs s' \<Longrightarrow> authorized s' c = authorized s c"
  by (drule calls_token) (simp add: authorized_def)

subsection \<open>A dry run\<close>

fun masked :: "response \<Rightarrow> response" where
  "masked (RespOk (GetPayload b)) = RespOk (GetVerified ''active'')"
| "masked r = r"

lemma masked_error [simp]: "masked (resp_error k) = resp_error k"
  by (simp add: resp_error_def)

lemma finish_get_dry:
  "finish_get s ctx key True ''active'' = map_prod masked id (finish_get s ctx key False ''active'')"
  by (auto simp: finish_get_def with_exposed_def split: sum.splits option.splits prod.splits otp_error.splits)

lemma finish_if_readable_dry:
  "finish_if_readable s ctx key True = map_prod masked id (finish_if_readable s ctx key False)"
  by (auto simp: finish_if_readable_def finish_get_dry split: prod.splits bool.splits)

definition mask_outcome :: "response \<times> 'a \<Rightarrow> response \<times> 'a" where
  "mask_outcome = map_prod masked id"

lemma mask_outcome_simps [simp]:
  "mask_outcome (resp_error k, x) = (resp_error k, x)"
  "mask_outcome (resp, x) = (masked resp, x)"
  by (simp_all add: mask_outcome_def)

lemma with_effects_mask: "with_effects (map_prod masked id p) effs = mask_outcome (with_effects p effs)"
  by (cases p) (simp add: with_effects_def)

lemma recovering_dry:
  "lazy_generate s ctx key True = mask_outcome (lazy_generate s ctx key False)"
  "extend_and_read s ctx key True = mask_outcome (extend_and_read s ctx key False)"
  "regenerate_and_read s ctx key True = mask_outcome (regenerate_and_read s ctx key False)"
  by (simp_all add: lazy_generate_def extend_and_read_def regenerate_and_read_def
      finish_if_readable_dry with_effects_mask
      split: prod.split sum.split regenerate_def_outcome.split extend_auth_outcome.split
        regenerate_outcome.split)

lemma retrieve_dry: "retrieve s ctx vault key True = mask_outcome (retrieve s ctx vault key False)"
proof -
  have absent: "get_absent s1 ctx vault key True = mask_outcome (get_absent s1 ctx vault key False)" for s1
    by (auto simp: get_absent_def recovering_dry unavailable_def vault_ownership_def
        split: option.split vault_ownership.split vault_state.split)
  obtain b s0 where read: "value_readable s ctx key (hc_clock ctx 0) = (b, s0)" by fastforce
  obtain st s1 where st: "store_state_of s0 key (hc_clock ctx (Suc 0)) = (st, s1)" by fastforce
  show ?thesis
    by (simp add: retrieve_def read st recovering_dry absent finish_get_dry with_effects_mask
        split: bool.split option.split entry_state.split)
qed

text \<open>
  Property C28.  A dry run of \<open>kv.get\<close> is the real thing without the value: on every
  path it has the same effects, leaves the same state, and answers the same, except that a value is
  replaced by the bare statement that there is one.
\<close>

theorem dry_run_is_the_masked_get:
  "handle_get dm ctx key True = mask_outcome (handle_get dm ctx key False)"
proof -
  have refusals: "masked resp = resp" if "get_refusal (dm_store dm) ctx key = Some resp" for resp
    using that
    by (auto simp: get_refusal_def reject_reserved_namespace_read_def require_owner_def process_refusal_def
        guard_refusal_def split: option.splits if_splits sum.splits prod.splits)
  show ?thesis
    using refusals
    by (auto simp: handle_get_def unless_refused_def reply_only_def retrieve_dry split: option.splits prod.splits)
qed

subsection \<open>Who gets to see a value\<close>

definition no_value :: "response \<Rightarrow> bool" where
  "no_value resp \<longleftrightarrow> (\<forall>b. resp \<noteq> RespOk (GetPayload b))"

lemma no_value_simps [simp]:
  "no_value (resp_error k)" "no_value (RespErr e)" "no_value (cas_mismatch n)" "no_value (already_claimed n)"
  "no_value (set_ack_with_guard_and_version g n)" "no_value (claimed_ack n t d)"
  "\<not> no_value (RespOk (GetPayload b))"
  by (simp_all add: no_value_def resp_error_def cas_mismatch_def already_claimed_def claimed_ack_def
      set_ack_with_guard_and_version_def set_ack_full_def)

lemma error_not_ok [simp]: "resp_error k \<noteq> RespOk p" "RespOk p \<noteq> resp_error k"
  by (simp_all add: resp_error_def)

lemma no_value_ok [simp]: "(\<And>b. p \<noteq> GetPayload b) \<Longrightarrow> no_value (RespOk p)"
  by (auto simp: no_value_def)

lemma refusals_carry_nothing [simp]:
  "validate_protocol_key key = Some resp \<Longrightarrow> no_value resp"
  "reject_reserved_namespace_write key = Some resp \<Longrightarrow> no_value resp"
  "require_owner s ctx key = Some resp \<Longrightarrow> no_value resp"
  "unavailable (vault_ownership ctx vault key) = Some resp \<Longrightarrow> no_value resp"
  "require_unlocked_vault vault = Some resp \<Longrightarrow> no_value resp"
  "check_claim_fence s key tok now = Some resp \<Longrightarrow> no_value resp"
  "get_refusal s ctx key = Some resp \<Longrightarrow> no_value resp"
  by (auto simp: validate_protocol_key_def reject_reserved_namespace_write_def require_owner_def
      unavailable_def vault_ownership_def require_unlocked_vault_def check_claim_fence_def get_refusal_def
      reject_reserved_namespace_read_def process_refusal_def guard_refusal_def
      split: if_splits option.splits vault_ownership.splits vault_state.splits prod.splits sum.splits)

lemma plan_refusal [simp]: "plan_constraints pol chain ws = Inl resp \<Longrightarrow> no_value resp"
proof (induction ws)
  case (Cons w ws)
  then show ?case
    by (cases w) (auto split: sum.splits option.splits if_splits)
qed simp

lemma write_refusals [simp]:
  "plan_guard_record decl pol tok chain = Inl resp \<Longrightarrow> no_value resp"
  "declared_owner_of ctx sb = Inl resp \<Longrightarrow> no_value resp"
  "set_refusal dm ctx r = Some resp \<Longrightarrow> no_value resp"
  by (auto simp: plan_guard_record_def Let_def declared_owner_of_def parse_signed_by_def map_err_def
      set_refusal_def split: if_splits option.splits sum.splits)

lemma settle_set_reply: "settle_set ctx key plan s = (resp, s') \<Longrightarrow> no_value resp"
  by (auto simp: settle_set_def Let_def split: option.splits sum.splits prod.splits)

lemma handle_set_reply: "handle_set s ctx key b64 so ha gs = (resp, s') \<Longrightarrow> no_value resp"
  by (auto simp: handle_set_def split: option.splits sum.splits prod.splits set_error.splits
      dest: settle_set_reply)

lemma report_owner_reply: "no_value resp \<Longrightarrow> no_value (report_owner s key resp)"
  by (auto simp: report_owner_def split: option.splits response.splits ok_payload.splits)

lemma vault_write_reply:
  "write_through_to_vault s ctx vault d key b64 tok = (Some resp, vault', d') \<Longrightarrow> no_value resp"
  by (auto simp: write_through_to_vault_def Let_def split: option.splits sum.splits prod.splits)

lemma handle_kv_set_reply: "handle_kv_set dm ctx r = (resp, dm', effs) \<Longrightarrow> no_value resp"
  by (auto simp: handle_kv_set_def unless_refused_def reply_only_def Let_def
      split: option.splits sum.splits prod.splits if_splits
      dest: handle_set_reply vault_write_reply intro: report_owner_reply)

lemma claim_replies:
  "take_claim_in_vault ctx vault d key n secs = (Inl resp, vault', d') \<Longrightarrow> no_value resp"
  "release_claim_in_vault ctx vault d key tok = (Some resp, vault', d') \<Longrightarrow> no_value resp"
  "delete_from_vault ctx vault d key = (Some resp, vault', d') \<Longrightarrow> no_value resp"
  by (auto simp: take_claim_in_vault_def release_claim_in_vault_def delete_from_vault_def
      split: option.splits vault_state.splits if_splits prod.splits sum.splits vault_error.splits)

lemma other_replies:
  "handle_claim dm ctx key n secs = (resp, dm', effs) \<Longrightarrow> no_value resp"
  "handle_unclaim dm ctx key tok = (resp, dm', effs) \<Longrightarrow> no_value resp"
  "handle_del dm ctx key wd = (resp, dm', effs) \<Longrightarrow> no_value resp"
  by (auto simp: handle_claim_def handle_unclaim_def handle_del_def unless_refused_def reply_only_def
      vault_ownership_def Let_def
      split: option.splits sum.splits prod.splits if_splits vault_ownership.splits vault_state.splits
      dest: claim_replies)

lemma store_replies:
  "handle_define s key spec so ha vm = (resp, s') \<Longrightarrow> no_value resp"
  "handle_pin s ctx key secs = (resp, s', effs) \<Longrightarrow> no_value resp"
  "handle_unpin s ctx key = (resp, s') \<Longrightarrow> no_value resp"
  "handle_owner_clear s ctx key = (resp, s') \<Longrightarrow> no_value resp"
  by (auto simp: handle_define_def handle_pin_def handle_unpin_def handle_owner_clear_def Let_def
      split: option.splits sum.splits prod.splits if_splits pin_auth_outcome.splits bool.splits)

lemma vault_replies:
  "handle_vault_init dm ctx = (resp, dm', effs) \<Longrightarrow> no_value resp"
  "handle_vault_unlock dm ctx text' = (resp, dm', effs) \<Longrightarrow> no_value resp"
  "handle_vault_lock dm ctx = (resp, dm', effs) \<Longrightarrow> no_value resp"
  by (auto simp: handle_vault_init_def handle_vault_unlock_def handle_vault_lock_def reply_only_def Let_def
      split: option.splits sum.splits prod.splits vault_unlock_error.splits)

lemma first_refusal_None: "first_refusal gates = None \<longleftrightarrow> (\<forall>g\<in>set gates. g = None)"
  by (induction gates rule: first_refusal.induct) auto

lemma only_get_reveals:
  assumes "handle_request dm ctx req = (RespOk (GetPayload b), dm', effs)"
  shows "\<exists>key dry. req = KvGet key dry"
proof (rule ccontr)
  assume no: "\<nexists>key dry. req = KvGet key dry"
  have "no_value (RespOk (GetPayload b))"
  proof (cases req)
    case (VaultUnlock r)
    then show ?thesis using assms by (cases r) (auto simp: reply_only_def dest: vault_replies)
  next
    case (KvPin key secs)
    then show ?thesis using assms by (auto dest!: for_owner_cases dest: store_replies refusals_carry_nothing(3) split: prod.splits)
  next
    case Status
    then show ?thesis using assms by (auto simp: reply_only_def handle_status_def)
  next
    case KvList
    then show ?thesis using assms by (auto simp: reply_only_def handle_list_def Let_def)
  qed (use assms no in \<open>auto simp: reply_only_def on_store_eq dest!: for_owner_cases
      handle_kv_set_reply other_replies store_replies vault_replies refusals_carry_nothing(3)\<close>)
  then show False by simp
qed

subsection \<open>What a revealed value is\<close>

text \<open>What the reply shows of a value: the value itself, or the code derived from it.\<close>

definition shows_value :: "'j handler_ctx \<Rightarrow> store \<Rightarrow> string \<Rightarrow> secret_bytes \<Rightarrow> string \<Rightarrow> bool" where
  "shows_value ctx s key v b \<longleftrightarrow>
     (if meta_is_otp (meta_of s key)
      then (\<exists>digits. hc_derive_code ctx (data v) (meta_of s key) = Inr digits
              \<and> b = hc_encode_b64 ctx (string_bytes digits))
      else b = hc_encode_b64 ctx (data v))"

lemma get_found:
  assumes "store_get s k cap now = (Inr (Some v), s')"
  shows "s' = s \<and> readable s k now \<and> held s k = Some v"
proof -
  from assms obtain e where e: "fmlookup (entries s) k = Some e" "state e now = Active" "entry_value e = Some v"
    and s': "s' = s\<lparr>entries := fmupd k e (entries s)\<rparr>"
    by (auto simp: store_get_def entry_get_def evaluate_def Let_def
        split: sum.splits option.splits prod.splits entry_state.splits if_splits)
  then show ?thesis by (simp add: readable_iff held_def)
qed

lemma value_found:
  "value_readable s ctx key now = (True, s') \<Longrightarrow> s' = s \<and> readable s key now"
  by (auto simp: value_readable_def dest: get_found split: sum.splits option.splits prod.splits)

lemma Active_holds: "state e now = Active \<Longrightarrow> entry_value e \<noteq> None"
  by (auto simp: state_def split: if_splits)

lemma value_readable_eq:
  assumes "authorized s (hc_cap ctx)"
  shows "value_readable s ctx key now
    = (readable s key now, upd_entry s key (\<lambda>e. snd (evaluate e now)))"
proof (cases "fmlookup (entries s) key")
  case None
  then show ?thesis using assms by (simp add: value_readable_def store_get_def readable_def upd_entry_def)
next
  case (Some e)
  then show ?thesis
    using assms Active_holds [of e now]
    by (cases "state e now"; cases "entry_value e")
      (auto simp: value_readable_def store_get_def readable_def upd_entry_def entry_get_def evaluate_def)
qed

lemma finish_get_shows:
  assumes "finish_get s ctx key dry st = (RespOk (GetPayload b), s')"
  shows "\<not> dry \<and> s' = s \<and> (\<exists>v. held s key = Some v \<and> shows_value ctx s key v b)"
  using assms
  by (auto simp: finish_get_def otp_get_code_def shows_value_def with_exposed_def Let_def map_err_def
      dest!: get_found split: if_splits sum.splits option.splits prod.splits otp_error.splits)

lemma finish_if_readable_shows:
  assumes "finish_if_readable s ctx key dry = (RespOk (GetPayload b), s')"
  shows "\<not> dry \<and> s' = s \<and> (\<exists>v. held s key = Some v \<and> shows_value ctx s key v b)"
  using assms
  by (auto simp: finish_if_readable_def dest!: value_found dest: finish_get_shows split: prod.splits bool.splits)

definition user_approved :: "'j handler_ctx \<Rightarrow> string \<Rightarrow> effect list \<Rightarrow> bool" where
  "user_approved ctx key effs \<longleftrightarrow>
     (\<exists>operation. Prompted (auth_context_for key operation (hc_requester ctx)) \<in> set effs
        \<and> hc_auth ctx (auth_context_for key operation (hc_requester ctx)) = Inr ())"

lemma extend_prompted:
  assumes "extend_authenticated s k auth r cap clk = (Inr x, s', effs)"
    and "fmlookup (entries s) k = Some e" and "state e (clk 0) \<noteq> Active"
  shows "effs = [Prompted (auth_context_for k Extend r)] \<and> auth (auth_context_for k Extend r) = Inr ()"
  using assms
  by (auto simp: extend_authenticated_def evaluate_def Let_def map_err_def
      split: sum.splits entry_state.splits prod.splits)

lemma regenerate_prompted:
  assumes "store_regenerate s k run auth r cap clk = (Inr x, s', effs)"
  shows "Prompted (auth_context_for k Regenerate r) \<in> set effs \<and> auth (auth_context_for k Regenerate r) = Inr ()"
  using assms
  by (auto simp: store_regenerate_def Let_def
      split: sum.splits option.splits value_source.splits prod.splits if_splits)

lemma get_or_regenerate_prompted:
  assumes "get_or_regenerate s k run auth r cap clk = (Inr x, s', effs)"
  shows "Prompted (auth_context_for k Regenerate r) \<in> set effs \<and> auth (auth_context_for k Regenerate r) = Inr ()"
  using assms
  by (auto simp: get_or_regenerate_def Let_def
      split: sum.splits option.splits value_source.splits prod.splits if_splits)

lemma resident_value:
  assumes "get_or_regenerate s k run auth r cap clk = (Inl DefValueResident, s', effs)"
  shows "\<exists>e. fmlookup (entries s) k = Some e \<and> state e (clk 0) \<noteq> HardExpired"
  using assms
  by (auto simp: get_or_regenerate_def evaluate_def Let_def
      split: sum.splits option.splits value_source.splits prod.splits if_splits)

lemma HardExpired_stays: "state e now = HardExpired \<Longrightarrow> state (snd (evaluate e now)) t = HardExpired"
  by (simp add: evaluate_def Let_def zeroize_value_def state_def)

lemma state_of_cases:
  assumes "store_state_of s k now = (st, s')"
  shows "case st of
      None \<Rightarrow> fmlookup (entries s') k = None \<and> s' = s
    | Some x \<Rightarrow> \<exists>e. fmlookup (entries s') k = Some e \<and> (x = HardExpired \<longrightarrow> (\<forall>t. state e t = HardExpired))
        \<and> (x \<noteq> HardExpired \<longrightarrow> state e now = x)"
proof (cases "fmlookup (entries s) k")
  case None
  then show ?thesis using assms by (auto simp: store_state_of_def)
next
  case (Some e)
  then have "st = Some (state e now)" "fmlookup (entries s') k = Some (snd (evaluate e now))"
    using assms by (auto simp: store_state_of_def evaluate_def Let_def)
  moreover have "snd (evaluate e now) = e" if "state e now \<noteq> HardExpired"
    using that by (simp add: evaluate_def Let_def)
  ultimately show ?thesis using HardExpired_stays by auto
qed

lemma lazy_generate_consent:
  assumes "lazy_generate s ctx key dry = (RespOk (GetPayload b), s', effs)"
    and "\<And>e. fmlookup (entries s) key = Some e \<Longrightarrow> state e (hc_clock ctx 2) = HardExpired"
  shows "\<not> dry \<and> (\<exists>v. held s' key = Some v \<and> shows_value ctx s' key v b) \<and> user_approved ctx key effs"
  using assms
  by (auto simp: lazy_generate_def with_effects_eq user_approved_def
      dest!: finish_if_readable_shows dest: get_or_regenerate_prompted resident_value
      split: sum.splits prod.splits regenerate_def_outcome.splits)

lemma regenerate_consent:
  assumes "regenerate_and_read s ctx key dry = (RespOk (GetPayload b), s', effs)"
  shows "\<not> dry \<and> (\<exists>v. held s' key = Some v \<and> shows_value ctx s' key v b) \<and> user_approved ctx key effs"
  using assms
  by (auto simp: regenerate_and_read_def with_effects_eq user_approved_def
      dest!: finish_if_readable_shows dest: regenerate_prompted
      split: sum.splits prod.splits regenerate_outcome.splits)

lemma extend_consent:
  assumes "extend_and_read s ctx key dry = (RespOk (GetPayload b), s', effs)"
    and "fmlookup (entries s) key = Some e" "state e (hc_clock ctx 2) \<noteq> Active"
  shows "\<not> dry \<and> (\<exists>v. held s' key = Some v \<and> shows_value ctx s' key v b) \<and> user_approved ctx key effs"
proof -
  from assms(1) obtain x s2 where
      e: "extend_authenticated s key (hc_auth ctx) (hc_requester ctx) (hc_cap ctx)
            (readings_from 2 (hc_clock ctx)) = (Inr x, s2, effs)"
    and f: "finish_if_readable s2 ctx key dry = (RespOk (GetPayload b), s')"
    by (auto simp: extend_and_read_def with_effects_eq split: sum.splits prod.splits extend_auth_outcome.splits)
  have "effs = [Prompted (auth_context_for key Extend (hc_requester ctx))]
      \<and> hc_auth ctx (auth_context_for key Extend (hc_requester ctx)) = Inr ()"
    by (rule extend_prompted [OF e assms(2)]) (use assms(3) in simp)
  with finish_if_readable_shows [OF f] show ?thesis by (auto simp: user_approved_def)
qed

lemma retrieve_consent:
  assumes get: "retrieve s ctx vault key dry = (RespOk (GetPayload b), s', effs)"
    and clock: "\<And>i j. i \<le> j \<Longrightarrow> hc_clock ctx i \<le> hc_clock ctx j"
  shows "\<not> dry \<and> (\<exists>v. held s' key = Some v \<and> shows_value ctx s' key v b)
    \<and> (readable s key (hc_clock ctx 0) \<or> user_approved ctx key effs)"
proof -
  obtain ok s0 where read: "value_readable s ctx key (hc_clock ctx 0) = (ok, s0)" by fastforce
  obtain st s1 where st: "store_state_of s0 key (hc_clock ctx (Suc 0)) = (st, s1)" by fastforce
  note eqs = get [unfolded retrieve_def read, simplified st One_nat_def prod.case]
  consider "ok" | "\<not> ok" "st = None" | "\<not> ok" "st = Some Active" | "\<not> ok" "st = Some SoftExpired"
    | "\<not> ok" "st = Some HardExpired"
    by (cases st) (auto intro: entry_state.exhaust)
  then show ?thesis
  proof cases
    case 1
    with eqs value_found [of s ctx key "hc_clock ctx 0" s0] read finish_get_shows [of s0 ctx key dry]
    show ?thesis by (auto simp: with_effects_eq)
  next
    case 2
    then have "fmlookup (entries s1) key = None" using state_of_cases [OF st] by auto
    moreover have "lazy_generate s1 ctx key dry = (RespOk (GetPayload b), s', effs)"
      using eqs 2 refusals_carry_nothing(4) [of ctx vault key "RespOk (GetPayload b)"]
      by (auto simp: get_absent_def split: option.splits if_splits)
    ultimately show ?thesis using lazy_generate_consent by fastforce
  next
    case 3
    then show ?thesis using eqs by simp
  next
    case 4
    then obtain e where e: "fmlookup (entries s1) key = Some e" "state e (hc_clock ctx 1) = SoftExpired"
      using state_of_cases [OF st] by auto
    then have "state e (hc_clock ctx 2) \<noteq> Active"
      using Active_earlier [OF _ clock [of 1 2]] by fastforce
    with extend_consent [OF _ e(1), of ctx dry b s' effs] eqs 4 show ?thesis by auto
  next
    case 5
    then have "state e t = HardExpired" if "fmlookup (entries s1) key = Some e" for e t
      using state_of_cases [OF st] that by auto
    with eqs 5 lazy_generate_consent [of s1 ctx key dry b s' effs] regenerate_consent [of s1 ctx key dry b s' effs]
    show ?thesis by (auto split: if_splits)
  qed
qed

text \<open>What a get that shows a value has passed: the gates, and the consent behind the value.\<close>

definition gates_passed :: "store \<Rightarrow> 'j handler_ctx \<Rightarrow> string \<Rightarrow> bool" where
  "gates_passed s ctx key \<longleftrightarrow>
     (\<forall>rest. key \<noteq> compose_key RESERVED_NAMESPACE_AUTHSOCK rest)
     \<and> (\<forall>owner. owner_of s key = Some owner \<longrightarrow> hc_satisfies ctx owner)
     \<and> (\<forall>allowed. fmlookup (hc_kv_process_policies ctx) key = Some allowed
          \<longrightarrow> chain_gate_passes (hc_requester ctx) allowed)
     \<and> (\<forall>g. guard_of s key = Some g \<longrightarrow> hc_guard_check_mode ctx = AlreadyApproved
          \<or> (\<exists>chain out. hc_guard_chain ctx = Some chain
               \<and> evaluate_guard chain (hc_guard_audit_token ctx) g = Inr out))"

lemma get_reveals:
  assumes get: "handle_get dm ctx key dry = (RespOk (GetPayload b), dm', effs)"
    and clock: "\<And>i j. i \<le> j \<Longrightarrow> hc_clock ctx i \<le> hc_clock ctx j"
  shows "\<not> dry \<and> gates_passed (dm_store dm) ctx key
    \<and> (\<exists>v. held (dm_store dm') key = Some v \<and> shows_value ctx (dm_store dm') key v b)
    \<and> (readable (dm_store dm) key (hc_clock ctx 0) \<or> user_approved ctx key effs)"
proof -
  have open': "get_refusal (dm_store dm) ctx key = None"
    using get by (auto simp: handle_get_def unless_refused_def reply_only_def
        dest: refusals_carry_nothing split: option.splits prod.splits)
  then obtain s' where ret: "retrieve (dm_store dm) ctx (dm_vault dm) key dry = (RespOk (GetPayload b), s', effs)"
    and dm': "dm' = dm\<lparr>dm_store := s'\<rparr>"
    using get by (auto simp: handle_get_def unless_refused_def split: prod.splits)
  have gates: "reject_reserved_namespace_read key = None" "require_owner (dm_store dm) ctx key = None"
      "process_refusal ctx key = None" "guard_refusal (dm_store dm) ctx key = None"
    using open' by (auto simp: get_refusal_def first_refusal_None)
  have "key \<noteq> compose_key RESERVED_NAMESPACE_AUTHSOCK rest" for rest
    using gates(1)
    by (auto simp: reject_reserved_namespace_read_def compose_key_def is_reserved_namespace_def
        RESERVED_NAMESPACE_AUTHSOCK_def split: option.splits if_splits)
  moreover have "hc_satisfies ctx owner" if "owner_of (dm_store dm) key = Some owner" for owner
    using gates(2) that by (auto simp: require_owner_def split: if_splits)
  moreover have "chain_gate_passes (hc_requester ctx) allowed"
    if "fmlookup (hc_kv_process_policies ctx) key = Some allowed" for allowed
    using gates(3) that by (auto simp: process_refusal_def split: if_splits)
  moreover have "hc_guard_check_mode ctx = AlreadyApproved
      \<or> (\<exists>chain out. hc_guard_chain ctx = Some chain
            \<and> evaluate_guard chain (hc_guard_audit_token ctx) g = Inr out)"
    if "guard_of (dm_store dm) key = Some g" for g
    using gates(4) that
    by (cases "hc_guard_check_mode ctx") (auto simp: guard_refusal_def split: option.splits sum.splits)
  ultimately show ?thesis
    using retrieve_consent [OF ret clock] dm' by (auto simp: gates_passed_def)
qed

text \<open>
  Property C2.  Who gets to see a value.  If a request is answered with a value, it was a plain get
  of one key outside the reserved namespace, and every gate let its caller through: the owner's
  requirement, the key's process policy, and the guard of the entry unless the user has just
  approved in its place. What the reply shows is the value now held under that key, or for a
  one-time password the code and never the seed; and either the value was readable before the
  request or the user approved a prompt naming the key during it.
\<close>

theorem reveal_is_authorized:
  assumes "handle_request dm ctx req = (RespOk (GetPayload b), dm', effs)"
    and "\<And>i j. i \<le> j \<Longrightarrow> hc_clock ctx i \<le> hc_clock ctx j"
  shows "\<exists>key v. req = KvGet key False
    \<and> (\<forall>rest. key \<noteq> compose_key RESERVED_NAMESPACE_AUTHSOCK rest)
    \<and> (\<forall>owner. owner_of (dm_store dm) key = Some owner \<longrightarrow> hc_satisfies ctx owner)
    \<and> (\<forall>allowed. fmlookup (hc_kv_process_policies ctx) key = Some allowed
         \<longrightarrow> chain_gate_passes (hc_requester ctx) allowed)
    \<and> (\<forall>g. guard_of (dm_store dm) key = Some g \<longrightarrow> hc_guard_check_mode ctx = AlreadyApproved
         \<or> (\<exists>chain out. hc_guard_chain ctx = Some chain
              \<and> evaluate_guard chain (hc_guard_audit_token ctx) g = Inr out))
    \<and> held (dm_store dm') key = Some v \<and> shows_value ctx (dm_store dm') key v b
    \<and> (readable (dm_store dm) key (hc_clock ctx 0) \<or> user_approved ctx key effs)"
proof -
  obtain key dry where req: "req = KvGet key dry" using only_get_reveals [OF assms(1)] by blast
  then have "handle_get dm ctx key dry = (RespOk (GetPayload b), dm', effs)" using assms(1) by simp
  from get_reveals [OF this assms(2)] req show ?thesis unfolding gates_passed_def by blast
qed

end
