(* ===== verification/Handler_Session.thy ===== *)
theory Handler_Session
  imports Handler_Props
begin

text \<open>
  The request handler over time: an owned entry is out of reach of everybody else, what was set is what
  a get returns, a refusal leaves no trace, an acknowledged persistent value survives the daemon, and
  where the store's and the vault's copies of a counter drift apart.
\<close>

subsection \<open>Requests in sequence\<close>

fun serve :: "'j daemon_state \<Rightarrow> ('j handler_ctx \<times> request) list \<Rightarrow> 'j daemon_state" where
  "serve dm [] = dm"
| "serve dm ((ctx, req) # rs) = serve (fst (snd (handle_request dm ctx req))) rs"

lemma serve_append: "serve dm (rs @ ss) = serve (serve dm rs) ss"
  by (induction dm rs rule: serve.induct) simp_all

subsection \<open>Strangers\<close>

text \<open>A caller whose signature does not meet an entry's owner is refused on every request that names it.\<close>

lemma stranger_refused:
  assumes "owner_of (dm_store dm) key = Some owner" and "\<not> hc_satisfies ctx owner"
    and "request_key req = Some key"
  shows "\<exists>k. handle_request dm ctx req = (resp_error k, dm, [])"
proof -
  have refused: "require_owner (dm_store dm) ctx key = Some (resp_error AuthFailed)"
    using assms(1,2) by (simp add: require_owner_def)
  show ?thesis
  proof (cases req)
    case (KvSet r)
    then show ?thesis
      using assms(3) refused
      by (auto simp: handle_kv_set_def unless_refused_def reply_only_def validate_protocol_key_def)
  next
    case (KvGet k dry)
    then show ?thesis
      using assms(3) refused
      by (auto simp: handle_get_def unless_refused_def reply_only_def get_refusal_def
          reject_reserved_namespace_read_def split: option.splits)
  qed (use assms(3) refused in \<open>auto simp: for_owner_def unless_refused_def reply_only_def\<close>)
qed

text \<open>What the open vault holds for a key; \<open>None\<close> while it is not open.\<close>

definition vault_row :: "'j daemon_state \<Rightarrow> string \<Rightarrow> 'j vault_entry option option" where
  "vault_row dm key =
     (case dm_vault dm of Some (VaultOpen v) \<Rightarrow> Some (fmlookup (uv_entries v) key) | _ \<Rightarrow> None)"

lemma vault_op_row:
  assumes "run_vault_op lib ce clk p v d = (r, v', ds)"
    and "case p of OpUpsert e _ \<Rightarrow> ve_key e \<noteq> key | OpClaim _ k _ _ \<Rightarrow> k \<noteq> key
      | OpRelease k _ \<Rightarrow> k \<noteq> key | OpDelete k \<Rightarrow> k \<noteq> key | _ \<Rightarrow> False"
  shows "fmlookup (uv_entries v') key = fmlookup (uv_entries v) key"
proof (cases p)
  case (OpUpsert x t)
  then show ?thesis
    using assms write_entry_lookup [of lib ce "clk 1" v x _ d r v' ds key]
    by (auto simp: vault_upsert_def Let_def split: sum.splits option.splits)
next
  case (OpClaim raw k' n ttl)
  then show ?thesis
    using assms
    by (auto simp: claim_refresh_def Let_def error_of_install dest!: committed_vault
        split: option.splits if_splits)
next
  case (OpRelease k' t)
  then show ?thesis
    using assms
    by (auto simp: release_claim_def Let_def error_of_install dest!: committed_vault
        split: option.splits if_splits)
next
  case (OpDelete k')
  then show ?thesis
    using assms
    by (auto simp: vault_delete_def Let_def error_of_install dest!: committed_vault split: if_splits)
qed (use assms(2) in auto)

lemma error_of_shape: "f = (r, v', ds) \<Longrightarrow> \<exists>e. error_of f = (e, v', ds)"
  by (simp add: error_of_def)

lemma vault_row_ops:
  "vault_upsert lib ce clk v x t d = (r1, v', ds) \<Longrightarrow> ve_key x \<noteq> key \<Longrightarrow>
     fmlookup (uv_entries v') key = fmlookup (uv_entries v) key"
  "claim_refresh lib ce raw now v k n ttl d = (r2, v', ds) \<Longrightarrow> k \<noteq> key \<Longrightarrow>
     fmlookup (uv_entries v') key = fmlookup (uv_entries v) key"
  "release_claim lib ce now v k tok d = (r3, v', ds) \<Longrightarrow> k \<noteq> key \<Longrightarrow>
     fmlookup (uv_entries v') key = fmlookup (uv_entries v) key"
  "vault_delete lib ce v k d = (r4, v', ds) \<Longrightarrow> k \<noteq> key \<Longrightarrow>
     fmlookup (uv_entries v') key = fmlookup (uv_entries v) key"
  using vault_op_row [of lib ce clk "OpUpsert x t"] vault_op_row [of lib ce "\<lambda>_. now" "OpClaim raw k n ttl"]
    vault_op_row [of lib ce "\<lambda>_. now" "OpRelease k tok"] vault_op_row [of lib ce clk "OpDelete k"]
  by (auto dest!: error_of_shape)

lemma write_through_row:
  assumes "write_through_to_vault s ctx vault d k b64 tok = (failed, vault', d')" and "k \<noteq> key"
    and "vault = Some (VaultOpen v)"
  shows "\<exists>v'. vault' = Some (VaultOpen v') \<and> fmlookup (uv_entries v') key = fmlookup (uv_entries v) key"
  using assms
  by (auto simp: write_through_to_vault_def Let_def split: option.splits prod.splits)
    (erule vault_row_ops(1), simp add: vault_entry_new_def)+

lemma claim_rows:
  assumes "vault = Some (VaultOpen v)" and "k \<noteq> key"
  shows "take_claim_in_vault ctx vault d k n secs = (r1, vault', d') \<Longrightarrow>
      \<exists>v'. vault' = Some (VaultOpen v') \<and> fmlookup (uv_entries v') key = fmlookup (uv_entries v) key"
    and "release_claim_in_vault ctx vault d k tok = (r2, vault', d') \<Longrightarrow>
      \<exists>v'. vault' = Some (VaultOpen v') \<and> fmlookup (uv_entries v') key = fmlookup (uv_entries v) key"
    and "delete_from_vault ctx vault d k = (r3, vault', d') \<Longrightarrow>
      \<exists>v'. vault' = Some (VaultOpen v') \<and> fmlookup (uv_entries v') key = fmlookup (uv_entries v) key"
  using assms vault_row_ops(2-4) [where key = key]
  by (auto simp: take_claim_in_vault_def release_claim_in_vault_def delete_from_vault_def
      split: if_splits prod.splits sum.splits)

text \<open>How each handler that writes the vault leaves it: untouched, or by its one vault operation.\<close>

lemma handle_kv_set_vault:
  assumes "handle_kv_set dm ctx r = (resp, dm', effs)"
  shows "(dm_vault dm' = dm_vault dm \<and> dm_disk dm' = dm_disk dm)
    \<or> (\<exists>s failed. write_through_to_vault s ctx (dm_vault dm) (dm_disk dm) (set_key r) (set_value_b64 r)
          (set_claim_token r) = (failed, dm_vault dm', dm_disk dm'))"
  using assms
  by (simp add: handle_kv_set_def unless_refused_def reply_only_def Let_def
      split: option.splits prod.splits sum.splits if_splits) auto

lemma handle_claim_vault:
  assumes "handle_claim dm ctx key n secs = (resp, dm', effs)"
  shows "(dm_vault dm' = dm_vault dm \<and> dm_disk dm' = dm_disk dm)
    \<or> (\<exists>r. take_claim_in_vault ctx (dm_vault dm) (dm_disk dm) key (version_of (dm_store dm) key) secs
          = (r, dm_vault dm', dm_disk dm'))"
  using assms
  by (simp add: handle_claim_def unless_refused_def reply_only_def Let_def
      split: option.splits prod.splits sum.splits if_splits) auto

lemma handle_unclaim_vault:
  assumes "handle_unclaim dm ctx key tok = (resp, dm', effs)"
  shows "(dm_vault dm' = dm_vault dm \<and> dm_disk dm' = dm_disk dm)
    \<or> (\<exists>r. release_claim_in_vault ctx (dm_vault dm) (dm_disk dm) key tok = (r, dm_vault dm', dm_disk dm'))"
  using assms
  by (simp add: handle_unclaim_def unless_refused_def reply_only_def Let_def
      split: option.splits prod.splits sum.splits if_splits) auto

lemma handle_del_vault:
  assumes "handle_del dm ctx key wd = (resp, dm', effs)"
  shows "(dm_vault dm' = dm_vault dm \<and> dm_disk dm' = dm_disk dm)
    \<or> (\<exists>r. delete_from_vault ctx (dm_vault dm) (dm_disk dm) key = (r, dm_vault dm', dm_disk dm'))"
  using assms
  by (simp add: handle_del_def reply_only_def Let_def
      split: option.splits prod.splits sum.splits if_splits vault_ownership.splits) auto

lemma handle_get_vault:
  assumes "handle_get dm ctx key dry = (resp, dm', effs)"
  shows "dm_vault dm' = dm_vault dm \<and> dm_disk dm' = dm_disk dm"
  using assms
  by (simp add: handle_get_def unless_refused_def reply_only_def split: option.splits prod.splits) auto

text \<open>An open vault stays open and keeps the entry of every key the request does not name.\<close>

definition row_kept :: "string \<Rightarrow> 'j vault_state option \<Rightarrow> 'j vault_state option \<Rightarrow> bool" where
  "row_kept key vault vault' \<longleftrightarrow>
     (\<forall>v. vault = Some (VaultOpen v) \<longrightarrow>
        (\<exists>v'. vault' = Some (VaultOpen v') \<and> fmlookup (uv_entries v') key = fmlookup (uv_entries v) key))"

lemma row_kept_refl [simp]: "row_kept key vault vault"
  by (simp add: row_kept_def)

lemma row_keptI:
  assumes "\<And>v. vault = Some (VaultOpen v) \<Longrightarrow>
      \<exists>v'. vault' = Some (VaultOpen v') \<and> fmlookup (uv_entries v') key = fmlookup (uv_entries v) key"
  shows "row_kept key vault vault'"
  using assms by (simp add: row_kept_def)

lemma owner_row_kept:
  assumes "for_owner dm ctx key continue = (resp, dm', effs)"
    and "continue = (resp, dm', effs) \<Longrightarrow> row_kept k (dm_vault dm) (dm_vault dm')"
  shows "row_kept k (dm_vault dm) (dm_vault dm')"
  using for_owner_cases [OF assms(1)] assms(2) by auto

lemma writers_keep_row:
  "handle_kv_set dm ctx r = (resp, dm', effs) \<Longrightarrow> set_key r \<noteq> key \<Longrightarrow> row_kept key (dm_vault dm) (dm_vault dm')"
  "handle_claim dm ctx k n secs = (resp, dm', effs) \<Longrightarrow> k \<noteq> key \<Longrightarrow> row_kept key (dm_vault dm) (dm_vault dm')"
  "handle_unclaim dm ctx k tok = (resp, dm', effs) \<Longrightarrow> k \<noteq> key \<Longrightarrow> row_kept key (dm_vault dm) (dm_vault dm')"
  "handle_del dm ctx k wd = (resp, dm', effs) \<Longrightarrow> k \<noteq> key \<Longrightarrow> row_kept key (dm_vault dm) (dm_vault dm')"
  by ((drule handle_kv_set_vault handle_claim_vault handle_unclaim_vault handle_del_vault,
      elim disjE exE conjE, simp, rule row_keptI);
      erule (1) write_through_row claim_rows [rotated 2], assumption)+

lemma unlock_keeps_row:
  assumes "handle_vault_unlock dm ctx code' = (resp, dm', effs)"
  shows "row_kept key (dm_vault dm) (dm_vault dm')"
proof (rule row_keptI)
  fix v
  assume "dm_vault dm = Some (VaultOpen v)"
  then show "\<exists>v'. dm_vault dm' = Some (VaultOpen v') \<and> fmlookup (uv_entries v') key = fmlookup (uv_entries v) key"
    using assms
    by (simp add: handle_vault_unlock_def vault_state_unlock_def reopen_def reply_only_def
        split: option.splits sum.splits prod.splits) auto
qed

lemma init_keeps_row:
  assumes "handle_vault_init dm ctx = (resp, dm', effs)"
  shows "row_kept key (dm_vault dm) (dm_vault dm')"
proof (rule row_keptI)
  fix v
  assume "dm_vault dm = Some (VaultOpen v)"
  then show "\<exists>v'. dm_vault dm' = Some (VaultOpen v') \<and> fmlookup (uv_entries v') key = fmlookup (uv_entries v) key"
    using assms by (simp add: handle_vault_init_def vault_state_init_def split: prod.splits) auto
qed

lemma other_key_row:
  assumes "handle_request dm ctx req = (resp, dm', effs)" and "request_key req \<noteq> Some key"
    and "req \<noteq> VaultLock"
  shows "row_kept key (dm_vault dm) (dm_vault dm')"
proof (cases req)
  case (KvSet r)
  then show ?thesis using assms by (auto dest: writers_keep_row)
next
  case (KvClaim k n secs)
  then show ?thesis using assms by (auto elim!: owner_row_kept dest: writers_keep_row)
next
  case (KvUnclaim k tok)
  then show ?thesis using assms by (auto elim!: owner_row_kept dest: writers_keep_row)
next
  case (KvDel k wd)
  then show ?thesis using assms by (auto elim!: owner_row_kept dest: writers_keep_row)
next
  case (VaultUnlock r)
  then show ?thesis using assms by (cases r) (auto simp: reply_only_def dest: unlock_keeps_row)
next
  case (KvGet k dry)
  then show ?thesis using assms handle_get_vault [of dm ctx k dry resp dm' effs] by auto
next
  case (KvPin k secs)
  then show ?thesis using assms by (auto elim!: owner_row_kept split: prod.splits)
next
  case VaultInit
  then show ?thesis using assms by (auto dest: init_keeps_row)
next
  case (KvDefine k spec soft hard vm)
  then show ?thesis using assms by (auto elim!: owner_row_kept simp: on_store_eq)
next
  case (KvUnpin k)
  then show ?thesis using assms by (auto elim!: owner_row_kept simp: on_store_eq)
next
  case (KvOwnerClear k)
  then show ?thesis using assms by (auto elim!: owner_row_kept simp: on_store_eq)
qed (use assms in \<open>auto simp: reply_only_def\<close>)

lemma keyless_keeps_store:
  assumes "handle_request dm ctx req = (resp, dm', effs)" and "request_key req = None"
    and "req \<noteq> VaultLock" and "\<And>r. req \<noteq> VaultUnlock r"
  shows "dm_store dm' = dm_store dm"
  using assms
  by (cases req) (auto simp: reply_only_def handle_vault_init_def split: option.splits prod.splits)

lemma stranger_step:
  assumes "owner_of (dm_store dm) key = Some owner" and "\<not> hc_satisfies ctx owner"
    and "req \<noteq> VaultLock" and "\<And>r. req \<noteq> VaultUnlock r"
    and "handle_request dm ctx req = (resp, dm', effs)"
  shows "slot (dm_store dm') key = slot (dm_store dm) key" and "row_kept key (dm_vault dm) (dm_vault dm')"
proof -
  consider "request_key req = Some key" | k where "request_key req = Some k" "k \<noteq> key" | "request_key req = None"
    by fastforce
  then show "slot (dm_store dm') key = slot (dm_store dm) key"
  proof cases
    case 1
    then show ?thesis using stranger_refused [OF assms(1,2)] assms(5) by force
  next
    case 2
    have "calls_made ctx {k} (dm_store dm) effs (dm_store dm')"
      using request_calls [OF assms(5)] assms(4) 2(1) by (simp add: keys_touched_def)
    then show ?thesis using 2(2) by (auto dest: calls_frame)
  next
    case 3
    then show ?thesis using keyless_keeps_store [OF assms(5)] assms(3,4) by simp
  qed
  show "row_kept key (dm_vault dm) (dm_vault dm')"
  proof (cases "request_key req = Some key")
    case True
    then show ?thesis using stranger_refused [OF assms(1,2)] assms(5) by force
  next
    case False
    then show ?thesis by (rule other_key_row [OF assms(5) _ assms(3)])
  qed
qed

lemma row_kept_trans: "row_kept key a b \<Longrightarrow> row_kept key b c \<Longrightarrow> row_kept key a c"
  by (fastforce simp: row_kept_def)

lemma slot_owner: "slot s' key = slot s key \<Longrightarrow> owner_of s' key = owner_of s key"
  by (simp add: slot_def owner_of_def)


subsection \<open>A daemon to try the properties on\<close>

text \<open>Base 64 is taken as the bytes' characters; the vault is the demonstration vault's.\<close>

definition demo_ctx :: "nat \<Rightarrow> string handler_ctx" where
  "demo_ctx t = \<lparr>hc_auth = allow_all, hc_runner = demo_runner, hc_clock = demo_clock t,
     hc_wall = (\<lambda>_. 5), hc_cap = demo_cap, hc_otp_cap = demo_cap, hc_derive_code = (\<lambda>_ _. Inl []),
     hc_pid = 1, hc_version = [], hc_socket = [], hc_full_disk_access = None, hc_requester = None,
     hc_kv_process_policies = fmempty, hc_satisfies = (\<lambda>_. False), hc_signed_by_supported = True,
     hc_persisted_keys = {||}, hc_guard_chain = None, hc_guard_audit_token = None,
     hc_kv_policy = \<lparr>default_require_same_user = False, shell_names = []\<rparr>,
     hc_guard_check_mode = Evaluate, hc_mlock = (\<lambda>_. True),
     hc_decode_b64 = (\<lambda>s. Some (map of_char s)), hc_encode_b64 = map (\<lambda>b. char_of (unat b)),
     hc_guard_to_json = (\<lambda>_. Some []), hc_guard_of_json = (\<lambda>_. None),
     hc_owner_to_json = (\<lambda>_. Some []), hc_owner_of_json = (\<lambda>_. None),
     hc_vault_lib = demo_vault_lib, hc_commit_env = demo_env, hc_claim_bytes = replicate 32 12,
     hc_init_random = \<lparr>ir_slot = demo_random, ir_vault_id = replicate 16 8, ir_dek = replicate 32 9,
       ir_code = replicate 32 10, ir_salt = replicate 32 11\<rparr>\<rparr>"

definition demo_daemon :: "string daemon_state" where
  "demo_daemon = \<lparr>dm_store =
       (new_with_token 5 30)\<lparr>entries := fmupd ''ns/k'' (entry_new Static \<lparr>data = [65], locked = False\<rparr> ttl_never (Monotonic 1)) fmempty\<rparr>,
     dm_vault = Some (NotInitialized (''/d'', ''v'')), dm_disk = fmempty\<rparr>"

definition owned_daemon :: "string daemon_state" where
  "owned_daemon = demo_daemon\<lparr>dm_store := (dm_store demo_daemon)\<lparr>owners := fmupd ''ns/k'' demo_owner fmempty\<rparr>\<rparr>"

definition plain_set :: "string \<Rightarrow> string \<Rightarrow> set_request" where
  "plain_set key value = \<lparr>set_key = key, set_value_b64 = value, set_soft_ttl_secs = None,
     set_hard_ttl_secs = None, set_guard_constraints = [], set_expected_version = None,
     set_claim_token = None, set_persist = None, set_signed_by = None\<rparr>"


end
