(* ===== verification/Handler_Values.thy ===== *)
theory Handler_Values
  imports Handler_Session
begin

text \<open>
  Values through the request handler: what a set stores, that a get returns it, and that a refused set
  leaves no trace.
\<close>

subsection \<open>Reading\<close>

lemma get_reads:
  assumes "authorized s cap" and "readable s k t" and "held s k = Some v"
  shows "store_get s k cap t = (Inr (Some v), s)"
  using assms
  by (auto simp: store_get_def readable_def held_def authorized_def check_cap_def entry_get_def evaluate_def
      split: option.splits)

lemma plain_get:
  assumes "get_refusal (dm_store dm) ctx key = None" and "\<not> meta_is_otp (meta_of (dm_store dm) key)"
    and "authorized (dm_store dm) (hc_cap ctx)" and "held (dm_store dm) key = Some v"
    and "readable (dm_store dm) key (hc_clock ctx 0)" and "readable (dm_store dm) key (hc_clock ctx 7)"
  shows "handle_request dm ctx (KvGet key False) = (RespOk (GetPayload (hc_encode_b64 ctx (data v))), dm, [])"
  using assms
  by (simp add: handle_get_def unless_refused_def retrieve_def value_readable_def get_reads finish_get_def
      with_effects_def with_exposed_def)

subsection \<open>What an acknowledged set stores\<close>

lemma set_stores:
  assumes "store_set s k src v t cap now = (r, s')"
  shows "(\<exists>e. r = Inl e \<and> s' = s)
    \<or> (\<exists>u. r = Inr u \<and> authorized s cap \<and> s' = s\<lparr>entries := fmupd k (entry_new src v t now) (entries s)\<rparr>)"
  using assms by (auto simp: store_set_def authorized_def check_cap_def split: sum.splits if_splits option.splits)

text \<open>The state of the store after a set: the fresh entry, its guard, the next version and no claim.\<close>

definition set_effect ::
  "'j handler_ctx \<Rightarrow> string \<Rightarrow> u8 list \<Rightarrow> ttl \<Rightarrow> guard_record option \<Rightarrow> store \<Rightarrow> store"
where
  "set_effect ctx key bytes t plan s = s\<lparr>
     entries := fmupd key (entry_new Static (secret_new (hc_mlock ctx) bytes) t (hc_clock ctx 0)) (entries s),
     access_guards := (case plan of None \<Rightarrow> fmdrop key (access_guards s) | Some g \<Rightarrow> fmupd key g (access_guards s)),
     versions := fmupd key (u64_saturating_add (version_of s key) 1) (versions s),
     refresh_claims := fmdrop key (refresh_claims s)\<rparr>"

lemma settle_set_eq:
  assumes "authorized s1 (hc_cap ctx)"
  shows "settle_set ctx key plan s1 =
    (set_ack_with_guard_and_version (case plan of None \<Rightarrow> [] | Some g \<Rightarrow> map constraint_kind_label (constraints g))
       (u64_saturating_add (version_of s1 key) 1),
     s1\<lparr>access_guards := (case plan of None \<Rightarrow> fmdrop key (access_guards s1) | Some g \<Rightarrow> fmupd key g (access_guards s1)),
       versions := fmupd key (u64_saturating_add (version_of s1 key) 1) (versions s1),
       refresh_claims := fmdrop key (refresh_claims s1)\<rparr>)"
  using assms
  by (simp add: settle_set_def set_guard_def clear_guard_def bump_version_def clear_refresh_claim_def check_cap_def
      authorized_def version_of_def Let_def split: option.split)

lemma ack_ok [simp]: "is_ok (set_ack_with_guard_and_version g n)"
  by (simp add: set_ack_with_guard_and_version_def set_ack_full_def)

lemma error_no_ok [simp]: "\<not> is_ok (resp_error k)" "\<not> is_ok (cas_mismatch n)" "\<not> is_ok (already_claimed n)"
  by (simp_all add: resp_error_def cas_mismatch_def already_claimed_def)

lemma plan_refusal_no_ok: "plan_constraints pol chain ws = Inl resp \<Longrightarrow> \<not> is_ok resp"
proof (induction ws)
  case (Cons w ws)
  then show ?case
    by (cases w) (auto split: sum.splits option.splits if_splits)
qed simp

lemma refusal_no_ok:
  "validate_protocol_key key = Some resp \<Longrightarrow> \<not> is_ok resp"
  "reject_reserved_namespace_write key = Some resp \<Longrightarrow> \<not> is_ok resp"
  "require_owner s ctx key = Some resp \<Longrightarrow> \<not> is_ok resp"
  "plan_guard_record decl pol tok chain = Inl resp \<Longrightarrow> \<not> is_ok resp"
  "declared_owner_of ctx sb = Inl resp \<Longrightarrow> \<not> is_ok resp"
  "set_refusal dm ctx r = Some resp \<Longrightarrow> \<not> is_ok resp"
  by (auto simp: validate_protocol_key_def reject_reserved_namespace_write_def require_owner_def
      plan_guard_record_def declared_owner_of_def parse_signed_by_def map_err_def Let_def set_refusal_def
      require_unlocked_vault_def check_claim_fence_def
      split: if_splits option.splits prod.splits sum.splits vault_state.splits dest: plan_refusal_no_ok)

lemma handle_set_cases:
  assumes "handle_set s ctx key b64 so ha decl = (resp, s')"
  shows "(\<not> is_ok resp \<and> s' = s)
    \<or> (\<exists>plan t bytes. is_ok resp
        \<and> plan_guard_record decl (hc_kv_policy ctx) (hc_guard_audit_token ctx) (hc_guard_chain ctx) = Inr plan
        \<and> ttl_new (opt_from_secs so) (opt_from_secs ha) = Inr t \<and> hc_decode_b64 ctx b64 = Some bytes
        \<and> authorized s (hc_cap ctx) \<and> s' = set_effect ctx key bytes t plan s)"
proof -
  have settled: "settle_set ctx key plan (s\<lparr>entries := m\<rparr>) = (resp, s') \<Longrightarrow> authorized s (hc_cap ctx) \<Longrightarrow>
      is_ok resp \<and> s' = s\<lparr>entries := m,
        access_guards := (case plan of None \<Rightarrow> fmdrop key (access_guards s) | Some g \<Rightarrow> fmupd key g (access_guards s)),
        versions := fmupd key (u64_saturating_add (version_of s key) 1) (versions s),
        refresh_claims := fmdrop key (refresh_claims s)\<rparr>" for plan m
    using settle_set_eq [of "s\<lparr>entries := m\<rparr>" ctx key plan]
    by (cases plan) (auto simp: authorized_def version_of_def)
  show ?thesis
  proof (cases "validate_protocol_key key = None \<and> reject_reserved_namespace_write key = None")
    case False
    then show ?thesis
      using assms refusal_no_ok(1,2) by (auto simp: handle_set_def split: option.splits)
  next
    case gates: True
    show ?thesis
    proof (cases "plan_guard_record decl (hc_kv_policy ctx) (hc_guard_audit_token ctx) (hc_guard_chain ctx)")
      case (Inl e)
      then show ?thesis using assms gates refusal_no_ok(4) by (auto simp: handle_set_def)
    next
      case plan: (Inr plan)
      show ?thesis
      proof (cases "\<exists>t bytes. ttl_new (opt_from_secs so) (opt_from_secs ha) = Inr t \<and> hc_decode_b64 ctx b64 = Some bytes")
        case False
        then show ?thesis
          using assms gates plan by (auto simp: handle_set_def split: sum.splits option.splits)
      next
        case True
        then obtain t bytes where
          tb: "ttl_new (opt_from_secs so) (opt_from_secs ha) = Inr t" "hc_decode_b64 ctx b64 = Some bytes" by blast
        obtain w s1 where
          st: "store_set s key Static (secret_new (hc_mlock ctx) bytes) t (hc_cap ctx) (hc_clock ctx 0) = (w, s1)"
          by fastforce
        show ?thesis
          using assms gates plan tb set_stores [OF st]
            settled [of plan "fmupd key (entry_new Static (secret_new (hc_mlock ctx) bytes) t (hc_clock ctx 0)) (entries s)"]
          by (auto simp: handle_set_def st set_effect_def split: set_error.splits)
      qed
    qed
  qed
qed

definition with_owner :: "string \<Rightarrow> owner_principal option \<Rightarrow> store \<Rightarrow> store" where
  "with_owner key ownr s =
     (case ownr of None \<Rightarrow> s | Some p \<Rightarrow> s\<lparr>owners := fmupd key p (owners s)\<rparr>)"

lemma authorized_effect: "authorized (set_effect ctx key bytes t plan s) cap = authorized s cap"
  by (simp add: set_effect_def authorized_def)

lemma report_owner_ok [simp]: "is_ok (report_owner s key resp) = is_ok resp"
  by (auto simp: report_owner_def split: option.splits response.splits ok_payload.splits)

lemma write_failure_no_ok:
  "write_through_to_vault s ctx vault d key b64 tok = (Some resp, vault', d') \<Longrightarrow> \<not> is_ok resp"
  by (auto simp: write_through_to_vault_def Let_def split: option.splits sum.splits prod.splits)

text \<open>
  A set either is refused before anything happens, or stores; then a value that is to persist is
  written to the vault too, and only if that succeeds is the set acknowledged.
\<close>

lemma handle_kv_set_cases:
  assumes "handle_kv_set dm ctx r = (resp, dm', effs)"
  shows "effs = [] \<and> ((\<not> is_ok resp \<and> dm' = dm)
    \<or> (\<exists>plan t bytes ownr.
        plan_guard_record (set_guard_constraints r) (hc_kv_policy ctx) (hc_guard_audit_token ctx)
          (hc_guard_chain ctx) = Inr plan
        \<and> ttl_new (opt_from_secs (set_soft_ttl_secs r))
            (opt_from_secs (if wants_persistence ctx r then None else set_hard_ttl_secs r)) = Inr t
        \<and> hc_decode_b64 ctx (set_value_b64 r) = Some bytes
        \<and> declared_owner_of ctx (set_signed_by r) = Inr ownr
        \<and> set_refusal dm ctx r = None \<and> require_owner (dm_store dm) ctx (set_key r) = None
        \<and> authorized (dm_store dm) (hc_cap ctx)
        \<and> dm_store dm' = with_owner (set_key r) ownr (set_effect ctx (set_key r) bytes t plan (dm_store dm))
        \<and> (if wants_persistence ctx r
           then \<exists>failed. write_through_to_vault (dm_store dm') ctx (dm_vault dm) (dm_disk dm) (set_key r)
                  (set_value_b64 r) (set_claim_token r) = (failed, dm_vault dm', dm_disk dm')
                \<and> (is_ok resp \<longleftrightarrow> failed = None)
           else is_ok resp \<and> dm_vault dm' = dm_vault dm \<and> dm_disk dm' = dm_disk dm)))"
proof (cases "validate_protocol_key (set_key r) = None \<and> require_owner (dm_store dm) ctx (set_key r) = None
    \<and> set_refusal dm ctx r = None \<and> (\<exists>o'. declared_owner_of ctx (set_signed_by r) = Inr o')")
  case False
  have "effs = [] \<and> \<not> is_ok resp \<and> dm' = dm"
  proof (cases "validate_protocol_key (set_key r)")
    case Some
    then show ?thesis using assms refusal_no_ok by (auto simp: handle_kv_set_def unless_refused_def reply_only_def Let_def)
  next
    case v: None
    show ?thesis
    proof (cases "require_owner (dm_store dm) ctx (set_key r)")
      case Some
      then show ?thesis using assms v refusal_no_ok(3)
        by (auto simp: handle_kv_set_def unless_refused_def reply_only_def Let_def)
    next
      case o: None
      show ?thesis
      proof (cases "declared_owner_of ctx (set_signed_by r)")
        case (Inl e)
        then show ?thesis using assms v o refusal_no_ok(5)
          by (auto simp: handle_kv_set_def unless_refused_def reply_only_def Let_def)
      next
        case (Inr p)
        with False v o obtain e where "set_refusal dm ctx r = Some e" by auto
        then show ?thesis using assms v o Inr refusal_no_ok(6)
          by (auto simp: handle_kv_set_def unless_refused_def reply_only_def Let_def)
      qed
    qed
  qed
  then show ?thesis by simp
next
  case True
  then obtain ownr where d: "declared_owner_of ctx (set_signed_by r) = Inr ownr" by blast
  obtain x s1 where hs: "handle_set (dm_store dm) ctx (set_key r) (set_value_b64 r) (set_soft_ttl_secs r)
      (if wants_persistence ctx r then None else set_hard_ttl_secs r) (set_guard_constraints r) = (x, s1)"
    by fastforce
  show ?thesis
  proof (cases "is_ok x")
    case False
    then show ?thesis
      using assms True d hs handle_set_cases [OF hs]
      by (auto simp: handle_kv_set_def unless_refused_def Let_def)
  next
    case ok: True
    then obtain plan t bytes where st:
      "plan_guard_record (set_guard_constraints r) (hc_kv_policy ctx) (hc_guard_audit_token ctx)
          (hc_guard_chain ctx) = Inr plan"
      "ttl_new (opt_from_secs (set_soft_ttl_secs r))
            (opt_from_secs (if wants_persistence ctx r then None else set_hard_ttl_secs r)) = Inr t"
      "hc_decode_b64 ctx (set_value_b64 r) = Some bytes"
      "authorized (dm_store dm) (hc_cap ctx)" and s1: "s1 = set_effect ctx (set_key r) bytes t plan (dm_store dm)"
      using handle_set_cases [OF hs] by auto
    let ?s2 = "with_owner (set_key r) ownr s1"
    have s2: "(case ownr of None \<Rightarrow> s1 | Some p \<Rightarrow> snd (set_owner s1 (set_key r) p (hc_cap ctx))) = ?s2"
      using st(4) by (auto simp: with_owner_def set_owner_def s1 check_cap_def set_effect_def authorized_def
          split: option.split)
    obtain failed vault' d' where w: "write_through_to_vault ?s2 ctx (dm_vault dm) (dm_disk dm) (set_key r)
        (set_value_b64 r) (set_claim_token r) = (failed, vault', d')"
      using prod_cases3 by blast
    have r: "(resp, dm', effs) = (if wants_persistence ctx r
        then ((case failed of Some e \<Rightarrow> e | None \<Rightarrow> report_owner ?s2 (set_key r) x),
              dm\<lparr>dm_store := ?s2, dm_vault := vault', dm_disk := d'\<rparr>, [])
        else (report_owner ?s2 (set_key r) x, dm\<lparr>dm_store := ?s2\<rparr>, []))"
      using assms True d ok
      by (cases failed) (simp_all add: handle_kv_set_def unless_refused_def Let_def hs s2 w split: if_splits)
    have ack: "is_ok (case failed of Some e \<Rightarrow> e | None \<Rightarrow> report_owner ?s2 (set_key r) x) \<longleftrightarrow> failed = None"
      using ok w by (cases failed) (auto dest: write_failure_no_ok)
    show ?thesis
    proof (cases "wants_persistence ctx r")
      case True
      with r ack w st d s1 \<open>validate_protocol_key _ = None \<and> _\<close> show ?thesis
        by (intro conjI disjI2 exI [of _ plan] exI [of _ t] exI [of _ bytes] exI [of _ ownr]) auto
    next
      case False
      with r ok st d s1 \<open>validate_protocol_key _ = None \<and> _\<close> show ?thesis
        by (intro conjI disjI2 exI [of _ plan] exI [of _ t] exI [of _ bytes] exI [of _ ownr]) auto
    qed
  qed
qed

subsection \<open>Properties of a set\<close>

lemma vault_upsert_failed:
  assumes "vault_upsert lib ce clk v x t d = (Inl e, v', ds)"
  shows "v' = v"
proof -
  have "run_vault_op lib ce clk (OpUpsert x t) v d = (Some e, v', ds)" using assms by (simp add: error_of_def)
  from op_commits [OF this] show ?thesis using committed_cases by fastforce
qed

lemma write_through_failed:
  assumes "write_through_to_vault s ctx vault d key b64 tok = (Some resp, vault', d')"
  shows "vault' = vault"
  using assms
  by (auto simp: write_through_to_vault_def Let_def vault_upsert_failed
      elim!: unlocked.elims
      split: option.splits sum.splits prod.splits)

text \<open>
  Property C38.  A set that is not acknowledged was refused before anything happened, by whatever
  gate refused it; or the value was to persist and the write to the vault's file failed, and then
  the open vault is as it was and the store holds exactly what the set wrote, so that the newest
  value is not lost.
\<close>

theorem refused_set_leaves_no_trace:
  assumes "handle_request dm ctx (KvSet r) = (resp, dm', effs)" and "\<not> is_ok resp"
  shows "effs = [] \<and> (dm' = dm
    \<or> (wants_persistence ctx r \<and> set_refusal dm ctx r = None \<and> dm_vault dm' = dm_vault dm
        \<and> (\<exists>plan t bytes ownr. hc_decode_b64 ctx (set_value_b64 r) = Some bytes
             \<and> dm_store dm' = with_owner (set_key r) ownr (set_effect ctx (set_key r) bytes t plan (dm_store dm)))))"
  using handle_kv_set_cases [of dm ctx r resp dm' effs] assms write_through_failed
  by (fastforce split: if_splits)

lemma with_owner_parts [simp]:
  "entries (with_owner key ownr s) = entries s" "definitions (with_owner key ownr s) = definitions s"
  "versions (with_owner key ownr s) = versions s" "refresh_claims (with_owner key ownr s) = refresh_claims s"
  "access_guards (with_owner key ownr s) = access_guards s" "authorized (with_owner key ownr s) cap = authorized s cap"
  by (simp_all add: with_owner_def authorized_def split: option.split)

lemma set_effect_parts [simp]:
  "entries (set_effect ctx key bytes t plan s)
     = fmupd key (entry_new Static (secret_new (hc_mlock ctx) bytes) t (hc_clock ctx 0)) (entries s)"
  "definitions (set_effect ctx key bytes t plan s) = definitions s"
  "owners (set_effect ctx key bytes t plan s) = owners s"
  "versions (set_effect ctx key bytes t plan s) = fmupd key (u64_saturating_add (version_of s key) 1) (versions s)"
  "refresh_claims (set_effect ctx key bytes t plan s) = fmdrop key (refresh_claims s)"
  by (simp_all add: set_effect_def)

definition within :: "nat option \<Rightarrow> monotonic \<Rightarrow> monotonic \<Rightarrow> bool" where
  "within secs since now \<longleftrightarrow> (\<forall>n. secs = Some n \<longrightarrow> saturating_duration_since now since < from_secs n)"

lemma fresh_is_active:
  assumes "ttl_new (opt_from_secs so) (opt_from_secs ha) = Inr t" and "within so t0 now" and "within ha t0 now"
  shows "state (entry_new src v t t0) now = Active"
  using assms
  by (auto simp: state_def entry_new_def ttl_new_def opt_from_secs_def within_def not_le
      split: option.splits if_splits)


subsection \<open>Concrete instances\<close>

lemma demo_key [simp]: "split_composed ''ns/k'' = Some (''ns'', ''k'')" "\<not> is_reserved_namespace ''ns''"
  "validate_key_syntax ''ns/k'' = Inr ()"
  by code_simp+

lemma demo_store_facts [simp]:
  "owner_of (dm_store demo_daemon) k = None" "guard_of (dm_store demo_daemon) k = None"
  "version_of (dm_store demo_daemon) k = 0" "meta_of (dm_store demo_daemon) k = value_meta_new"
  "authorized (dm_store demo_daemon) demo_cap" "refresh_claim_of (dm_store demo_daemon) k = None"
  "held (dm_store demo_daemon) ''ns/k'' = Some \<lparr>data = [65], locked = False\<rparr>"
  "readable (dm_store demo_daemon) ''ns/k'' now"
  by (simp_all add: demo_daemon_def new_with_token_def owner_of_def guard_of_def version_of_def meta_of_def
      definition_of_def authorized_def demo_cap_def refresh_claim_of_def held_def readable_def entry_new_def
      state_def ttl_never_def)

lemma demo_ctx_facts [simp]:
  "hc_cap (demo_ctx t) = demo_cap" "hc_wall (demo_ctx t) n = 5" "hc_clock (demo_ctx t) n = Monotonic t"
  "hc_kv_process_policies (demo_ctx t) = fmempty" "hc_persisted_keys (demo_ctx t) = {||}"
  "hc_decode_b64 (demo_ctx t) b = Some (map of_char b)"
  "hc_encode_b64 (demo_ctx t) bs = map (\<lambda>b. char_of (unat b)) bs"
  "hc_kv_policy (demo_ctx t) = \<lparr>default_require_same_user = False, shell_names = []\<rparr>"
  by (simp_all add: demo_ctx_def demo_clock_def)

lemma demo_chars [simp]: "char_of (65 :: nat) = CHR ''A''" "char_of (66 :: nat) = CHR ''B''"
  by code_simp+

lemma updated_entries [simp]:
  "authorized (s\<lparr>entries := m\<rparr>) cap = authorized s cap" "version_of (s\<lparr>entries := m\<rparr>) k = version_of s k"
  by (simp_all add: authorized_def version_of_def)

lemma demo_gates [simp]: "get_refusal (dm_store demo_daemon) (demo_ctx t) ''ns/k'' = None"
  by (simp add: get_refusal_def reject_reserved_namespace_read_def require_owner_def process_refusal_def
      guard_refusal_def is_reserved_namespace_def RESERVED_NAMESPACE_AUTHSOCK_def)

theorem reveal_is_authorized_witness:
  "\<exists>v. held (dm_store demo_daemon) ''ns/k'' = Some v \<and> shows_value (demo_ctx 3) (dm_store demo_daemon) ''ns/k'' v ''A''"
proof -
  have "handle_request demo_daemon (demo_ctx 3) (KvGet ''ns/k'' False)
      = (RespOk (GetPayload (hc_encode_b64 (demo_ctx 3) (data \<lparr>data = [65], locked = False\<rparr>))), demo_daemon, [])"
    by (rule plain_get) (simp_all add: value_meta_new_def meta_is_otp_def)
  from reveal_is_authorized [OF this] show ?thesis by auto
qed

theorem refused_set_leaves_no_trace_witness:
  "\<exists>resp. handle_request demo_daemon (demo_ctx 3) (KvSet ((plain_set ''ns/k'' ''B'')\<lparr>set_expected_version := Some 9\<rparr>))
    = (resp, demo_daemon, [])"
proof -
  obtain resp dm' effs where r: "handle_request demo_daemon (demo_ctx 3)
      (KvSet ((plain_set ''ns/k'' ''B'')\<lparr>set_expected_version := Some 9\<rparr>)) = (resp, dm', effs)"
    by (metis prod_cases3)
  have "resp = cas_mismatch 0"
    using r by (simp add: handle_kv_set_def plain_set_def unless_refused_def validate_protocol_key_def
        require_owner_def declared_owner_of_def set_refusal_def wants_persistence_def reply_only_def Let_def)
  with refused_set_leaves_no_trace [OF r] r show ?thesis
    by (simp add: wants_persistence_def plain_set_def)
qed


end
