(* ===== verification/Agent_Message.thy ===== *)
theory Agent_Message
  imports Vault_Format
begin

text \<open>
  The messages of the SSH agent protocol (\<open>crates/cache-warden-authsock/src/message.rs\<close>) and their
  framing on a byte stream (\<open>codec.rs\<close>).  A stream is the bytes up to its end; reading returns what is
  left of it.  The texts of the errors are left out.  The parsing of SSH public keys (the crate
  \<open>ssh_key\<close>) is a parameter.  As elsewhere a string is its UTF-8 encoding.
\<close>

datatype agent_error = AgentIo | InvalidMessage | KeyStoreError | UpstreamError | FilterError

type_synonym 'a agent_result = "agent_error + 'a"

subsection \<open>Lossy decoding\<close>

text \<open>
  \<open>String::from_utf8_lossy\<close>: every maximal piece that begins a character without completing it, and
  every byte that cannot begin one, becomes U+FFFD.  One step says how many bytes it takes and whether
  they are a character.
\<close>

definition second_ok :: "u8 \<Rightarrow> u8 \<Rightarrow> bool" where
  "second_ok a b \<longleftrightarrow> utf8_tail b \<and> (a = 0xE0 \<longrightarrow> 0xA0 \<le> b) \<and> (a = 0xED \<longrightarrow> b \<le> 0x9F)
     \<and> (a = 0xF0 \<longrightarrow> 0x90 \<le> b) \<and> (a = 0xF4 \<longrightarrow> b \<le> 0x8F)"

definition utf8_step :: "u8 \<Rightarrow> u8 list \<Rightarrow> nat \<times> bool" where
  "utf8_step a r =
     (if a < 0x80 then (1, True)
      else (case r of
              [] \<Rightarrow> (1, False)
            | b # r1 \<Rightarrow>
                if 0xC2 \<le> a \<and> a \<le> 0xDF then (if utf8_tail b then (2, True) else (1, False))
                else if \<not> (0xE0 \<le> a \<and> a \<le> 0xF4) \<or> \<not> second_ok a b then (1, False)
                else (case r1 of
                        [] \<Rightarrow> (2, False)
                      | c # r2 \<Rightarrow>
                          if \<not> utf8_tail c then (2, False)
                          else if a \<le> 0xEF then (3, True)
                          else (case r2 of
                                  [] \<Rightarrow> (3, False)
                                | d # _ \<Rightarrow> if utf8_tail d then (4, True) else (3, False)))))"

definition REPLACEMENT :: "u8 list" where "REPLACEMENT = [0xEF, 0xBF, 0xBD]"

function from_utf8_lossy :: "u8 list \<Rightarrow> u8 list" where
  "from_utf8_lossy [] = []"
| "from_utf8_lossy (a # r) =
     (let (n, ok) = utf8_step a r in
      (if ok then take n (a # r) else REPLACEMENT) @ from_utf8_lossy (drop n (a # r)))"
  by pat_completeness auto
termination
  by (relation "measure length") (auto simp: utf8_step_def split: if_splits list.splits)

declare from_utf8_lossy.simps(2) [simp del]

lemma lossy_ascii [simp]: "a < 0x80 \<Longrightarrow> from_utf8_lossy (a # r) = a # from_utf8_lossy r"
  by (simp add: from_utf8_lossy.simps utf8_step_def)

text \<open>Text that is UTF-8 is returned as it is.\<close>

lemma lossy_step:
  assumes "utf8_step a r = (n, True)"
  shows "from_utf8_lossy (a # r) = take n (a # r) @ from_utf8_lossy (drop n (a # r))"
  using assms by (simp add: from_utf8_lossy.simps)

lemma utf8_cases:
  assumes "utf8_valid (a # r)"
  shows "\<exists>n. utf8_step a r = (n, True) \<and> 0 < n \<and> utf8_valid (drop n (a # r))"
proof -
  note valid = assms [unfolded utf8_valid.simps(2)]
  have gap: "\<not> (0xE0 \<le> a \<and> a \<le> (0xDF :: u8))" "\<not> (0xF0 \<le> a \<and> a \<le> (0xEF :: u8))"
    by (simp_all add: word_le_nat_alt)
  have wide: "0xE0 \<le> a \<Longrightarrow> a \<le> (0xEF :: u8) \<Longrightarrow> a \<le> 0xF4" "0xF0 \<le> a \<Longrightarrow> 0xE0 \<le> (a :: u8)"
    by (simp_all add: word_le_nat_alt)
  show ?thesis
  proof (cases "a < 0x80 \<or> (0xC2 \<le> a \<and> a \<le> 0xDF)")
    case True
    then show ?thesis
      using valid by (cases "a < 0x80"; cases r) (simp_all add: utf8_step_def del: utf8_valid.simps(2))
  next
    case False
    then have big: "\<not> a < 0x80" "\<not> (0xC2 \<le> a \<and> a \<le> 0xDF)" by blast+
    with valid obtain b c r2 where r: "r = b # c # r2"
      by (cases r; cases "tl r") (simp_all del: utf8_valid.simps(2))
    show ?thesis
    proof (cases "0xE0 \<le> a \<and> a \<le> 0xEF")
      case True
      then have "a \<noteq> 0xF0" "a \<noteq> 0xF4" by auto
      with valid big True wide(1) show ?thesis by (auto simp: utf8_step_def second_ok_def r simp del: utf8_valid.simps(2))
    next
      case high: False
      with valid big obtain d r3 where d: "r2 = d # r3" by (cases r2) (simp_all add: r del: utf8_valid.simps(2))
      with valid big high have "0xF0 \<le> a" "a \<le> 0xF4" by (auto simp: r d simp del: utf8_valid.simps(2))
      with gap(2) wide(2) have "0xE0 \<le> a" "\<not> a \<le> 0xEF" "a \<noteq> 0xE0" "a \<noteq> 0xED" by auto
      with valid big high \<open>a \<le> 0xF4\<close> show ?thesis by (auto simp: utf8_step_def second_ok_def r d simp del: utf8_valid.simps(2))
    qed
  qed
qed

lemma lossy_valid: "utf8_valid bs \<Longrightarrow> from_utf8_lossy bs = bs"
proof (induction "length bs" arbitrary: bs rule: less_induct)
  case less
  show ?case
  proof (cases bs)
    case (Cons a r)
    from utf8_cases [OF less.prems [unfolded Cons]] obtain n where
      n: "utf8_step a r = (n, True)" "0 < n" "utf8_valid (drop n (a # r))" by blast
    then have "from_utf8_lossy (drop n bs) = drop n bs" using less.hyps Cons by simp
    then show ?thesis using lossy_step [OF n(1)] Cons by simp
  qed simp
qed

subsection \<open>Message types\<close>

datatype message_type =
  RequestIdentities | SignRequest | AddIdentity | RemoveIdentity | RemoveAllIdentities | AddIdConstrained
| AddSmartcardKey | RemoveSmartcardKey | LockAgent | UnlockAgent | AddSmartcardKeyConstrained | Extension
| AgentFailure | AgentSuccess | IdentitiesAnswer | SignResponse | ExtensionFailure | UnknownMessage

definition message_type_from :: "u8 \<Rightarrow> message_type" where
  "message_type_from value =
     (if value = 11 then RequestIdentities else if value = 13 then SignRequest
      else if value = 17 then AddIdentity else if value = 18 then RemoveIdentity
      else if value = 19 then RemoveAllIdentities else if value = 25 then AddIdConstrained
      else if value = 20 then AddSmartcardKey else if value = 21 then RemoveSmartcardKey
      else if value = 22 then LockAgent else if value = 23 then UnlockAgent
      else if value = 26 then AddSmartcardKeyConstrained else if value = 27 then Extension
      else if value = 5 then AgentFailure else if value = 6 then AgentSuccess
      else if value = 12 then IdentitiesAnswer else if value = 14 then SignResponse
      else if value = 28 then ExtensionFailure else UnknownMessage)"

fun message_type_byte :: "message_type \<Rightarrow> u8" where
  "message_type_byte RequestIdentities = 11"
| "message_type_byte SignRequest = 13"
| "message_type_byte AddIdentity = 17"
| "message_type_byte RemoveIdentity = 18"
| "message_type_byte RemoveAllIdentities = 19"
| "message_type_byte AddIdConstrained = 25"
| "message_type_byte AddSmartcardKey = 20"
| "message_type_byte RemoveSmartcardKey = 21"
| "message_type_byte LockAgent = 22"
| "message_type_byte UnlockAgent = 23"
| "message_type_byte AddSmartcardKeyConstrained = 26"
| "message_type_byte Extension = 27"
| "message_type_byte AgentFailure = 5"
| "message_type_byte AgentSuccess = 6"
| "message_type_byte IdentitiesAnswer = 12"
| "message_type_byte SignResponse = 14"
| "message_type_byte ExtensionFailure = 28"
| "message_type_byte UnknownMessage = 0"

lemma message_type_roundtrip [simp]: "message_type_from (message_type_byte t) = t"
  by (cases t) (simp_all add: message_type_from_def)

fun message_type_name :: "message_type \<Rightarrow> string" where
  "message_type_name RequestIdentities = ''SSH_AGENTC_REQUEST_IDENTITIES''"
| "message_type_name SignRequest = ''SSH_AGENTC_SIGN_REQUEST''"
| "message_type_name AddIdentity = ''SSH_AGENTC_ADD_IDENTITY''"
| "message_type_name RemoveIdentity = ''SSH_AGENTC_REMOVE_IDENTITY''"
| "message_type_name RemoveAllIdentities = ''SSH_AGENTC_REMOVE_ALL_IDENTITIES''"
| "message_type_name AddIdConstrained = ''SSH_AGENTC_ADD_ID_CONSTRAINED''"
| "message_type_name AddSmartcardKey = ''SSH_AGENTC_ADD_SMARTCARD_KEY''"
| "message_type_name RemoveSmartcardKey = ''SSH_AGENTC_REMOVE_SMARTCARD_KEY''"
| "message_type_name LockAgent = ''SSH_AGENTC_LOCK''"
| "message_type_name UnlockAgent = ''SSH_AGENTC_UNLOCK''"
| "message_type_name AddSmartcardKeyConstrained = ''SSH_AGENTC_ADD_SMARTCARD_KEY_CONSTRAINED''"
| "message_type_name Extension = ''SSH_AGENTC_EXTENSION''"
| "message_type_name AgentFailure = ''SSH_AGENT_FAILURE''"
| "message_type_name AgentSuccess = ''SSH_AGENT_SUCCESS''"
| "message_type_name IdentitiesAnswer = ''SSH_AGENT_IDENTITIES_ANSWER''"
| "message_type_name SignResponse = ''SSH_AGENT_SIGN_RESPONSE''"
| "message_type_name ExtensionFailure = ''SSH_AGENT_EXTENSION_FAILURE''"
| "message_type_name UnknownMessage = ''UNKNOWN''"

subsection \<open>Identities\<close>

text \<open>The operations of \<open>ssh_key\<close> the adapter uses, on its type of public keys.\<close>

record 'k ssh_lib =
  key_from_bytes :: "u8 list \<Rightarrow> 'k option"
  key_from_openssh :: "string \<Rightarrow> 'k option"
  key_data_encode :: "'k \<Rightarrow> u8 list option"
  key_fingerprint :: "'k \<Rightarrow> string"
  key_algorithm :: "'k \<Rightarrow> string"
  key_to_openssh :: "'k \<Rightarrow> string option"

record 'k identity =
  id_key_blob :: "u8 list"
  id_comment :: string
  id_public_key :: "'k option"

definition identity_new :: "'k ssh_lib \<Rightarrow> u8 list \<Rightarrow> string \<Rightarrow> 'k identity" where
  "identity_new ssh blob text =
     \<lparr>id_key_blob = blob, id_comment = text, id_public_key = key_from_bytes ssh blob\<rparr>"

definition identity_fingerprint :: "'k ssh_lib \<Rightarrow> 'k identity \<Rightarrow> string option" where
  "identity_fingerprint ssh i = map_option (key_fingerprint ssh) (id_public_key i)"

definition identity_key_type :: "'k ssh_lib \<Rightarrow> 'k identity \<Rightarrow> string option" where
  "identity_key_type ssh i = map_option (key_algorithm ssh) (id_public_key i)"

definition identity_to_openssh :: "'k ssh_lib \<Rightarrow> 'k identity \<Rightarrow> string option" where
  "identity_to_openssh ssh i =
     map_option (\<lambda>k. case key_to_openssh ssh k of Some s \<Rightarrow> s | None \<Rightarrow> []) (id_public_key i)"

subsection \<open>Fields\<close>

definition MAX_IDENTITIES :: nat where "MAX_IDENTITIES = 10000"
definition MAX_BLOB_SIZE :: nat where "MAX_BLOB_SIZE = 16 * 1024 * 1024"
definition MAX_MESSAGE_SIZE :: nat where "MAX_MESSAGE_SIZE = 16 * 1024 * 1024"

definition get_u32 :: "u8 list \<Rightarrow> (nat \<times> u8 list) option" where
  "get_u32 buf = (if length buf < 4 then None else Some (be_value (take 4 buf), drop 4 buf))"

definition read_size_prefixed :: "u8 list \<Rightarrow> (u8 list \<times> u8 list) agent_result" where
  "read_size_prefixed buf =
     (case get_u32 buf of
        None \<Rightarrow> Inl InvalidMessage
      | Some (len, rest) \<Rightarrow>
          (if MAX_BLOB_SIZE < len \<or> length rest < len then Inl InvalidMessage
           else Inr (take len rest, drop len rest)))"

text \<open>\<open>put_u32(u32::try_from(n).expect(...))\<close>; \<open>None\<close> is the panic.\<close>

definition put_len :: "nat \<Rightarrow> u8 list option" where
  "put_len n = (if n < 256 ^ 4 then Some (be_bytes 4 n) else None)"

definition put_field :: "u8 list \<Rightarrow> u8 list option" where
  "put_field bs = map_option (\<lambda>h. h @ bs) (put_len (length bs))"

subsection \<open>Messages\<close>

record agent_message =
  msg_type :: message_type
  msg_payload :: "u8 list"

definition agent_failure :: agent_message where
  "agent_failure = \<lparr>msg_type = AgentFailure, msg_payload = []\<rparr>"

definition agent_success :: agent_message where
  "agent_success = \<lparr>msg_type = AgentSuccess, msg_payload = []\<rparr>"

fun parse_identity_list :: "'k ssh_lib \<Rightarrow> nat \<Rightarrow> u8 list \<Rightarrow> 'k identity list agent_result" where
  "parse_identity_list ssh 0 buf = Inr []"
| "parse_identity_list ssh (Suc n) buf =
     rbind (read_size_prefixed buf) (\<lambda>(blob, buf).
     rbind (read_size_prefixed buf) (\<lambda>(comment_bytes, buf).
     rbind (parse_identity_list ssh n buf) (\<lambda>ids.
       Inr (identity_new ssh blob (bytes_string (from_utf8_lossy comment_bytes)) # ids))))"

definition parse_identities :: "'k ssh_lib \<Rightarrow> agent_message \<Rightarrow> 'k identity list agent_result" where
  "parse_identities ssh m =
     (if msg_type m \<noteq> IdentitiesAnswer then Inl InvalidMessage
      else (case get_u32 (msg_payload m) of
              None \<Rightarrow> Inl InvalidMessage
            | Some (count, buf) \<Rightarrow>
                (if MAX_IDENTITIES < count then Inl InvalidMessage else parse_identity_list ssh count buf)))"

fun put_identities :: "'k identity list \<Rightarrow> u8 list option" where
  "put_identities [] = Some []"
| "put_identities (i # ids) =
     (case (put_field (id_key_blob i), put_field (string_bytes (id_comment i)), put_identities ids) of
        (Some a, Some b, Some c) \<Rightarrow> Some (a @ b @ c)
      | _ \<Rightarrow> None)"

definition build_identities_answer :: "'k identity list \<Rightarrow> agent_message option" where
  "build_identities_answer ids =
     (case (put_len (length ids), put_identities ids) of
        (Some n, Some body) \<Rightarrow> Some \<lparr>msg_type = IdentitiesAnswer, msg_payload = n @ body\<rparr>
      | _ \<Rightarrow> None)"

definition sign_response :: "u8 list \<Rightarrow> agent_message option" where
  "sign_response signature_blob =
     map_option (\<lambda>p. \<lparr>msg_type = SignResponse, msg_payload = p\<rparr>) (put_field signature_blob)"

record sign_request_fields =
  sr_key_blob :: "u8 list"
  sr_data :: "u8 list"
  sr_flags :: nat

definition parse_sign_request :: "agent_message \<Rightarrow> sign_request_fields agent_result" where
  "parse_sign_request m =
     (if msg_type m \<noteq> SignRequest then Inl InvalidMessage
      else rbind (read_size_prefixed (msg_payload m)) (\<lambda>(blob, buf).
           rbind (read_size_prefixed buf) (\<lambda>(bytes, buf).
             Inr \<lparr>sr_key_blob = blob, sr_data = bytes,
                  sr_flags = (case get_u32 buf of Some (f, _) \<Rightarrow> f | None \<Rightarrow> 0)\<rparr>)))"

definition parse_sign_request_key :: "agent_message \<Rightarrow> u8 list agent_result" where
  "parse_sign_request_key m =
     (if msg_type m \<noteq> SignRequest then Inl InvalidMessage
      else rbind (read_size_prefixed (msg_payload m)) (\<lambda>(blob, _). Inr blob))"

definition agent_encode :: "agent_message \<Rightarrow> u8 list option" where
  "agent_encode m =
     map_option (\<lambda>h. h @ message_type_byte (msg_type m) # msg_payload m) (put_len (1 + length (msg_payload m)))"

fun agent_decode :: "u8 list \<Rightarrow> agent_message agent_result" where
  "agent_decode [] = Inl InvalidMessage"
| "agent_decode (t # p) = Inr \<lparr>msg_type = message_type_from t, msg_payload = p\<rparr>"

subsection \<open>Framing\<close>

text \<open>
  \<open>AgentCodec::read\<close>: a stream that ends within the length prefix is a clean end; one that ends within
  the body is an I/O error.
\<close>

definition codec_read :: "u8 list \<Rightarrow> (agent_message \<times> u8 list) option agent_result" where
  "codec_read stream =
     (case get_u32 stream of
        None \<Rightarrow> Inr None
      | Some (len, rest) \<Rightarrow>
          (if len = 0 \<or> MAX_MESSAGE_SIZE < len then Inl InvalidMessage
           else if length rest < len then Inl AgentIo
           else rbind (agent_decode (take len rest)) (\<lambda>m. Inr (Some (m, drop len rest)))))"

definition codec_write :: "agent_message \<Rightarrow> u8 list option" where
  "codec_write = agent_encode"

subsection \<open>What is written is read back\<close>

lemma get_u32_append [simp]: "n < 256 ^ 4 \<Longrightarrow> get_u32 (be_bytes 4 n @ r) = Some (n, r)"
  by (simp add: get_u32_def)

lemma get_u32_iff: "get_u32 buf = Some (n, r) \<longleftrightarrow> n < 256 ^ 4 \<and> buf = be_bytes 4 n @ r"
proof
  assume "get_u32 buf = Some (n, r)"
  then have b: "4 \<le> length buf" "n = be_value (take 4 buf)" "r = drop 4 buf"
    by (auto simp: get_u32_def split: if_splits)
  from b(1) have "length (take 4 buf) = 4" by simp
  with b be_value_bound [of "take 4 buf"] be_bytes_value [of "take 4 buf"]
  show "n < 256 ^ 4 \<and> buf = be_bytes 4 n @ r" by simp
qed simp

lemma put_field_Some: "put_field bs = Some p \<longleftrightarrow> length bs < 256 ^ 4 \<and> p = be_bytes 4 (length bs) @ bs"
  by (auto simp: put_field_def put_len_def)

lemma read_size_prefixed_iff:
  "read_size_prefixed buf = Inr (bs, rest) \<longleftrightarrow>
     length bs \<le> MAX_BLOB_SIZE \<and> buf = be_bytes 4 (length bs) @ bs @ rest"
proof -
  have small: "length bs \<le> MAX_BLOB_SIZE \<Longrightarrow> length bs < 256 ^ 4" by (simp add: MAX_BLOB_SIZE_def)
  show ?thesis
  proof
    assume "read_size_prefixed buf = Inr (bs, rest)"
    then show "length bs \<le> MAX_BLOB_SIZE \<and> buf = be_bytes 4 (length bs) @ bs @ rest"
      by (auto simp: read_size_prefixed_def get_u32_iff split: option.splits if_splits)
  next
    assume "length bs \<le> MAX_BLOB_SIZE \<and> buf = be_bytes 4 (length bs) @ bs @ rest"
    with small show "read_size_prefixed buf = Inr (bs, rest)" by (simp add: read_size_prefixed_def)
  qed
qed

lemma codec_read_iff:
  "codec_read stream = Inr (Some (m, rest)) \<longleftrightarrow>
     (\<exists>t p. stream = be_bytes 4 (Suc (length p)) @ t # p @ rest \<and> Suc (length p) \<le> MAX_MESSAGE_SIZE
        \<and> m = \<lparr>msg_type = message_type_from t, msg_payload = p\<rparr>)"
proof
  assume "codec_read stream = Inr (Some (m, rest))"
  then obtain len r where g: "get_u32 stream = Some (len, r)"
    and len: "len \<noteq> 0" "len \<le> MAX_MESSAGE_SIZE" "len \<le> length r"
    and m: "agent_decode (take len r) = Inr m" "rest = drop len r"
    by (auto simp: codec_read_def rbind_Inr split: option.splits if_splits)
  note len = g [unfolded get_u32_iff, THEN conjunct2] len
  from len(2,4) obtain t p where tp: "take len r = t # p" by (cases "take len r") auto
  moreover from tp len(4) have "len = Suc (length p)" by (metis length_Cons length_take min_absorb2)
  moreover have "r = take len r @ drop len r" by simp
  ultimately show "\<exists>t p. stream = be_bytes 4 (Suc (length p)) @ t # p @ rest \<and> Suc (length p) \<le> MAX_MESSAGE_SIZE
        \<and> m = \<lparr>msg_type = message_type_from t, msg_payload = p\<rparr>"
    using len m by (intro exI [of _ t] exI [of _ p]) (metis agent_decode.simps(2) append_Cons sum.inject(2))
next
  assume "\<exists>t p. stream = be_bytes 4 (Suc (length p)) @ t # p @ rest \<and> Suc (length p) \<le> MAX_MESSAGE_SIZE
        \<and> m = \<lparr>msg_type = message_type_from t, msg_payload = p\<rparr>"
  then obtain t p where s: "stream = be_bytes 4 (Suc (length p)) @ (t # p) @ rest"
    and "Suc (length p) \<le> MAX_MESSAGE_SIZE" "m = \<lparr>msg_type = message_type_from t, msg_payload = p\<rparr>"
    by auto
  moreover from this(2) have "Suc (length p) < 256 ^ 4" by (simp add: MAX_MESSAGE_SIZE_def)
  ultimately show "codec_read stream = Inr (Some (m, rest))"
    by (simp add: codec_read_def)
qed

text \<open>A conversation: messages are read until the stream ends.\<close>

function read_all :: "u8 list \<Rightarrow> agent_message list agent_result" where
  "read_all stream =
     (case codec_read stream of
        Inl e \<Rightarrow> Inl e
      | Inr None \<Rightarrow> Inr []
      | Inr (Some (m, rest)) \<Rightarrow> rbind (read_all rest) (\<lambda>ms. Inr (m # ms)))"
  by pat_completeness auto
termination
  by (relation "measure length") (auto simp: codec_read_iff)

declare read_all.simps [simp del]

text \<open>
  The codec accepts exactly the length-prefixed frames of one to \<open>MAX_MESSAGE_SIZE\<close> bytes, and leaves
  what follows for the next read.
\<close>

theorem codec_read_accepts_frames:
  "codec_read stream = Inr (Some (m, rest)) \<longleftrightarrow>
     (\<exists>t p. stream = be_bytes 4 (Suc (length p)) @ t # p @ rest \<and> Suc (length p) \<le> MAX_MESSAGE_SIZE
        \<and> m = \<lparr>msg_type = message_type_from t, msg_payload = p\<rparr>)"
  by (rule codec_read_iff)

lemma codec_write_read:
  assumes "Suc (length (msg_payload m)) \<le> MAX_MESSAGE_SIZE"
  shows "\<exists>f. codec_write m = Some f \<and> (\<forall>rest. codec_read (f @ rest) = Inr (Some (m, rest)))"
proof -
  have small: "Suc (length (msg_payload m)) < 256 ^ 4" using assms by (simp add: MAX_MESSAGE_SIZE_def)
  let ?f = "be_bytes 4 (Suc (length (msg_payload m))) @ message_type_byte (msg_type m) # msg_payload m"
  have "codec_read (?f @ rest) = Inr (Some (m, rest))" for rest
    unfolding codec_read_iff using assms
    by (intro exI [of _ "message_type_byte (msg_type m)"] exI [of _ "msg_payload m"]) simp
  moreover have "codec_write m = Some ?f" using small by (simp add: codec_write_def agent_encode_def put_len_def)
  ultimately show ?thesis by blast
qed

text \<open>
  Property C36.  Messages that fit are written one after the other and read back as they were, and a
  stream that ends within the next length prefix ends the conversation cleanly.
\<close>

theorem conversation_roundtrip:
  assumes "\<forall>m\<in>set ms. Suc (length (msg_payload m)) \<le> MAX_MESSAGE_SIZE" and "length tail < 4"
  shows "\<exists>frames. map codec_write ms = map Some frames \<and> read_all (concat frames @ tail) = Inr ms"
  using assms(1)
proof (induction ms)
  case Nil
  then show ?case using assms(2) by (simp add: read_all.simps codec_read_def get_u32_def)
next
  case (Cons m ms)
  then obtain frames where fs: "map codec_write ms = map Some frames" "read_all (concat frames @ tail) = Inr ms"
    by auto
  from codec_write_read [of m] Cons.prems obtain f where
    "codec_write m = Some f" "\<And>rest. codec_read (f @ rest) = Inr (Some (m, rest))" by auto
  with fs show ?case
    by (intro exI [of _ "f # frames"]) (simp add: read_all.simps [of "f @ _"])
qed

theorem conversation_roundtrip_witness:
  "\<exists>frames. map codec_write [agent_success, \<lparr>msg_type = SignResponse, msg_payload = [7, 8]\<rparr>] = map Some frames
     \<and> read_all (concat frames @ [0, 0]) = Inr [agent_success, \<lparr>msg_type = SignResponse, msg_payload = [7, 8]\<rparr>]"
  by (rule conversation_roundtrip) (simp_all add: agent_success_def MAX_MESSAGE_SIZE_def)

text \<open>An identity as the agent makes them: the key parsed from its blob, the comment within the bound.\<close>

definition identity_ok :: "'k ssh_lib \<Rightarrow> 'k identity \<Rightarrow> bool" where
  "identity_ok ssh i \<longleftrightarrow> i = identity_new ssh (id_key_blob i) (id_comment i)
     \<and> utf8_valid (string_bytes (id_comment i))
     \<and> length (id_key_blob i) \<le> MAX_BLOB_SIZE \<and> length (id_comment i) \<le> MAX_BLOB_SIZE"

lemma put_identities_read:
  assumes "list_all (identity_ok ssh) ids"
  shows "\<exists>p. put_identities ids = Some p \<and> (\<forall>rest. parse_identity_list ssh (length ids) (p @ rest) = Inr ids)"
  using assms
proof (induction ids)
  case (Cons i ids)
  then obtain p where p: "put_identities ids = Some p"
    "\<And>rest. parse_identity_list ssh (length ids) (p @ rest) = Inr ids" by auto
  from Cons.prems have ok: "identity_ok ssh i" by simp
  have rd: "read_size_prefixed (be_bytes 4 (length bs) @ bs @ r) = Inr (bs, r)" if "length bs \<le> MAX_BLOB_SIZE" for bs r
    using that by (simp add: read_size_prefixed_iff)
  have "length (id_key_blob i) < 256 ^ 4" "length (id_comment i) < 256 ^ 4"
    using ok by (simp_all add: identity_ok_def MAX_BLOB_SIZE_def)
  with p(1) have put: "put_identities (i # ids) = Some ((be_bytes 4 (length (id_key_blob i)) @ id_key_blob i)
      @ (be_bytes 4 (length (id_comment i)) @ string_bytes (id_comment i)) @ p)"
    by (simp add: put_field_def put_len_def)
  have "parse_identity_list ssh (length (i # ids))
      (((be_bytes 4 (length (id_key_blob i)) @ id_key_blob i)
       @ (be_bytes 4 (length (id_comment i)) @ string_bytes (id_comment i)) @ p) @ rest) = Inr (i # ids)" for rest
    using ok p(2) rd [of "id_key_blob i"] rd [of "string_bytes (id_comment i)"]
    by (simp add: identity_ok_def lossy_valid)
  with put show ?case by blast
qed simp

text \<open>
  An answer built from up to \<open>MAX_IDENTITIES\<close> well-formed identities is parsed back to exactly those
  identities, in their order.
\<close>

theorem identities_roundtrip:
  assumes "list_all (identity_ok ssh) ids" and "length ids \<le> MAX_IDENTITIES"
  shows "\<exists>m. build_identities_answer ids = Some m \<and> parse_identities ssh m = Inr ids"
proof -
  from put_identities_read [OF assms(1)] obtain p where
    p: "put_identities ids = Some p" "\<And>rest. parse_identity_list ssh (length ids) (p @ rest) = Inr ids" by blast
  have "length ids < 256 ^ 4" using assms(2) by (simp add: MAX_IDENTITIES_def)
  with p(1) p(2) [of "[]"] assms(2) show ?thesis
    by (simp add: build_identities_answer_def put_len_def parse_identities_def)
qed

definition no_ssh_lib :: "nat ssh_lib" where
  "no_ssh_lib = \<lparr>key_from_bytes = (\<lambda>bs. if bs = [] then None else Some (length bs)),
     key_from_openssh = (\<lambda>s. Some (length s)), key_data_encode = (\<lambda>k. Some (replicate k 0)),
     key_fingerprint = (\<lambda>k. ''SHA256:'' @ nat_dec k), key_algorithm = (\<lambda>k. ''ssh-ed25519''),
     key_to_openssh = (\<lambda>k. None)\<rparr>"

theorem identities_roundtrip_witness:
  "\<exists>m. build_identities_answer [identity_new no_ssh_lib [1, 2] ''work'', identity_new no_ssh_lib [] []] = Some m
     \<and> parse_identities no_ssh_lib m = Inr [identity_new no_ssh_lib [1, 2] ''work'', identity_new no_ssh_lib [] []]"
  by (rule identities_roundtrip)
     (simp_all add: identity_ok_def identity_new_def MAX_BLOB_SIZE_def MAX_IDENTITIES_def string_bytes_def)

end
