(* ===== verification/Agent_Filter.thy ===== *)
theory Agent_Filter
  imports Agent_Message Vault_Storage
begin

text \<open>
  The key filters of an agent socket (\<open>crates/cache-warden-authsock/src/filter/\<close>): the matchers, the
  \<open>[not-]form=pattern\<close> rules, their OR-of-AND evaluator, and the cache behind \<open>github=USER\<close>.

  The glob and regex engines, the parser of public keys and \<open>curl\<close> are parameters, as are the file
  system, \<open>$HOME\<close> and the part of the Unicode tables that \<open>to_lowercase\<close> uses outside ASCII.  The caches
  that the code shares between clones of a matcher are fields of the matcher; whoever updates one updates
  it in the evaluator that reads it.
\<close>

subsection \<open>Strings\<close>

definition strip_prefix :: "string \<Rightarrow> string \<Rightarrow> string option" where
  "strip_prefix p s = (if take (length p) s = p then Some (drop (length p) s) else None)"

definition str_starts_with :: "string \<Rightarrow> string \<Rightarrow> bool" where
  "str_starts_with s p \<longleftrightarrow> take (length p) s = p"

lemma str_starts_with_iff: "str_starts_with s p \<longleftrightarrow> (\<exists>r. s = p @ r)"
  by (auto simp: str_starts_with_def) (metis append_take_drop_id)

lemma strip_prefix_Some [simp]: "strip_prefix p s = Some r \<longleftrightarrow> s = p @ r"
  by (auto simp: strip_prefix_def) (metis append_take_drop_id)

lemma strip_prefix_append [simp]: "strip_prefix p (p @ r) = Some r"
  by simp

text \<open>\<open>str::find\<close> and \<open>str::contains\<close> on a substring.\<close>

fun find_from :: "string \<Rightarrow> string \<Rightarrow> string option" where
  "find_from p [] = (if p = [] then Some [] else None)"
| "find_from p (c # s) = (if str_starts_with (c # s) p then Some (c # s) else find_from p s)"

definition str_contains :: "string \<Rightarrow> string \<Rightarrow> bool" where
  "str_contains s p \<longleftrightarrow> find_from p s \<noteq> None"

text \<open>\<open>str::lines\<close>.\<close>

definition strip_cr :: "string \<Rightarrow> string" where
  "strip_cr s = (if s \<noteq> [] \<and> last s = CHR 0x0D then butlast s else s)"

definition str_lines :: "string \<Rightarrow> string list" where
  "str_lines s =
     (let ps = split_char (CHR 0x0A) s in
      map strip_cr (butlast ps) @ (if last ps = [] then [] else [last ps]))"

text \<open>\<open>str::trim\<close>: the encodings of the characters with the property \<open>White_Space\<close>.\<close>

definition white_space :: "string list" where
  "white_space =
     map (\<lambda>c. [c]) [CHR 0x09, CHR 0x0A, CHR 0x0B, CHR 0x0C, CHR 0x0D, CHR 0x20]
     @ map (map char_of)
        ([[0xC2, 0x85], [0xC2, 0xA0], [0xE1, 0x9A, 0x80], [0xE2, 0x80, 0xA8], [0xE2, 0x80, 0xA9],
          [0xE2, 0x80, 0xAF], [0xE2, 0x81, 0x9F], [0xE3, 0x80, 0x80]]
         @ map (\<lambda>n. [0xE2, 0x80, n]) [0x80..<0x8B :: nat])"

fun strip_any :: "string list \<Rightarrow> nat \<Rightarrow> string \<Rightarrow> string" where
  "strip_any ws 0 s = s"
| "strip_any ws (Suc n) s =
     (case find (str_starts_with s) ws of None \<Rightarrow> s | Some w \<Rightarrow> strip_any ws n (drop (length w) s))"

definition trim_start :: "string \<Rightarrow> string" where
  "trim_start s = strip_any white_space (length s) s"

definition trim_end :: "string \<Rightarrow> string" where
  "trim_end s = rev (strip_any (map rev white_space) (length s) (rev s))"

definition str_trim :: "string \<Rightarrow> string" where
  "str_trim s = trim_end (trim_start s)"

text \<open>\<open>collect\<close> into a \<open>Result\<close>: the first error, or all values.\<close>

fun collect_ok :: "('e + 'a) list \<Rightarrow> 'e + 'a list" where
  "collect_ok [] = Inr []"
| "collect_ok (Inl e # rs) = Inl e"
| "collect_ok (Inr x # rs) = (case collect_ok rs of Inl e \<Rightarrow> Inl e | Inr xs \<Rightarrow> Inr (x # xs))"

lemma collect_ok_Inr: "collect_ok rs = Inr xs \<longleftrightarrow> rs = map Inr xs"
proof (induction rs arbitrary: xs)
  case (Cons r rs)
  then show ?case by (cases r; cases xs; cases "collect_ok rs") auto
qed auto

subsection \<open>The parameters\<close>

record ('k, 'g, 'r) filter_env =
  fe_ssh :: "'k ssh_lib"
  glob_new :: "string \<Rightarrow> 'g option"
  glob_is_match :: "'g \<Rightarrow> string \<Rightarrow> bool"
  regex_new :: "string \<Rightarrow> 'r option"
  regex_is_match :: "'r \<Rightarrow> string \<Rightarrow> bool"
  unicode_lower :: "string \<Rightarrow> string"
  home_dir :: "string option"

definition to_lowercase :: "('k, 'g, 'r) filter_env \<Rightarrow> string \<Rightarrow> string" where
  "to_lowercase fe s =
     (if list_all (\<lambda>c. of_char c < (128 :: nat)) s then map ascii_lower s else unicode_lower fe s)"

subsection \<open>Matchers\<close>

datatype ('g, 'r) match_type = MatchExact string | MatchGlob 'g | MatchRegex 'r

record ('g, 'r) comment_matcher =
  cm_pattern :: string
  cm_match_type :: "('g, 'r) match_type"

definition comment_matcher_new ::
  "('k, 'g, 'r) filter_env \<Rightarrow> string \<Rightarrow> ('g, 'r) comment_matcher agent_result"
where
  "comment_matcher_new fe pattern =
     (case strip_prefix ''~'' pattern of
        Some regex_pattern \<Rightarrow>
          (case regex_new fe regex_pattern of
             None \<Rightarrow> Inl FilterError
           | Some r \<Rightarrow> Inr \<lparr>cm_pattern = pattern, cm_match_type = MatchRegex r\<rparr>)
      | None \<Rightarrow>
          (if CHR ''*'' \<in> set pattern \<or> CHR ''?'' \<in> set pattern
           then (case glob_new fe pattern of
                   None \<Rightarrow> Inl FilterError
                 | Some g \<Rightarrow> Inr \<lparr>cm_pattern = pattern, cm_match_type = MatchGlob g\<rparr>)
           else Inr \<lparr>cm_pattern = pattern, cm_match_type = MatchExact pattern\<rparr>))"

definition comment_matches ::
  "('k, 'g, 'r) filter_env \<Rightarrow> ('g, 'r) comment_matcher \<Rightarrow> 'k identity \<Rightarrow> bool"
where
  "comment_matches fe m i =
     (case cm_match_type m of
        MatchExact s \<Rightarrow> id_comment i = s
      | MatchGlob g \<Rightarrow> glob_is_match fe g (id_comment i)
      | MatchRegex r \<Rightarrow> regex_is_match fe r (id_comment i))"

definition fingerprint_matcher_new :: "string \<Rightarrow> string agent_result" where
  "fingerprint_matcher_new pattern =
     (if \<not> str_starts_with pattern ''SHA256:'' \<and> \<not> str_starts_with pattern ''MD5:'' then Inl FilterError
      else Inr pattern)"

definition fingerprint_matches :: "('k, 'g, 'r) filter_env \<Rightarrow> string \<Rightarrow> 'k identity \<Rightarrow> bool" where
  "fingerprint_matches fe pattern i =
     (case identity_fingerprint (fe_ssh fe) i of
        Some fp \<Rightarrow> str_starts_with fp pattern \<or> pattern = fp
      | None \<Rightarrow> False)"

definition keytype_normalize :: "('k, 'g, 'r) filter_env \<Rightarrow> string \<Rightarrow> string" where
  "keytype_normalize fe key_type =
     (let s = to_lowercase fe key_type in
      if s = ''ssh-ed25519'' \<or> s = ''ed25519'' then ''ed25519''
      else if s = ''ssh-rsa'' \<or> s = ''rsa'' then ''rsa''
      else if s = ''ssh-dss'' \<or> s = ''dsa'' \<or> s = ''dss'' then ''dsa''
      else if str_starts_with s ''ecdsa-sha2-'' then ''ecdsa''
      else if s = ''ecdsa'' then ''ecdsa''
      else if str_starts_with s ''sk-ssh-ed25519'' then ''sk-ed25519''
      else if s = ''sk-ed25519'' then ''sk-ed25519''
      else if str_starts_with s ''sk-ecdsa-sha2-'' then ''sk-ecdsa''
      else if s = ''sk-ecdsa'' then ''sk-ecdsa''
      else s)"

definition keytype_matches :: "('k, 'g, 'r) filter_env \<Rightarrow> string \<Rightarrow> 'k identity \<Rightarrow> bool" where
  "keytype_matches fe key_type i =
     (case identity_key_type (fe_ssh fe) i of
        Some algo \<Rightarrow> keytype_normalize fe algo = key_type
      | None \<Rightarrow> False)"

definition blob_from_openssh :: "'k ssh_lib \<Rightarrow> string \<Rightarrow> u8 list agent_result" where
  "blob_from_openssh ssh line =
     (case key_from_openssh ssh line of
        None \<Rightarrow> Inl FilterError
      | Some k \<Rightarrow> ok_or FilterError (key_data_encode ssh k))"

definition pubkey_matcher_new :: "'k ssh_lib \<Rightarrow> string \<Rightarrow> u8 list agent_result" where
  "pubkey_matcher_new ssh key_str =
     (case key_from_openssh ssh key_str of
        None \<Rightarrow> Inl FilterError
      | Some k \<Rightarrow> ok_or FilterError (key_data_encode ssh k))"

definition pubkey_matches :: "u8 list \<Rightarrow> 'k identity \<Rightarrow> bool" where
  "pubkey_matches blob i \<longleftrightarrow> id_key_blob i = blob"

subsection \<open>Key files\<close>

record keyfile_matcher =
  kf_path :: string
  kf_matchers :: "u8 list list"

definition key_prefixes :: "string list" where
  "key_prefixes = [''ssh-ed25519'', ''ssh-rsa'', ''ssh-dss'', ''ecdsa-sha2-'', ''sk-ssh-ed25519'', ''sk-ecdsa-sha2-'']"

definition extract_key_part :: "string \<Rightarrow> string option" where
  "extract_key_part line =
     (case find (str_contains line) key_prefixes of
        Some p \<Rightarrow> find_from p line
      | None \<Rightarrow> Some line)"

definition keyfile_line :: "'k ssh_lib \<Rightarrow> string \<Rightarrow> u8 list list" where
  "keyfile_line ssh line =
     (let t = str_trim line in
      if t = [] \<or> str_starts_with t ''#'' then []
      else (case extract_key_part t of
              None \<Rightarrow> []
            | Some key_part \<Rightarrow>
                (case pubkey_matcher_new ssh key_part of Inr m \<Rightarrow> [m] | Inl _ \<Rightarrow> [])))"

definition load_keys :: "'k ssh_lib \<Rightarrow> (string \<Rightarrow> string option) \<Rightarrow> string \<Rightarrow> u8 list list agent_result" where
  "load_keys ssh read_to_string p =
     (case read_to_string p of
        None \<Rightarrow> Inl FilterError
      | Some content \<Rightarrow> Inr (concat (map (keyfile_line ssh) (str_lines content))))"

definition keyfile_reload ::
  "'k ssh_lib \<Rightarrow> (string \<Rightarrow> string option) \<Rightarrow> keyfile_matcher \<Rightarrow> keyfile_matcher agent_result"
where
  "keyfile_reload ssh read_to_string m =
     (case load_keys ssh read_to_string (kf_path m) of
        Inl e \<Rightarrow> Inl e
      | Inr keys \<Rightarrow> Inr (m\<lparr>kf_matchers := keys\<rparr>))"

definition expand_tilde :: "string option \<Rightarrow> string \<Rightarrow> string" where
  "expand_tilde home s =
     (case (strip_prefix ''~/'' s, home) of
        (Some rest, Some h) \<Rightarrow> (if str_starts_with rest ''/'' then rest else path_join h rest)
      | _ \<Rightarrow> s)"

definition keyfile_matcher_new ::
  "('k, 'g, 'r) filter_env \<Rightarrow> (string \<Rightarrow> string option) \<Rightarrow> string \<Rightarrow> keyfile_matcher agent_result"
where
  "keyfile_matcher_new fe read_to_string p =
     keyfile_reload (fe_ssh fe) read_to_string \<lparr>kf_path = expand_tilde (home_dir fe) p, kf_matchers = []\<rparr>"

definition keyfile_matches :: "keyfile_matcher \<Rightarrow> 'k identity \<Rightarrow> bool" where
  "keyfile_matches m i \<longleftrightarrow> list_ex (\<lambda>b. pubkey_matches b i) (kf_matchers m)"

subsection \<open>Keys published at GitHub\<close>

text \<open>
  \<open>GithubCache\<close> and \<open>GithubMatcher\<close>.  Instants are nanoseconds on the clock of \<open>Instant::now\<close>;
  subtraction on \<open>nat\<close> is \<open>duration_since\<close>, which saturates.  The locks are never poisoned: no holder
  panics.
\<close>

record github_cache =
  gh_keys :: "u8 list set"
  gh_fetched_at :: "nat option"
  gh_valid :: bool

record github_matcher =
  gh_user :: string
  gh_cache :: github_cache

definition github_cache_default :: github_cache where
  "github_cache_default = \<lparr>gh_keys = {}, gh_fetched_at = None, gh_valid = False\<rparr>"

definition github_matcher_new :: "string \<Rightarrow> github_matcher" where
  "github_matcher_new user = \<lparr>gh_user = user, gh_cache = github_cache_default\<rparr>"

definition github_matches :: "github_matcher \<Rightarrow> 'k identity \<Rightarrow> bool" where
  "github_matches m i \<longleftrightarrow> gh_valid (gh_cache m) \<and> id_key_blob i \<in> gh_keys (gh_cache m)"

definition set_keys :: "u8 list set \<Rightarrow> nat \<Rightarrow> github_matcher \<Rightarrow> github_matcher" where
  "set_keys keys now m = m\<lparr>gh_cache := \<lparr>gh_keys = keys, gh_fetched_at = Some now, gh_valid = True\<rparr>\<rparr>"

definition mark_failed :: "nat \<Rightarrow> github_matcher \<Rightarrow> github_matcher" where
  "mark_failed now m = m\<lparr>gh_cache := (gh_cache m)\<lparr>gh_valid := False, gh_fetched_at := Some now\<rparr>\<rparr>"

definition needs_refresh :: "duration \<Rightarrow> nat \<Rightarrow> github_matcher \<Rightarrow> bool" where
  "needs_refresh ttl now m =
     (case gh_fetched_at (gh_cache m) of
        None \<Rightarrow> True
      | Some at \<Rightarrow> ttl \<le> now - at)"

definition github_line :: "'k ssh_lib \<Rightarrow> string \<Rightarrow> u8 list set" where
  "github_line ssh line =
     (let t = str_trim line in
      if t = [] then {}
      else (case blob_from_openssh ssh t of Inr b \<Rightarrow> {b} | Inl _ \<Rightarrow> {}))"

definition parse_keys :: "'k ssh_lib \<Rightarrow> string \<Rightarrow> u8 list set" where
  "parse_keys ssh body = (\<Union>line\<in>set (str_lines body). github_line ssh line)"

text \<open>\<open>RealGithubFetcher\<close>: \<open>curl\<close> maps its arguments to \<open>None\<close> (it could not be run) or its exit status
  (success or not) and its output.\<close>

definition github_url :: "string \<Rightarrow> string" where
  "github_url user = ''https://github.com/'' @ user @ ''.keys''"

definition curl_args :: "string \<Rightarrow> duration \<Rightarrow> string list" where
  "curl_args user timeout =
     [''-fsSL'', ''--max-time'', nat_dec (max (timeout div from_secs 1) 1), ''--'', github_url user]"

definition fetch_keys ::
  "'k ssh_lib \<Rightarrow> (string list \<Rightarrow> (bool \<times> u8 list) option) \<Rightarrow> string \<Rightarrow> duration \<Rightarrow> u8 list set agent_result"
where
  "fetch_keys ssh curl user timeout =
     (case curl (curl_args user timeout) of
        None \<Rightarrow> Inl FilterError
      | Some (success, out) \<Rightarrow>
          (if \<not> success then Inl FilterError
           else Inr (parse_keys ssh (bytes_string (from_utf8_lossy out)))))"

subsection \<open>Rules\<close>

datatype ('g, 'r) key_filter =
  FilterFingerprint string
| FilterPubkey "u8 list"
| FilterKeyfile keyfile_matcher
| FilterComment "('g, 'r) comment_matcher"
| FilterKeyType string
| FilterGithub github_matcher

fun filter_matches :: "('k, 'g, 'r) filter_env \<Rightarrow> ('g, 'r) key_filter \<Rightarrow> 'k identity \<Rightarrow> bool" where
  "filter_matches fe (FilterFingerprint m) i = fingerprint_matches fe m i"
| "filter_matches fe (FilterPubkey m) i = pubkey_matches m i"
| "filter_matches fe (FilterKeyfile m) i = keyfile_matches m i"
| "filter_matches fe (FilterComment m) i = comment_matches fe m i"
| "filter_matches fe (FilterKeyType m) i = keytype_matches fe m i"
| "filter_matches fe (FilterGithub m) i = github_matches m i"

fun needs_comment :: "('g, 'r) key_filter \<Rightarrow> bool" where
  "needs_comment (FilterComment m) = True"
| "needs_comment _ = False"

fun filter_description :: "('g, 'r) key_filter \<Rightarrow> string" where
  "filter_description (FilterFingerprint m) = ''fingerprint='' @ m"
| "filter_description (FilterPubkey m) = ''pubkey=<key>''"
| "filter_description (FilterKeyfile m) = ''keyfile='' @ kf_path m"
| "filter_description (FilterComment m) = ''comment='' @ cm_pattern m"
| "filter_description (FilterKeyType m) = ''type='' @ m"
| "filter_description (FilterGithub m) = ''github='' @ gh_user m"

record ('g, 'r) filter_rule =
  rule_filter :: "('g, 'r) key_filter"
  rule_negated :: bool

definition rule_matches :: "('k, 'g, 'r) filter_env \<Rightarrow> ('g, 'r) filter_rule \<Rightarrow> 'k identity \<Rightarrow> bool" where
  "rule_matches fe r i =
     (let result = filter_matches fe (rule_filter r) i in if rule_negated r then \<not> result else result)"

definition rule_description :: "('g, 'r) filter_rule \<Rightarrow> string" where
  "rule_description r =
     (if rule_negated r then ''-'' @ filter_description (rule_filter r)
      else filter_description (rule_filter r))"

definition github_user_ok :: "string \<Rightarrow> bool" where
  "github_user_ok user \<longleftrightarrow>
     user \<noteq> [] \<and> length user \<le> 39 \<and> \<not> str_starts_with user ''-'' \<and> \<not> ends_with user ''-''
     \<and> \<not> str_contains user ''--''
     \<and> list_all (\<lambda>c. is_ascii_alphanumeric c \<or> c = CHR ''-'') user"

definition validate_github_user :: "string \<Rightarrow> unit agent_result" where
  "validate_github_user user = (if github_user_ok user then Inr () else Inl FilterError)"

definition ok_map :: "('a \<Rightarrow> 'b) \<Rightarrow> 'a agent_result \<Rightarrow> 'b option" where
  "ok_map f r = (case r of Inl _ \<Rightarrow> None | Inr x \<Rightarrow> Some (f x))"

definition try_auto_detect :: "('k, 'g, 'r) filter_env \<Rightarrow> string \<Rightarrow> ('g, 'r) key_filter option" where
  "try_auto_detect fe s =
     (if str_starts_with s ''SHA256:'' then ok_map FilterFingerprint (fingerprint_matcher_new s)
      else if str_starts_with s ''MD5:'' then ok_map FilterFingerprint (fingerprint_matcher_new s)
      else if str_starts_with s ''ssh-'' \<or> str_starts_with s ''ecdsa-sha2-'' \<or> str_starts_with s ''sk-ssh-''
              \<or> str_starts_with s ''sk-ecdsa-''
      then ok_map FilterPubkey (pubkey_matcher_new (fe_ssh fe) s)
      else None)"

definition parse_filter ::
  "('k, 'g, 'r) filter_env \<Rightarrow> (string \<Rightarrow> string option) \<Rightarrow> string \<Rightarrow> ('g, 'r) key_filter agent_result"
where
  "parse_filter fe read_to_string s =
     (case try_auto_detect fe s of
        Some f \<Rightarrow> Inr f
      | None \<Rightarrow>
     (case strip_prefix ''fingerprint='' s of
        Some rest \<Rightarrow> rbind (fingerprint_matcher_new rest) (\<lambda>m. Inr (FilterFingerprint m))
      | None \<Rightarrow>
     (case strip_prefix ''pubkey='' s of
        Some rest \<Rightarrow> rbind (pubkey_matcher_new (fe_ssh fe) rest) (\<lambda>m. Inr (FilterPubkey m))
      | None \<Rightarrow>
     (case strip_prefix ''keyfile='' s of
        Some rest \<Rightarrow> rbind (keyfile_matcher_new fe read_to_string rest) (\<lambda>m. Inr (FilterKeyfile m))
      | None \<Rightarrow>
     (case strip_prefix ''comment='' s of
        Some rest \<Rightarrow> rbind (comment_matcher_new fe rest) (\<lambda>m. Inr (FilterComment m))
      | None \<Rightarrow>
     (case strip_prefix ''type='' s of
        Some rest \<Rightarrow> Inr (FilterKeyType (keytype_normalize fe rest))
      | None \<Rightarrow>
     (case strip_prefix ''github='' s of
        Some rest \<Rightarrow> rbind (validate_github_user rest) (\<lambda>_. Inr (FilterGithub (github_matcher_new rest)))
      | None \<Rightarrow> Inl FilterError)))))))"

definition rule_parse ::
  "('k, 'g, 'r) filter_env \<Rightarrow> (string \<Rightarrow> string option) \<Rightarrow> string \<Rightarrow> ('g, 'r) filter_rule agent_result"
where
  "rule_parse fe read_to_string s =
     (let (negated, s) = (case strip_prefix ''not-'' s of Some rest \<Rightarrow> (True, rest) | None \<Rightarrow> (False, s)) in
      rbind (parse_filter fe read_to_string s) (\<lambda>f. Inr \<lparr>rule_filter = f, rule_negated = negated\<rparr>))"

subsection \<open>The evaluator\<close>

type_synonym ('g, 'r) filter_group = "('g, 'r) filter_rule list"
type_synonym ('g, 'r) filter_evaluator = "('g, 'r) filter_group list"

definition group_parse ::
  "('k, 'g, 'r) filter_env \<Rightarrow> (string \<Rightarrow> string option) \<Rightarrow> string list \<Rightarrow> ('g, 'r) filter_group agent_result"
where
  "group_parse fe read_to_string strs = collect_ok (map (rule_parse fe read_to_string) strs)"

definition group_matches :: "('k, 'g, 'r) filter_env \<Rightarrow> ('g, 'r) filter_group \<Rightarrow> 'k identity \<Rightarrow> bool" where
  "group_matches fe g i = (if g = [] then True else list_all (\<lambda>r. rule_matches fe r i) g)"

definition evaluator_parse ::
  "('k, 'g, 'r) filter_env \<Rightarrow> (string \<Rightarrow> string option) \<Rightarrow> string list list \<Rightarrow> ('g, 'r) filter_evaluator agent_result"
where
  "evaluator_parse fe read_to_string gs = collect_ok (map (group_parse fe read_to_string) gs)"

definition evaluator_matches ::
  "('k, 'g, 'r) filter_env \<Rightarrow> ('g, 'r) filter_evaluator \<Rightarrow> 'k identity \<Rightarrow> bool"
where
  "evaluator_matches fe ev i = (if ev = [] then True else list_ex (\<lambda>g. group_matches fe g i) ev)"

definition filter_identities ::
  "('k, 'g, 'r) filter_env \<Rightarrow> ('g, 'r) filter_evaluator \<Rightarrow> 'k identity list \<Rightarrow> 'k identity list"
where
  "filter_identities fe ev ids = filter (evaluator_matches fe ev) ids"

definition is_blob_only :: "('g, 'r) filter_evaluator \<Rightarrow> bool" where
  "is_blob_only ev = list_all (\<lambda>r. \<not> needs_comment (rule_filter r)) (concat ev)"

definition github_matchers :: "('g, 'r) filter_evaluator \<Rightarrow> github_matcher list" where
  "github_matchers ev =
     List.map_filter (\<lambda>r. case rule_filter r of FilterGithub m \<Rightarrow> Some m | _ \<Rightarrow> None) (concat ev)"

text \<open>\<open>reload\<close> stops at the first key file it cannot read; those before it have been re-read.\<close>

fun reload_rules ::
  "'k ssh_lib \<Rightarrow> (string \<Rightarrow> string option) \<Rightarrow> ('g, 'r) filter_group \<Rightarrow> unit agent_result \<times> ('g, 'r) filter_group"
where
  "reload_rules ssh read_to_string [] = (Inr (), [])"
| "reload_rules ssh read_to_string (r # rs) =
     (case rule_filter r of
        FilterKeyfile m \<Rightarrow>
          (case keyfile_reload ssh read_to_string m of
             Inl e \<Rightarrow> (Inl e, r # rs)
           | Inr m' \<Rightarrow>
               (let (res, rs') = reload_rules ssh read_to_string rs
                in (res, r\<lparr>rule_filter := FilterKeyfile m'\<rparr> # rs')))
      | _ \<Rightarrow> (let (res, rs') = reload_rules ssh read_to_string rs in (res, r # rs')))"

fun evaluator_reload ::
  "'k ssh_lib \<Rightarrow> (string \<Rightarrow> string option) \<Rightarrow> ('g, 'r) filter_evaluator
     \<Rightarrow> unit agent_result \<times> ('g, 'r) filter_evaluator"
where
  "evaluator_reload ssh read_to_string [] = (Inr (), [])"
| "evaluator_reload ssh read_to_string (g # gs) =
     (case reload_rules ssh read_to_string g of
        (Inl e, g') \<Rightarrow> (Inl e, g' # gs)
      | (Inr _, g') \<Rightarrow>
          (let (res, gs') = evaluator_reload ssh read_to_string gs in (res, g' # gs')))"

definition evaluator_descriptions :: "('g, 'r) filter_evaluator \<Rightarrow> string list list" where
  "evaluator_descriptions ev = map (map rule_description) ev"

subsection \<open>What a verdict depends on\<close>

lemma filter_ignores_comment:
  "\<not> needs_comment f \<Longrightarrow> filter_matches fe f (identity_new ssh b c) = filter_matches fe f (identity_new ssh b c')"
  by (cases f)
     (simp_all add: identity_new_def fingerprint_matches_def identity_fingerprint_def pubkey_matches_def
       keyfile_matches_def keytype_matches_def identity_key_type_def github_matches_def)

lemma evaluator_ignores_comment:
  assumes "is_blob_only ev"
  shows "evaluator_matches fe ev (identity_new ssh b c) = evaluator_matches fe ev (identity_new ssh b c')"
proof -
  have "rule_matches fe r (identity_new ssh b c) = rule_matches fe r (identity_new ssh b c')"
    if "g \<in> set ev" "r \<in> set g" for g r
    using that assms filter_ignores_comment [of "rule_filter r" fe ssh b c c']
    by (auto simp: rule_matches_def is_blob_only_def list_all_iff)
  then show ?thesis
    by (auto simp: evaluator_matches_def list_ex_iff group_matches_def list_all_iff)
qed

lemma evaluator_or_of_and:
  "evaluator_matches fe ev i \<longleftrightarrow> ev = [] \<or> (\<exists>g\<in>set ev. \<forall>r\<in>set g. rule_matches fe r i)"
proof -
  have "group_matches fe g i \<longleftrightarrow> (\<forall>r\<in>set g. rule_matches fe r i)" for g
    by (simp add: group_matches_def list_all_iff)
  then show ?thesis by (simp add: evaluator_matches_def list_ex_iff)
qed

lemma parsed_rule:
  "rule_parse fe fs s = Inr r \<longleftrightarrow>
     (\<exists>body. s = (if rule_negated r then ''not-'' @ body else body)
        \<and> (rule_negated r \<or> \<not> str_starts_with s ''not-'') \<and> parse_filter fe fs body = Inr (rule_filter r))"
proof (cases "strip_prefix ''not-'' s")
  case None
  then have no: "\<not> str_starts_with s ''not-''" by (auto simp: strip_prefix_def str_starts_with_def split: if_splits)
  then have "s \<noteq> ''not-'' @ body" for body by (auto simp: str_starts_with_iff)
  with None no show ?thesis
    by (cases r; cases "parse_filter fe fs s") (auto simp: rule_parse_def)
next
  case (Some rest)
  then have s: "s = ''not-'' @ rest" by simp
  then have "str_starts_with s ''not-''" by (auto simp: str_starts_with_iff)
  with s show ?thesis
    by (cases r; cases "parse_filter fe fs rest") (auto simp: rule_parse_def strip_prefix_def)
qed

subsection \<open>Negation\<close>

text \<open>
  A rule and its negation split the keys: whatever key is presented, exactly one of the two admits it.
\<close>

lemma negation_complements:
  assumes "rule_parse fe fs s = Inr r" and "\<not> rule_negated r"
  shows "\<exists>n. rule_parse fe fs (''not-'' @ s) = Inr n \<and> (\<forall>i. rule_matches fe n i \<longleftrightarrow> \<not> rule_matches fe r i)"
proof -
  from assms have "parse_filter fe fs s = Inr (rule_filter r)" by (simp add: parsed_rule)
  then have "rule_parse fe fs (''not-'' @ s) = Inr (r\<lparr>rule_negated := True\<rparr>)"
    by (subst parsed_rule) simp
  moreover have "rule_matches fe (r\<lparr>rule_negated := True\<rparr>) i \<longleftrightarrow> \<not> rule_matches fe r i" for i
    using assms(2) by (simp add: rule_matches_def)
  ultimately show ?thesis by blast
qed

subsection \<open>GitHub users\<close>

lemma parsed_github:
  assumes "parse_filter fe fs s = Inr (FilterGithub m)"
  shows "\<exists>u. s = ''github='' @ u \<and> github_user_ok u \<and> m = github_matcher_new u"
proof -
  have "try_auto_detect fe s \<noteq> Some (FilterGithub m)"
    by (auto simp: try_auto_detect_def ok_map_def split: sum.splits)
  then show ?thesis using assms
    by (auto simp: parse_filter_def validate_github_user_def rbind_Inr split: option.splits if_splits)
qed

lemma github_user_chars:
  assumes "github_user_ok u" and "\<not> is_ascii_alphanumeric c" and "c \<noteq> CHR ''-''"
  shows "c \<notin> set u"
  using assms by (auto simp: github_user_ok_def list_all_iff)

text \<open>The life of a matcher's cache: the results of its fetches, with their instants.\<close>

fun fetched :: "nat \<times> u8 list set agent_result \<Rightarrow> github_matcher \<Rightarrow> github_matcher" where
  "fetched (now, Inr keys) m = set_keys keys now m"
| "fetched (now, Inl e) m = mark_failed now m"

lemma fetched_user [simp]: "gh_user (fetched ev m) = gh_user m"
  by (cases "(ev, m)" rule: fetched.cases) (simp_all add: set_keys_def mark_failed_def)

lemma fold_fetched_snoc [simp]: "fold fetched (evs @ [e]) m = fetched e (fold fetched evs m)"
  by simp

lemma github_cache_updates [simp]:
  "github_matches (set_keys keys now m) i \<longleftrightarrow> id_key_blob i \<in> keys"
  "\<not> github_matches (mark_failed now m) i"
  "\<not> github_matches (github_matcher_new u) i"
  by (simp_all add: github_matches_def set_keys_def mark_failed_def github_matcher_new_def github_cache_default_def)

text \<open>
  Whatever the history of fetches, a rule \<open>github=USER\<close> admits a key exactly when the last fetch
  succeeded and published it, and the URL fetched has the name of that user as its only path segment.
\<close>

theorem github_rule_admits_last_published:
  assumes "rule_parse fe fs s = Inr r" and "rule_filter r = FilterGithub m"
  shows "(github_matches (fold fetched history m) i \<longleftrightarrow>
           (\<exists>now keys. history \<noteq> [] \<and> last history = (now, Inr keys) \<and> id_key_blob i \<in> keys))
    \<and> (\<exists>u. s = (if rule_negated r then ''not-'' else []) @ ''github='' @ u \<and> gh_user (fold fetched history m) = u
           \<and> split_char (CHR ''/'') (github_url u) = [''https:'', [], ''github.com'', u @ ''.keys''])"
proof -
  from assms parsed_github obtain u where
    u: "s = (if rule_negated r then ''not-'' else []) @ ''github='' @ u" "github_user_ok u" "m = github_matcher_new u"
    unfolding parsed_rule by (cases "rule_negated r") fastforce+
  have "github_matches (fold fetched history m) i \<longleftrightarrow>
           (\<exists>now keys. history \<noteq> [] \<and> last history = (now, Inr keys) \<and> id_key_blob i \<in> keys)"
  proof (cases history rule: rev_cases)
    case Nil
    then show ?thesis by (simp add: u(3))
  next
    case (snoc evs e)
    then show ?thesis by (cases e; cases "snd e") auto
  qed
  moreover have "gh_user (fold fetched history m) = gh_user m"
    by (induction history rule: rev_induct) simp_all
  moreover have "CHR ''/'' \<notin> set u"
    using github_user_chars [OF u(2), of "CHR ''/''"] by (simp add: is_ascii_alphanumeric_def)
  ultimately show ?thesis
    using u(1,3) by (simp add: github_matcher_new_def github_url_def split_char_single)
qed

text \<open>A concrete instance: no globs, no regular expressions, the toy keys of \<open>no_ssh_lib\<close>.\<close>

definition plain_fe :: "(nat, unit, unit) filter_env" where
  "plain_fe = \<lparr>fe_ssh = no_ssh_lib, glob_new = (\<lambda>_. None), glob_is_match = (\<lambda>_ _. False),
     regex_new = (\<lambda>_. None), regex_is_match = (\<lambda>_ _. False), unicode_lower = (\<lambda>s. s), home_dir = None\<rparr>"

lemma plain_github_rule:
  "rule_parse plain_fe (\<lambda>_. None) ''not-github=octo-cat''
     = Inr \<lparr>rule_filter = FilterGithub (github_matcher_new ''octo-cat''), rule_negated = True\<rparr>"
  by (simp add: rule_parse_def parse_filter_def strip_prefix_def try_auto_detect_def str_starts_with_def
      validate_github_user_def github_user_ok_def ends_with_def str_contains_def is_ascii_alphanumeric_def
      less_eq_char_def)

theorem github_rule_admits_last_published_witness:
  "(github_matches (fold fetched [(5, Inr {[1]}), (9, Inl FilterError)] (github_matcher_new ''octo-cat''))
       (identity_new no_ssh_lib [1] [])
     \<longleftrightarrow> (\<exists>now keys. [(5, Inr {[1]}), (9, Inl FilterError)] \<noteq> []
            \<and> last [(5, Inr {[1]}), (9, Inl FilterError)] = (now, Inr keys)
            \<and> id_key_blob (identity_new no_ssh_lib [1] []) \<in> keys))
   \<and> (\<exists>u. ''not-github=octo-cat'' = ''not-'' @ ''github='' @ u
          \<and> gh_user (fold fetched [(5, Inr {[1]}), (9, Inl FilterError)] (github_matcher_new ''octo-cat'')) = u
          \<and> split_char (CHR ''/'') (github_url u) = [''https:'', [], ''github.com'', u @ ''.keys''])"
  using github_rule_admits_last_published [OF plain_github_rule,
      of "github_matcher_new ''octo-cat''" "[(5, Inr {[1]}), (9, Inl FilterError)]" "identity_new no_ssh_lib [1] []"]
  by simp

text \<open>
  A negated rule over the same cache fails the other way: as long as the published keys are unknown it
  admits every key.
\<close>

lemma not_github_admits_all_when_unknown:
  assumes "\<not> gh_valid (gh_cache m)"
  shows "rule_matches fe \<lparr>rule_filter = FilterGithub m, rule_negated = True\<rparr> i"
  using assms by (simp add: rule_matches_def github_matches_def)

text \<open>
  Fingerprints are rendered as SHA-256 (\<open>Identity::fingerprint\<close>), so a rule given as an MD5
  fingerprint is accepted and admits no key, and its negation admits all.
\<close>

lemma md5_rules_are_inert:
  assumes "\<And>k. str_starts_with (key_fingerprint (fe_ssh fe) k) ''SHA256:''"
  shows "rule_parse fe fs (''MD5:'' @ d)
           = Inr \<lparr>rule_filter = FilterFingerprint (''MD5:'' @ d), rule_negated = False\<rparr>"
    and "\<not> filter_matches fe (FilterFingerprint (''MD5:'' @ d)) i"
proof -
  show "rule_parse fe fs (''MD5:'' @ d)
           = Inr \<lparr>rule_filter = FilterFingerprint (''MD5:'' @ d), rule_negated = False\<rparr>"
    by (simp add: rule_parse_def parse_filter_def strip_prefix_def try_auto_detect_def str_starts_with_def
        fingerprint_matcher_new_def ok_map_def)
  have "\<not> str_starts_with (key_fingerprint (fe_ssh fe) k) (''MD5:'' @ d)" for k
    using assms [of k] by (auto simp: str_starts_with_iff)
  moreover have "''MD5:'' @ d \<noteq> key_fingerprint (fe_ssh fe) k" for k
    using assms [of k] by (auto simp: str_starts_with_iff)
  ultimately show "\<not> filter_matches fe (FilterFingerprint (''MD5:'' @ d)) i"
    by (auto simp: fingerprint_matches_def identity_fingerprint_def split: option.splits)
qed

text \<open>
  The prefixes are tried in order and searched anywhere in a line, and \<open>ssh-ed25519\<close> is the first: of
  the key of a security key the reader drops the leading \<open>sk-\<close>, so that what it parses is not that key.
\<close>

lemma keyfile_cuts_security_keys:
  "extract_key_part (''sk-ssh-ed25519'' @ rest) = Some (''ssh-ed25519'' @ rest)"
proof -
  have "find_from ''ssh-ed25519'' (''sk-ssh-ed25519'' @ rest) = Some (''ssh-ed25519'' @ rest)"
    by (simp add: str_starts_with_def)
  then show ?thesis by (simp add: extract_key_part_def key_prefixes_def str_contains_def del: find_from.simps)
qed

end
