(* ===== verification/Approver.thy ===== *)
theory Approver
  imports Agent_Filter Guard_Eval
begin

text \<open>
  The daemon's side of the approval helper: the messages
  (\<open>crates/cache-warden-approver/src/wire.rs\<close>), how a passed guard becomes one
  (\<open>crates/cache-warden-cli/src/daemon/approver_wire.rs\<close>), and the client that owns the helper process
  (\<open>daemon/approver.rs\<close>).

  \<open>serde_json\<close> is a parameter that reads a line of the helper.  A connection carries the lines that are
  still to come on it, so that a late answer to an earlier request is there when the next one reads.
  Spawning, the code-signature check of a peer and the failures of the socket are parameters.
\<close>

subsection \<open>Messages\<close>

definition WIRE_VERSION :: "32 word" where "WIRE_VERSION = 2"

record process_chain_entry =
  pc_pid :: pid
  pc_ppid :: pid
  pc_path :: string
  pc_start_time :: nat

record wire_audit_token =
  wa_euid :: "32 word"
  wa_ruid :: "32 word"
  wa_egid :: "32 word"
  wa_pid :: pid
  wa_pid_version :: "32 word"

record wire_requester =
  wq_chain :: "process_chain_entry list"
  wq_audit_token :: wire_audit_token
  wq_responsible_bundle_id :: "string option"

record wire_constraint_eval =
  wc_kind :: string
  wc_matched :: bool
  wc_strength :: string
  wc_display_label :: string
  wc_risk_note :: "string option"

record wire_process_snapshot =
  wp_pid :: pid
  wp_start_time :: nat
  wp_unique_id :: "64 word option"
  wp_path :: string
  wp_name :: string

record wire_guard_eval =
  wg_constraints :: "wire_constraint_eval list"
  wg_setter_pinned :: "wire_process_snapshot option"
  wg_getter_matched :: "wire_process_snapshot option"
  wg_evaluated_at :: nat

record approve_request =
  aq_v :: "32 word"
  aq_request_id :: string
  aq_key :: string
  aq_operation :: string
  aq_requester :: wire_requester
  aq_guard_eval :: "wire_guard_eval option"
  aq_timeout_secs :: nat

datatype wire_outcome =
  OutApproved | OutDenied | OutCancelled | OutPeerGone | OutTimeout | OutBiometricFailed

record approve_response =
  ap_v :: "32 word"
  ap_request_id :: string
  ap_outcome :: wire_outcome
  ap_biometric_kind :: "string option"

datatype fda_outcome = FdaPromptGranted | FdaPromptDismissed

record fda_prompt_response =
  fp_v :: "32 word"
  fp_request_id :: string
  fp_outcome :: fda_outcome

datatype helper_response = HelperApprove approve_response | HelperFda fda_prompt_response

subsection \<open>From a guard's verdict to a request\<close>

text \<open>Durations are nanoseconds; the conversion saturates at the width of the wire.\<close>

definition duration_to_epoch_ns :: "duration \<Rightarrow> nat" where
  "duration_to_epoch_ns d = min d (2 ^ 64 - 1)"

definition maybe_duration_to_ns :: "duration option \<Rightarrow> nat" where
  "maybe_duration_to_ns d = (case d of None \<Rightarrow> 0 | Some x \<Rightarrow> duration_to_epoch_ns x)"

definition to_wire_chain :: "getter_process list \<Rightarrow> process_chain_entry list" where
  "to_wire_chain chain =
     map (\<lambda>g. \<lparr>pc_pid = pid (gp_info g),
               pc_ppid = (case ppid (gp_info g) of None \<Rightarrow> 0 | Some p \<Rightarrow> p),
               pc_path = (case path (gp_info g) of None \<Rightarrow> [] | Some p \<Rightarrow> p),
               pc_start_time = maybe_duration_to_ns (start_time (gp_info g))\<rparr>) chain"

text \<open>
  The credentials of a peer as the kernel reports them (\<open>crates/macos-process-inspect/src/peer.rs\<close>): eight
  words, read by position.  The signed version keeps its bits.
\<close>

datatype audit_token =
  AuditToken "32 word" "32 word" "32 word" "32 word" "32 word" "32 word" "32 word" "32 word"

fun at_euid :: "audit_token \<Rightarrow> 32 word" where "at_euid (AuditToken v0 v1 v2 v3 v4 v5 v6 v7) = v1"
fun at_egid :: "audit_token \<Rightarrow> 32 word" where "at_egid (AuditToken v0 v1 v2 v3 v4 v5 v6 v7) = v2"
fun at_ruid :: "audit_token \<Rightarrow> 32 word" where "at_ruid (AuditToken v0 v1 v2 v3 v4 v5 v6 v7) = v3"
fun at_pid :: "audit_token \<Rightarrow> pid option" where
  "at_pid (AuditToken v0 v1 v2 v3 v4 v5 v6 v7) = (if v5 = 0 then None else Some v5)"
fun at_pid_version :: "audit_token \<Rightarrow> 32 word" where "at_pid_version (AuditToken v0 v1 v2 v3 v4 v5 v6 v7) = v7"

definition to_wire_audit_token :: "audit_token \<Rightarrow> wire_audit_token" where
  "to_wire_audit_token t =
     \<lparr>wa_euid = at_euid t, wa_ruid = at_ruid t, wa_egid = at_egid t,
      wa_pid = (case at_pid t of None \<Rightarrow> 0 | Some p \<Rightarrow> p), wa_pid_version = at_pid_version t\<rparr>"

definition to_wire_constraint :: "constraint_eval \<Rightarrow> wire_constraint_eval" where
  "to_wire_constraint c =
     \<lparr>wc_kind = eval_kind c, wc_matched = True, wc_strength = eval_strength c,
      wc_display_label = eval_label c, wc_risk_note = eval_risk c\<rparr>"

definition to_wire_snapshot :: "setter_pin \<Rightarrow> wire_process_snapshot" where
  "to_wire_snapshot p =
     \<lparr>wp_pid = pin_pid p, wp_start_time = maybe_duration_to_ns (pin_start_time p),
      wp_unique_id = pin_unique_id p, wp_path = pin_path p, wp_name = pin_name p\<rparr>"

text \<open>\<open>now\<close> is the wall clock, \<open>None\<close> before the epoch.\<close>

definition to_wire_guard_eval :: "duration option \<Rightarrow> guard_eval_output \<Rightarrow> wire_guard_eval" where
  "to_wire_guard_eval now out =
     \<lparr>wg_constraints = map to_wire_constraint (eval_constraints out),
      wg_setter_pinned = map_option to_wire_snapshot (setter_pinned out),
      wg_getter_matched = map_option to_wire_snapshot (getter_matched out),
      wg_evaluated_at = maybe_duration_to_ns now\<rparr>"

definition EMPTY_AUDIT_TOKEN :: wire_audit_token where
  "EMPTY_AUDIT_TOKEN = \<lparr>wa_euid = 0, wa_ruid = 0, wa_egid = 0, wa_pid = 0, wa_pid_version = 0\<rparr>"

definition build_approve_request ::
  "string \<Rightarrow> string \<Rightarrow> string \<Rightarrow> getter_process list \<Rightarrow> audit_token option \<Rightarrow> string option
     \<Rightarrow> duration option \<Rightarrow> guard_eval_output \<Rightarrow> nat \<Rightarrow> approve_request"
where
  "build_approve_request request_id key operation chain token bundle now out secs =
     \<lparr>aq_v = WIRE_VERSION, aq_request_id = request_id, aq_key = key, aq_operation = operation,
      aq_requester = \<lparr>wq_chain = to_wire_chain chain,
        wq_audit_token = (case token of None \<Rightarrow> EMPTY_AUDIT_TOKEN | Some t \<Rightarrow> to_wire_audit_token t),
        wq_responsible_bundle_id = bundle\<rparr>,
      aq_guard_eval = Some (to_wire_guard_eval now out), aq_timeout_secs = secs\<rparr>"

subsection \<open>One exchange\<close>

datatype ipc_error =
  IpcUnexpectedEof | IpcBrokenPipe | IpcConnectionReset | IpcConnectionAborted | IpcTimedOut
| IpcInvalidData | IpcWouldBlock | IpcAddrInUse | IpcNotConnected | IpcOther

text \<open>
  What a reader of the helper's socket meets, in order.  \<open>HelperSilent\<close> is the end of the reader's
  patience; a line that was cut there goes on as another one.
\<close>

datatype helper_event = HelperLine string | HelperEof | HelperFails ipc_error | HelperSilent

fun exchange_loop ::
  "(string \<Rightarrow> helper_response option) \<Rightarrow> string \<Rightarrow> helper_event list
     \<Rightarrow> (ipc_error + approve_response) \<times> helper_event list"
where
  "exchange_loop from_str request_id [] = (Inl IpcTimedOut, [])"
| "exchange_loop from_str request_id (HelperSilent # evs) = (Inl IpcTimedOut, evs)"
| "exchange_loop from_str request_id (HelperEof # evs) = (Inl IpcUnexpectedEof, evs)"
| "exchange_loop from_str request_id (HelperFails k # evs) = (Inl k, evs)"
| "exchange_loop from_str request_id (HelperLine l # evs) =
     (case from_str (trim_end l) of
        None \<Rightarrow> (Inl IpcInvalidData, evs)
      | Some (HelperFda f) \<Rightarrow> exchange_loop from_str request_id evs
      | Some (HelperApprove r) \<Rightarrow>
          (if ap_v r \<noteq> WIRE_VERSION then (Inl IpcInvalidData, evs)
           else if ap_request_id r \<noteq> request_id then exchange_loop from_str request_id evs
           else (Inr r, evs)))"

record helper_conn =
  cn_child :: pid
  cn_incoming :: "helper_event list"

definition do_exchange ::
  "(string \<Rightarrow> helper_response option) \<Rightarrow> ipc_error option \<Rightarrow> approve_request \<Rightarrow> helper_conn
     \<Rightarrow> (ipc_error + approve_response) \<times> helper_conn"
where
  "do_exchange from_str write req cn =
     (case write of
        Some k \<Rightarrow> (Inl k, cn)
      | None \<Rightarrow>
          (case exchange_loop from_str (aq_request_id req) (cn_incoming cn) of
             (r, evs) \<Rightarrow> (r, cn\<lparr>cn_incoming := evs\<rparr>)))"

definition is_conn_death :: "ipc_error \<Rightarrow> bool" where
  "is_conn_death e \<longleftrightarrow> e \<in> {IpcUnexpectedEof, IpcBrokenPipe, IpcConnectionReset, IpcConnectionAborted}"

subsection \<open>Connecting to the helper\<close>

text \<open>
  A connection to the listening socket: whether the peer's code signature verifies, the process the
  kernel names for it, and what it will say.
\<close>

datatype connect_attempt = AcceptFails ipc_error | Peer bool "pid option" "helper_event list"

fun accept_verified :: "connect_attempt list \<Rightarrow> pid option \<Rightarrow> ipc_error + helper_event list" where
  "accept_verified [] expected = Inl IpcTimedOut"
| "accept_verified (AcceptFails k # rest) expected = Inl k"
| "accept_verified (Peer verified p evs # rest) expected =
     (if \<not> verified then accept_verified rest expected
      else (case expected of
              None \<Rightarrow> Inr evs
            | Some want \<Rightarrow> (if p = Some want then Inr evs else accept_verified rest expected)))"

definition spawn_and_accept ::
  "ipc_error + pid \<Rightarrow> connect_attempt list \<Rightarrow> ipc_error + helper_conn"
where
  "spawn_and_accept spawn attempts =
     (case spawn of
        Inl k \<Rightarrow> Inl k
      | Inr child \<Rightarrow>
          (case accept_verified attempts (Some child) of
             Inl k \<Rightarrow> Inl k
           | Inr evs \<Rightarrow> Inr \<lparr>cn_child = child, cn_incoming = evs\<rparr>))"

subsection \<open>The client\<close>

definition MAX_PENDING_REQUESTS :: nat where "MAX_PENDING_REQUESTS = 5"

record approver_client =
  ac_conn :: "helper_conn option"
  ac_helper_pid :: pid
  ac_closed :: bool
  ac_pending :: nat

text \<open>
  \<open>IpcAddrInUse\<close> when another listener answers on the path; \<open>bind_fails\<close> is any other failure to bind.
\<close>

definition approver_bind :: "bool \<Rightarrow> bool \<Rightarrow> ipc_error option \<Rightarrow> ipc_error option" where
  "approver_bind path_exists answered bind_fails =
     (if path_exists \<and> answered then Some IpcAddrInUse else bind_fails)"

definition client_start ::
  "ipc_error option \<Rightarrow> ipc_error + pid \<Rightarrow> connect_attempt list \<Rightarrow> ipc_error + approver_client"
where
  "client_start bound spawn attempts =
     (case bound of
        Some k \<Rightarrow> Inl k
      | None \<Rightarrow>
          (case spawn_and_accept spawn attempts of
             Inl k \<Rightarrow> Inl k
           | Inr cn \<Rightarrow> Inr \<lparr>ac_conn = Some cn, ac_helper_pid = cn_child cn, ac_closed = False, ac_pending = 0\<rparr>))"

text \<open>
  The surroundings of one request: whether its turn comes in time, what the two possible writes
  answer, whether the client is shut down while the first exchange runs, and a new helper.
\<close>

record exchange_world =
  xw_turn :: bool
  xw_write :: "nat \<Rightarrow> ipc_error option"
  xw_closed_meanwhile :: bool
  xw_spawn :: "ipc_error + pid"
  xw_attempts :: "connect_attempt list"

text \<open>A dead connection is replaced and the request repeated once.\<close>

definition respawn_and_retry ::
  "(string \<Rightarrow> helper_response option) \<Rightarrow> exchange_world \<Rightarrow> approve_request \<Rightarrow> approver_client
     \<Rightarrow> (ipc_error + approve_response) \<times> approver_client"
where
  "respawn_and_retry from_str w req c =
     (let c1 = c\<lparr>ac_conn := None, ac_helper_pid := 0\<rparr>
      in if xw_closed_meanwhile w then (Inl IpcConnectionAborted, c1\<lparr>ac_closed := True\<rparr>)
         else (case spawn_and_accept (xw_spawn w) (xw_attempts w) of
                 Inl k \<Rightarrow> (Inl k, c1)
               | Inr cn \<Rightarrow>
                   (case do_exchange from_str (xw_write w 1) req cn of
                      (r, cn') \<Rightarrow> (r, c1\<lparr>ac_conn := Some cn', ac_helper_pid := cn_child cn\<rparr>))))"

definition client_request ::
  "(string \<Rightarrow> helper_response option) \<Rightarrow> exchange_world \<Rightarrow> approve_request \<Rightarrow> approver_client
     \<Rightarrow> (ipc_error + approve_response) \<times> approver_client"
where
  "client_request from_str w req c =
     (let depth = Suc (ac_pending c)
      in if MAX_PENDING_REQUESTS < depth then (Inl IpcWouldBlock, c)
         else if ac_closed c then (Inl IpcConnectionAborted, c)
         else if \<not> xw_turn w then (Inl IpcTimedOut, c)
         else (case ac_conn c of
                 None \<Rightarrow> respawn_and_retry from_str w req c
               | Some cn \<Rightarrow>
                   (case do_exchange from_str (xw_write w 0) req cn of
                      (Inr r, cn') \<Rightarrow> (Inr r, c\<lparr>ac_conn := Some cn'\<rparr>)
                    | (Inl e, cn') \<Rightarrow>
                        (if is_conn_death e then respawn_and_retry from_str w req c
                         else (Inl e, c\<lparr>ac_conn := Some cn'\<rparr>)))))"

text \<open>
  The explainer of a missing permission only borrows the connection for one line: \<open>in_time\<close> says whether
  the lock and the write come within the time given, \<open>write\<close> what the write answers.
\<close>

definition notify_fda_prompt ::
  "bool \<Rightarrow> ipc_error option \<Rightarrow> approver_client \<Rightarrow> ipc_error option"
where
  "notify_fda_prompt in_time write c =
     (if ac_closed c then Some IpcConnectionAborted
      else if \<not> in_time then Some IpcTimedOut
      else (case ac_conn c of None \<Rightarrow> Some IpcNotConnected | Some cn \<Rightarrow> write))"

definition client_shutdown :: "approver_client \<Rightarrow> approver_client" where
  "client_shutdown c = c\<lparr>ac_closed := True, ac_helper_pid := 0, ac_conn := None\<rparr>"

subsection \<open>An answer belongs to its request\<close>

lemma exchange_loop_answer:
  "exchange_loop from_str request_id evs = (Inr r, evs') \<Longrightarrow>
     ap_v r = WIRE_VERSION \<and> ap_request_id r = request_id
     \<and> (\<exists>l. HelperLine l \<in> set evs \<and> from_str (trim_end l) = Some (HelperApprove r))"
proof (induction from_str request_id evs rule: exchange_loop.induct)
  case (5 from_str request_id l evs)
  then show ?case
    by (cases "from_str (trim_end l)")
      (fastforce split: helper_response.splits if_splits)+
qed simp_all

lemma exchange_loop_rest:
  "snd (exchange_loop from_str request_id evs) = drop (length evs - length (snd (exchange_loop from_str request_id evs))) evs
   \<and> length (snd (exchange_loop from_str request_id evs)) \<le> length evs"
proof (induction from_str request_id evs rule: exchange_loop.induct)
  case (5 from_str request_id l evs)
  then show ?case
    by (cases "from_str (trim_end l)") (auto simp: Suc_diff_le split: helper_response.splits if_splits)
qed simp_all

lemma exchange_loop_suffix: "set (snd (exchange_loop from_str request_id evs)) \<subseteq> set evs"
  using exchange_loop_rest [of from_str request_id evs] by (metis set_drop_subset)

lemma accept_verified_peer:
  "accept_verified attempts (Some want) = Inr evs \<Longrightarrow> Peer True (Some want) evs \<in> set attempts"
  by (induction attempts "Some want" rule: accept_verified.induct) (auto split: if_splits)

lemma do_exchange_answer:
  "do_exchange from_str write req cn = (Inr r, cn') \<Longrightarrow>
     ap_v r = WIRE_VERSION \<and> ap_request_id r = aq_request_id req
     \<and> (\<exists>l. HelperLine l \<in> set (cn_incoming cn) \<and> from_str (trim_end l) = Some (HelperApprove r))"
  by (auto simp: do_exchange_def dest: exchange_loop_answer split: option.splits prod.splits)

text \<open>
  Where an answer may come from: the connection the client already had, or one whose peer had the
  family's signature and was the very process just spawned.
\<close>

definition answer_lines :: "exchange_world \<Rightarrow> approver_client \<Rightarrow> helper_event set" where
  "answer_lines w c =
     (case ac_conn c of None \<Rightarrow> {} | Some cn \<Rightarrow> set (cn_incoming cn))
     \<union> {e. \<exists>child evs. xw_spawn w = Inr child \<and> Peer True (Some child) evs \<in> set (xw_attempts w) \<and> e \<in> set evs}"

lemma respawn_answer:
  assumes "respawn_and_retry from_str w req c = (Inr r, c')"
  shows "ap_v r = WIRE_VERSION \<and> ap_request_id r = aq_request_id req
    \<and> (\<exists>l child evs. xw_spawn w = Inr child \<and> Peer True (Some child) evs \<in> set (xw_attempts w)
         \<and> HelperLine l \<in> set evs \<and> from_str (trim_end l) = Some (HelperApprove r))"
proof -
  from assms obtain cn cn' where s: "spawn_and_accept (xw_spawn w) (xw_attempts w) = Inr cn"
    and ex: "do_exchange from_str (xw_write w 1) req cn = (Inr r, cn')"
    by (auto simp: respawn_and_retry_def Let_def split: if_splits sum.splits prod.splits)
  from s obtain child where "xw_spawn w = Inr child" "Peer True (Some child) (cn_incoming cn) \<in> set (xw_attempts w)"
    by (auto simp: spawn_and_accept_def dest: accept_verified_peer split: sum.splits)
  with do_exchange_answer [OF ex] show ?thesis by blast
qed

lemma client_answer:
  assumes "client_request from_str w req c = (Inr r, c')"
  shows "ap_v r = WIRE_VERSION \<and> ap_request_id r = aq_request_id req
    \<and> \<not> ac_closed c \<and> ac_pending c < MAX_PENDING_REQUESTS
    \<and> (\<exists>l. HelperLine l \<in> answer_lines w c \<and> from_str (trim_end l) = Some (HelperApprove r))"
proof -
  from assms have open': "\<not> ac_closed c" "ac_pending c < MAX_PENDING_REQUESTS"
    by (auto simp: client_request_def Let_def split: if_splits)
  from assms consider
      (own) cn cn' where "ac_conn c = Some cn" "do_exchange from_str (xw_write w 0) req cn = (Inr r, cn')"
    | (new) "respawn_and_retry from_str w req c = (Inr r, c')"
    by (auto simp: client_request_def Let_def split: if_splits option.splits sum.splits prod.splits)
  then show ?thesis
  proof cases
    case own
    with do_exchange_answer [OF own(2)] open' show ?thesis by (auto simp: answer_lines_def)
  next
    case new
    with respawn_answer [OF new] open' show ?thesis by (auto simp: answer_lines_def)
  qed
qed

subsection \<open>The queue of prompts\<close>

text \<open>
  The counter of \<open>request\<close> under concurrency: every call adds itself before it compares and takes itself
  off when it returns, admitted or not.  A state is the counter with the calls on either side of the
  comparison.
\<close>

record prompt_queue =
  pq_count :: nat
  pq_admitted :: "nat fset"
  pq_refused :: "nat fset"

definition queue_enter :: "nat \<Rightarrow> prompt_queue \<Rightarrow> prompt_queue" where
  "queue_enter n q =
     (let depth = Suc (pq_count q)
      in if MAX_PENDING_REQUESTS < depth
         then q\<lparr>pq_count := depth, pq_refused := finsert n (pq_refused q)\<rparr>
         else q\<lparr>pq_count := depth, pq_admitted := finsert n (pq_admitted q)\<rparr>)"

definition queue_leave :: "nat \<Rightarrow> prompt_queue \<Rightarrow> prompt_queue" where
  "queue_leave n q =
     q\<lparr>pq_count := pq_count q - 1, pq_admitted := pq_admitted q |-| {|n|}, pq_refused := pq_refused q |-| {|n|}\<rparr>"

inductive queue_reachable :: "prompt_queue \<Rightarrow> bool" where
  queue_empty: "queue_reachable \<lparr>pq_count = 0, pq_admitted = {||}, pq_refused = {||}\<rparr>"
| queue_enters: "queue_reachable q \<Longrightarrow> n |\<notin>| pq_admitted q |\<union>| pq_refused q \<Longrightarrow> queue_reachable (queue_enter n q)"
| queue_leaves: "queue_reachable q \<Longrightarrow> n |\<in>| pq_admitted q |\<union>| pq_refused q \<Longrightarrow> queue_reachable (queue_leave n q)"

lemma fcard_remove: "n |\<in>| A \<Longrightarrow> fcard (A |-| {|n|}) = fcard A - 1"
  by (simp add: fcard.rep_eq)

lemma queue_counts:
  "queue_reachable q \<Longrightarrow>
     pq_count q = fcard (pq_admitted q) + fcard (pq_refused q) \<and> pq_admitted q |\<inter>| pq_refused q = {||}
     \<and> fcard (pq_admitted q) \<le> MAX_PENDING_REQUESTS"
proof (induction rule: queue_reachable.induct)
  case (queue_enters q n)
  then have out: "n |\<notin>| pq_admitted q" "n |\<notin>| pq_refused q" by auto
  show ?case
  proof (cases "MAX_PENDING_REQUESTS < Suc (pq_count q)")
    case True
    with queue_enters out show ?thesis by (auto simp: queue_enter_def Let_def fcard_finsert_disjoint)
  next
    case False
    with queue_enters out show ?thesis by (auto simp: queue_enter_def Let_def fcard_finsert_disjoint)
  qed
next
  case (queue_leaves q n)
  have pos: "n |\<in>| A \<Longrightarrow> 0 < fcard A" for A by (metis fcard_seteq fempty_iff fempty_fsubsetI gr0I le_zero_eq fcard_fempty)
  have same: "n |\<notin>| A \<Longrightarrow> A |-| {|n|} = A" for A by auto
  from queue_leaves.hyps(2) consider (adm) "n |\<in>| pq_admitted q" | (ref) "n |\<in>| pq_refused q" by auto
  then show ?case
  proof cases
    case adm
    with queue_leaves.IH have "n |\<notin>| pq_refused q" by auto
    with adm queue_leaves.IH pos [OF adm] show ?thesis
      by (auto simp: queue_leave_def fcard_remove same)
  next
    case ref
    with queue_leaves.IH have "n |\<notin>| pq_admitted q" by auto
    with ref queue_leaves.IH pos [OF ref] show ?thesis
      by (auto simp: queue_leave_def fcard_remove same)
  qed
qed (simp add: fcard.rep_eq)


text \<open>
  Property C40.  The user never has more than five prompts waiting, whatever number of callers
  arrive and leave in whatever order, and a caller that was turned away met five others that had
  already counted themselves.
\<close>

theorem prompts_are_bounded:
  assumes "queue_reachable q"
  shows "fcard (pq_admitted q) \<le> 5
    \<and> (n |\<notin>| pq_admitted q |\<union>| pq_refused q \<longrightarrow> n |\<in>| pq_refused (queue_enter n q)
         \<longrightarrow> 5 \<le> fcard (pq_admitted q) + fcard (pq_refused q))
    \<and> (pq_admitted q |\<union>| pq_refused q = {||} \<longrightarrow> pq_count q = 0)"
  using queue_counts [OF assms]
  by (auto simp: queue_enter_def Let_def MAX_PENDING_REQUESTS_def split: if_splits)

definition demo_queue :: prompt_queue where
  "demo_queue = queue_leave 2 (fold queue_enter [1, 2, 3, 4, 5, 6] \<lparr>pq_count = 0, pq_admitted = {||}, pq_refused = {||}\<rparr>)"

lemma demo_queue_reachable: "queue_reachable demo_queue"
proof -
  have "queue_reachable (queue_leave 2 (queue_enter 6 (queue_enter 5 (queue_enter 4 (queue_enter 3
      (queue_enter 2 (queue_enter 1 \<lparr>pq_count = 0, pq_admitted = {||}, pq_refused = {||}\<rparr>)))))))"
    by (intro queue_leaves queue_enters queue_empty) (simp_all add: queue_enter_def Let_def MAX_PENDING_REQUESTS_def)
  then show ?thesis by (simp add: demo_queue_def)
qed

theorem prompts_are_bounded_witness:
  "fcard (pq_admitted demo_queue) \<le> 5 \<and> 5 \<le> fcard (pq_admitted demo_queue) + fcard (pq_refused demo_queue)"
  using prompts_are_bounded [OF demo_queue_reachable, of 7]
  by (simp add: demo_queue_def queue_leave_def queue_enter_def Let_def MAX_PENDING_REQUESTS_def)

end
