(* ===== verification/Approval.thy ===== *)
theory Approval
  imports Approver
begin

text \<open>
  Asking the user (\<open>crates/cache-warden-cli/src/daemon/server.rs\<close>: \<open>ApprovalOutcome\<close>,
  \<open>CoalesceKey\<close>, \<open>ApproverSlot\<close>): every guarded read and every signature with a guarded key goes through
  \<open>await_dialog_outcome\<close>, where a request whose question is already on the screen joins the request that
  asked it.

  The slot under concurrency is a transition system.  A caller is a number; its leader's number stands
  for the broadcast channel it subscribed to.
\<close>

subsection \<open>Outcomes\<close>

datatype approval_outcome =
  Approved | HelperUnavailable | ApprovalDenied | ApprovalCancelled | ApprovalTimeout | PeerGone
| BiometricFailed | ApprovalIpc ipc_error

fun approval_label :: "approval_outcome \<Rightarrow> string" where
  "approval_label Approved = ''approved''"
| "approval_label HelperUnavailable = ''approver helper unavailable''"
| "approval_label ApprovalDenied = ''approval denied by user''"
| "approval_label ApprovalCancelled = ''approval cancelled''"
| "approval_label ApprovalTimeout = ''approval timed out''"
| "approval_label PeerGone = ''requesting process exited before approval''"
| "approval_label BiometricFailed = ''biometric authentication failed''"
| "approval_label (ApprovalIpc _) = ''approver dialog failed''"

fun client_message :: "approval_outcome \<Rightarrow> string" where
  "client_message ApprovalCancelled =
     ''approval declined at the confirmation prompt; ''
     @ ''asking again will only re-prompt '' @ [CHR 0xE2, CHR 0x80, CHR 0x94] @ '' check with the user first''"
| "client_message ApprovalTimeout =
     ''approval timed out: the confirmation prompt went unanswered; ''
     @ ''retry while someone is at the machine''"
| "client_message _ = ''approval was not granted''"

fun outcome_of_wire :: "wire_outcome \<Rightarrow> approval_outcome" where
  "outcome_of_wire OutApproved = Approved"
| "outcome_of_wire OutDenied = ApprovalDenied"
| "outcome_of_wire OutCancelled = ApprovalCancelled"
| "outcome_of_wire OutTimeout = ApprovalTimeout"
| "outcome_of_wire OutPeerGone = PeerGone"
| "outcome_of_wire OutBiometricFailed = BiometricFailed"

subsection \<open>The helper's readiness\<close>

datatype helper_state = HelperStarting | HelperReady | HelperDown

text \<open>What a waiter sees each time it is woken, and once more at its deadline.\<close>

fun wait_ready :: "helper_state list \<Rightarrow> helper_state \<Rightarrow> bool" where
  "wait_ready [] at_deadline = (at_deadline = HelperReady)"
| "wait_ready (HelperReady # seen) at_deadline = True"
| "wait_ready (HelperDown # seen) at_deadline = False"
| "wait_ready (HelperStarting # seen) at_deadline = wait_ready seen at_deadline"

definition run_dialog :: "bool \<Rightarrow> ipc_error + approve_response \<Rightarrow> approval_outcome" where
  "run_dialog ready replied =
     (if \<not> ready then HelperUnavailable
      else (case replied of Inr resp \<Rightarrow> outcome_of_wire (ap_outcome resp) | Inl e \<Rightarrow> ApprovalIpc e))"

subsection \<open>Questions\<close>

record coalesce_key =
  ck_key :: string
  ck_operation :: string
  ck_pid :: pid
  ck_pid_version :: "32 word"
  ck_euid :: "32 word"

definition question_of :: "approve_request \<Rightarrow> coalesce_key option" where
  "question_of req =
     (let t = wq_audit_token (aq_requester req)
      in if wa_pid t = 0 then None
         else Some \<lparr>ck_key = aq_key req, ck_operation = aq_operation req, ck_pid = wa_pid t,
                    ck_pid_version = wa_pid_version t, ck_euid = wa_euid t\<rparr>)"

subsection \<open>The slot\<close>

datatype caller =
  Leading approve_request
| Following approve_request nat
| Answered approve_request approval_outcome nat
| Abandoned approve_request

record approval_slot =
  sl_inflight :: "(coalesce_key, nat) fmap"
  sl_callers :: "(nat, caller) fmap"

definition slot_start :: approval_slot where
  "slot_start = \<lparr>sl_inflight = fmempty, sl_callers = fmempty\<rparr>"

text \<open>Entering \<open>await_dialog_outcome\<close>: lead, or follow who leads.\<close>

definition slot_ask :: "nat \<Rightarrow> approve_request \<Rightarrow> approval_slot \<Rightarrow> approval_slot" where
  "slot_ask n req s =
     (case question_of req of
        None \<Rightarrow> s\<lparr>sl_callers := fmupd n (Leading req) (sl_callers s)\<rparr>
      | Some q \<Rightarrow>
          (case fmlookup (sl_inflight s) q of
             Some l \<Rightarrow> s\<lparr>sl_callers := fmupd n (Following req l) (sl_callers s)\<rparr>
           | None \<Rightarrow> \<lparr>sl_inflight = fmupd q n (sl_inflight s),
                       sl_callers = fmupd n (Leading req) (sl_callers s)\<rparr>))"

text \<open>\<open>InflightGuard\<close>: the entry is gone before the outcome is published, and also without one.\<close>

definition retire :: "approve_request \<Rightarrow> (coalesce_key, nat) fmap \<Rightarrow> (coalesce_key, nat) fmap" where
  "retire req m = (case question_of req of None \<Rightarrow> m | Some q \<Rightarrow> fmdrop q m)"

definition slot_finish :: "nat \<Rightarrow> approve_request \<Rightarrow> approval_outcome \<Rightarrow> approval_slot \<Rightarrow> approval_slot" where
  "slot_finish l req out s =
     \<lparr>sl_inflight = retire req (sl_inflight s), sl_callers = fmupd l (Answered req out l) (sl_callers s)\<rparr>"

definition slot_abandon :: "nat \<Rightarrow> approve_request \<Rightarrow> approval_slot \<Rightarrow> approval_slot" where
  "slot_abandon l req s =
     \<lparr>sl_inflight = retire req (sl_inflight s), sl_callers = fmupd l (Abandoned req) (sl_callers s)\<rparr>"

text \<open>\<open>follow_inflight\<close>: what the leader published, its own deadline, or a leader gone without an answer.\<close>

definition slot_follower :: "nat \<Rightarrow> caller \<Rightarrow> approval_slot \<Rightarrow> approval_slot" where
  "slot_follower n c s = s\<lparr>sl_callers := fmupd n c (sl_callers s)\<rparr>"

datatype slot_event =
  Asked nat approve_request | Finished nat approval_outcome | Received nat | Expired nat | Orphaned nat
| LeaderGone nat | FollowerGone nat

text \<open>The runs of the slot, with the events in their order.  A caller enters once.\<close>

inductive slot_run :: "(string \<Rightarrow> helper_response option) \<Rightarrow> slot_event list \<Rightarrow> approval_slot \<Rightarrow> bool"
  for from_str where
  run_start: "slot_run from_str [] slot_start"
| run_ask: "slot_run from_str evs s \<Longrightarrow> fmlookup (sl_callers s) n = None
    \<Longrightarrow> slot_run from_str (evs @ [Asked n req]) (slot_ask n req s)"
| run_finish: "slot_run from_str evs s \<Longrightarrow> fmlookup (sl_callers s) l = Some (Leading req)
    \<Longrightarrow> out = run_dialog (wait_ready seen at_deadline) (fst (client_request from_str w req c))
    \<Longrightarrow> slot_run from_str (evs @ [Finished l out]) (slot_finish l req out s)"
| run_leader_gone: "slot_run from_str evs s \<Longrightarrow> fmlookup (sl_callers s) l = Some (Leading req)
    \<Longrightarrow> slot_run from_str (evs @ [LeaderGone l]) (slot_abandon l req s)"
| run_receive: "slot_run from_str evs s \<Longrightarrow> fmlookup (sl_callers s) n = Some (Following req l)
    \<Longrightarrow> fmlookup (sl_callers s) l = Some (Answered req0 out l)
    \<Longrightarrow> slot_run from_str (evs @ [Received n]) (slot_follower n (Answered req out l) s)"
| run_expire: "slot_run from_str evs s \<Longrightarrow> fmlookup (sl_callers s) n = Some (Following req l)
    \<Longrightarrow> slot_run from_str (evs @ [Expired n]) (slot_follower n (Answered req ApprovalTimeout n) s)"
| run_orphan: "slot_run from_str evs s \<Longrightarrow> fmlookup (sl_callers s) n = Some (Following req l)
    \<Longrightarrow> fmlookup (sl_callers s) l = Some (Abandoned req0)
    \<Longrightarrow> slot_run from_str (evs @ [Orphaned n]) (slot_follower n (Answered req (ApprovalIpc IpcOther) n) s)"
| run_follower_gone: "slot_run from_str evs s \<Longrightarrow> fmlookup (sl_callers s) n = Some (Following req l)
    \<Longrightarrow> slot_run from_str (evs @ [FollowerGone n]) (slot_follower n (Abandoned req) s)"

lemmas slot_defs = slot_ask_def slot_finish_def slot_abandon_def slot_follower_def retire_def slot_start_def

inductive_cases slot_run_emptyE: "slot_run from_str [] s"

subsection \<open>One prompt per question\<close>

definition led :: "approval_slot \<Rightarrow> bool" where
  "led s \<longleftrightarrow>
     (\<forall>q l. fmlookup (sl_inflight s) q = Some l \<longrightarrow>
        (\<exists>req. fmlookup (sl_callers s) l = Some (Leading req) \<and> question_of req = Some q))
     \<and> (\<forall>l req q. fmlookup (sl_callers s) l = Some (Leading req) \<longrightarrow> question_of req = Some q
          \<longrightarrow> fmlookup (sl_inflight s) q = Some l)"

lemma ledI:
  assumes "\<And>q l. fmlookup (sl_inflight s) q = Some l
      \<Longrightarrow> \<exists>req. fmlookup (sl_callers s) l = Some (Leading req) \<and> question_of req = Some q"
    and "\<And>l req q. fmlookup (sl_callers s) l = Some (Leading req) \<Longrightarrow> question_of req = Some q
      \<Longrightarrow> fmlookup (sl_inflight s) q = Some l"
  shows "led s"
  using assms unfolding led_def by blast

lemma led_inflight:
  "led s \<Longrightarrow> fmlookup (sl_inflight s) q = Some l
     \<Longrightarrow> \<exists>req. fmlookup (sl_callers s) l = Some (Leading req) \<and> question_of req = Some q"
  unfolding led_def by blast

lemma led_leading:
  "led s \<Longrightarrow> fmlookup (sl_callers s) l = Some (Leading req) \<Longrightarrow> question_of req = Some q
     \<Longrightarrow> fmlookup (sl_inflight s) q = Some l"
  unfolding led_def by blast

lemma led_update:
  assumes "led s" and "\<And>r. fmlookup (sl_callers s) n \<noteq> Some (Leading r)" and "\<And>r. c \<noteq> Leading r"
  shows "led (s\<lparr>sl_callers := fmupd n c (sl_callers s)\<rparr>)"
proof (rule ledI)
  fix q l assume "fmlookup (sl_inflight (s\<lparr>sl_callers := fmupd n c (sl_callers s)\<rparr>)) q = Some l"
  then obtain req where "fmlookup (sl_callers s) l = Some (Leading req)" "question_of req = Some q"
    using led_inflight [OF assms(1)] by auto
  moreover from this assms(2) have "l \<noteq> n" by metis
  ultimately show "\<exists>req. fmlookup (sl_callers (s\<lparr>sl_callers := fmupd n c (sl_callers s)\<rparr>)) l = Some (Leading req)
      \<and> question_of req = Some q" by simp
next
  fix l req q
  assume "fmlookup (sl_callers (s\<lparr>sl_callers := fmupd n c (sl_callers s)\<rparr>)) l = Some (Leading req)"
    and "question_of req = Some q"
  with assms(3) led_leading [OF assms(1)]
  show "fmlookup (sl_inflight (s\<lparr>sl_callers := fmupd n c (sl_callers s)\<rparr>)) q = Some l"
    by (auto split: if_splits)
qed

lemma led_retire:
  assumes "led s" and l: "fmlookup (sl_callers s) l = Some (Leading req)" and "\<And>r. c \<noteq> Leading r"
  shows "led \<lparr>sl_inflight = retire req (sl_inflight s), sl_callers = fmupd l c (sl_callers s)\<rparr>" (is "led ?s")
proof (rule ledI)
  fix q l' assume a: "fmlookup (sl_inflight ?s) q = Some l'"
  then have q: "fmlookup (sl_inflight s) q = Some l'" "question_of req \<noteq> Some q"
    by (auto simp: retire_def split: option.splits if_splits)
  from led_inflight [OF assms(1) q(1)] obtain r where
    r: "fmlookup (sl_callers s) l' = Some (Leading r)" "question_of r = Some q" by blast
  with q(2) l have "l' \<noteq> l" by auto
  with r show "\<exists>r. fmlookup (sl_callers ?s) l' = Some (Leading r) \<and> question_of r = Some q" by simp
next
  fix l' r q assume a: "fmlookup (sl_callers ?s) l' = Some (Leading r)" "question_of r = Some q"
  with assms(3) have l': "l' \<noteq> l" "fmlookup (sl_callers s) l' = Some (Leading r)" by (auto split: if_splits)
  have in': "fmlookup (sl_inflight s) q = Some l'" using led_leading [OF assms(1) l'(2) a(2)] .
  moreover have "question_of req \<noteq> Some q"
  proof
    assume "question_of req = Some q"
    then have "fmlookup (sl_inflight s) q = Some l" using led_leading [OF assms(1) l] by simp
    with in' l'(1) show False by simp
  qed
  ultimately show "fmlookup (sl_inflight ?s) q = Some l'" by (auto simp: retire_def split: option.splits)
qed

lemma led_ask:
  assumes "led s" and n: "fmlookup (sl_callers s) n = None"
  shows "led (slot_ask n req s)"
proof (cases "question_of req")
  case None
  have "led (s\<lparr>sl_callers := fmupd n (Leading req) (sl_callers s)\<rparr>)" (is "led ?s")
  proof (rule ledI)
    fix q l assume "fmlookup (sl_inflight ?s) q = Some l"
    then obtain r where r: "fmlookup (sl_callers s) l = Some (Leading r)" "question_of r = Some q"
      using led_inflight [OF assms(1)] by auto
    with n have "l \<noteq> n" by auto
    with r show "\<exists>r. fmlookup (sl_callers ?s) l = Some (Leading r) \<and> question_of r = Some q" by simp
  next
    fix l r q assume "fmlookup (sl_callers ?s) l = Some (Leading r)" "question_of r = Some q"
    with None led_leading [OF assms(1)] show "fmlookup (sl_inflight ?s) q = Some l" by (auto split: if_splits)
  qed
  with None show ?thesis by (simp add: slot_ask_def)
next
  case q: (Some q)
  show ?thesis
  proof (cases "fmlookup (sl_inflight s) q")
    case (Some l)
    with q led_update [OF assms(1), of n "Following req l"] n show ?thesis by (simp add: slot_ask_def)
  next
    case None
    have "led \<lparr>sl_inflight = fmupd q n (sl_inflight s), sl_callers = fmupd n (Leading req) (sl_callers s)\<rparr>" (is "led ?s")
    proof (rule ledI)
      fix q' l assume a: "fmlookup (sl_inflight ?s) q' = Some l"
      show "\<exists>r. fmlookup (sl_callers ?s) l = Some (Leading r) \<and> question_of r = Some q'"
      proof (cases "q' = q")
        case True with a q show ?thesis by auto
      next
        case False
        with a obtain r where r: "fmlookup (sl_callers s) l = Some (Leading r)" "question_of r = Some q'"
          using led_inflight [OF assms(1)] by auto
        with n have "l \<noteq> n" by auto
        with r show ?thesis by simp
      qed
    next
      fix l r q' assume a: "fmlookup (sl_callers ?s) l = Some (Leading r)" "question_of r = Some q'"
      show "fmlookup (sl_inflight ?s) q' = Some l"
      proof (cases "l = n")
        case True with a q show ?thesis by auto
      next
        case False
        with a led_leading [OF assms(1)] have "fmlookup (sl_inflight s) q' = Some l" by simp
        with None show ?thesis by auto
      qed
    qed
    with q None show ?thesis by (simp add: slot_ask_def)
  qed
qed

lemma slot_run_led: "slot_run from_str evs s \<Longrightarrow> led s"
proof (induction rule: slot_run.induct)
  case run_start
  show ?case by (simp add: led_def slot_start_def)
next
  case (run_finish evs s l req out seen at_deadline w c)
  then show ?case unfolding slot_finish_def by (intro led_retire) simp_all
next
  case (run_leader_gone evs s l req)
  then show ?case unfolding slot_abandon_def by (intro led_retire) simp_all
qed (auto simp: slot_follower_def intro: led_ask led_update)

subsection \<open>Whose answer a caller gets\<close>

definition asked_first :: "slot_event list \<Rightarrow> nat \<Rightarrow> approve_request \<Rightarrow> nat \<Rightarrow> bool" where
  "asked_first evs n req l \<longleftrightarrow> (\<exists>pre post. evs = pre @ Asked n req # post \<and> (\<forall>out. Finished l out \<notin> set pre))"

lemma asked_first_more: "asked_first evs n req l \<Longrightarrow> asked_first (evs @ later) n req l"
  unfolding asked_first_def by (metis append_Cons append_assoc)

lemma asked_first_now: "\<forall>out. Finished l out \<notin> set evs \<Longrightarrow> asked_first (evs @ [Asked n req]) n req l"
  unfolding asked_first_def by blast

definition answers :: "approve_request \<Rightarrow> caller option \<Rightarrow> bool" where
  "answers req c \<longleftrightarrow>
     (\<exists>r0. question_of r0 = question_of req \<and> question_of req \<noteq> None
        \<and> (c = Some (Leading r0) \<or> (\<exists>out l. c = Some (Answered r0 out l)) \<or> c = Some (Abandoned r0)))"

fun caller_ok :: "slot_event list \<Rightarrow> (nat, caller) fmap \<Rightarrow> nat \<Rightarrow> caller \<Rightarrow> bool" where
  "caller_ok evs cs n (Leading req) = asked_first evs n req n"
| "caller_ok evs cs n (Following req l) = (n \<noteq> l \<and> asked_first evs n req l \<and> answers req (fmlookup cs l))"
| "caller_ok evs cs n (Answered req out l) =
     (asked_first evs n req l
      \<and> (Finished l out \<in> set evs \<or> out = ApprovalTimeout \<or> out = ApprovalIpc IpcOther)
      \<and> (n = l \<or> (\<exists>r0. fmlookup cs l = Some (Answered r0 out l)
                    \<and> question_of r0 = question_of req \<and> question_of req \<noteq> None)))"
| "caller_ok evs cs n (Abandoned req) = True"

definition joined :: "slot_event list \<Rightarrow> approval_slot \<Rightarrow> bool" where
  "joined evs s \<longleftrightarrow>
     (\<forall>l out. Finished l out \<in> set evs \<longrightarrow> (\<exists>r. fmlookup (sl_callers s) l = Some (Answered r out l)))
     \<and> (\<forall>n c. fmlookup (sl_callers s) n = Some c \<longrightarrow> caller_ok evs (sl_callers s) n c)"

lemma joined_finished:
  "joined evs s \<Longrightarrow> Finished l out \<in> set evs \<Longrightarrow> \<exists>r. fmlookup (sl_callers s) l = Some (Answered r out l)"
  unfolding joined_def by blast

lemma joined_caller: "joined evs s \<Longrightarrow> fmlookup (sl_callers s) n = Some c \<Longrightarrow> caller_ok evs (sl_callers s) n c"
  unfolding joined_def by blast

text \<open>How a caller may change.\<close>

definition advances :: "nat \<Rightarrow> caller option \<Rightarrow> caller \<Rightarrow> bool" where
  "advances m before c' \<longleftrightarrow>
     before = None \<or> (\<exists>r l. before = Some (Following r l))
     \<or> (\<exists>r. before = Some (Leading r) \<and> (c' = Abandoned r \<or> (\<exists>out. c' = Answered r out m)))"

lemma answers_mono:
  "answers req (fmlookup cs l) \<Longrightarrow> advances m (fmlookup cs m) c' \<Longrightarrow> answers req (fmlookup (fmupd m c' cs) l)"
  by (auto simp: answers_def advances_def)

lemma caller_ok_mono:
  assumes "caller_ok evs cs n c" and "advances m (fmlookup cs m) c'"
  shows "caller_ok (evs @ later) (fmupd m c' cs) n c"
proof (cases c)
  case (Following req l)
  with assms answers_mono [OF _ assms(2), of req l] show ?thesis by (simp add: asked_first_more)
next
  case (Answered req out l)
  with assms show ?thesis by (auto simp: asked_first_more advances_def)
qed (use assms in \<open>simp_all add: asked_first_more\<close>)

lemma joined_step:
  assumes "joined evs s" and "sl_callers s' = fmupd m c' (sl_callers s)" and "advances m (fmlookup (sl_callers s) m) c'"
    and "caller_ok (evs @ [e]) (sl_callers s') m c'"
    and "\<And>l out. e = Finished l out \<Longrightarrow> l = m \<and> (\<exists>r. c' = Answered r out m)"
  shows "joined (evs @ [e]) s'"
proof -
  have "\<exists>r. fmlookup (sl_callers s') l = Some (Answered r out l)" if "Finished l out \<in> set (evs @ [e])" for l out
  proof (cases "Finished l out \<in> set evs")
    case True
    with joined_finished [OF assms(1)] obtain r where r: "fmlookup (sl_callers s) l = Some (Answered r out l)" by blast
    with assms(3) have "l \<noteq> m" by (auto simp: advances_def)
    with r assms(2) show ?thesis by simp
  next
    case False
    with that assms(5) [of l out] assms(2) show ?thesis by auto
  qed
  moreover have "caller_ok (evs @ [e]) (sl_callers s') n c" if "fmlookup (sl_callers s') n = Some c" for n c
  proof (cases "n = m")
    case True
    with that assms(2,4) show ?thesis by simp
  next
    case False
    with that assms(2) have "fmlookup (sl_callers s) n = Some c" by simp
    from caller_ok_mono [OF joined_caller [OF assms(1) this] assms(3)] assms(2) show ?thesis by simp
  qed
  ultimately show ?thesis unfolding joined_def by blast
qed

lemma unfinished:
  "joined evs s \<Longrightarrow> (\<And>r out. fmlookup (sl_callers s) l \<noteq> Some (Answered r out l)) \<Longrightarrow> Finished l out \<notin> set evs"
  using joined_finished by blast

lemma asked_own:
  assumes "joined evs s" and "fmlookup (sl_callers s) n = Some (Following req l)"
  shows "asked_first evs n req n"
proof -
  have "\<forall>out. Finished n out \<notin> set evs" using unfinished [OF assms(1)] assms(2) by simp
  with joined_caller [OF assms] show ?thesis by (auto simp: asked_first_def)
qed

lemma joined_ask:
  assumes "joined evs s" and "led s" and n: "fmlookup (sl_callers s) n = None"
  shows "joined (evs @ [Asked n req]) (slot_ask n req s)"
proof -
  have fin: "\<forall>out. Finished n out \<notin> set evs" using unfinished [OF assms(1)] n by simp
  have lead: "joined (evs @ [Asked n req]) s'" if "sl_callers s' = fmupd n (Leading req) (sl_callers s)" for s'
    using assms that by (intro joined_step [OF assms(1) that]) (simp_all add: advances_def asked_first_now [OF fin])
  show ?thesis
  proof (cases "question_of req")
    case None
    with lead show ?thesis by (simp add: slot_ask_def)
  next
    case q: (Some q)
    show ?thesis
    proof (cases "fmlookup (sl_inflight s) q")
      case None
      with q lead show ?thesis by (simp add: slot_ask_def)
    next
      case (Some l)
      with led_inflight [OF assms(2)] obtain r0 where
        r0: "fmlookup (sl_callers s) l = Some (Leading r0)" "question_of r0 = Some q" by blast
      have "\<forall>out. Finished l out \<notin> set evs" using unfinished [OF assms(1)] r0 by simp
      moreover have "n \<noteq> l" using r0 n by auto
      ultimately have "joined (evs @ [Asked n req]) (s\<lparr>sl_callers := fmupd n (Following req l) (sl_callers s)\<rparr>)"
        using assms q r0
        by (intro joined_step [OF assms(1), where m = n and c' = "Following req l"])
          (auto simp: advances_def answers_def intro: asked_first_now)
      with q Some show ?thesis by (simp add: slot_ask_def)
    qed
  qed
qed

lemma slot_run_joined: "slot_run from_str evs s \<Longrightarrow> joined evs s"
proof (induction rule: slot_run.induct)
  case run_start
  show ?case by (simp add: joined_def slot_start_def)
next
  case (run_ask evs s n req)
  then show ?case using joined_ask slot_run_led by blast
next
  case (run_finish evs s l req out seen at_deadline w c)
  from joined_caller [OF run_finish.IH run_finish.hyps(2)] have "asked_first evs l req l" by simp
  then have "asked_first (evs @ [Finished l out]) l req l" by (rule asked_first_more)
  with run_finish.hyps(2) show ?case unfolding slot_finish_def
    by (intro joined_step [OF run_finish.IH, where m = l and c' = "Answered req out l"]) (auto simp: advances_def)
next
  case (run_leader_gone evs s l req)
  then show ?case unfolding slot_abandon_def
    by (intro joined_step [OF run_leader_gone.IH, where m = l and c' = "Abandoned req"]) (auto simp: advances_def)
next
  case (run_receive evs s n req l req0 out)
  have f: "n \<noteq> l" "asked_first evs n req l" "answers req (fmlookup (sl_callers s) l)"
    using joined_caller [OF run_receive.IH run_receive.hyps(2)] by simp_all
  have p: "Finished l out \<in> set evs \<or> out = ApprovalTimeout \<or> out = ApprovalIpc IpcOther"
    using joined_caller [OF run_receive.IH run_receive.hyps(3)] by simp
  from f(2) have "asked_first (evs @ [Received n]) n req l" by (rule asked_first_more)
  with f p run_receive.hyps show ?case unfolding slot_follower_def
    by (intro joined_step [OF run_receive.IH, where m = n and c' = "Answered req out l"])
      (auto simp: advances_def answers_def)
next
  case (run_expire evs s n req l)
  from asked_own [OF run_expire.IH run_expire.hyps(2)] have "asked_first (evs @ [Expired n]) n req n"
    by (rule asked_first_more)
  with run_expire.hyps show ?case unfolding slot_follower_def
    by (intro joined_step [OF run_expire.IH, where m = n and c' = "Answered req ApprovalTimeout n"])
      (auto simp: advances_def)
next
  case (run_orphan evs s n req l req0)
  from asked_own [OF run_orphan.IH run_orphan.hyps(2)] have "asked_first (evs @ [Orphaned n]) n req n"
    by (rule asked_first_more)
  with run_orphan.hyps show ?case unfolding slot_follower_def
    by (intro joined_step [OF run_orphan.IH, where m = n and c' = "Answered req (ApprovalIpc IpcOther) n"])
      (auto simp: advances_def)
next
  case (run_follower_gone evs s n req l)
  then show ?case unfolding slot_follower_def
    by (intro joined_step [OF run_follower_gone.IH, where m = n and c' = "Abandoned req"]) (auto simp: advances_def)
qed

definition dialog_gave :: "(string \<Rightarrow> helper_response option) \<Rightarrow> approve_request \<Rightarrow> approval_outcome \<Rightarrow> bool" where
  "dialog_gave from_str req out \<longleftrightarrow>
     (\<exists>seen at_deadline w c. out = run_dialog (wait_ready seen at_deadline) (fst (client_request from_str w req c)))"

lemma slot_run_dialogs:
  "slot_run from_str evs s \<Longrightarrow> fmlookup (sl_callers s) l = Some (Answered req out l) \<Longrightarrow> Finished l out \<in> set evs
     \<Longrightarrow> dialog_gave from_str req out"
proof (induction rule: slot_run.induct)
  case (run_ask evs s n r)
  have old: "fmlookup (sl_callers s) l = Some (Answered req out l)"
    using run_ask.prems(1) by (auto simp: slot_ask_def split: option.splits if_splits)
  moreover have "Finished l out \<in> set evs" using run_ask.prems(2) by simp
  ultimately show ?case by (rule run_ask.IH)
next
  case (run_finish evs s l' r out' seen at_deadline w c)
  show ?case
  proof (cases "l = l'")
    case True
    with run_finish show ?thesis unfolding dialog_gave_def slot_finish_def by auto
  next
    case False
    with run_finish show ?thesis by (auto simp: slot_finish_def)
  qed
next
  case (run_leader_gone evs s l' r)
  then show ?case by (auto simp: slot_abandon_def split: if_splits)
next
  case (run_receive evs s n r l' req0 out')
  have "Finished l out \<in> set evs" using run_receive.prems(2) by simp
  then obtain r' where "fmlookup (sl_callers s) l = Some (Answered r' out l)"
    using joined_finished [OF slot_run_joined [OF run_receive.hyps(1)]] by blast
  with run_receive show ?case by (auto simp: slot_follower_def split: if_splits)
next
  case (run_expire evs s n r l')
  have "Finished l out \<in> set evs" using run_expire.prems(2) by simp
  then obtain r' where "fmlookup (sl_callers s) l = Some (Answered r' out l)"
    using joined_finished [OF slot_run_joined [OF run_expire.hyps(1)]] by blast
  with run_expire show ?case by (auto simp: slot_follower_def split: if_splits)
next
  case (run_orphan evs s n r l' req0)
  have "Finished l out \<in> set evs" using run_orphan.prems(2) by simp
  then obtain r' where "fmlookup (sl_callers s) l = Some (Answered r' out l)"
    using joined_finished [OF slot_run_joined [OF run_orphan.hyps(1)]] by blast
  with run_orphan show ?case by (auto simp: slot_follower_def split: if_splits)
next
  case (run_follower_gone evs s n r l')
  then show ?case by (auto simp: slot_follower_def split: if_splits)
qed (simp add: slot_start_def)

lemma dialog_approved:
  assumes "dialog_gave from_str req Approved"
  shows "\<exists>w c resp. ap_outcome resp = OutApproved \<and> ap_request_id resp = aq_request_id req \<and> \<not> ac_closed c
     \<and> (\<exists>line. HelperLine line \<in> answer_lines w c \<and> from_str (trim_end line) = Some (HelperApprove resp))"
proof -
  from assms obtain seen d w c where a: "Approved = run_dialog (wait_ready seen d) (fst (client_request from_str w req c))"
    by (auto simp: dialog_gave_def)
  obtain r c' where rc: "client_request from_str w req c = (r, c')" by fastforce
  from a rc obtain resp where r: "r = Inr resp" "Approved = outcome_of_wire (ap_outcome resp)"
    by (auto simp: run_dialog_def split: if_splits sum.splits)
  then have "ap_outcome resp = OutApproved" by (cases "ap_outcome resp") simp_all
  with client_answer [OF rc [unfolded r(1)]] show ?thesis by blast
qed


text \<open>No question is on the screen twice, and none is stuck: an entry always has a live leader.\<close>

theorem one_prompt_per_question:
  assumes "slot_run from_str evs s"
    and "fmlookup (sl_callers s) l = Some (Leading r)" and "fmlookup (sl_callers s) l' = Some (Leading r')"
    and "question_of r = Some q" and "question_of r' = Some q"
  shows "l = l' \<and> fmlookup (sl_inflight s) q = Some l"
  using led_leading [OF slot_run_led [OF assms(1)] assms(2,4)] led_leading [OF slot_run_led [OF assms(1)] assms(3,5)]
  by simp

lemma no_question_is_stuck:
  "slot_run from_str evs s \<Longrightarrow> fmlookup (sl_inflight s) q = Some l
     \<Longrightarrow> \<exists>req. fmlookup (sl_callers s) l = Some (Leading req) \<and> question_of req = Some q"
  using led_inflight slot_run_led by blast

subsection \<open>An instance\<close>

definition demo_question :: "string \<Rightarrow> approve_request" where
  "demo_question request_id =
     build_approve_request request_id ''default/db'' ''get'' []
       (Some (AuditToken 501 501 20 501 20 7 0 1)) None None
       \<lparr>eval_constraints = [], setter_pinned = None, getter_matched = None\<rparr> 60"

definition demo_yes :: "string \<Rightarrow> helper_response option" where
  "demo_yes _ = Some (HelperApprove \<lparr>ap_v = WIRE_VERSION, ap_request_id = ''1-0'', ap_outcome = OutApproved,
     ap_biometric_kind = Some ''TouchID''\<rparr>)"

definition demo_client :: approver_client where
  "demo_client = \<lparr>ac_conn = Some \<lparr>cn_child = 9, cn_incoming = [HelperLine ''yes'']\<rparr>, ac_helper_pid = 9,
     ac_closed = False, ac_pending = 0\<rparr>"

definition demo_exchange :: exchange_world where
  "demo_exchange = \<lparr>xw_turn = True, xw_write = (\<lambda>_. None), xw_closed_meanwhile = False,
     xw_spawn = Inl IpcOther, xw_attempts = []\<rparr>"

lemma demo_dialog:
  "run_dialog (wait_ready [HelperReady] HelperReady)
     (fst (client_request demo_yes demo_exchange (demo_question ''1-0'') demo_client)) = Approved"
  by (simp add: run_dialog_def client_request_def Let_def demo_client_def demo_exchange_def do_exchange_def
      demo_yes_def demo_question_def build_approve_request_def MAX_PENDING_REQUESTS_def)

definition demo_slot :: approval_slot where
  "demo_slot =
     slot_follower 1 (Answered (demo_question ''1-1'') Approved 0)
       (slot_finish 0 (demo_question ''1-0'') Approved
          (slot_ask 1 (demo_question ''1-1'') (slot_ask 0 (demo_question ''1-0'') slot_start)))"

lemma demo_questions:
  "question_of (demo_question i) = Some \<lparr>ck_key = ''default/db'', ck_operation = ''get'', ck_pid = 7,
     ck_pid_version = 1, ck_euid = 501\<rparr>"
  by (simp add: demo_question_def build_approve_request_def question_of_def Let_def to_wire_audit_token_def)

lemma demo_slot_run:
  "slot_run demo_yes [Asked 0 (demo_question ''1-0''), Asked 1 (demo_question ''1-1''), Finished 0 Approved, Received 1]
     demo_slot"
proof -
  let ?s1 = "slot_ask 0 (demo_question ''1-0'') slot_start" and ?s2 = "slot_ask 1 (demo_question ''1-1'')
      (slot_ask 0 (demo_question ''1-0'') slot_start)"
  have 1: "slot_run demo_yes ([] @ [Asked 0 (demo_question ''1-0'')]) ?s1"
    by (rule run_ask [OF run_start]) (simp add: slot_start_def)
  have 2: "slot_run demo_yes (([] @ [Asked 0 (demo_question ''1-0'')]) @ [Asked 1 (demo_question ''1-1'')]) ?s2"
    by (rule run_ask [OF 1]) (simp add: slot_defs demo_questions)
  have 3: "slot_run demo_yes ((([] @ [Asked 0 (demo_question ''1-0'')]) @ [Asked 1 (demo_question ''1-1'')])
      @ [Finished 0 Approved]) (slot_finish 0 (demo_question ''1-0'') Approved ?s2)"
    by (rule run_finish [OF 2 _ demo_dialog [symmetric]]) (simp add: slot_defs demo_questions)
  have "slot_run demo_yes (((([] @ [Asked 0 (demo_question ''1-0'')]) @ [Asked 1 (demo_question ''1-1'')])
      @ [Finished 0 Approved]) @ [Received 1]) demo_slot"
    unfolding demo_slot_def
    using run_receive [OF 3, of 1 "demo_question ''1-1''" 0 "demo_question ''1-0''" Approved]
    by (simp add: slot_defs demo_questions)
  then show ?thesis by simp
qed


theorem one_prompt_per_question_witness:
  "(0 :: nat) = 0 \<and> fmlookup (sl_inflight (slot_ask 0 (demo_question ''1-0'') slot_start))
      \<lparr>ck_key = ''default/db'', ck_operation = ''get'', ck_pid = 7, ck_pid_version = 1, ck_euid = 501\<rparr> = Some 0"
proof -
  have "slot_run demo_yes ([] @ [Asked 0 (demo_question ''1-0'')]) (slot_ask 0 (demo_question ''1-0'') slot_start)"
    by (rule run_ask [OF run_start]) (simp add: slot_start_def)
  from one_prompt_per_question [OF this, of 0 "demo_question ''1-0''" 0 "demo_question ''1-0''"]
  show ?thesis by (simp add: slot_defs demo_questions)
qed

end
