(* ===== verification/Totp.thy ===== *)
theory Totp
  imports Handler_Props Recovery Agent_Message
begin

unbundle bit_operations_syntax

text \<open>
  One-time passwords: the derivation of a code (\<open>crates/cache-warden-cli/src/totp.rs\<close>), and how the stored
  seed and the metadata of its definition are read (\<open>otp_type.rs\<close>).  HMAC is a parameter.  A \<open>&str\<close> is here the
  list of its Unicode scalar values, since the code works on its characters.
\<close>

subsection \<open>Text\<close>

definition is_whitespace :: "scalar_value \<Rightarrow> bool" where
  "is_whitespace c \<longleftrightarrow> (9 \<le> c \<and> c \<le> 13) \<or> c \<in> {32, 0x85, 0xA0, 0x1680, 0x2028, 0x2029, 0x202F, 0x205F, 0x3000}
     \<or> (0x2000 \<le> c \<and> c \<le> 0x200A)"

definition chars_trim :: "scalar_value list \<Rightarrow> scalar_value list" where
  "chars_trim s = rev (dropWhile is_whitespace (rev (dropWhile is_whitespace s)))"

definition char_to_ascii_lowercase :: "scalar_value \<Rightarrow> scalar_value" where
  "char_to_ascii_lowercase ch = (if 65 \<le> ch \<and> ch \<le> 90 then ch + 32 else ch)"

definition codes :: "string \<Rightarrow> scalar_value list" where
  "codes s = map of_char s"

text \<open>The characters of well-formed UTF-8, and the encoding of a character.\<close>

fun str_chars :: "u8 list \<Rightarrow> scalar_value list" where
  "str_chars [] = []"
| "str_chars (a # r) =
     (if a < 0x80 then unat a # str_chars r
      else (case r of
              [] \<Rightarrow> []
            | b # r1 \<Rightarrow>
                if a < 0xE0 then (unat a mod 32 * 64 + unat b mod 64) # str_chars r1
                else (case r1 of
                        [] \<Rightarrow> []
                      | c # r2 \<Rightarrow>
                          if a < 0xF0
                          then (unat a mod 16 * 4096 + unat b mod 64 * 64 + unat c mod 64) # str_chars r2
                          else (case r2 of
                                  [] \<Rightarrow> []
                                | d # r3 \<Rightarrow>
                                    (unat a mod 8 * 262144 + unat b mod 64 * 4096 + unat c mod 64 * 64 + unat d mod 64)
                                      # str_chars r3))))"

definition encode_utf8 :: "scalar_value \<Rightarrow> u8 list" where
  "encode_utf8 c =
     (if c < 0x80 then [of_nat c]
      else if c < 0x800 then [of_nat (0xC0 + c div 64), of_nat (0x80 + c mod 64)]
      else if c < 0x10000
      then [of_nat (0xE0 + c div 4096), of_nat (0x80 + c div 64 mod 64), of_nat (0x80 + c mod 64)]
      else [of_nat (0xF0 + c div 262144), of_nat (0x80 + c div 4096 mod 64), of_nat (0x80 + c div 64 mod 64),
            of_nat (0x80 + c mod 64)])"

definition as_bytes :: "scalar_value list \<Rightarrow> u8 list" where
  "as_bytes s = concat (map encode_utf8 s)"

text \<open>\<open>str::parse\<close> of an unsigned type with the largest value \<open>lim\<close>: an optional plus sign and digits.\<close>

fun digits_value :: "nat \<Rightarrow> nat \<Rightarrow> scalar_value list \<Rightarrow> nat option" where
  "digits_value lim acc [] = Some acc"
| "digits_value lim acc (c # cs) =
     (if 48 \<le> c \<and> c \<le> 57
      then (let acc' = acc * 10 + (c - 48) in if acc' \<le> lim then digits_value lim acc' cs else None)
      else None)"

definition parse_unsigned :: "nat \<Rightarrow> scalar_value list \<Rightarrow> nat option" where
  "parse_unsigned lim s =
     (case s of
        [] \<Rightarrow> None
      | c # cs \<Rightarrow> if c = 43 then (if cs = [] then None else digits_value lim 0 cs) else digits_value lim 0 s)"

fun split_on :: "('a \<Rightarrow> bool) \<Rightarrow> 'a list \<Rightarrow> 'a list list" where
  "split_on P [] = [[]]"
| "split_on P (x # xs) =
     (if P x then [] # split_on P xs
      else (case split_on P xs of [] \<Rightarrow> [[x]] | y # ys \<Rightarrow> (x # y) # ys))"

definition chars_split_once :: "'a \<Rightarrow> 'a list \<Rightarrow> ('a list \<times> 'a list) option" where
  "chars_split_once sep s =
     (if sep \<in> set s then Some (takeWhile (\<lambda>c. c \<noteq> sep) s, tl (dropWhile (\<lambda>c. c \<noteq> sep) s)) else None)"

subsection \<open>Parameters of a code\<close>

datatype otp_algorithm = Sha1 | Sha256 | Sha512

text \<open>\<open>BadUri\<close> carries what its message quotes; no error carries the bytes of the decoded secret.\<close>

datatype bad_uri =
  NotOtpauth | OnlyTotp "scalar_value list" | SecretNotBase32 | DigitsNotNumber "scalar_value list"
| PeriodNotNumber "scalar_value list" | MissingSecret

datatype otp_failure =
  UnparseableSeed | BadUri bad_uri | BadAlgorithm "scalar_value list" | BadDigits nat | BadPeriod

definition algorithm_parse :: "scalar_value list \<Rightarrow> otp_failure + otp_algorithm" where
  "algorithm_parse s =
     (let l = map char_to_ascii_lowercase s in
      if l = codes ''sha1'' then Inr Sha1
      else if l = codes ''sha256'' then Inr Sha256
      else if l = codes ''sha512'' then Inr Sha512
      else Inl (BadAlgorithm l))"

fun algorithm_label :: "otp_algorithm \<Rightarrow> string" where
  "algorithm_label Sha1 = ''sha1''"
| "algorithm_label Sha256 = ''sha256''"
| "algorithm_label Sha512 = ''sha512''"

record otp_params =
  op_digits :: nat
  op_period :: nat
  op_algorithm :: otp_algorithm

definition otp_params_default :: otp_params where
  "otp_params_default = \<lparr>op_digits = 6, op_period = 30, op_algorithm = Sha1\<rparr>"

subsection \<open>The code\<close>

text \<open>\<open>None\<close> is the panic of an index outside the digest.\<close>

definition dynamic_truncate :: "u8 list \<Rightarrow> nat \<Rightarrow> 32 word option" where
  "dynamic_truncate digest digits =
     (if digest = [] then None
      else (let offset = unat (last digest AND 0x0F) in
            if length digest \<le> offset + 3 then None
            else (let bin = push_bit 24 (ucast (digest ! offset) AND 0x7F)
                          OR push_bit 16 (ucast (digest ! (offset + 1)))
                          OR push_bit 8 (ucast (digest ! (offset + 2)))
                          OR ucast (digest ! (offset + 3))
                  in Some (bin mod 10 ^ digits))))"

definition pad_zero :: "nat \<Rightarrow> string \<Rightarrow> string" where
  "pad_zero width s = replicate (width - length s) (CHR ''0'') @ s"

type_synonym hmac = "otp_algorithm \<Rightarrow> u8 list \<Rightarrow> u8 list \<Rightarrow> u8 list"

definition hotp :: "hmac \<Rightarrow> u8 list \<Rightarrow> 64 word \<Rightarrow> otp_params \<Rightarrow> (otp_failure + string) option" where
  "hotp hmac key counter prm =
     (if op_digits prm = 0 \<or> 9 < op_digits prm then Some (Inl (BadDigits (op_digits prm)))
      else (let digest = hmac (op_algorithm prm) key (be_bytes 8 (unat counter))
            in map_option (\<lambda>c. Inr (pad_zero (op_digits prm) (nat_dec (unat c))))
                 (dynamic_truncate digest (op_digits prm))))"

definition totp :: "hmac \<Rightarrow> u8 list \<Rightarrow> nat \<Rightarrow> otp_params \<Rightarrow> (otp_failure + string) option" where
  "totp hmac key unix_time prm =
     (if op_period prm = 0 then Some (Inl BadPeriod)
      else hotp hmac key (of_nat (unix_time div op_period prm)) prm)"

subsection \<open>Base 32\<close>

definition BASE32_ALPHABET :: string where
  "BASE32_ALPHABET = ''ABCDEFGHIJKLMNOPQRSTUVWXYZ234567''"

definition base32_value :: "scalar_value \<Rightarrow> nat option" where
  "base32_value c = position (\<lambda>a. of_char a = char_to_ascii_uppercase c mod 256) BASE32_ALPHABET"

fun base32_loop :: "scalar_value list \<Rightarrow> 64 word \<times> nat \<times> u8 list \<Rightarrow> (64 word \<times> nat \<times> u8 list) option" where
  "base32_loop [] st = Some st"
| "base32_loop (c # cs) (buf, bits, out) =
     (if c = 61 \<or> is_whitespace c then base32_loop cs (buf, bits, out)
      else (case base32_value c of
              None \<Rightarrow> None
            | Some v \<Rightarrow>
                (let buf' = push_bit 5 buf OR of_nat v;
                     bits' = bits + 5
                 in if 8 \<le> bits'
                    then base32_loop cs (buf', bits' - 8, out @ [ucast (drop_bit (bits' - 8) buf')])
                    else base32_loop cs (buf', bits', out))))"

definition is_filler :: "scalar_value \<Rightarrow> bool" where "is_filler c \<longleftrightarrow> c = 61 \<or> is_whitespace c"

definition base32_decode :: "scalar_value list \<Rightarrow> u8 list option" where
  "base32_decode s =
     (case base32_loop s (0, 0, []) of
        None \<Rightarrow> None
      | Some (buf, bits, out) \<Rightarrow> if list_all is_filler s then None else Some out)"

subsection \<open>The stored seed\<close>

record otp_overrides =
  oo_digits :: "nat option"
  oo_period :: "nat option"
  oo_algorithm :: "otp_algorithm option"

definition no_overrides :: otp_overrides where
  "no_overrides = \<lparr>oo_digits = None, oo_period = None, oo_algorithm = None\<rparr>"

fun hex_nibble :: "u8 \<Rightarrow> nat option" where
  "hex_nibble b =
     (if 48 \<le> b \<and> b \<le> 57 then Some (unat b - 48)
      else if 97 \<le> b \<and> b \<le> 102 then Some (unat b - 87)
      else if 65 \<le> b \<and> b \<le> 70 then Some (unat b - 55)
      else None)"

fun percent_decode_bytes :: "u8 list \<Rightarrow> u8 list" where
  "percent_decode_bytes [] = []"
| "percent_decode_bytes (b # r) =
     (if b = 37
      then (case r of
              h # l # r2 \<Rightarrow>
                (case (hex_nibble h, hex_nibble l) of
                   (Some x, Some y) \<Rightarrow> of_nat (x * 16 + y) # percent_decode_bytes r2
                 | _ \<Rightarrow> 37 # percent_decode_bytes r)
            | _ \<Rightarrow> 37 # percent_decode_bytes r)
      else if b = 43 then 32 # percent_decode_bytes r
      else b # percent_decode_bytes r)"

definition percent_decode :: "scalar_value list \<Rightarrow> scalar_value list" where
  "percent_decode s = str_chars (from_utf8_lossy (percent_decode_bytes (as_bytes s)))"

fun query_pairs ::
  "scalar_value list list \<Rightarrow> u8 list option \<times> otp_overrides \<Rightarrow> otp_failure + (u8 list option \<times> otp_overrides)"
where
  "query_pairs [] st = Inr st"
| "query_pairs (p # ps) (secret, ov) =
     (let (k, raw) = (case chars_split_once 61 p of None \<Rightarrow> (p, []) | Some kv \<Rightarrow> kv);
          v = percent_decode raw;
          k = map char_to_ascii_lowercase k
      in if k = codes ''secret'' then
           (case base32_decode v of
              None \<Rightarrow> Inl (BadUri SecretNotBase32)
            | Some bytes \<Rightarrow>
                if bytes = [] then Inl (BadUri SecretNotBase32) else query_pairs ps (Some bytes, ov))
         else if k = codes ''algorithm'' then
           (case algorithm_parse v of
              Inl e \<Rightarrow> Inl e
            | Inr a \<Rightarrow> query_pairs ps (secret, ov\<lparr>oo_algorithm := Some a\<rparr>))
         else if k = codes ''digits'' then
           (case parse_unsigned u32_max v of
              None \<Rightarrow> Inl (BadUri (DigitsNotNumber v))
            | Some n \<Rightarrow> query_pairs ps (secret, ov\<lparr>oo_digits := Some n\<rparr>))
         else if k = codes ''period'' then
           (case parse_unsigned u64_max v of
              None \<Rightarrow> Inl (BadUri (PeriodNotNumber v))
            | Some n \<Rightarrow> query_pairs ps (secret, ov\<lparr>oo_period := Some n\<rparr>))
         else query_pairs ps (secret, ov))"

text \<open>The caller has found the scheme; its ten characters are ASCII in either case.\<close>

definition OTPAUTH :: "scalar_value list" where "OTPAUTH = codes ''otpauth://''"

definition parse_otpauth_uri :: "scalar_value list \<Rightarrow> otp_failure + (u8 list \<times> otp_overrides)" where
  "parse_otpauth_uri uri =
     (if length uri < length OTPAUTH then Inl (BadUri NotOtpauth)
      else (let rest = drop (length OTPAUTH) uri;
                label = hd (split_on (\<lambda>c. c = 47 \<or> c = 63) rest)
            in if map char_to_ascii_lowercase label \<noteq> codes ''totp'' then Inl (BadUri (OnlyTotp label))
               else (let query = (case chars_split_once 63 rest of None \<Rightarrow> [] | Some (_, q) \<Rightarrow> q)
                     in (case query_pairs (filter (\<lambda>p. p \<noteq> []) (split_on (\<lambda>c. c = 38) query)) (None, no_overrides) of
                           Inl e \<Rightarrow> Inl e
                         | Inr (None, ov) \<Rightarrow> Inl (BadUri MissingSecret)
                         | Inr (Some key, ov) \<Rightarrow> Inr (key, ov)))))"

definition or_else :: "'a option \<Rightarrow> 'a option \<Rightarrow> 'a option" where
  "or_else a b = (case a of None \<Rightarrow> b | Some x \<Rightarrow> Some x)"

definition unwrap_or :: "'a option \<Rightarrow> 'a \<Rightarrow> 'a" where
  "unwrap_or a d = (case a of None \<Rightarrow> d | Some x \<Rightarrow> x)"

definition effective_params :: "otp_overrides \<Rightarrow> otp_overrides \<Rightarrow> otp_params" where
  "effective_params overrides uri =
     \<lparr>op_digits = unwrap_or (or_else (oo_digits overrides) (oo_digits uri)) (op_digits otp_params_default),
      op_period = unwrap_or (or_else (oo_period overrides) (oo_period uri)) (op_period otp_params_default),
      op_algorithm = unwrap_or (or_else (oo_algorithm overrides) (oo_algorithm uri)) (op_algorithm otp_params_default)\<rparr>"

definition resolve_seed :: "scalar_value list \<Rightarrow> otp_overrides \<Rightarrow> otp_failure + (u8 list \<times> otp_params)" where
  "resolve_seed seed overrides =
     (let trimmed = chars_trim seed;
          read = (if take (length OTPAUTH) (map char_to_ascii_lowercase trimmed) = OTPAUTH
                  then parse_otpauth_uri trimmed
                  else (case base32_decode trimmed of
                          None \<Rightarrow> Inl UnparseableSeed
                        | Some key \<Rightarrow> if key = [] then Inl UnparseableSeed else Inr (key, no_overrides)))
      in case read of
           Inl e \<Rightarrow> Inl e
         | Inr (key, uri) \<Rightarrow>
             (let prm = effective_params overrides uri
              in if op_digits prm = 0 \<or> 9 < op_digits prm then Inl (BadDigits (op_digits prm))
                 else if op_period prm = 0 then Inl BadPeriod
                 else Inr (key, prm)))"

subsection \<open>The value type\<close>

datatype derive_error = MetaDigits | MetaPeriod | SeedNotText | Derivation otp_failure

definition overrides_from_meta :: "value_meta \<Rightarrow> derive_error + otp_overrides" where
  "overrides_from_meta m =
     (case map_option (\<lambda>s. parse_unsigned u32_max (str_chars (string_bytes s))) (value_meta_param m ''digits'') of
        Some None \<Rightarrow> Inl MetaDigits
      | digits \<Rightarrow>
     (case map_option (\<lambda>s. parse_unsigned u64_max (str_chars (string_bytes s))) (value_meta_param m ''period'') of
        Some None \<Rightarrow> Inl MetaPeriod
      | period \<Rightarrow>
     (case map_option (\<lambda>s. algorithm_parse (str_chars (string_bytes s))) (value_meta_param m ''algorithm'') of
        Some (Inl e) \<Rightarrow> Inl (Derivation e)
      | Some (Inr a) \<Rightarrow>
          Inr \<lparr>oo_digits = Option.bind digits id, oo_period = Option.bind period id, oo_algorithm = Some a\<rparr>
      | None \<Rightarrow>
          Inr \<lparr>oo_digits = Option.bind digits id, oo_period = Option.bind period id, oo_algorithm = None\<rparr>)))"

definition otp_resolve :: "u8 list \<Rightarrow> value_meta \<Rightarrow> derive_error + (u8 list \<times> otp_params)" where
  "otp_resolve seed m =
     (if \<not> utf8_valid seed then Inl SeedNotText
      else (case overrides_from_meta m of
              Inl e \<Rightarrow> Inl e
            | Inr ov \<Rightarrow> map_err Derivation (resolve_seed (str_chars seed) ov)))"

definition derive_code :: "hmac \<Rightarrow> nat \<Rightarrow> u8 list \<Rightarrow> value_meta \<Rightarrow> (derive_error + string) option" where
  "derive_code hmac unix_now seed m =
     (case otp_resolve seed m of
        Inl e \<Rightarrow> Some (Inl e)
      | Inr (key, prm) \<Rightarrow> map_option (map_err Derivation) (totp hmac key unix_now prm))"

end
