(* ===== verification/Totp_Props.thy ===== *)
theory Totp_Props
  imports Totp Handler_Values
begin

unbundle bit_operations_syntax

text \<open>
  What the derivation of one-time codes promises: a code has exactly its digits and is the number RFC 4226
  asks for, it stays the same within its period, the seed's base 32 is read as RFC 4648 writes it, and
  a client that gets a key of this type gets a code and never the seed.
\<close>

subsection \<open>A code has its digits\<close>

lemma or_disjoint:
  fixes a b :: nat
  assumes "b < 2 ^ n"
  shows "push_bit n a OR b = a * 2 ^ n + b"
proof -
  have "take_bit n b = b" using assms by (simp add: take_bit_nat_eq_self_iff)
  then have "push_bit n a AND b = 0" by (metis (no_types) bit_eq_iff bit_and_iff bit_push_bit_iff bit_take_bit_iff bit_0_eq bot_apply bot_bool_def not_le)
  then show ?thesis
    using disjunctive_add_eq_or [of "push_bit n a" b] by (simp add: push_bit_eq_mult)
qed

text \<open>The arithmetic of the four bytes, over natural numbers.\<close>

lemma byte_shifts:
  fixes n :: nat
  assumes "n < 256"
  shows "n * 2 ^ 8 < 2 ^ 32" "n * 2 ^ 16 < 2 ^ 32" "n mod 128 * 2 ^ 24 < 2 ^ 32" "n < 2 ^ 32"
  using assms mod_less_divisor [of 128 n] by simp_all

lemma nat_or_bytes:
  fixes a b c d :: nat
  assumes "b < 256" "c < 256" "d < 256"
  shows "push_bit 24 (a mod 128) OR (push_bit 16 b OR (push_bit 8 c OR d))
    = (a * 16777216 + (b * 65536 + (c * 256 + d))) mod 2 ^ 31"
proof -
  have 1: "push_bit 8 c OR d = c * 256 + d" using or_disjoint [of d 8 c] assms by simp
  have 2: "push_bit 16 b OR (c * 256 + d) = b * 65536 + (c * 256 + d)"
    using or_disjoint [of "c * 256 + d" 16 b] assms by simp
  have 3: "push_bit 24 (a mod 128) OR (b * 65536 + (c * 256 + d))
      = a mod 128 * 16777216 + (b * 65536 + (c * 256 + d))"
    using or_disjoint [of "b * 65536 + (c * 256 + d)" 24 "a mod 128"] assms by simp
  have "a mod 128 * 16777216 + (b * 65536 + (c * 256 + d)) + 2 ^ 31 * (a div 128)
      = a * 16777216 + (b * 65536 + (c * 256 + d))"
  proof -
    have "r * 16777216 + x + 2 ^ 31 * q = (q * 128 + r) * 16777216 + x" for q r x :: nat by simp
    from this [of "a mod 128" _ "a div 128"] show ?thesis by (simp only: div_mult_mod_eq)
  qed
  moreover have "a mod 128 * 16777216 + (b * 65536 + (c * 256 + d)) < 2 ^ 31"
    using assms mod_less_divisor [of 128 a] by simp
  ultimately show ?thesis
    unfolding 1 2 3 by (metis mod_less mod_mult_self2)
qed

lemma octet_bound: "unat x < 256" for x :: u8
  using unsigned_less [of x] by simp

lemma unat_byte: "unat (ucast x :: 32 word) = unat x" for x :: u8
  using byte_shifts(4) [OF octet_bound [of x]] by (simp add: unsigned_ucast_eq take_bit_nat_eq_self)

lemma unat_push:
  fixes x :: "32 word"
  assumes "unat x * 2 ^ n < 2 ^ 32"
  shows "unat (push_bit n x) = push_bit n (unat x)"
proof -
  have "unat (push_bit n x) = take_bit 32 (push_bit n (unat x))" by (simp add: unsigned_push_bit_eq)
  then show ?thesis using assms by (simp add: push_bit_eq_mult take_bit_nat_eq_self)
qed

lemma four_octets:
  fixes a b c d :: u8
  shows "unat (push_bit 24 (ucast a AND 0x7F) OR push_bit 16 (ucast b) OR push_bit 8 (ucast c) OR ucast d :: 32 word)
    = be_value [a, b, c, d] mod 2 ^ 31"
proof -
  have a7: "unat (ucast a AND 0x7F :: 32 word) = unat a mod 128"
  proof -
    have "(ucast a AND 0x7F :: 32 word) = take_bit 7 (ucast a)" by (simp add: take_bit_eq_mask mask_eq_exp_minus_1)
    then have "unat (ucast a AND 0x7F :: 32 word) = take_bit 7 (unat (ucast a :: 32 word))"
      by (simp only: unsigned_take_bit_eq)
    then show ?thesis by (simp only: unat_byte take_bit_eq_mod) simp
  qed
  note sh = byte_shifts [OF octet_bound]
  have 1: "unat (push_bit 24 (ucast a AND 0x7F) :: 32 word) = push_bit 24 (unat a mod 128)"
    by (subst unat_push) (simp_all only: a7 sh)
  have 2: "unat (push_bit 16 (ucast b) :: 32 word) = push_bit 16 (unat b)"
    by (subst unat_push) (simp_all only: unat_byte sh)
  have 3: "unat (push_bit 8 (ucast c) :: 32 word) = push_bit 8 (unat c)"
    by (subst unat_push) (simp_all only: unat_byte sh)
  have "unat (push_bit 24 (ucast a AND 0x7F) OR push_bit 16 (ucast b) OR push_bit 8 (ucast c) OR ucast d :: 32 word)
      = push_bit 24 (unat a mod 128) OR (push_bit 16 (unat b) OR (push_bit 8 (unat c) OR unat d))"
    by (simp only: unsigned_or_eq 1 2 3 unat_byte or.assoc)
  moreover have "be_value [a, b, c, d] = unat a * 16777216 + (unat b * 65536 + (unat c * 256 + unat d))"
    by (simp add: be_value_def)
  ultimately show ?thesis
    using nat_or_bytes [OF octet_bound octet_bound octet_bound, of "unat a" b c d] by (simp only:)
qed

text \<open>The truncation of RFC 4226, section 5.3: four bytes at the place the last nibble names, without the sign.\<close>

definition rfc4226_truncate :: "u8 list \<Rightarrow> nat" where
  "rfc4226_truncate digest = be_value (take 4 (drop (unat (last digest) mod 16) digest)) mod 2 ^ 31"

lemma take_four: "n + 3 < length d \<Longrightarrow> take 4 (drop n d) = [d ! n, d ! (n + 1), d ! (n + 2), d ! (n + 3)]"
  by (rule nth_equalityI) (auto simp: less_Suc_eq eval_nat_numeral)

lemma nibble: "unat (b AND 0x0F) = unat b mod 16" for b :: u8
proof -
  have "b AND 0x0F = take_bit 4 b" by (simp add: take_bit_eq_mask mask_eq_exp_minus_1)
  then have "unat (b AND 0x0F) = take_bit 4 (unat b)" by (simp only: unsigned_take_bit_eq)
  then show ?thesis by (simp add: take_bit_eq_mod)
qed

lemma ten_power: "k \<le> 9 \<Longrightarrow> unat (10 ^ k :: 32 word) = 10 ^ k"
proof -
  assume "k \<le> 9"
  then have "(10 :: nat) ^ k \<le> 10 ^ 9" by (intro power_increasing) simp_all
  then have "(10 :: nat) ^ k < 2 ^ 32" by simp
  then have "unat (of_nat (10 ^ k) :: 32 word) = 10 ^ k"
    by (simp only: unsigned_of_nat) (simp add: take_bit_nat_eq_self)
  then show ?thesis by simp
qed

lemma truncate_is_rfc:
  assumes "20 \<le> length digest" and "k \<le> 9"
  shows "\<exists>c. dynamic_truncate digest k = Some c \<and> unat c = rfc4226_truncate digest mod 10 ^ k"
proof -
  let ?n = "unat (last digest) mod 16"
  have n: "?n + 3 < length digest" using assms(1) mod_less_divisor [of 16 "unat (last digest)"] by linarith
  have "digest \<noteq> []" using assms(1) by auto
  then have "\<not> (digest = [])" "\<not> (length digest \<le> ?n + 3)" using n by simp_all
  then show ?thesis
    by (simp only: dynamic_truncate_def nibble Let_def if_False option.inject ex_simps simp_thms
        unat_mod_distrib ten_power [OF assms(2)] four_octets rfc4226_truncate_def take_four [OF n])
qed

lemma digit_char_digit: "of_char (digit_char d) \<in> {48..57 :: nat}"
proof -
  have "of_char (digit_char d) = 48 + d mod 10"
    using mod_less_divisor [of 10 d] by (simp add: digit_char_def)
  then show ?thesis using mod_less_divisor [of 10 d] by simp
qed

lemma nat_dec_digits: "c \<in> set (nat_dec n) \<Longrightarrow> of_char c \<in> {48..57 :: nat}"
proof (induction n rule: nat_dec.induct)
  case (1 n)
  then show ?case
    using digit_char_digit by (subst (asm) (2) nat_dec.simps) (auto split: if_splits)
qed

lemma nat_dec_length: "n < 10 ^ k \<Longrightarrow> 0 < k \<Longrightarrow> length (nat_dec n) \<le> k"
proof (induction n arbitrary: k rule: nat_dec.induct)
  case (1 n)
  show ?case
  proof (cases "n < 10")
    case True
    with 1 show ?thesis by (subst nat_dec.simps) simp
  next
    case False
    then obtain j where j: "k = Suc j" "0 < j" using 1(2,3) by (cases k; cases "k - 1") auto
    then have "n div 10 < 10 ^ j" using 1(2) by (simp add: less_mult_imp_div_less mult.commute)
    from 1(1) [OF False this j(2)] False show ?thesis by (subst nat_dec.simps) (simp add: j(1))
  qed
qed

text \<open>The number a string of digits stands for.\<close>

definition dec_value :: "string \<Rightarrow> nat" where
  "dec_value s = foldl (\<lambda>n c. n * 10 + (of_char c - 48)) 0 s"

lemma dec_value_snoc: "dec_value (s @ [c]) = dec_value s * 10 + (of_char c - 48)"
  by (simp add: dec_value_def)

lemma dec_value_nat_dec: "dec_value (nat_dec n) = n"
proof (induction n rule: nat_dec.induct)
  case (1 n)
  have d: "of_char (digit_char m) - 48 = m mod 10" for m
    using mod_less_divisor [of 10 m] by (simp add: digit_char_def)
  show ?case
  proof (cases "n < 10")
    case True
    then show ?thesis by (subst nat_dec.simps) (simp add: dec_value_def d)
  next
    case False
    with 1 show ?thesis by (subst nat_dec.simps) (simp add: dec_value_snoc d)
  qed
qed

lemma dec_value_zeros: "dec_value (replicate k (CHR ''0'') @ s) = dec_value s"
proof -
  have "foldl (\<lambda>n c. n * 10 + (of_char c - 48)) 0 (replicate k (CHR ''0'')) = (0 :: nat)"
    by (induction k) simp_all
  then show ?thesis by (simp add: dec_value_def)
qed

lemma pad_zero_code:
  assumes "n < 10 ^ k" and "0 < k"
  shows "length (pad_zero k (nat_dec n)) = k \<and> dec_value (pad_zero k (nat_dec n)) = n
    \<and> (\<forall>c\<in>set (pad_zero k (nat_dec n)). of_char c \<in> {48..57 :: nat})"
  using nat_dec_length [OF assms] nat_dec_digits [of _ n]
  by (auto simp: pad_zero_def dec_value_zeros dec_value_nat_dec)

subsection \<open>What is derived\<close>

definition hmac_sized :: "hmac \<Rightarrow> bool" where
  "hmac_sized hmac \<longleftrightarrow> (\<forall>a k m. 20 \<le> length (hmac a k m))"

text \<open>The code RFC 6238 asks for, with its parameters, and what such a code looks like.\<close>

definition rfc6238_code :: "hmac \<Rightarrow> u8 list \<Rightarrow> nat \<Rightarrow> otp_params \<Rightarrow> nat" where
  "rfc6238_code hmac key unix_time p =
     rfc4226_truncate (hmac (op_algorithm p) key (be_bytes 8 (unix_time div op_period p))) mod 10 ^ op_digits p"

definition is_code :: "otp_params \<Rightarrow> nat \<Rightarrow> string \<Rightarrow> bool" where
  "is_code p n s \<longleftrightarrow> length s = op_digits p \<and> 1 \<le> op_digits p \<and> op_digits p \<le> 9 \<and> dec_value s = n
     \<and> (\<forall>c\<in>set s. of_char c \<in> {48..57 :: nat})"

lemma hotp_code:
  assumes "hmac_sized hmac"
  shows "hotp hmac key (of_nat (t div op_period p)) p =
    (if op_digits p = 0 \<or> 9 < op_digits p then Some (Inl (BadDigits (op_digits p)))
     else (let n = rfc4226_truncate (hmac (op_algorithm p) key (be_bytes 8 (unat (of_nat (t div op_period p) :: 64 word))))
                     mod 10 ^ op_digits p
           in Some (Inr (pad_zero (op_digits p) (nat_dec n)))))"
proof (cases "op_digits p = 0 \<or> 9 < op_digits p")
  case False
  let ?d = "hmac (op_algorithm p) key (be_bytes 8 (unat (of_nat (t div op_period p) :: 64 word)))"
  from False have "op_digits p \<le> 9" by simp
  moreover have "20 \<le> length ?d" using assms by (simp add: hmac_sized_def)
  ultimately obtain c where "dynamic_truncate ?d (op_digits p) = Some c"
    "unat c = rfc4226_truncate ?d mod 10 ^ op_digits p" using truncate_is_rfc by blast
  with False show ?thesis by (simp add: hotp_def Let_def)
qed (simp add: hotp_def)

lemma totp_code:
  assumes "hmac_sized hmac" and "t < 2 ^ 64" and "totp hmac key t p = Some (Inr s)"
  shows "is_code p (rfc6238_code hmac key t p) s"
proof -
  have u: "unat (of_nat (t div op_period p) :: 64 word) = t div op_period p"
  proof -
    have "t div op_period p < 2 ^ 64" using assms(2) by (meson div_le_dividend le_less_trans)
    then show ?thesis by (simp add: unsigned_of_nat take_bit_nat_eq_self)
  qed
  let ?n = "rfc6238_code hmac key t p"
  from assms(3) have s: "s = pad_zero (op_digits p) (nat_dec ?n)" "1 \<le> op_digits p" "op_digits p \<le> 9"
    by (auto simp: totp_def hotp_code [OF assms(1)] u rfc6238_code_def Let_def split: if_splits)
  have "?n < 10 ^ op_digits p" by (simp add: rfc6238_code_def)
  with pad_zero_code [OF this] s show ?thesis by (simp add: is_code_def)
qed

lemma derive_code_shape:
  assumes "hmac_sized hmac" and "t < 2 ^ 64" and "derive_code hmac t seed m = Some (Inr s)"
  shows "\<exists>key p. otp_resolve seed m = Inr (key, p) \<and> is_code p (rfc6238_code hmac key t p) s"
proof -
  from assms(3) obtain key p where r: "otp_resolve seed m = Inr (key, p)"
    and t: "map_option (map_err Derivation) (totp hmac key t p) = Some (Inr s)"
    by (auto simp: derive_code_def split: sum.splits)
  from t have "totp hmac key t p = Some (Inr s)" by auto
  from totp_code [OF assms(1,2) this] r show ?thesis by blast
qed

lemma derive_code_total:
  assumes "hmac_sized hmac"
  shows "\<exists>r. derive_code hmac t seed m = Some r"
  using hotp_code [OF assms]
  by (auto simp: derive_code_def totp_def Let_def split: sum.splits prod.splits)

text \<open>
  Property C9.  A client of a one-time password gets a code and never the seed.  When a get of a key
  of this type is answered, the answer is the encoding of a string of one to nine decimal digits, as
  many as the parameters of the key ask for, and it is the number RFC 6238 computes from the stored
  seed and the time.
\<close>

theorem otp_reply_is_a_code:
  assumes "handle_request dm ctx (KvGet key dry) = (RespOk (GetPayload b), dm', effs)"
    and "\<And>i j. i \<le> j \<Longrightarrow> hc_clock ctx i \<le> hc_clock ctx j"
    and "meta_is_otp (meta_of (dm_store dm') key)"
    and "\<And>seed m. map_option (map_err render) (derive_code hmac now seed m) = Some (hc_derive_code ctx seed m)"
    and "hmac_sized hmac" and "now < 2 ^ 64"
  shows "\<exists>v secret p code. held (dm_store dm') key = Some v
    \<and> otp_resolve (data v) (meta_of (dm_store dm') key) = Inr (secret, p)
    \<and> b = hc_encode_b64 ctx (string_bytes code) \<and> is_code p (rfc6238_code hmac secret now p) code"
proof -
  have "handle_get dm ctx key dry = (RespOk (GetPayload b), dm', effs)" using assms(1) by simp
  from get_reveals [OF this assms(2)] assms(3) obtain v code where v: "held (dm_store dm') key = Some v"
    and code: "hc_derive_code ctx (data v) (meta_of (dm_store dm') key) = Inr code"
    and b: "b = hc_encode_b64 ctx (string_bytes code)"
    by (auto simp: shows_value_def)
  from assms(4) [of "data v" "meta_of (dm_store dm') key"] code
  have "derive_code hmac now (data v) (meta_of (dm_store dm') key) = Some (Inr code)"
    by auto
  from derive_code_shape [OF assms(5,6) this] v b show ?thesis by blast
qed

text \<open>A code does not change within its period.\<close>

lemma code_constant_in_period:
  "t div op_period p = t' div op_period p \<Longrightarrow> totp hmac key t p = totp hmac key t' p"
  by (simp add: totp_def)

subsection \<open>Base 32\<close>

text \<open>The digits of a text, its filling left out.\<close>

fun base32_digits :: "scalar_value list \<Rightarrow> nat list option" where
  "base32_digits [] = Some []"
| "base32_digits (c # cs) =
     (if is_filler c then base32_digits cs
      else (case base32_value c of None \<Rightarrow> None | Some d \<Rightarrow> map_option ((#) d) (base32_digits cs)))"

definition base32_step :: "64 word \<times> nat \<times> u8 list \<Rightarrow> nat \<Rightarrow> 64 word \<times> nat \<times> u8 list" where
  "base32_step st d =
     (case st of (buf, bits, out) \<Rightarrow>
        if 3 \<le> bits
        then (push_bit 5 buf OR of_nat d, bits - 3, out @ [ucast (drop_bit (bits - 3) (push_bit 5 buf OR of_nat d))])
        else (push_bit 5 buf OR of_nat d, bits + 5, out))"

lemma base32_step_simp:
  "base32_step (buf, bits, out) d =
     (if 3 \<le> bits
      then (push_bit 5 buf OR of_nat d, bits - 3, out @ [ucast (drop_bit (bits - 3) (push_bit 5 buf OR of_nat d))])
      else (push_bit 5 buf OR of_nat d, bits + 5, out))"
  by (simp add: base32_step_def)

lemma base32_loop_steps:
  "base32_loop cs (buf, bits, out) = map_option (foldl base32_step (buf, bits, out)) (base32_digits cs)"
proof (induction cs arbitrary: buf bits out)
  case (Cons c cs)
  have e: "bits + 5 - 8 = bits - 3" "(8 \<le> bits + 5) = (3 \<le> bits)" by simp_all
  show ?case
    by (cases "base32_value c"; cases "base32_digits cs")
      (simp_all add: Cons.IH is_filler_def base32_step_simp Let_def e del: drop_bit_or)
qed simp

lemma BASE32_ALPHABET_length: "length BASE32_ALPHABET = 32"
  by (simp add: BASE32_ALPHABET_def)

lemma base32_value_digit: "base32_value c = Some d \<Longrightarrow> d < 32"
proof -
  have "position P xs = Some i \<Longrightarrow> i < length xs" for P :: "char \<Rightarrow> bool" and xs i
    by (induction xs arbitrary: i) (auto split: if_splits)
  then show "base32_value c = Some d \<Longrightarrow> d < 32"
    unfolding base32_value_def by (metis (no_types) BASE32_ALPHABET_length)
qed

lemma base32_digits_small: "base32_digits cs = Some ds \<Longrightarrow> \<forall>d\<in>set ds. d < 32"
proof (induction cs arbitrary: ds)
  case (Cons c cs)
  then show ?case by (auto split: if_splits option.splits dest: base32_value_digit)
qed simp

lemma wide_low_bits_shift:
  fixes buf :: "64 word"
  assumes "n + 5 \<le> 64" and "d < 32"
  shows "low_bits (n + 5) (push_bit 5 buf OR of_nat d) = low_bits n buf @ low_bits 5 (of_nat d :: 16 word)"
proof -
  have d: "\<not> bit d k" if "5 \<le> k" for k
  proof -
    have "take_bit 5 d = d" using assms(2) by (simp add: take_bit_nat_eq_self)
    then show ?thesis using that by (metis bit_take_bit_iff not_le)
  qed
  have "low_bits n (drop_bit 5 (push_bit 5 buf OR of_nat d)) = low_bits n buf"
    using assms(1) d by (intro low_bits_eqI) (auto simp: bit_simps)
  moreover have "low_bits 5 (push_bit 5 buf OR of_nat d) = low_bits 5 (of_nat d :: 16 word)"
    by (simp add: low_bits_def bit_simps)
  ultimately show ?thesis by (simp add: low_bits_split)
qed

lemma base32_bits:
  assumes "\<forall>d\<in>set ds. d < 32"
  shows "\<exists>buf out. foldl base32_step (0, 0, []) ds = (buf, 5 * length ds mod 8, out)
     \<and> length out = 5 * length ds div 8
     \<and> secret_bits out @ low_bits (5 * length ds mod 8) buf = digit_bits ds"
  using assms
proof (induction ds rule: rev_induct)
  case Nil
  show ?case by (intro exI [of _ 0] exI [of _ "[]"]) (simp add: low_bits_def)
next
  case (snoc d ds)
  then obtain buf out where IH: "foldl base32_step (0, 0, []) ds = (buf, 5 * length ds mod 8, out)"
    "length out = 5 * length ds div 8"
    "secret_bits out @ low_bits (5 * length ds mod 8) buf = digit_bits ds" by auto
  let ?n = "5 * length ds mod 8"
  let ?buf = "push_bit 5 buf OR of_nat d :: 64 word"
  have n: "?n < 8" by simp
  have buf: "low_bits (?n + 5) ?buf = low_bits ?n buf @ low_bits 5 (of_nat d :: 16 word)"
    using n snoc.prems by (intro wide_low_bits_shift) auto
  have bits: "digit_bits (ds @ [d]) = secret_bits out @ low_bits (?n + 5) ?buf"
    by (simp only: buf digit_bits_simps append_assoc flip: IH(3))
  show ?case
  proof (cases "3 \<le> ?n")
    case True
    have q: "5 * length (ds @ [d]) mod 8 = ?n - 3" "5 * length (ds @ [d]) div 8 = Suc (5 * length ds div 8)"
      using five_more(1,2) [OF True] by (simp_all add: algebra_simps)
    have "low_bits 8 (ucast (drop_bit (?n - 3) ?buf) :: u8) = low_bits 8 (drop_bit (?n - 3) ?buf)"
      by (intro low_bits_eqI) (simp add: bit_simps)
    moreover have "low_bits (?n + 5) ?buf = low_bits 8 (drop_bit (?n - 3) ?buf) @ low_bits (?n - 3) ?buf"
      using low_bits_split [of 8 "?n - 3" ?buf] True by (simp add: add.commute)
    ultimately show ?thesis
      using IH(1,2) True unfolding q bits
      by (intro exI [of _ ?buf] exI [of _ "out @ [ucast (drop_bit (?n - 3) ?buf)]"])
        (simp add: base32_step_simp del: drop_bit_or)
  next
    case False
    have q: "5 * length (ds @ [d]) mod 8 = ?n + 5" "5 * length (ds @ [d]) div 8 = 5 * length ds div 8"
      using five_more(3,4) [of "5 * length ds"] False by (simp_all add: algebra_simps)
    show ?thesis
      using IH(1,2) False unfolding q bits
      by (intro exI [of _ ?buf] exI [of _ out]) (simp add: base32_step_simp)
  qed
qed

lemma no_digits: "base32_digits s = Some [] \<longleftrightarrow> list_all is_filler s"
  by (induction s) (auto split: option.splits)


text \<open>A character is cut to a byte before it is looked up: letters far outside the alphabet are read as digits.\<close>

lemma foreign_letters_are_base32: "base32_value 0x141 = Some 0" "base32_value 0x5A = base32_value 0x15A"
  by code_simp+

text \<open>A seed that is almost a URI is quoted in the error, although it may be the secret itself.\<close>

lemma malformed_uri_is_echoed:
  "resolve_seed (codes ''otpauth://JBSWY3DP'') ov = Inl (BadUri (OnlyTotp (codes ''JBSWY3DP'')))"
  by (simp add: resolve_seed_def Let_def codes_def OTPAUTH_def chars_trim_def is_whitespace_def
      char_to_ascii_lowercase_def parse_otpauth_uri_def)

subsection \<open>Concrete instances\<close>

lemma otp_get:
  assumes "get_refusal (dm_store dm) ctx key = None" and "meta_is_otp (meta_of (dm_store dm) key)"
    and "authorized (dm_store dm) (hc_cap ctx)" and "authorized (dm_store dm) (hc_otp_cap ctx)"
    and "held (dm_store dm) key = Some v"
    and "readable (dm_store dm) key (hc_clock ctx 0)" and "readable (dm_store dm) key (hc_clock ctx 7)"
    and "hc_derive_code ctx (data v) (meta_of (dm_store dm) key) = Inr digits"
  shows "handle_request dm ctx (KvGet key False)
    = (RespOk (GetPayload (hc_encode_b64 ctx (string_bytes digits))), dm, [])"
  using assms
  by (simp add: handle_get_def unless_refused_def retrieve_def value_readable_def get_reads finish_get_def
      with_effects_def with_exposed_def otp_get_code_def Let_def map_err_def)

text \<open>The digest of the example in RFC 4226, section 5.4, whose code of six digits is 872921.\<close>

definition rfc_digest :: "u8 list" where
  "rfc_digest = [0x1f, 0x86, 0x98, 0x69, 0x0e, 0x02, 0xca, 0x16, 0x61, 0x85, 0x50, 0xef, 0x7f, 0x19, 0xda, 0x8e,
     0x94, 0x5b, 0x55, 0x5a]"

lemma rfc_example: "rfc4226_truncate rfc_digest mod 10 ^ 6 = 872921"
  by (simp add: rfc4226_truncate_def rfc_digest_def be_value_def)

definition otp_ctx :: "nat \<Rightarrow> string handler_ctx" where
  "otp_ctx now = (demo_ctx 3)\<lparr>hc_derive_code :=
     (\<lambda>seed m. map_err (\<lambda>_. []) (the (derive_code (\<lambda>_ _ _. rfc_digest) now seed m)))\<rparr>"

definition otp_daemon :: "string daemon_state" where
  "otp_daemon = demo_daemon\<lparr>dm_store := (dm_store demo_daemon)\<lparr>
     entries := fmupd ''ns/k'' (entry_new Static \<lparr>data = [77, 70, 82, 71, 71], locked = False\<rparr> ttl_never (Monotonic 1)) fmempty,
     definitions := fmupd ''ns/k'' \<lparr>def_source = Static, def_ttl = ttl_never, def_meta = with_type OTP_TYPE [],
       def_source_meta = source_meta_new\<rparr> fmempty\<rparr>\<rparr>"

lemma otp_daemon_facts [simp]:
  "owner_of (dm_store otp_daemon) k = None" "guard_of (dm_store otp_daemon) k = None"
  "authorized (dm_store otp_daemon) demo_cap" "meta_of (dm_store otp_daemon) ''ns/k'' = with_type OTP_TYPE []"
  "held (dm_store otp_daemon) ''ns/k'' = Some \<lparr>data = [77, 70, 82, 71, 71], locked = False\<rparr>"
  "readable (dm_store otp_daemon) ''ns/k'' now"
  by (simp_all add: otp_daemon_def demo_daemon_def new_with_token_def owner_of_def guard_of_def meta_of_def
      definition_of_def authorized_def demo_cap_def held_def readable_def entry_new_def state_def ttl_never_def)

lemma otp_ctx_facts [simp]:
  "hc_cap (otp_ctx now) = demo_cap" "hc_otp_cap (otp_ctx now) = demo_cap" "hc_clock (otp_ctx now) n = Monotonic 3"
  "hc_kv_process_policies (otp_ctx now) = fmempty"
  "hc_derive_code (otp_ctx now) seed m = map_err (\<lambda>_. []) (the (derive_code (\<lambda>_ _ _. rfc_digest) now seed m))"
  by (simp_all add: otp_ctx_def demo_ctx_def demo_clock_def)

lemma rfc_sized: "hmac_sized (\<lambda>_ _ _. rfc_digest)"
  by (simp add: hmac_sized_def rfc_digest_def)

lemma otp_meta [simp]: "meta_is_otp (with_type OTP_TYPE ps)"
  by (simp add: with_type_def meta_is_otp_def)

lemma demo_letters: "map base32_value [77, 70, 82, 71, 71] = map Some [12, 5, 17, 6, 6]"
  by code_simp

lemma demo_base32: "base32_decode [77, 70, 82, 71, 71] = Some [97, 98, 99]"
  using demo_letters by (simp add: base32_decode_def is_filler_def is_whitespace_def)

lemma demo_text: "utf8_valid [77, 70, 82, 71, 71]" "str_chars [77, 70, 82, 71, 71] = [77, 70, 82, 71, 71]"
  by simp_all

lemma demo_seed:
  "otp_resolve [77, 70, 82, 71, 71] (with_type OTP_TYPE []) = Inr ([97, 98, 99], otp_params_default)"
  by (simp add: otp_resolve_def demo_text overrides_from_meta_def value_meta_param_def with_type_def resolve_seed_def
      Let_def chars_trim_def is_whitespace_def OTPAUTH_def codes_def char_to_ascii_lowercase_def demo_base32
      effective_params_def unwrap_or_def or_else_def no_overrides_def otp_params_default_def)

lemma demo_code: "\<exists>digits. derive_code (\<lambda>_ _ _. rfc_digest) 59 [77, 70, 82, 71, 71] (with_type OTP_TYPE []) = Some (Inr digits)"
  using hotp_code [OF rfc_sized, of "[97, 98, 99]" 59 otp_params_default]
  by (simp add: derive_code_def demo_seed totp_def otp_params_default_def Let_def)

theorem otp_reply_is_a_code_witness:
  "\<exists>v secret p code. held (dm_store otp_daemon) ''ns/k'' = Some v
    \<and> otp_resolve (data v) (meta_of (dm_store otp_daemon) ''ns/k'') = Inr (secret, p)
    \<and> is_code p (rfc6238_code (\<lambda>_ _ _. rfc_digest) secret 59 p) code"
proof -
  obtain digits where d: "derive_code (\<lambda>_ _ _. rfc_digest) 59 [77, 70, 82, 71, 71] (with_type OTP_TYPE []) = Some (Inr digits)"
    using demo_code by blast
  have "get_refusal (dm_store otp_daemon) (otp_ctx 59) ''ns/k'' = None"
    by (simp add: get_refusal_def reject_reserved_namespace_read_def require_owner_def process_refusal_def
        guard_refusal_def)
  then have get: "handle_request otp_daemon (otp_ctx 59) (KvGet ''ns/k'' False)
      = (RespOk (GetPayload (hc_encode_b64 (otp_ctx 59) (string_bytes digits))), otp_daemon, [])"
    by (rule otp_get [where v = "\<lparr>data = [77, 70, 82, 71, 71], locked = False\<rparr>"]) (simp_all add: d)
  have total: "map_option (map_err (\<lambda>_. [])) (derive_code (\<lambda>_ _ _. rfc_digest) 59 seed m)
      = Some (hc_derive_code (otp_ctx 59) seed m)" for seed m
    using derive_code_total [OF rfc_sized, of 59 seed m] by auto
  have otp: "meta_is_otp (meta_of (dm_store otp_daemon) ''ns/k'')" by simp
  from otp_reply_is_a_code [OF get _ otp total rfc_sized] show ?thesis by auto
qed

end
