(* ===== verification/Agent_Op.thy ===== *)
theory Agent_Op
  imports Agent_Filter Wire
begin

text \<open>
  Keys kept in 1Password: the members of a source, the calls of the \<open>op\<close> command line tool and the
  checks around them (\<open>op.rs\<close>), the disk cache of public keys (\<open>op_cache.rs\<close>), and discovery with its
  fallback to that cache (\<open>op_discovery.rs\<close>), all under \<open>crates/cache-warden-authsock/src/\<close>.

  The \<open>op\<close> tool and the JSON reader and writer are parameters; within one discovery the tool gives the
  same answer to the same call.
\<close>

subsection \<open>Sources\<close>

record op_source =
  op_vault :: "string option"
  op_item :: "string option"

definition op_source_parse :: "string \<Rightarrow> op_source option" where
  "op_source_parse member =
     (case strip_prefix ''op://'' member of
        None \<Rightarrow> None
      | Some rest \<Rightarrow>
          (let bare = (if rest \<noteq> [] then \<lparr>op_vault = Some rest, op_item = None\<rparr>
                       else \<lparr>op_vault = None, op_item = None\<rparr>) in
           Some (case split_once (CHR ''/'') rest of
                   Some (v, i) \<Rightarrow>
                     (if v \<noteq> [] \<and> i \<noteq> [] then \<lparr>op_vault = Some v, op_item = Some i\<rparr> else bare)
                 | None \<Rightarrow> bare)))"

record op_key_info =
  info_item_id :: string
  info_title :: string
  info_vault_id :: string
  info_vault_name :: string
  info_fingerprint :: string

text \<open>An element of the list \<open>op item list\<close> prints: \<open>OpItemListEntry\<close> and its \<open>OpVault\<close>.\<close>

record op_item_entry =
  entry_id :: string
  entry_title :: string
  entry_vault_id :: string
  entry_vault_name :: string
  additional_information :: "string option"

record op_json =
  json_item_list :: "u8 list \<Rightarrow> op_item_entry list option"
  json_field_value :: "u8 list \<Rightarrow> string option"

subsection \<open>The tool\<close>

definition validate_item_id :: "string \<Rightarrow> unit agent_result" where
  "validate_item_id item_id =
     (if item_id \<noteq> [] \<and> list_all is_ascii_alphanumeric item_id then Inr () else Inl KeyStoreError)"

text \<open>
  \<open>run_command_with_timeout\<close>: the child is polled until it has exited or its time is up.  \<open>poll n\<close> is
  what the \<open>n\<close>-th \<open>try_wait\<close> finds, with the status and, if it can be read, the output of an exited
  child; \<open>now n\<close> is the instant of the \<open>n\<close>-th look at the clock.  The outcome says after how many polls
  the loop ended and whether the child was killed.
\<close>

datatype child_poll = ChildExited bool "u8 list option" | ChildRunning | WaitFailed

record op_run =
  run_polls :: nat
  run_killed :: bool
  run_result :: "u8 list agent_result"

definition OP_CLI_TIMEOUT :: duration where "OP_CLI_TIMEOUT = from_secs 30"
definition OP_POLL_INTERVAL :: duration where "OP_POLL_INTERVAL = from_millis 50"

partial_function (option) wait_loop ::
  "(nat \<Rightarrow> child_poll) \<Rightarrow> (nat \<Rightarrow> nat) \<Rightarrow> duration \<Rightarrow> nat \<Rightarrow> nat \<Rightarrow> op_run option"
where
  "wait_loop poll now cap_time start n =
     (case poll n of
        ChildExited success out \<Rightarrow>
          Some \<lparr>run_polls = Suc n, run_killed = False,
                run_result = (case out of None \<Rightarrow> Inl KeyStoreError
                              | Some bytes \<Rightarrow> if success then Inr bytes else Inl KeyStoreError)\<rparr>
      | ChildRunning \<Rightarrow>
          (if cap_time \<le> now n - start
           then Some \<lparr>run_polls = Suc n, run_killed = True, run_result = Inl KeyStoreError\<rparr>
           else wait_loop poll now cap_time start (Suc n))
      | WaitFailed \<Rightarrow> Some \<lparr>run_polls = Suc n, run_killed = False, run_result = Inl KeyStoreError\<rparr>)"

definition run_command_with_timeout ::
  "bool \<Rightarrow> (nat \<Rightarrow> child_poll) \<Rightarrow> nat \<Rightarrow> (nat \<Rightarrow> nat) \<Rightarrow> duration \<Rightarrow> op_run option"
where
  "run_command_with_timeout spawned poll start now cap_time =
     (if \<not> spawned then Some \<lparr>run_polls = 0, run_killed = False, run_result = Inl KeyStoreError\<rparr>
      else wait_loop poll now cap_time start 0)"

text \<open>The arguments of \<open>RealOpClient\<close>; \<open>run\<close> is the tool.\<close>

definition op_command :: "string option \<Rightarrow> string list \<Rightarrow> string list" where
  "op_command account args =
     ''op'' # (case account of Some a \<Rightarrow> [''--account'', a] | None \<Rightarrow> []) @ args"

record op_client =
  item_list_json :: "string option \<Rightarrow> u8 list agent_result"
  item_get_public_key_json :: "string \<Rightarrow> u8 list agent_result"
  item_get_private_key_json :: "string \<Rightarrow> u8 list agent_result"

definition real_item_list_json ::
  "(string list \<Rightarrow> u8 list agent_result) \<Rightarrow> string option \<Rightarrow> string option \<Rightarrow> u8 list agent_result"
where
  "real_item_list_json run account vault =
     run (op_command account ([''item'', ''list'', ''--categories'', ''SSH Key'', ''--format'', ''json'']
       @ (case vault of Some v \<Rightarrow> [''--vault'', v] | None \<Rightarrow> [])))"

definition real_item_get_public_key_json ::
  "(string list \<Rightarrow> u8 list agent_result) \<Rightarrow> string option \<Rightarrow> string \<Rightarrow> u8 list agent_result"
where
  "real_item_get_public_key_json run account item_id =
     rbind (validate_item_id item_id) (\<lambda>_.
       run (op_command account [''item'', ''get'', item_id, ''--fields'', ''public_key'', ''--format'', ''json'']))"

definition real_item_get_private_key_json ::
  "(string list \<Rightarrow> u8 list agent_result) \<Rightarrow> string option \<Rightarrow> string \<Rightarrow> u8 list agent_result"
where
  "real_item_get_private_key_json run account item_id =
     rbind (validate_item_id item_id) (\<lambda>_.
       run (op_command account
         [''item'', ''get'', item_id, ''--fields'', ''private_key'', ''--reveal'', ''--format'', ''json'']))"

definition real_op_client :: "(string list \<Rightarrow> u8 list agent_result) \<Rightarrow> string option \<Rightarrow> op_client" where
  "real_op_client run account =
     \<lparr>item_list_json = real_item_list_json run account,
      item_get_public_key_json = real_item_get_public_key_json run account,
      item_get_private_key_json = real_item_get_private_key_json run account\<rparr>"

definition op_entry_info :: "op_item_entry \<Rightarrow> op_key_info option" where
  "op_entry_info e =
     (case additional_information e of
        None \<Rightarrow> None
      | Some fp \<Rightarrow>
          (if \<not> str_starts_with fp ''SHA256:'' then None
           else Some \<lparr>info_item_id = entry_id e, info_title = entry_title e, info_vault_id = entry_vault_id e,
                      info_vault_name = entry_vault_name e, info_fingerprint = fp\<rparr>))"

definition parse_item_list :: "op_json \<Rightarrow> u8 list \<Rightarrow> string option \<Rightarrow> op_key_info list agent_result" where
  "parse_item_list js bytes item =
     (case json_item_list js bytes of
        None \<Rightarrow> Inl KeyStoreError
      | Some entries \<Rightarrow>
          (let keys = List.map_filter op_entry_info entries in
           Inr (case item of
                  Some it \<Rightarrow> filter (\<lambda>k. info_title k = it \<or> info_item_id k = it) keys
                | None \<Rightarrow> keys)))"

definition parse_field_value :: "op_json \<Rightarrow> u8 list \<Rightarrow> string agent_result" where
  "parse_field_value js bytes = ok_or KeyStoreError (json_field_value js bytes)"

definition OP_PRIVATE_KEY_SUBCOMMAND :: string where
  "OP_PRIVATE_KEY_SUBCOMMAND = ''__authsock-op-private-key''"

definition private_key_argv :: "string \<Rightarrow> string \<Rightarrow> string option \<Rightarrow> string list" where
  "private_key_argv exe item_id account =
     [exe, OP_PRIVATE_KEY_SUBCOMMAND, item_id]
     @ (case account of Some a \<Rightarrow> [''--account'', a] | None \<Rightarrow> [])"

definition fetch_op_private_key :: "op_json \<Rightarrow> op_client \<Rightarrow> string \<Rightarrow> u8 list agent_result" where
  "fetch_op_private_key js client item_id =
     rbind (item_get_private_key_json client item_id) (\<lambda>json.
     rbind (parse_field_value js json) (\<lambda>value.
       let pem = string_bytes value in
       Inr (if pem \<noteq> [] \<and> last pem = 10 then pem else pem @ [10])))"

subsection \<open>The disk cache\<close>

definition CACHE_VERSION :: nat where "CACHE_VERSION = 1"

record cache_provenance =
  prov_account :: "string option"

record cached_key =
  ck_item_id :: string
  ck_fingerprint :: string
  ck_public_key :: string
  ck_title :: string
  ck_vault :: string
  ck_provenance :: "cache_provenance option"

record op_key_cache =
  oc_version :: nat
  oc_keys :: "cached_key list"

definition op_key_cache_new :: op_key_cache where
  "op_key_cache_new = \<lparr>oc_version = CACHE_VERSION, oc_keys = []\<rparr>"

text \<open>Of several entries with one fingerprint the map keeps the last.\<close>

definition by_fingerprint :: "op_key_cache \<Rightarrow> string \<Rightarrow> cached_key option" where
  "by_fingerprint c = map_of (rev (map (\<lambda>k. (ck_fingerprint k, k)) (oc_keys c)))"

text \<open>The file is its content, if it can be read; \<open>of_json\<close> reads a cache from it.\<close>

definition op_cache_load_from :: "(string \<Rightarrow> op_key_cache option) \<Rightarrow> string option \<Rightarrow> op_key_cache" where
  "op_cache_load_from of_json file =
     (case file of
        None \<Rightarrow> op_key_cache_new
      | Some content \<Rightarrow>
          (case of_json content of
             Some c \<Rightarrow> (if oc_version c = CACHE_VERSION then c else op_key_cache_new)
           | None \<Rightarrow> op_key_cache_new))"

text \<open>\<open>write\<close> gives what the file holds after an attempt to write; its permissions are left out.\<close>

definition op_cache_save_to ::
  "bool \<Rightarrow> (op_key_cache \<Rightarrow> string option) \<Rightarrow> (string \<Rightarrow> string option) \<Rightarrow> op_key_cache
     \<Rightarrow> string option \<Rightarrow> string option"
where
  "op_cache_save_to dir_ok to_json write c file =
     (if \<not> dir_ok then file
      else (case to_json c of None \<Rightarrow> file | Some content \<Rightarrow> write content))"

definition default_cache_path :: "string option \<Rightarrow> string option \<Rightarrow> string option" where
  "default_cache_path xdg_cache_home home =
     map_option (\<lambda>b. path_join (path_join b ''cache-warden'') ''op_map.json'')
       (case xdg_cache_home of
          Some v \<Rightarrow> (if v \<noteq> [] then Some v else map_option (\<lambda>h. path_join h ''.cache'') home)
        | None \<Rightarrow> map_option (\<lambda>h. path_join h ''.cache'') home)"

subsection \<open>Discovery\<close>

record discovered_key =
  dk_item_id :: string
  dk_public_key :: string
  dk_title :: string
  dk_fingerprint :: string
  dk_vault :: string

datatype discovery_outcome =
  DiscoveryFresh "discovered_key list" op_key_cache
| DiscoveryStale "discovered_key list" agent_error

definition source_matches :: "op_source \<Rightarrow> cached_key \<Rightarrow> bool" where
  "source_matches s e =
     (if (case op_vault s of Some v \<Rightarrow> ck_vault e \<noteq> v | None \<Rightarrow> False) then False
      else if (case op_item s of Some it \<Rightarrow> ck_title e \<noteq> it \<and> ck_item_id e \<noteq> it | None \<Rightarrow> False) then False
      else True)"

definition resolve_one ::
  "op_json \<Rightarrow> op_client \<Rightarrow> op_key_info \<Rightarrow> (string \<Rightarrow> cached_key option) \<Rightarrow> discovered_key agent_result"
where
  "resolve_one js client info cache_by_fp =
     (case cache_by_fp (info_fingerprint info) of
        Some cached \<Rightarrow>
          Inr \<lparr>dk_item_id = info_item_id info, dk_public_key = ck_public_key cached, dk_title = info_title info,
               dk_fingerprint = info_fingerprint info, dk_vault = info_vault_name info\<rparr>
      | None \<Rightarrow>
          rbind (item_get_public_key_json client (info_item_id info)) (\<lambda>json.
          rbind (parse_field_value js json) (\<lambda>public_key.
            Inr \<lparr>dk_item_id = info_item_id info, dk_public_key = public_key, dk_title = info_title info,
                 dk_fingerprint = info_fingerprint info, dk_vault = info_vault_name info\<rparr>)))"

definition cached_from :: "string option \<Rightarrow> discovered_key \<Rightarrow> cached_key" where
  "cached_from account k =
     \<lparr>ck_item_id = dk_item_id k, ck_fingerprint = dk_fingerprint k, ck_public_key = dk_public_key k,
      ck_title = dk_title k, ck_vault = dk_vault k, ck_provenance = Some \<lparr>prov_account = account\<rparr>\<rparr>"

definition discovered_from :: "cached_key \<Rightarrow> discovered_key" where
  "discovered_from e =
     \<lparr>dk_item_id = ck_item_id e, dk_public_key = ck_public_key e, dk_title = ck_title e,
      dk_fingerprint = ck_fingerprint e, dk_vault = ck_vault e\<rparr>"

definition fallback_eligible :: "op_source list \<Rightarrow> string option \<Rightarrow> cached_key \<Rightarrow> bool" where
  "fallback_eligible sources account e =
     (case ck_provenance e of
        None \<Rightarrow> False
      | Some p \<Rightarrow>
          (if prov_account p \<noteq> account then False
           else if \<not> list_ex (\<lambda>s. source_matches s e) sources then False
           else if ck_public_key e = [] then False
           else True))"

fun fallback_loop ::
  "op_source list \<Rightarrow> string option \<Rightarrow> cached_key list \<Rightarrow> string set \<Rightarrow> discovered_key list"
where
  "fallback_loop sources account [] seen_fp = []"
| "fallback_loop sources account (e # es) seen_fp =
     (if \<not> fallback_eligible sources account e then fallback_loop sources account es seen_fp
      else if ck_fingerprint e \<in> seen_fp then fallback_loop sources account es seen_fp
      else discovered_from e # fallback_loop sources account es (insert (ck_fingerprint e) seen_fp))"

definition fallback_from_cache ::
  "op_key_cache \<Rightarrow> op_source list \<Rightarrow> string option \<Rightarrow> discovered_key list"
where
  "fallback_from_cache c sources account = fallback_loop sources account (oc_keys c) {}"

definition seed_from_cache :: "op_key_cache \<Rightarrow> op_source list \<Rightarrow> string option \<Rightarrow> discovered_key list" where
  "seed_from_cache c sources account = fallback_from_cache c sources account"

text \<open>The two loops of \<open>discover_keys\<close>, on the keys discovered so far.\<close>

type_synonym discovery_state = "string set \<times> discovered_key list \<times> cached_key list"

fun discover_infos ::
  "op_json \<Rightarrow> op_client \<Rightarrow> string option \<Rightarrow> (string \<Rightarrow> cached_key option) \<Rightarrow> op_key_info list
     \<Rightarrow> discovery_state \<Rightarrow> discovery_state agent_result"
where
  "discover_infos js client account cache_by_fp [] st = Inr st"
| "discover_infos js client account cache_by_fp (info # infos) (seen_fp, discovered, fresh) =
     (if info_fingerprint info \<in> seen_fp
      then discover_infos js client account cache_by_fp infos (seen_fp, discovered, fresh)
      else rbind (resolve_one js client info cache_by_fp) (\<lambda>key.
             discover_infos js client account cache_by_fp infos
               (insert (info_fingerprint info) seen_fp, discovered @ [key], fresh @ [cached_from account key])))"

fun discover_loop ::
  "op_json \<Rightarrow> op_client \<Rightarrow> op_source list \<Rightarrow> string option \<Rightarrow> op_key_cache \<Rightarrow> op_source list
     \<Rightarrow> discovery_state \<Rightarrow> discovery_outcome agent_result"
where
  "discover_loop js client all_sources account c [] (seen_fp, discovered, fresh) =
     Inr (DiscoveryFresh discovered \<lparr>oc_version = CACHE_VERSION, oc_keys = fresh\<rparr>)"
| "discover_loop js client all_sources account c (source # sources) st =
     (case item_list_json client (op_vault source) of
        Inl e \<Rightarrow> Inr (DiscoveryStale (fallback_from_cache c all_sources account) e)
      | Inr json \<Rightarrow>
          rbind (parse_item_list js json (op_item source)) (\<lambda>infos.
          rbind (discover_infos js client account (by_fingerprint c) infos st)
            (discover_loop js client all_sources account c sources)))"

definition discover_keys ::
  "op_json \<Rightarrow> op_client \<Rightarrow> op_source list \<Rightarrow> string option \<Rightarrow> op_key_cache \<Rightarrow> discovery_outcome agent_result"
where
  "discover_keys js client sources account c = discover_loop js client sources account c sources ({}, [], [])"

definition belongs_to :: "op_source list \<Rightarrow> string option \<Rightarrow> cached_key \<Rightarrow> bool" where
  "belongs_to sources account e \<longleftrightarrow>
     (case ck_provenance e of Some p \<Rightarrow> prov_account p = account | None \<Rightarrow> False)
       \<and> list_ex (\<lambda>s. source_matches s e) sources"

definition merge_source_cache ::
  "op_key_cache \<Rightarrow> op_source list \<Rightarrow> string option \<Rightarrow> op_key_cache \<Rightarrow> op_key_cache"
where
  "merge_source_cache c sources account fresh =
     c\<lparr>oc_keys := filter (\<lambda>e. \<not> belongs_to sources account e) (oc_keys c) @ oc_keys fresh\<rparr>"

subsection \<open>A call of the tool ends\<close>

lemma clock_advances:
  fixes now :: "nat \<Rightarrow> nat"
  assumes "\<And>n. now n + step \<le> now (Suc n)"
  shows "now 0 + n * step \<le> now n"
proof (induction n)
  case (Suc n)
  then show ?case using assms [of n] by simp
qed simp

lemma wait_loop_returns:
  fixes now :: "nat \<Rightarrow> nat"
  assumes step: "\<And>n. now n + OP_POLL_INTERVAL \<le> now (Suc n)" and "start \<le> now 0"
    and "n + k = cap_time div OP_POLL_INTERVAL + 1"
  shows "\<exists>r. wait_loop poll now cap_time start n = Some r \<and> run_polls r \<le> cap_time div OP_POLL_INTERVAL + 2"
  using assms(3)
proof (induction k arbitrary: n)
  case 0
  have pos: "0 < OP_POLL_INTERVAL" by (simp add: OP_POLL_INTERVAL_def from_millis_def)
  have "cap_time < (cap_time div OP_POLL_INTERVAL + 1) * OP_POLL_INTERVAL"
    using pos by (metis add.commute dividend_less_div_times mult_Suc plus_1_eq_Suc)
  also have "\<dots> \<le> now n - now 0" using clock_advances [of now, OF step, of n] 0 by simp
  finally have "cap_time \<le> now n - start" using assms(2) by simp
  then show ?case using 0 by (subst wait_loop.simps) (simp split: child_poll.splits)
next
  case (Suc k)
  from Suc.prems have "Suc n + k = cap_time div OP_POLL_INTERVAL + 1" by simp
  from Suc.IH [OF this] obtain r where r: "wait_loop poll now cap_time start (Suc n) = Some r"
    "run_polls r \<le> cap_time div OP_POLL_INTERVAL + 2" by blast
  show ?case
  proof (cases "poll n")
    case ChildRunning
    with r Suc.prems show ?thesis
      by (cases "cap_time \<le> now n - start") (auto simp: wait_loop.simps [of poll now cap_time start n])
  qed (use Suc.prems in \<open>simp_all add: wait_loop.simps [of poll now cap_time start n]\<close>)
qed



subsection \<open>What discovery finds\<close>

definition names_item :: "discovered_key \<Rightarrow> op_key_info \<Rightarrow> bool" where
  "names_item k i \<longleftrightarrow> dk_item_id k = info_item_id i \<and> dk_title k = info_title i
     \<and> dk_fingerprint k = info_fingerprint i \<and> dk_vault k = info_vault_name i"

definition state_of_keys :: "string option \<Rightarrow> discovered_key list \<Rightarrow> discovery_state" where
  "state_of_keys account ds = (dk_fingerprint ` set ds, ds, map (cached_from account) ds)"

lemma resolve_one_names: "resolve_one js client info by_fp = Inr k \<Longrightarrow> names_item k info"
  by (auto simp: resolve_one_def names_item_def rbind_Inr split: option.splits)

lemma discover_infos_found:
  assumes "discover_infos js client account by_fp infos (state_of_keys account ds) = Inr st"
    and "distinct (map dk_fingerprint ds)"
  shows "\<exists>new. st = state_of_keys account (ds @ new) \<and> distinct (map dk_fingerprint (ds @ new))
     \<and> (\<forall>k\<in>set new. \<exists>i\<in>set infos. names_item k i)
     \<and> info_fingerprint ` set infos \<subseteq> dk_fingerprint ` set (ds @ new)"
  using assms
proof (induction infos arbitrary: ds)
  case Nil
  then show ?case by (intro exI [of _ "[]"]) (simp add: state_of_keys_def)
next
  case (Cons info infos)
  show ?case
  proof (cases "info_fingerprint info \<in> dk_fingerprint ` set ds")
    case True
    with Cons.prems(1) have "discover_infos js client account by_fp infos (state_of_keys account ds) = Inr st"
      by (simp add: state_of_keys_def)
    from Cons.IH [OF this Cons.prems(2)] obtain new where
      "st = state_of_keys account (ds @ new)" "distinct (map dk_fingerprint (ds @ new))"
      "\<forall>k\<in>set new. \<exists>i\<in>set infos. names_item k i"
      "info_fingerprint ` set infos \<subseteq> dk_fingerprint ` set (ds @ new)" by blast
    with True show ?thesis by (intro exI [of _ new]) auto
  next
    case False
    with Cons.prems(1) obtain key where key: "resolve_one js client info by_fp = Inr key"
      and rest: "discover_infos js client account by_fp infos
        (insert (info_fingerprint info) (dk_fingerprint ` set ds), ds @ [key],
         map (cached_from account) ds @ [cached_from account key]) = Inr st"
      by (auto simp: state_of_keys_def rbind_Inr)
    from resolve_one_names [OF key] have fp: "dk_fingerprint key = info_fingerprint info" and k: "names_item key info"
      by (simp_all add: names_item_def)
    from rest fp have "discover_infos js client account by_fp infos (state_of_keys account (ds @ [key])) = Inr st"
      by (simp add: state_of_keys_def)
    moreover from False fp Cons.prems(2) have "distinct (map dk_fingerprint (ds @ [key]))" by simp
    ultimately obtain new where
      "st = state_of_keys account ((ds @ [key]) @ new)" "distinct (map dk_fingerprint ((ds @ [key]) @ new))"
      "\<forall>k\<in>set new. \<exists>i\<in>set infos. names_item k i"
      "info_fingerprint ` set infos \<subseteq> dk_fingerprint ` set ((ds @ [key]) @ new)"
      using Cons.IH by blast
    with k fp show ?thesis by (intro exI [of _ "key # new"]) auto
  qed
qed

text \<open>The keys a source lists at the moment, if the tool answers.\<close>

definition listed :: "op_json \<Rightarrow> op_client \<Rightarrow> op_source \<Rightarrow> op_key_info list" where
  "listed js client s =
     (case rbind (item_list_json client (op_vault s)) (\<lambda>json. parse_item_list js json (op_item s)) of
        Inl _ \<Rightarrow> []
      | Inr infos \<Rightarrow> infos)"

lemma in_listed:
  assumes "i \<in> set (listed js client s)"
  shows "\<exists>json infos. item_list_json client (op_vault s) = Inr json
           \<and> parse_item_list js json (op_item s) = Inr infos \<and> i \<in> set infos"
proof (cases "rbind (item_list_json client (op_vault s)) (\<lambda>json. parse_item_list js json (op_item s))")
  case (Inr infos)
  with assms show ?thesis by (auto simp: listed_def rbind_Inr)
qed (use assms in \<open>simp add: listed_def\<close>)

lemma discover_loop_found:
  assumes "discover_loop js client all_sources account c sources (state_of_keys account ds)
             = Inr (DiscoveryFresh keys fresh)"
    and "distinct (map dk_fingerprint ds)"
  shows "\<exists>new. keys = ds @ new
     \<and> fresh = \<lparr>oc_version = CACHE_VERSION, oc_keys = map (cached_from account) keys\<rparr>
     \<and> distinct (map dk_fingerprint keys)
     \<and> (\<forall>k\<in>set new. \<exists>s\<in>set sources. \<exists>i\<in>set (listed js client s). names_item k i)
     \<and> (\<forall>s\<in>set sources. info_fingerprint ` set (listed js client s) \<subseteq> dk_fingerprint ` set keys)"
  using assms
proof (induction sources arbitrary: ds)
  case Nil
  then show ?case by (auto simp: state_of_keys_def)
next
  case (Cons s sources)
  from Cons.prems(1) obtain json infos st where j: "item_list_json client (op_vault s) = Inr json"
    "parse_item_list js json (op_item s) = Inr infos"
    "discover_infos js client account (by_fingerprint c) infos (state_of_keys account ds) = Inr st"
    "discover_loop js client all_sources account c sources st = Inr (DiscoveryFresh keys fresh)"
    by (cases "state_of_keys account ds") (auto simp: rbind_Inr split: sum.splits)
  from discover_infos_found [OF j(3) Cons.prems(2)] obtain new where
    n: "st = state_of_keys account (ds @ new)" "distinct (map dk_fingerprint (ds @ new))"
    "\<forall>k\<in>set new. \<exists>i\<in>set infos. names_item k i"
    "info_fingerprint ` set infos \<subseteq> dk_fingerprint ` set (ds @ new)" by blast
  have l: "listed js client s = infos" using j(1,2) by (simp add: listed_def)
  from Cons.IH [OF j(4) [unfolded n(1)] n(2)] obtain more where
    m: "keys = (ds @ new) @ more" "fresh = \<lparr>oc_version = CACHE_VERSION, oc_keys = map (cached_from account) keys\<rparr>"
    "distinct (map dk_fingerprint keys)"
    "\<forall>k\<in>set more. \<exists>s\<in>set sources. \<exists>i\<in>set (listed js client s). names_item k i"
    "\<forall>s\<in>set sources. info_fingerprint ` set (listed js client s) \<subseteq> dk_fingerprint ` set keys" by blast
  have "info_fingerprint ` set infos \<subseteq> dk_fingerprint ` set keys" using n(4) m(1) by (simp; blast)
  with l n(3) m show ?case
    by (intro exI [of _ "new @ more"]) (simp add: ball_Un; blast)
qed

lemma discover_keys_found:
  assumes "discover_keys js client sources account c = Inr (DiscoveryFresh keys fresh)"
  shows "fresh = \<lparr>oc_version = CACHE_VERSION, oc_keys = map (cached_from account) keys\<rparr>
     \<and> distinct (map dk_fingerprint keys)
     \<and> (\<forall>k\<in>set keys. \<exists>s\<in>set sources. \<exists>i\<in>set (listed js client s). names_item k i)
     \<and> (\<forall>s\<in>set sources. info_fingerprint ` set (listed js client s) \<subseteq> dk_fingerprint ` set keys)"
  using discover_loop_found [of js client sources account c sources "[]" keys fresh] assms
  by (simp add: discover_keys_def state_of_keys_def)

subsection \<open>What the cache keeps of it\<close>

lemma discovered_from_cached [simp]: "discovered_from (cached_from account k) = k"
  by (simp add: discovered_from_def cached_from_def)

lemma fallback_loop_eligible:
  "fallback_loop sources account es seen = fallback_loop sources account (filter (fallback_eligible sources account) es) seen"
  by (induction es arbitrary: seen) simp_all

lemma eligible_belongs: "fallback_eligible sources account e \<Longrightarrow> belongs_to sources account e"
  by (auto simp: fallback_eligible_def belongs_to_def split: option.splits if_splits)

lemma fallback_loop_all:
  assumes "distinct (map dk_fingerprint ks)" and "dk_fingerprint ` set ks \<inter> seen = {}"
    and "\<forall>k\<in>set ks. fallback_eligible sources account (cached_from account k)"
  shows "fallback_loop sources account (map (cached_from account) ks) seen = ks"
  using assms
proof (induction ks arbitrary: seen)
  case (Cons k ks)
  then have "fallback_loop sources account (map (cached_from account) ks) (insert (dk_fingerprint k) seen) = ks"
    by (intro Cons.IH) auto
  moreover have "ck_fingerprint (cached_from account k) = dk_fingerprint k" by (simp add: cached_from_def)
  ultimately show ?case using Cons.prems by simp
qed simp

text \<open>Everything the fallback offers is a cached key of this account and of one of these sources.\<close>

lemma fallback_loop_in:
  "k \<in> set (fallback_loop sources account es seen) \<Longrightarrow>
     \<exists>e\<in>set es. fallback_eligible sources account e \<and> k = discovered_from e \<and> ck_fingerprint e \<notin> seen"
  by (induction es arbitrary: seen) (auto split: if_splits)

lemma fallback_loop_covers:
  "e \<in> set es \<Longrightarrow> fallback_eligible sources account e \<Longrightarrow>
     ck_fingerprint e \<in> seen \<union> dk_fingerprint ` set (fallback_loop sources account es seen)"
  by (induction es arbitrary: seen) (auto simp: discovered_from_def)

lemma fallback_loop_fresh: "dk_fingerprint ` set (fallback_loop sources account es seen) \<inter> seen = {}"
  using fallback_loop_in by (fastforce simp: discovered_from_def)

lemma fallback_loop_distinct: "distinct (map dk_fingerprint (fallback_loop sources account es seen))"
proof (induction es arbitrary: seen)
  case (Cons e es)
  then show ?case
    using fallback_loop_fresh [of sources account es "insert (ck_fingerprint e) seen"]
    by (simp add: discovered_from_def)
qed simp

text \<open>
  The fallback offers, once each, exactly the fingerprints cached for this account and these sources with
  a public key; an entry whose account was not recorded is never offered.
\<close>

theorem fallback_is_bounded:
  "dk_fingerprint ` set (fallback_from_cache c sources account)
     = ck_fingerprint ` {e \<in> set (oc_keys c). ck_provenance e = Some \<lparr>prov_account = account\<rparr>
          \<and> (\<exists>s\<in>set sources. source_matches s e) \<and> ck_public_key e \<noteq> []}
   \<and> distinct (map dk_fingerprint (fallback_from_cache c sources account))"
proof -
  have ok: "fallback_eligible sources account e \<longleftrightarrow> ck_provenance e = Some \<lparr>prov_account = account\<rparr>
      \<and> (\<exists>s\<in>set sources. source_matches s e) \<and> ck_public_key e \<noteq> []" for e
    by (auto simp: fallback_eligible_def list_ex_iff split: option.splits if_splits)
  have "dk_fingerprint ` set (fallback_from_cache c sources account)
      = ck_fingerprint ` {e \<in> set (oc_keys c). fallback_eligible sources account e}"
  proof
    show "dk_fingerprint ` set (fallback_from_cache c sources account)
        \<subseteq> ck_fingerprint ` {e \<in> set (oc_keys c). fallback_eligible sources account e}"
      unfolding fallback_from_cache_def using fallback_loop_in by (fastforce simp: discovered_from_def)
    show "ck_fingerprint ` {e \<in> set (oc_keys c). fallback_eligible sources account e}
        \<subseteq> dk_fingerprint ` set (fallback_from_cache c sources account)"
      unfolding fallback_from_cache_def using fallback_loop_covers [of _ "oc_keys c" sources account "{}"] by auto
  qed
  moreover have "distinct (map dk_fingerprint (fallback_from_cache c sources account))"
    unfolding fallback_from_cache_def using fallback_loop_distinct by blast
  ultimately show ?thesis by (simp add: ok)
qed

lemma seed_after_merge:
  assumes "discover_keys js client sources account c0 = Inr (DiscoveryFresh keys fresh)"
    and "\<forall>s\<in>set sources. \<forall>i\<in>set (listed js client s). op_vault s = None \<or> op_vault s = Some (info_vault_name i)"
    and "\<forall>k\<in>set keys. dk_public_key k \<noteq> []"
  shows "seed_from_cache (merge_source_cache c sources account fresh) sources account = keys"
proof -
  note found = discover_keys_found [OF assms(1)]
  have item: "info_title i = it \<or> info_item_id i = it" if "i \<in> set (listed js client s)" "op_item s = Some it" for i s it
    using in_listed [OF that(1)] that(2) by (auto simp: parse_item_list_def split: option.splits)
  have elig: "fallback_eligible sources account (cached_from account k)" if "k \<in> set keys" for k
  proof -
    from found that obtain s i where s: "s \<in> set sources" "i \<in> set (listed js client s)" "names_item k i" by blast
    with assms(2) item [of i s] have "source_matches s (cached_from account k)"
      by (auto simp: source_matches_def cached_from_def names_item_def split: option.splits)
    with s(1) that assms(3) show ?thesis by (auto simp: fallback_eligible_def cached_from_def list_ex_iff)
  qed
  have none: "filter (fallback_eligible sources account) (filter (\<lambda>e. \<not> belongs_to sources account e) es) = []" for es
    using eligible_belongs by (auto simp: filter_empty_conv)
  have all: "filter (fallback_eligible sources account) (map (cached_from account) keys) = map (cached_from account) keys"
    using elig by (auto simp: filter_id_conv)
  have keys: "oc_keys (merge_source_cache c sources account fresh)
      = filter (\<lambda>e. \<not> belongs_to sources account e) (oc_keys c) @ map (cached_from account) keys"
    using found by (simp add: merge_source_cache_def)
  have "seed_from_cache (merge_source_cache c sources account fresh) sources account
      = fallback_loop sources account (map (cached_from account) keys) {}"
    unfolding seed_from_cache_def fallback_from_cache_def keys
    by (subst fallback_loop_eligible) (simp only: filter_append none all append_Nil)
  also have "\<dots> = keys" by (rule fallback_loop_all) (use found elig in auto)
  finally show ?thesis .
qed


text \<open>
  Property C37.  Merging what was discovered under one account leaves what every other account is
  offered as it was.
\<close>

theorem other_accounts_keep_their_keys:
  assumes "discover_keys js client sources account c0 = Inr (DiscoveryFresh keys fresh)" and "other \<noteq> account"
  shows "seed_from_cache (merge_source_cache c sources account fresh) sources' other = seed_from_cache c sources' other"
proof -
  from discover_keys_found [OF assms(1)] have "oc_keys fresh = map (cached_from account) keys" by simp
  moreover have "\<not> fallback_eligible sources' other (cached_from account k)" for k
    using assms(2) by (simp add: fallback_eligible_def cached_from_def)
  moreover have "\<not> belongs_to sources account e" if "fallback_eligible sources' other e" for e
    using that assms(2) by (auto simp: fallback_eligible_def belongs_to_def split: option.splits if_splits)
  then have "filter (fallback_eligible sources' other) (filter (\<lambda>e. \<not> belongs_to sources account e) es)
      = filter (fallback_eligible sources' other) es" for es
    by (induction es) auto
  ultimately show ?thesis
    unfolding seed_from_cache_def fallback_from_cache_def
    by (subst (1 2) fallback_loop_eligible) (simp add: merge_source_cache_def filter_empty_conv)
qed

text \<open>
  A member may give its vault by identifier, which \<open>op\<close> accepts, but the cache records only the name.
  Entries of such a source never match it: every merge leaves the old entries in place and appends the
  new ones, and nothing is offered at the next start.
\<close>

lemma vault_by_id_accumulates:
  assumes "\<forall>s\<in>set sources. \<exists>v. op_vault s = Some v \<and> (\<forall>e\<in>set (oc_keys c) \<union> set (oc_keys fresh). ck_vault e \<noteq> v)"
  shows "oc_keys (merge_source_cache c sources account fresh) = oc_keys c @ oc_keys fresh"
    and "seed_from_cache (merge_source_cache c sources account fresh) sources account = []"
proof -
  have no: "\<not> list_ex (\<lambda>s. source_matches s e) sources" if "e \<in> set (oc_keys c) \<union> set (oc_keys fresh)" for e
    using assms that by (fastforce simp: list_ex_iff source_matches_def)
  then show m: "oc_keys (merge_source_cache c sources account fresh) = oc_keys c @ oc_keys fresh"
    by (auto simp: merge_source_cache_def belongs_to_def filter_id_conv)
  have "filter (fallback_eligible sources account) (oc_keys c @ oc_keys fresh) = []"
    using no by (auto simp: filter_empty_conv fallback_eligible_def split: option.splits if_splits)
  then show "seed_from_cache (merge_source_cache c sources account fresh) sources account = []"
    unfolding seed_from_cache_def fallback_from_cache_def m by (subst fallback_loop_eligible) simp
qed

text \<open>A run of it: one vault with one key.\<close>

definition toy_js :: op_json where
  "toy_js = \<lparr>json_item_list = (\<lambda>_. Some [\<lparr>entry_id = ''abc'', entry_title = ''work'', entry_vault_id = ''v1'',
       entry_vault_name = ''Personal'', additional_information = Some ''SHA256:x''\<rparr>]),
     json_field_value = (\<lambda>_. Some ''ssh-ed25519 AAAA'')\<rparr>"

definition toy_client :: op_client where
  "toy_client = \<lparr>item_list_json = (\<lambda>_. Inr []), item_get_public_key_json = (\<lambda>_. Inr []),
     item_get_private_key_json = (\<lambda>_. Inl KeyStoreError)\<rparr>"

definition toy_source :: op_source where
  "toy_source = \<lparr>op_vault = Some ''Personal'', op_item = None\<rparr>"

definition toy_key :: discovered_key where
  "toy_key = \<lparr>dk_item_id = ''abc'', dk_public_key = ''ssh-ed25519 AAAA'', dk_title = ''work'',
     dk_fingerprint = ''SHA256:x'', dk_vault = ''Personal''\<rparr>"

lemma toy_listed: "parse_item_list toy_js bytes None = Inr [\<lparr>info_item_id = ''abc'', info_title = ''work'',
    info_vault_id = ''v1'', info_vault_name = ''Personal'', info_fingerprint = ''SHA256:x''\<rparr>]"
  by (simp add: parse_item_list_def toy_js_def op_entry_info_def str_starts_with_def)

lemma toy_discovery:
  "discover_keys toy_js toy_client [toy_source] None op_key_cache_new
     = Inr (DiscoveryFresh [toy_key] \<lparr>oc_version = CACHE_VERSION, oc_keys = [cached_from None toy_key]\<rparr>)"
  by (simp add: discover_keys_def toy_source_def toy_client_def toy_listed resolve_one_def by_fingerprint_def
      op_key_cache_new_def parse_field_value_def toy_key_def)
     (simp add: toy_js_def)


theorem other_accounts_keep_their_keys_witness:
  "seed_from_cache (merge_source_cache op_key_cache_new [toy_source] None
      \<lparr>oc_version = CACHE_VERSION, oc_keys = [cached_from None toy_key]\<rparr>) [toy_source] (Some ''work'')
     = seed_from_cache op_key_cache_new [toy_source] (Some ''work'')"
  by (rule other_accounts_keep_their_keys [OF toy_discovery]) simp

end
