(* ===== verification/Agent_Registry.thy ===== *)
theory Agent_Registry
  imports Agent_Op Agent_Signer Handler_Calls
begin

text \<open>
  The public keys an agent socket offers: the registry
  (\<open>crates/cache-warden-authsock/src/registry.rs\<close>), how the daemon fills it from the store and from
  1Password, the background discovery that replaces it, and the refresh of the \<open>github\<close> filters
  (\<open>crates/cache-warden-cli/src/daemon/authsock.rs\<close>).

  A registry is a finite map over blobs; its order is that of the blobs.  The messages of the log are
  left out, and the locks are never poisoned.
\<close>

subsection \<open>The registry\<close>

datatype key_source =
  KeyLocal
| KeyOp (op_argv: "string list") (op_soft_ttl_secs: "nat option") (op_hard_ttl_secs: "nat option")

record registered_key =
  rk_key_blob :: "u8 list"
  rk_comment :: string
  rk_kv_key :: string
  rk_source :: key_source

type_synonym registry = "(u8 list, registered_key) fmap"

definition registry_new :: registry where
  "registry_new = fmempty"

definition register_from_pem ::
  "'p sign_lib \<Rightarrow> registry \<Rightarrow> string \<Rightarrow> string \<Rightarrow> unit agent_result \<times> registry"
where
  "register_from_pem lib reg kv_key pem =
     (case public_key_blob_from_pem lib pem of
        Inl e \<Rightarrow> (Inl e, reg)
      | Inr (blob, pem_comment) \<Rightarrow>
          (Inr (), fmupd blob \<lparr>rk_key_blob = blob,
                     rk_comment = (case pem_comment of Some c \<Rightarrow> c | None \<Rightarrow> kv_key),
                     rk_kv_key = kv_key, rk_source = KeyLocal\<rparr> reg))"

definition register_op_key ::
  "'k ssh_lib \<Rightarrow> registry \<Rightarrow> string \<Rightarrow> string \<Rightarrow> string \<Rightarrow> key_source \<Rightarrow> unit agent_result \<times> registry"
where
  "register_op_key ssh reg kv_key public_openssh label src =
     (case key_from_openssh ssh public_openssh of
        None \<Rightarrow> (Inl KeyStoreError, reg)
      | Some pk \<Rightarrow>
     (case key_data_encode ssh pk of
        None \<Rightarrow> (Inl KeyStoreError, reg)
      | Some blob \<Rightarrow>
          (Inr (), fmupd blob \<lparr>rk_key_blob = blob,
                     rk_comment = (if label = [] then kv_key else label),
                     rk_kv_key = kv_key, rk_source = src\<rparr> reg)))"

definition registry_lookup :: "registry \<Rightarrow> u8 list \<Rightarrow> registered_key option" where
  "registry_lookup reg blob = fmlookup reg blob"

definition registry_blobs :: "registry \<Rightarrow> u8 list list" where
  "registry_blobs reg = sorted_list_of_set (fset (fmdom reg))"

definition all_keys :: "registry \<Rightarrow> registered_key list" where
  "all_keys reg = List.map_filter (fmlookup reg) (registry_blobs reg)"

definition registry_identities :: "'k ssh_lib \<Rightarrow> registry \<Rightarrow> 'k identity list" where
  "registry_identities ssh reg = map (\<lambda>k. identity_new ssh (rk_key_blob k) (rk_comment k)) (all_keys reg)"

definition registry_len :: "registry \<Rightarrow> nat" where
  "registry_len reg = fcard (fmdom reg)"

definition registry_is_empty :: "registry \<Rightarrow> bool" where
  "registry_is_empty reg \<longleftrightarrow> fmdom reg = {||}"

subsection \<open>Local keys\<close>

text \<open>\<open>build_registry\<close>: one reading of the clock per key.\<close>

fun build_registry ::
  "'p sign_lib \<Rightarrow> string list \<Rightarrow> capability \<Rightarrow> clock \<Rightarrow> store \<Rightarrow> registry \<Rightarrow> registry \<times> store"
where
  "build_registry lib [] cap clk s reg = (reg, s)"
| "build_registry lib (kv_key # keys) cap clk s reg =
     (let (got, s1) = store_get s kv_key cap (clk 0);
          reg1 = (case got of
                    Inr (Some secret) \<Rightarrow>
                      with_exposed secret (\<lambda>bytes.
                        snd (register_from_pem lib reg kv_key (bytes_string (from_utf8_lossy bytes))))
                  | _ \<Rightarrow> reg)
      in build_registry lib keys cap (\<lambda>i. clk (Suc i)) s1 reg1)"

subsection \<open>Keys of a 1Password source\<close>

record authsock_source =
  as_name :: string
  as_op_account :: "string option"
  as_members :: "string list"
  as_soft_ttl_secs :: "nat option"
  as_hard_ttl_secs :: "nat option"

definition op_kv_key :: "string \<Rightarrow> string option" where
  "op_kv_key item_id =
     (if item_id = [] \<or> \<not> list_all is_ascii_alphanumeric item_id then None
      else Some (RESERVED_NAMESPACE_AUTHSOCK @ ''/op_'' @ item_id))"

fun register_op_keys ::
  "'k ssh_lib \<Rightarrow> string \<Rightarrow> authsock_source \<Rightarrow> discovered_key list \<Rightarrow> registry \<Rightarrow> nat \<times> registry"
where
  "register_op_keys ssh exe src [] reg = (0, reg)"
| "register_op_keys ssh exe src (k # ks) reg =
     (case op_kv_key (dk_item_id k) of
        None \<Rightarrow> register_op_keys ssh exe src ks reg
      | Some kv_key \<Rightarrow>
          (let ksrc = KeyOp (private_key_argv exe (dk_item_id k) (as_op_account src))
                        (as_soft_ttl_secs src) (as_hard_ttl_secs src)
           in case register_op_key ssh reg kv_key (dk_public_key k) (dk_title k) ksrc of
                (Inr _, reg') \<Rightarrow> (let (n, reg'') = register_op_keys ssh exe src ks reg' in (Suc n, reg''))
              | (Inl _, reg') \<Rightarrow> register_op_keys ssh exe src ks reg'))"

definition register_op_definition :: "registered_key \<Rightarrow> store \<Rightarrow> store" where
  "register_op_definition k s =
     (case rk_source k of
        KeyOp av soft hard \<Rightarrow>
          (case ttl_new (map_option from_secs soft) (map_option from_secs hard) of
             Inl _ \<Rightarrow> s
           | Inr t \<Rightarrow> snd (store_define s (rk_kv_key k) (command_source av) t))
      | KeyLocal \<Rightarrow> s)"

definition register_op_definitions :: "registry \<Rightarrow> store \<Rightarrow> store" where
  "register_op_definitions reg s = fold register_op_definition (all_keys reg) s"

definition op_registry_from ::
  "'k ssh_lib \<Rightarrow> registry \<Rightarrow> string option \<Rightarrow> authsock_source \<Rightarrow> discovered_key list \<Rightarrow> registry \<times> nat"
where
  "op_registry_from ssh base_reg exe src keys =
     (case exe of
        Some x \<Rightarrow> (let (n, reg) = register_op_keys ssh x src keys base_reg in (reg, n))
      | None \<Rightarrow> (base_reg, 0))"

subsection \<open>Discovering all sources\<close>

record source_discovery =
  sd_keys :: "(string, discovered_key list) fmap"
  sd_fresh :: "string fset"

definition discovery_failed :: source_discovery where
  "discovery_failed = \<lparr>sd_keys = fmempty, sd_fresh = {||}\<rparr>"

definition op_sources_of :: "authsock_source \<Rightarrow> op_source list" where
  "op_sources_of src = List.map_filter op_source_parse (as_members src)"

text \<open>\<open>client account\<close> is the tool under one account.  The merged cache is written if any source answered.\<close>

fun discover_sources ::
  "op_json \<Rightarrow> (string option \<Rightarrow> op_client) \<Rightarrow> authsock_source list \<Rightarrow> source_discovery \<Rightarrow> op_key_cache \<Rightarrow> bool
     \<Rightarrow> source_discovery \<times> op_key_cache option"
where
  "discover_sources js client [] sd merged any_fresh = (sd, if any_fresh then Some merged else None)"
| "discover_sources js client (src # srcs) sd merged any_fresh =
     (case discover_keys js (client (as_op_account src)) (op_sources_of src) (as_op_account src) merged of
        Inr (DiscoveryFresh keys fresh_cache) \<Rightarrow>
          discover_sources js client srcs
            \<lparr>sd_keys = fmupd (as_name src) keys (sd_keys sd), sd_fresh = finsert (as_name src) (sd_fresh sd)\<rparr>
            (merge_source_cache merged (op_sources_of src) (as_op_account src) fresh_cache) True
      | Inr (DiscoveryStale keys e) \<Rightarrow>
          discover_sources js client srcs (sd\<lparr>sd_keys := fmupd (as_name src) keys (sd_keys sd)\<rparr>) merged any_fresh
      | Inl e \<Rightarrow>
          discover_sources js client srcs (sd\<lparr>sd_keys := fmupd (as_name src) [] (sd_keys sd)\<rparr>) merged any_fresh)"

definition discover_all_sources ::
  "op_json \<Rightarrow> (string option \<Rightarrow> op_client) \<Rightarrow> op_key_cache \<Rightarrow> authsock_source list
     \<Rightarrow> source_discovery \<times> op_key_cache option"
where
  "discover_all_sources js client loaded srcs = discover_sources js client srcs discovery_failed loaded False"

definition seed_all_sources_from_cache ::
  "op_key_cache \<Rightarrow> authsock_source list \<Rightarrow> (string, discovered_key list) fmap"
where
  "seed_all_sources_from_cache c srcs =
     fold (\<lambda>src. fmupd (as_name src) (seed_from_cache c (op_sources_of src) (as_op_account src))) srcs fmempty"

subsection \<open>Opening a socket\<close>

record authsock_socket =
  sk_name :: string
  sk_keys :: "string list"
  sk_upstreams :: "string list"
  sk_source :: "string option"
  sk_filters :: "string list list"
  sk_allowed_processes :: "string list"

text \<open>\<open>SocketState\<close> without the daemon's shared state, which is the store and the parameters.\<close>

record ('g, 'r) socket_state =
  ss_name :: string
  ss_registry :: registry
  ss_upstreams :: "string list"
  ss_filter :: "('g, 'r) filter_evaluator"
  ss_allowed_processes :: "string list"

record discovery_target =
  dt_socket :: authsock_socket
  dt_base :: registry
  dt_live :: registry

definition source_by_name :: "authsock_source list \<Rightarrow> string \<Rightarrow> authsock_source option" where
  "source_by_name srcs = map_of (rev (map (\<lambda>src. (as_name src, src)) srcs))"

text \<open>One round of the loop of \<open>spawn_listeners\<close>; \<open>bound\<close> says whether the socket could be bound.\<close>

definition open_socket ::
  "('k, 'g, 'r) filter_env \<Rightarrow> 'p sign_lib \<Rightarrow> (string \<Rightarrow> string option) \<Rightarrow> (string \<Rightarrow> string) \<Rightarrow> string option
     \<Rightarrow> authsock_source list \<Rightarrow> (string, discovered_key list) fmap \<Rightarrow> capability \<Rightarrow> clock \<Rightarrow> bool
     \<Rightarrow> authsock_socket \<Rightarrow> store
     \<Rightarrow> (('g, 'r) socket_state \<times> discovery_target option) option \<times> store"
where
  "open_socket fe lib read_to_string resolve_upstream_path exe srcs discovered cap clk bound sock s =
     (let (base_reg, s1) = build_registry lib (sk_keys sock) cap clk s registry_new;
          socket_source = (case sk_source sock of None \<Rightarrow> None | Some n \<Rightarrow> source_by_name srcs n);
          (reg, has_op_source) =
            (case (exe, socket_source) of
               (Some x, Some src) \<Rightarrow>
                 (let seed_keys = (case sk_source sock of
                                     None \<Rightarrow> []
                                   | Some n \<Rightarrow> (case fmlookup discovered n of Some ks \<Rightarrow> ks | None \<Rightarrow> []))
                  in (snd (register_op_keys (fe_ssh fe) x src seed_keys base_reg), True))
             | _ \<Rightarrow> (base_reg, False));
          s2 = register_op_definitions reg s1;
          flt = (case evaluator_parse fe read_to_string (sk_filters sock) of Inr f \<Rightarrow> f | Inl _ \<Rightarrow> [])
      in (if \<not> bound then None
          else Some (\<lparr>ss_name = sk_name sock, ss_registry = reg,
                      ss_upstreams = map resolve_upstream_path (sk_upstreams sock), ss_filter = flt,
                      ss_allowed_processes = sk_allowed_processes sock\<rparr>,
                     if has_op_source then Some \<lparr>dt_socket = sock, dt_base = base_reg, dt_live = reg\<rparr> else None),
          s2))"

subsection \<open>The background discovery\<close>

definition DISCOVERY_RETRY_INITIAL :: duration where "DISCOVERY_RETRY_INITIAL = from_secs 2"
definition DISCOVERY_RETRY_MAX :: duration where "DISCOVERY_RETRY_MAX = from_secs 60"

definition next_backoff :: "duration \<Rightarrow> duration" where
  "next_backoff current = min (current * 2) DISCOVERY_RETRY_MAX"

definition apply_discovery ::
  "'k ssh_lib \<Rightarrow> string option \<Rightarrow> authsock_source \<Rightarrow> discovered_key list \<Rightarrow> discovery_target \<Rightarrow> store
     \<Rightarrow> discovery_target \<times> store"
where
  "apply_discovery ssh exe src keys t s =
     (let reg = fst (op_registry_from ssh (dt_base t) exe src keys)
      in (t\<lparr>dt_live := reg\<rparr>, register_op_definitions reg s))"

definition apply_to_target ::
  "'k ssh_lib \<Rightarrow> string option \<Rightarrow> authsock_source list \<Rightarrow> string fset \<Rightarrow> (string, discovered_key list) fmap
     \<Rightarrow> discovery_target \<Rightarrow> store \<Rightarrow> discovery_target \<times> store"
where
  "apply_to_target ssh exe srcs apply_set keys t s =
     (case sk_source (dt_socket t) of
        None \<Rightarrow> (t, s)
      | Some n \<Rightarrow>
          (if n |\<notin>| apply_set then (t, s)
           else (case (source_by_name srcs n, fmlookup keys n) of
                   (Some src, Some ks) \<Rightarrow> apply_discovery ssh exe src ks t s
                 | _ \<Rightarrow> (t, s))))"

fun apply_to_targets ::
  "'k ssh_lib \<Rightarrow> string option \<Rightarrow> authsock_source list \<Rightarrow> string fset \<Rightarrow> (string, discovered_key list) fmap
     \<Rightarrow> discovery_target list \<Rightarrow> store \<Rightarrow> discovery_target list \<times> store"
where
  "apply_to_targets ssh exe srcs apply_set keys [] s = ([], s)"
| "apply_to_targets ssh exe srcs apply_set keys (t # ts) s =
     (let (t', s1) = apply_to_target ssh exe srcs apply_set keys t s;
          (ts', s2) = apply_to_targets ssh exe srcs apply_set keys ts s1
      in (t' # ts', s2))"

record refresh_state =
  rs_targets :: "discovery_target list"
  rs_store :: store
  rs_applied :: "string fset"
  rs_backoff :: duration
  rs_done :: bool

definition refresh_start :: "discovery_target list \<Rightarrow> store \<Rightarrow> refresh_state" where
  "refresh_start ts s =
     \<lparr>rs_targets = ts, rs_store = s, rs_applied = {||}, rs_backoff = DISCOVERY_RETRY_INITIAL, rs_done = False\<rparr>"

definition pending_sources :: "discovery_target list \<Rightarrow> string fset" where
  "pending_sources ts = fset_of_list (List.map_filter (\<lambda>t. sk_source (dt_socket t)) ts)"

text \<open>The sources a round asks, and the round once \<open>discover_all_sources\<close> has answered for them.\<close>

definition sources_for_round :: "authsock_source list \<Rightarrow> refresh_state \<Rightarrow> authsock_source list" where
  "sources_for_round srcs st = filter (\<lambda>src. as_name src |\<notin>| rs_applied st) srcs"

definition discovery_round ::
  "'k ssh_lib \<Rightarrow> string option \<Rightarrow> authsock_source list \<Rightarrow> source_discovery \<Rightarrow> refresh_state \<Rightarrow> refresh_state"
where
  "discovery_round ssh exe srcs discovery st =
     (if rs_done st then st
      else
        let pending = pending_sources (rs_targets st);
            newly_fresh = ffilter (\<lambda>n. n |\<in>| pending \<and> n |\<notin>| rs_applied st) (sd_fresh discovery);
            (ts, s) = (if newly_fresh = {||} then (rs_targets st, rs_store st)
                       else apply_to_targets ssh exe srcs newly_fresh (sd_keys discovery) (rs_targets st) (rs_store st));
            applied = rs_applied st |\<union>| newly_fresh
        in (if pending |\<subseteq>| applied
            then st\<lparr>rs_targets := ts, rs_store := s, rs_applied := applied, rs_done := True\<rparr>
            else st\<lparr>rs_targets := ts, rs_store := s, rs_applied := applied,
                    rs_backoff := next_backoff (rs_backoff st)\<rparr>))"

subsection \<open>The refresh of the \<open>github\<close> caches\<close>

record github_settings =
  gs_cache_ttl :: duration
  gs_timeout :: duration

text \<open>
  \<open>now\<close> is read once per tick; \<open>done_at i\<close> is the instant read after the \<open>i\<close>-th fetch.  A fetch that
  panics is \<open>None\<close>.
\<close>

fun refresh_due_matchers ::
  "(string \<Rightarrow> duration \<Rightarrow> u8 list set agent_result option) \<Rightarrow> github_settings \<Rightarrow> nat \<Rightarrow> (nat \<Rightarrow> nat)
     \<Rightarrow> github_matcher list \<Rightarrow> github_matcher list"
where
  "refresh_due_matchers fetch gs now done_at [] = []"
| "refresh_due_matchers fetch gs now done_at (m # ms) =
     (if \<not> needs_refresh (gs_cache_ttl gs) now m then m # refresh_due_matchers fetch gs now done_at ms
      else (case fetch (gh_user m) (gs_timeout gs) of
              Some (Inr keys) \<Rightarrow> set_keys keys (done_at 0) m
            | Some (Inl e) \<Rightarrow> mark_failed (done_at 0) m
            | None \<Rightarrow> mark_failed (done_at 0) m)
           # refresh_due_matchers fetch gs now (\<lambda>i. done_at (Suc i)) ms)"

subsection \<open>What a registry holds\<close>

text \<open>
  Every entry is filed under its own blob.  A local one names a configured key; one from 1Password is
  stored under \<open>authsock/op_ID\<close> and fetched by the daemon's own binary with the item's identifier, which
  is alphanumeric and therefore neither an option nor a path.
\<close>

definition op_entry_ok :: "string option \<Rightarrow> registered_key \<Rightarrow> bool" where
  "op_entry_ok exe k \<longleftrightarrow>
     (case rk_source k of
        KeyLocal \<Rightarrow> True
      | KeyOp av soft hard \<Rightarrow>
          \<exists>x item account. exe = Some x \<and> item \<noteq> [] \<and> list_all is_ascii_alphanumeric item
            \<and> rk_kv_key k = RESERVED_NAMESPACE_AUTHSOCK @ ''/op_'' @ item
            \<and> av = [x, OP_PRIVATE_KEY_SUBCOMMAND, item] @ (case account of Some a \<Rightarrow> [''--account'', a] | None \<Rightarrow> []))"

definition registry_ok :: "string option \<Rightarrow> string list \<Rightarrow> registry \<Rightarrow> bool" where
  "registry_ok exe configured reg \<longleftrightarrow>
     (\<forall>blob k. fmlookup reg blob = Some k \<longrightarrow>
        rk_key_blob k = blob \<and> op_entry_ok exe k \<and> (rk_source k = KeyLocal \<longrightarrow> rk_kv_key k \<in> set configured))"

lemma registry_ok_new [simp]: "registry_ok exe configured registry_new"
  by (simp add: registry_ok_def registry_new_def)

lemma registry_ok_upd:
  "registry_ok exe configured reg \<Longrightarrow> rk_key_blob k = blob \<Longrightarrow> op_entry_ok exe k
     \<Longrightarrow> (rk_source k = KeyLocal \<Longrightarrow> rk_kv_key k \<in> set configured) \<Longrightarrow> registry_ok exe configured (fmupd blob k reg)"
  by (auto simp: registry_ok_def split: if_splits)

lemma register_from_pem_ok:
  assumes "registry_ok exe configured reg" and "kv \<in> set configured"
  shows "registry_ok exe configured (snd (register_from_pem lib reg kv pem))"
  using assms
  by (auto simp: register_from_pem_def op_entry_ok_def intro!: registry_ok_upd split: sum.splits prod.splits)

lemma build_registry_ok:
  "registry_ok exe configured reg \<Longrightarrow> set keys \<subseteq> set configured
     \<Longrightarrow> registry_ok exe configured (fst (build_registry lib keys cap clk s reg))"
proof (induction keys arbitrary: clk s reg)
  case (Cons kv keys)
  obtain got s1 where g: "store_get s kv cap (clk 0) = (got, s1)" by fastforce
  let ?reg1 = "case got of
      Inr (Some secret) \<Rightarrow> with_exposed secret (\<lambda>bytes.
          snd (register_from_pem lib reg kv (bytes_string (from_utf8_lossy bytes)))) | _ \<Rightarrow> reg"
  have "registry_ok exe configured ?reg1"
    using Cons.prems register_from_pem_ok [of exe configured reg kv lib]
    by (auto simp: with_exposed_def split: sum.splits option.splits)
  with Cons g show ?case by (simp add: Let_def)
qed simp

lemma register_op_key_entry:
  "register_op_key ssh reg kv pub label src = (Inr u, reg') \<Longrightarrow>
     \<exists>blob. reg' = fmupd blob \<lparr>rk_key_blob = blob, rk_comment = (if label = [] then kv else label),
                            rk_kv_key = kv, rk_source = src\<rparr> reg"
  "register_op_key ssh reg kv pub label src = (Inl e, reg') \<Longrightarrow> reg' = reg"
  by (auto simp: register_op_key_def split: option.splits)

lemma register_op_keys_ok:
  "registry_ok (Some exe) configured reg \<Longrightarrow>
     registry_ok (Some exe) configured (snd (register_op_keys ssh exe src ks reg))"
proof (induction ks arbitrary: reg)
  case (Cons k ks)
  show ?case
  proof (cases "op_kv_key (dk_item_id k)")
    case (Some kv)
    let ?src = "KeyOp (private_key_argv exe (dk_item_id k) (as_op_account src)) (as_soft_ttl_secs src) (as_hard_ttl_secs src)"
    obtain r reg' where r: "register_op_key ssh reg kv (dk_public_key k) (dk_title k) ?src = (r, reg')" by fastforce
    from Some have kv: "kv = RESERVED_NAMESPACE_AUTHSOCK @ ''/op_'' @ dk_item_id k" "dk_item_id k \<noteq> []"
      "list_all is_ascii_alphanumeric (dk_item_id k)"
      by (auto simp: op_kv_key_def split: if_splits)
    have "registry_ok (Some exe) configured reg'"
    proof (cases r)
      case (Inr u)
      with r register_op_key_entry(1) obtain blob where
        "reg' = fmupd blob \<lparr>rk_key_blob = blob, rk_comment = (if dk_title k = [] then kv else dk_title k),
            rk_kv_key = kv, rk_source = ?src\<rparr> reg" by metis
      with Cons.prems kv show ?thesis
        by (auto simp: op_entry_ok_def private_key_argv_def intro!: registry_ok_upd)
    next
      case (Inl e)
      with r register_op_key_entry(2) Cons.prems show ?thesis by metis
    qed
    with Cons.IH [of reg'] Some r show ?thesis by (cases r) (simp_all add: split_beta)
  qed (use Cons in simp)
qed simp

lemma registered_blob: "registry_ok exe configured reg \<Longrightarrow> fmlookup reg blob = Some k \<Longrightarrow> rk_key_blob k = blob"
  by (simp add: registry_ok_def)

lemma all_keys_blobs:
  assumes "registry_ok exe configured reg"
  shows "map rk_key_blob (all_keys reg) = registry_blobs reg"
proof -
  have "map rk_key_blob (List.map_filter (fmlookup reg) bs) = bs" if "set bs \<subseteq> fset (fmdom reg)" for bs
    using that assms
  proof (induction bs)
    case (Cons b bs)
    then obtain k where "fmlookup reg b = Some k" by (auto simp: fmdom_iff)
    with Cons registered_blob [OF assms] show ?case by simp
  qed simp
  then show ?thesis by (simp add: all_keys_def registry_blobs_def)
qed

text \<open>An enumeration is sorted by blob and lists every registered key once.\<close>

lemma identities_of_registry:
  assumes "registry_ok exe configured reg"
  shows "map id_key_blob (registry_identities ssh reg) = registry_blobs reg"
    and "sorted (registry_blobs reg)" and "distinct (registry_blobs reg)"
    and "set (registry_blobs reg) = {b. registry_lookup reg b \<noteq> None}"
proof -
  have "map id_key_blob (registry_identities ssh reg) = map rk_key_blob (all_keys reg)"
    by (simp add: registry_identities_def identity_new_def)
  then show "map id_key_blob (registry_identities ssh reg) = registry_blobs reg"
    using all_keys_blobs [OF assms] by simp
  show "set (registry_blobs reg) = {b. registry_lookup reg b \<noteq> None}"
    by (auto simp: registry_blobs_def registry_lookup_def fmdom_iff)
qed (simp_all add: registry_blobs_def)

lemma in_all_keys: "k \<in> set (all_keys reg) \<longleftrightarrow> (\<exists>blob. fmlookup reg blob = Some k)"
  by (auto simp: all_keys_def registry_blobs_def List.map_filter_def fmdom_iff; force simp: fmdom_iff)

subsection \<open>Discovery keeps what was there\<close>

lemma register_op_keys_dom: "fmdom reg |\<subseteq>| fmdom (snd (register_op_keys ssh exe src ks reg))"
proof (induction ks arbitrary: reg)
  case (Cons k ks)
  show ?case
  proof (cases "op_kv_key (dk_item_id k)")
    case (Some kv)
    let ?src = "KeyOp (private_key_argv exe (dk_item_id k) (as_op_account src)) (as_soft_ttl_secs src) (as_hard_ttl_secs src)"
    obtain r reg' where r: "register_op_key ssh reg kv (dk_public_key k) (dk_title k) ?src = (r, reg')" by fastforce
    then have "fmdom reg |\<subseteq>| fmdom reg'"
      by (auto simp: register_op_key_def split: option.splits)
    with Cons.IH [of reg'] Some r show ?thesis by (cases r) (auto simp: split_beta)
  qed (use Cons in simp)
qed simp

definition target_ok :: "string option \<Rightarrow> discovery_target \<Rightarrow> bool" where
  "target_ok exe t \<longleftrightarrow> registry_ok exe (sk_keys (dt_socket t)) (dt_base t)
     \<and> registry_ok exe (sk_keys (dt_socket t)) (dt_live t) \<and> fmdom (dt_base t) |\<subseteq>| fmdom (dt_live t)"

lemma apply_discovery_ok:
  assumes "target_ok exe t"
  shows "target_ok exe (fst (apply_discovery ssh exe src ks t s))"
    and "dt_base (fst (apply_discovery ssh exe src ks t s)) = dt_base t"
    and "dt_socket (fst (apply_discovery ssh exe src ks t s)) = dt_socket t"
  using assms register_op_keys_ok [of _ _ "dt_base t" ssh src ks] register_op_keys_dom [of "dt_base t" ssh _ src ks]
  by (auto simp: apply_discovery_def op_registry_from_def target_ok_def Let_def split_beta split: option.splits)

lemma apply_to_target_ok:
  assumes "target_ok exe t"
  shows "target_ok exe (fst (apply_to_target ssh exe srcs ns keys t s))
    \<and> dt_base (fst (apply_to_target ssh exe srcs ns keys t s)) = dt_base t
    \<and> dt_socket (fst (apply_to_target ssh exe srcs ns keys t s)) = dt_socket t"
  using assms apply_discovery_ok by (auto simp: apply_to_target_def split: option.splits)

lemma apply_to_targets_ok:
  "list_all (target_ok exe) ts \<Longrightarrow>
     list_all (target_ok exe) (fst (apply_to_targets ssh exe srcs ns keys ts s))
     \<and> map dt_base (fst (apply_to_targets ssh exe srcs ns keys ts s)) = map dt_base ts
     \<and> map dt_socket (fst (apply_to_targets ssh exe srcs ns keys ts s)) = map dt_socket ts"
proof (induction ts arbitrary: s)
  case (Cons t ts)
  then show ?case
    using apply_to_target_ok [of exe t ssh srcs ns keys s]
    by (auto simp: split_beta Let_def)
qed simp

lemma round_targets:
  assumes "list_all (target_ok exe) (rs_targets st)"
  shows "list_all (target_ok exe) (rs_targets (discovery_round ssh exe srcs d st))
    \<and> map dt_base (rs_targets (discovery_round ssh exe srcs d st)) = map dt_base (rs_targets st)
    \<and> map dt_socket (rs_targets (discovery_round ssh exe srcs d st)) = map dt_socket (rs_targets st)"
proof -
  let ?new = "ffilter (\<lambda>n. n |\<in>| pending_sources (rs_targets st) \<and> n |\<notin>| rs_applied st) (sd_fresh d)"
  have "rs_targets (discovery_round ssh exe srcs d st) = rs_targets st
     \<or> rs_targets (discovery_round ssh exe srcs d st)
         = fst (apply_to_targets ssh exe srcs ?new (sd_keys d) (rs_targets st) (rs_store st))"
    by (simp add: discovery_round_def Let_def split_beta)
  then show ?thesis using apply_to_targets_ok [OF assms] assms by (elim disjE) simp_all
qed

lemma rounds_targets:
  assumes "list_all (target_ok exe) (rs_targets st)"
  shows "list_all (target_ok exe) (rs_targets (fold (discovery_round ssh exe srcs) ds st))
    \<and> map dt_base (rs_targets (fold (discovery_round ssh exe srcs) ds st)) = map dt_base (rs_targets st)
    \<and> map dt_socket (rs_targets (fold (discovery_round ssh exe srcs) ds st)) = map dt_socket (rs_targets st)"
  using assms
proof (induction ds arbitrary: st)
  case (Cons d ds)
  then show ?case
    using round_targets [of exe st ssh srcs d] Cons.IH [of "discovery_round ssh exe srcs d st"] by simp
qed simp

definition opened ::
  "('k, 'g, 'r) filter_env \<Rightarrow> 'p sign_lib \<Rightarrow> string option \<Rightarrow> authsock_source list \<Rightarrow> discovery_target \<Rightarrow> bool"
where
  "opened fe lib exe srcs t \<longleftrightarrow>
     (\<exists>read_to_string up discovered cap clk s ss s'.
        open_socket fe lib read_to_string up exe srcs discovered cap clk True (dt_socket t) s = (Some (ss, Some t), s'))"

lemma open_socket_target:
  assumes "open_socket fe lib read_to_string up exe srcs discovered cap clk bound sock s = (Some (ss, Some t), s')"
  shows "\<exists>x src ks. exe = Some x \<and> dt_socket t = sock
     \<and> dt_base t = fst (build_registry lib (sk_keys sock) cap clk s registry_new)
     \<and> dt_live t = snd (register_op_keys (fe_ssh fe) x src ks (dt_base t))"
proof -
  obtain b s1 where b: "build_registry lib (sk_keys sock) cap clk s registry_new = (b, s1)" by fastforce
  show ?thesis
  proof (cases "\<exists>x src. exe = Some x \<and> (case sk_source sock of None \<Rightarrow> None | Some n \<Rightarrow> source_by_name srcs n) = Some src")
    case True
    then obtain x src where x: "exe = Some x"
      "(case sk_source sock of None \<Rightarrow> None | Some n \<Rightarrow> source_by_name srcs n) = Some src" by blast
    let ?ks = "case sk_source sock of None \<Rightarrow> [] | Some n \<Rightarrow> (case fmlookup discovered n of Some ks \<Rightarrow> ks | None \<Rightarrow> [])"
    from assms b x have "t = \<lparr>dt_socket = sock, dt_base = b, dt_live = snd (register_op_keys (fe_ssh fe) x src ?ks b)\<rparr>"
      by (auto simp: open_socket_def Let_def split: if_splits)
    with b x(1) show ?thesis
      by (intro exI [of _ x] exI [of _ src] exI [of _ ?ks]) simp
  next
    case False
    with assms b show ?thesis
      by (cases exe; cases "case sk_source sock of None \<Rightarrow> None | Some n \<Rightarrow> source_by_name srcs n")
         (auto simp: open_socket_def Let_def split: if_splits)
  qed
qed

lemma opened_target_ok:
  assumes "opened fe lib exe srcs t"
  shows "target_ok exe t"
proof -
  from assms obtain read_to_string up discovered cap clk s ss s' where
    "open_socket fe lib read_to_string up exe srcs discovered cap clk True (dt_socket t) s = (Some (ss, Some t), s')"
    unfolding opened_def by blast
  from open_socket_target [OF this] obtain x src ks where t: "exe = Some x"
    "dt_base t = fst (build_registry lib (sk_keys (dt_socket t)) cap clk s registry_new)"
    "dt_live t = snd (register_op_keys (fe_ssh fe) x src ks (dt_base t))" by blast
  have "registry_ok exe (sk_keys (dt_socket t)) (dt_base t)"
    unfolding t(2) by (rule build_registry_ok) simp_all
  with t(1,3) register_op_keys_ok [of x "sk_keys (dt_socket t)" "dt_base t" "fe_ssh fe" src ks]
    register_op_keys_dom [of "dt_base t" "fe_ssh fe" x src ks]
  show ?thesis by (simp add: target_ok_def)
qed


text \<open>A refresh waits between two and sixty seconds, and a round after the last one changes nothing.\<close>

lemma backoff_bounds:
  assumes "DISCOVERY_RETRY_INITIAL \<le> rs_backoff st" and "rs_backoff st \<le> DISCOVERY_RETRY_MAX"
  shows "DISCOVERY_RETRY_INITIAL \<le> rs_backoff (fold (discovery_round ssh exe srcs) ds st)
    \<and> rs_backoff (fold (discovery_round ssh exe srcs) ds st) \<le> DISCOVERY_RETRY_MAX"
  using assms
proof (induction ds arbitrary: st)
  case (Cons d ds)
  have "rs_backoff (discovery_round ssh exe srcs d st) \<in> {rs_backoff st, next_backoff (rs_backoff st)}"
    by (simp add: discovery_round_def Let_def split_beta)
  with Cons.prems have "DISCOVERY_RETRY_INITIAL \<le> rs_backoff (discovery_round ssh exe srcs d st)"
    "rs_backoff (discovery_round ssh exe srcs d st) \<le> DISCOVERY_RETRY_MAX"
    by (auto simp: next_backoff_def DISCOVERY_RETRY_INITIAL_def DISCOVERY_RETRY_MAX_def from_secs_def)
  with Cons.IH show ?case by simp
qed simp

subsection \<open>What the refresh misses\<close>

text \<open>
  The instant of a fetch is read after it, the ticks are a TTL apart: a matcher fetched during one tick
  is not due at the next one, so its keys are renewed at every second tick only.
\<close>

lemma fetched_is_skipped_next_tick:
  assumes "now < done_at 0" and "0 < gs_cache_ttl gs" and "needs_refresh (gs_cache_ttl gs) now m"
  shows "refresh_due_matchers fetch gs (now + gs_cache_ttl gs) later (refresh_due_matchers fetch gs now done_at [m])
           = refresh_due_matchers fetch gs now done_at [m]"
proof -
  have "\<not> needs_refresh (gs_cache_ttl gs) (now + gs_cache_ttl gs) (set_keys keys (done_at 0) m)"
    "\<not> needs_refresh (gs_cache_ttl gs) (now + gs_cache_ttl gs) (mark_failed (done_at 0) m)" for keys
    using assms(1,2) by (auto simp: needs_refresh_def set_keys_def mark_failed_def)
  with assms(3) show ?thesis by (auto split: option.splits sum.splits)
qed

text \<open>
  A definition that differs from the one in the store, after a change of the account or of a TTL, is
  refused as a conflict and dropped: the old one stays.
\<close>

lemma changed_op_definition_is_dropped:
  assumes "rk_source k = KeyOp av soft hard" and "ttl_new (map_option from_secs soft) (map_option from_secs hard) = Inr t"
    and "fmlookup (definitions s) (rk_kv_key k) = Some d" and "def_source d \<noteq> command_source av"
  shows "register_op_definition k s = s"
  using assms
  by (auto simp: register_op_definition_def store_define_def define_with_meta_def Let_def
      def_with_meta_def def_with_source_meta_def split: sum.splits if_splits)

text \<open>A key of 1Password with the blob of a local key takes its place.\<close>

lemma op_key_replaces_local:
  assumes "key_from_openssh ssh pub = Some pk" and "key_data_encode ssh pk = Some blob" and "op_kv_key item = Some kv"
  shows "registry_lookup (snd (register_op_keys ssh exe src [\<lparr>dk_item_id = item, dk_public_key = pub, dk_title = title,
             dk_fingerprint = fp, dk_vault = v\<rparr>] reg)) blob
           = Some \<lparr>rk_key_blob = blob, rk_comment = (if title = [] then kv else title), rk_kv_key = kv,
                   rk_source = KeyOp (private_key_argv exe item (as_op_account src)) (as_soft_ttl_secs src) (as_hard_ttl_secs src)\<rparr>"
  using assms by (simp add: register_op_key_def registry_lookup_def)

text \<open>A filter that no longer parses when the socket is opened is replaced by the one that admits all.\<close>

lemma unparsable_filter_admits_all:
  assumes "evaluator_parse fe read_to_string (sk_filters sock) = Inl e"
    and "open_socket fe lib read_to_string up exe srcs discovered cap clk bound sock s = (Some (ss, t), s')"
  shows "evaluator_matches fe (ss_filter ss) i"
  using assms by (auto simp: open_socket_def Let_def evaluator_matches_def split: prod.splits if_splits)

text \<open>A socket with one key of 1Password, and a discovery that finds the vault empty.\<close>

definition toy_as_source :: authsock_source where
  "toy_as_source = \<lparr>as_name = ''work'', as_op_account = None, as_members = [''op://''],
     as_soft_ttl_secs = None, as_hard_ttl_secs = Some 60\<rparr>"

definition toy_sock :: authsock_socket where
  "toy_sock = \<lparr>sk_name = ''s'', sk_keys = [], sk_upstreams = [], sk_source = Some ''work'', sk_filters = [],
     sk_allowed_processes = []\<rparr>"

definition toy_target :: discovery_target where
  "toy_target = \<lparr>dt_socket = toy_sock, dt_base = registry_new,
     dt_live = snd (register_op_keys no_ssh_lib ''cw'' toy_as_source [toy_key] registry_new)\<rparr>"

lemma toy_opened: "opened plain_fe toy_sign_lib (Some ''cw'') [toy_as_source] toy_target"
  unfolding opened_def
  by (rule exI [of _ "\<lambda>_. None"], rule exI [of _ id], rule exI [of _ "fmupd ''work'' [toy_key] fmempty"])
     (simp add: open_socket_def toy_target_def toy_sock_def toy_as_source_def source_by_name_def plain_fe_def)


end
