(* ===== verification/Config.thy ===== *)
theory Config
  imports Totp Agent_Registry
begin

text \<open>
  The configuration (\<open>crates/cache-warden-cli/src/config.rs\<close>, \<open>protocol/duration.rs\<close>): its tables as they
  come from the TOML parser, which is a parameter, their validation, and what the daemon reads from a
  configuration that passed it.
\<close>

subsection \<open>Durations\<close>

definition duration_unit :: "string \<Rightarrow> (string \<times> nat) option" where
  "duration_unit t =
     (let c = last t in
      if c = CHR ''h'' then Some (butlast t, 3600)
      else if c = CHR ''m'' then Some (butlast t, 60)
      else if c = CHR ''s'' then Some (butlast t, 1)
      else if CHR ''0'' \<le> c \<and> c \<le> CHR ''9'' then Some (t, 1)
      else None)"

definition parse_duration :: "string \<Rightarrow> duration option" where
  "parse_duration input =
     (let t = str_trim input in
      if t = [] then None
      else (case duration_unit t of
              None \<Rightarrow> None
            | Some (digits, multiplier) \<Rightarrow>
                (case parse_unsigned u64_max (codes digits) of
                   None \<Rightarrow> None
                 | Some n \<Rightarrow> if u64_max < n * multiplier then None else Some (from_secs (n * multiplier)))))"

subsection \<open>The tables\<close>

datatype toml_value =
  TomlString string | TomlArray "toml_value list" | TomlTable "(string \<times> toml_value) list" | TomlScalar

record daemon_config =
  dc_socket :: "string option"
  dc_persist_definitions :: bool
  dc_allow_debug_attach :: bool
  dc_fetch_failure_backoff :: string

definition daemon_config_default :: daemon_config where
  "daemon_config_default = \<lparr>dc_socket = None, dc_persist_definitions = False, dc_allow_debug_attach = False,
     dc_fetch_failure_backoff = ''5s''\<rparr>"

record auth_config =
  au_type :: "string option"
  au_command :: "string list option"

record cli_config =
  cl_default_mode :: "string option"
  cl_namespace :: "string option"

record kv_policy_config =
  kp_default_require_same_user :: bool
  kp_shell_names :: "string list option"

record vault_config =
  vc_profile :: "string option"
  vc_path :: "string option"
  vc_rp_id :: "string option"
  vc_expected_origins :: "string list"
  vc_ceremony_listen :: "string option"

record github_config =
  gc_cache_ttl :: string
  gc_timeout :: string

definition github_config_default :: github_config where
  "github_config_default = \<lparr>gc_cache_ttl = ''1h'', gc_timeout = ''10s''\<rparr>"

record source_config =
  sc_kind :: string
  sc_op_account :: "string option"
  sc_members :: "string list"
  sc_soft_ttl :: "string option"
  sc_hard_ttl :: "string option"

record socket_config =
  so_path :: string
  so_keys :: "string list"
  so_upstreams :: "string list"
  so_source :: "string option"
  so_filters :: "string list list"
  so_allowed_processes :: "string list"

record command_table =
  ct_argv :: "string list option"
  ct_cwd :: "string option"
  ct_env :: env_overlay

record op_table =
  ot_uri :: "string option"
  ot_account :: "string option"

record kv_entry_config =
  ke_source :: "string option"
  ke_command :: "toml_value option"
  ke_op :: "op_table option"
  ke_persist :: bool
  ke_soft_ttl :: "string option"
  ke_hard_ttl :: "string option"
  ke_preload :: bool
  ke_namespace :: "string option"
  ke_value_type :: "string option"
  ke_otp_digits :: "nat option"
  ke_otp_period :: "nat option"
  ke_otp_algorithm :: "string option"
  ke_allowed_processes :: "string list"
  ke_value :: "toml_value option"
  ke_value_stdin :: "toml_value option"
  ke_static :: "toml_value option"

record config_file =
  cf_daemon :: daemon_config
  cf_auth :: "auth_config option"
  cf_kv :: "(string, kv_entry_config) fmap"
  cf_sources :: "(string, source_config) fmap"
  cf_sockets :: "(string, socket_config) fmap"
  cf_github :: github_config
  cf_cli :: cli_config
  cf_kv_policy :: kv_policy_config
  cf_vault :: vault_config

text \<open>An element of \<open>filters\<close> is a rule or a group of rules.\<close>

fun toml_str :: "toml_value \<Rightarrow> string option" where
  "toml_str (TomlString s) = Some s"
| "toml_str _ = None"

fun all_some :: "'a option list \<Rightarrow> 'a list option" where
  "all_some [] = Some []"
| "all_some (None # xs) = None"
| "all_some (Some x # xs) = map_option ((#) x) (all_some xs)"

fun filter_term :: "toml_value \<Rightarrow> string list option" where
  "filter_term (TomlString s) = Some [s]"
| "filter_term (TomlArray vs) = all_some (map toml_str vs)"
| "filter_term _ = None"

definition deserialize_filters :: "toml_value list \<Rightarrow> string list list option" where
  "deserialize_filters vs = all_some (map filter_term vs)"

subsection \<open>A definition\<close>

record kv_definition =
  kd_name :: string
  kd_namespace :: "string option"
  kd_source :: source_spec_wire
  kd_soft_ttl_secs :: "nat option"
  kd_hard_ttl_secs :: "nat option"
  kd_preload :: bool
  kd_meta :: value_meta_wire

definition full_key :: "string \<Rightarrow> kv_definition \<Rightarrow> string" where
  "full_key ctx_ns d = compose_key (case kd_namespace d of None \<Rightarrow> ctx_ns | Some ns \<Rightarrow> ns) (kd_name d)"

datatype kv_fault =
  InlineValue | ValueStdin | StaticSource | PersistWithOp | PreloadInDefs | NamespaceInPersisted
| BareCommandArray | BadCommandTable | CommandNotTable | SourceMissing | CommandMissing | ArgvMissing | ArgvEmpty
| OpMissing | OpUriMissing | OpUriNotOp string | UnknownSource string
| BadTtl string string
| OtpWithoutType | OtpDigitsRange nat | OtpPeriodZero | OtpBadAlgorithm otp_failure | UnknownType string
| BadNamespaceName string | BadKeyName string

datatype config_error =
  KvError string kv_fault | SourceKindError string string | SourceMemberError string string
| SourceTtlError string string | SocketPathEmpty string | SocketWithoutKeys string | SocketFilters string
| SocketKeyInvalid string string | SocketSourceUnknown string string | GithubCacheTtl | GithubTimeout
| CliDefaultMode string | CliNamespace string | AuthTypeMissing | AuthCommandEmpty | AuthCommandMissing
| AuthTypeUnknown string | FetchFailureBackoff | ShellNameEmpty

definition build_kv_meta ::
  "string option \<Rightarrow> nat option \<Rightarrow> nat option \<Rightarrow> string option \<Rightarrow> kv_fault + value_meta_wire"
where
  "build_kv_meta value_type digits period algorithm =
     (case value_type of
        None \<Rightarrow>
          (if digits \<noteq> None \<or> period \<noteq> None \<or> algorithm \<noteq> None then Inl OtpWithoutType
           else Inr \<lparr>vmw_type_label = None, vmw_params = fmempty\<rparr>)
      | Some t \<Rightarrow>
          (if t \<noteq> ''otp'' then Inl (UnknownType t)
           else rbind (case digits of
                         None \<Rightarrow> Inr fmempty
                       | Some d \<Rightarrow> if 1 \<le> d \<and> d \<le> 9 then Inr (fmupd ''digits'' (nat_dec d) fmempty)
                           else Inl (OtpDigitsRange d)) (\<lambda>ps1.
                rbind (case period of
                         None \<Rightarrow> Inr ps1
                       | Some p \<Rightarrow> if p = 0 then Inl OtpPeriodZero else Inr (fmupd ''period'' (nat_dec p) ps1)) (\<lambda>ps2.
                rbind (case algorithm of
                         None \<Rightarrow> Inr ps2
                       | Some a \<Rightarrow>
                           map_err OtpBadAlgorithm
                             (rbind (algorithm_parse (str_chars (string_bytes a))) (\<lambda>alg.
                                Inr (fmupd ''algorithm'' (algorithm_label alg) ps2)))) (\<lambda>ps3.
                Inr \<lparr>vmw_type_label = Some ''otp'', vmw_params = ps3\<rparr>)))))"

text \<open>The conversion of a TOML table into \<open>CommandTable\<close>, which denies unknown keys.\<close>

definition env_of_toml :: "toml_value \<Rightarrow> env_overlay option" where
  "env_of_toml v =
     (case v of
        TomlTable fs \<Rightarrow>
          map_option (\<lambda>vs. fold (\<lambda>(k, x). fmupd k x) (zip (map fst fs) vs) fmempty) (all_some (map (toml_str \<circ> snd) fs))
      | _ \<Rightarrow> None)"

definition toml_strings :: "toml_value \<Rightarrow> string list option" where
  "toml_strings v = (case v of TomlArray vs \<Rightarrow> all_some (map toml_str vs) | _ \<Rightarrow> None)"

definition optional_field :: "(toml_value \<Rightarrow> 'a option) \<Rightarrow> (string \<times> toml_value) list \<Rightarrow> string \<Rightarrow> 'a option option" where
  "optional_field f fs k = (case map_of fs k of None \<Rightarrow> Some None | Some v \<Rightarrow> map_option Some (f v))"

definition command_table_of :: "(string \<times> toml_value) list \<Rightarrow> command_table option" where
  "command_table_of fs =
     (if \<not> list_all (\<lambda>(k, _). k \<in> {''argv'', ''cwd'', ''env''}) fs then None
      else (case (optional_field toml_strings fs ''argv'', optional_field toml_str fs ''cwd'',
                  optional_field env_of_toml fs ''env'') of
              (Some a, Some c, Some e) \<Rightarrow>
                Some \<lparr>ct_argv = a, ct_cwd = c, ct_env = (case e of None \<Rightarrow> fmempty | Some m \<Rightarrow> m)\<rparr>
            | _ \<Rightarrow> None))"

definition command_of_entry :: "toml_value option \<Rightarrow> kv_fault + command_table option" where
  "command_of_entry command =
     (case command of
        None \<Rightarrow> Inr None
      | Some (TomlArray _) \<Rightarrow> Inl BareCommandArray
      | Some (TomlTable fs) \<Rightarrow>
          (case command_table_of fs of None \<Rightarrow> Inl BadCommandTable | Some t \<Rightarrow> Inr (Some t))
      | Some _ \<Rightarrow> Inl CommandNotTable)"

definition build_kv_source ::
  "string option \<Rightarrow> toml_value option \<Rightarrow> op_table option \<Rightarrow> kv_fault + source_spec_wire"
where
  "build_kv_source src command op_tab =
     rbind (command_of_entry command) (\<lambda>tab.
       case src of
         None \<Rightarrow> Inl SourceMissing
       | Some k \<Rightarrow>
           (if k = ''command'' then
              (case tab of
                 None \<Rightarrow> Inl CommandMissing
               | Some t \<Rightarrow>
                   (case ct_argv t of
                      None \<Rightarrow> Inl ArgvMissing
                    | Some av \<Rightarrow>
                        (if av = [] then Inl ArgvEmpty
                         else Inr (SpecCommand \<lparr>csw_argv = av, csw_cwd = ct_cwd t, csw_env = ct_env t\<rparr>))))
            else if k = ''op'' then
              (case op_tab of
                 None \<Rightarrow> Inl OpMissing
               | Some t \<Rightarrow>
                   (case ot_uri t of
                      None \<Rightarrow> Inl OpUriMissing
                    | Some u \<Rightarrow>
                        (if starts_with ''op://'' u then Inr (SpecOp \<lparr>osw_uri = u, osw_account = ot_account t\<rparr>)
                         else Inl (OpUriNotOp u))))
            else Inl (UnknownSource k)))"

definition parse_ttl :: "string \<Rightarrow> string option \<Rightarrow> kv_fault + nat option" where
  "parse_ttl label s =
     (case s of
        None \<Rightarrow> Inr None
      | Some v \<Rightarrow> (case parse_duration v of None \<Rightarrow> Inl (BadTtl label v) | Some d \<Rightarrow> Inr (Some (as_secs d))))"

definition split_kv_entry_name :: "string \<Rightarrow> string option \<Rightarrow> kv_fault + string \<times> string option" where
  "split_kv_entry_name name field_ns =
     (if \<exists>ns. field_ns = Some ns \<and> \<not> is_valid_identifier ns then Inl (BadNamespaceName (the field_ns))
      else if \<not> is_valid_identifier name then Inl (BadKeyName name)
      else Inr (name, field_ns))"

definition kv_entry_validate :: "string \<Rightarrow> kv_entry_config \<Rightarrow> kv_fault + kv_definition" where
  "kv_entry_validate name e =
     (if ke_value e \<noteq> None then Inl InlineValue
      else if ke_value_stdin e \<noteq> None then Inl ValueStdin
      else if ke_static e \<noteq> None then Inl StaticSource
      else if ke_persist e \<and> ke_source e = Some ''op'' then Inl PersistWithOp
      else
        rbind (build_kv_source (ke_source e) (ke_command e) (ke_op e)) (\<lambda>src.
        rbind (parse_ttl ''soft-ttl'' (ke_soft_ttl e)) (\<lambda>soft.
        rbind (parse_ttl ''hard-ttl'' (ke_hard_ttl e)) (\<lambda>hard.
        rbind (build_kv_meta (ke_value_type e) (ke_otp_digits e) (ke_otp_period e) (ke_otp_algorithm e)) (\<lambda>vm.
        rbind (split_kv_entry_name name (ke_namespace e)) (\<lambda>(key_name, ns).
          Inr \<lparr>kd_name = key_name, kd_namespace = ns, kd_source = src, kd_soft_ttl_secs = soft,
               kd_hard_ttl_secs = hard, kd_preload = ke_preload e, kd_meta = vm\<rparr>))))))"

subsection \<open>Sources and sockets of the ssh agent\<close>

definition source_ttl :: "string \<Rightarrow> string option \<Rightarrow> config_error + nat option" where
  "source_ttl name s =
     (case s of
        None \<Rightarrow> Inr None
      | Some v \<Rightarrow> (case parse_duration v of None \<Rightarrow> Inl (SourceTtlError name v) | Some d \<Rightarrow> Inr (Some (as_secs d))))"

definition source_config_validate :: "string \<Rightarrow> source_config \<Rightarrow> config_error + authsock_source" where
  "source_config_validate name c =
     (if sc_kind c \<noteq> ''op'' then Inl (SourceKindError name (sc_kind c))
      else (let ms = (if sc_members c = [] then [''op://''] else sc_members c)
            in (case find (\<lambda>m. op_source_parse m = None) ms of
                  Some m \<Rightarrow> Inl (SourceMemberError name m)
                | None \<Rightarrow>
                    rbind (source_ttl name (sc_soft_ttl c)) (\<lambda>soft.
                    rbind (source_ttl name (sc_hard_ttl c)) (\<lambda>hard.
                      Inr \<lparr>as_name = name, as_op_account = sc_op_account c, as_members = ms,
                           as_soft_ttl_secs = soft, as_hard_ttl_secs = hard\<rparr>)))))"

definition socket_key :: "string \<Rightarrow> string \<Rightarrow> config_error + string" where
  "socket_key name k =
     (if CHR ''/'' \<in> set k then (if split_composed k = None then Inl (SocketKeyInvalid name k) else Inr k)
      else if is_valid_identifier k then Inr (compose_key DEFAULT_NAMESPACE k)
      else Inl (SocketKeyInvalid name k))"

text \<open>\<open>parsed\<close> is whether the filter terms parse; the daemon parses them again when it opens the socket.\<close>

record valid_socket = authsock_socket +
  sk_path :: string

definition socket_config_validate ::
  "(string list list \<Rightarrow> bool) \<Rightarrow> string option \<Rightarrow> string \<Rightarrow> socket_config \<Rightarrow> config_error + valid_socket"
where
  "socket_config_validate parsed home name c =
     (if str_trim (so_path c) = [] then Inl (SocketPathEmpty name)
      else if so_keys c = [] \<and> so_upstreams c = [] \<and> so_source c = None then Inl (SocketWithoutKeys name)
      else if \<not> parsed (so_filters c) then Inl (SocketFilters name)
      else rbind (collect_ok (map (socket_key name) (so_keys c))) (\<lambda>keys.
             Inr \<lparr>sk_name = name, sk_keys = keys, sk_upstreams = map (expand_tilde home) (so_upstreams c),
                  sk_source = so_source c, sk_filters = so_filters c, sk_allowed_processes = so_allowed_processes c,
                  sk_path = expand_tilde home (so_path c)\<rparr>))"

subsection \<open>The whole file\<close>

definition first_fault :: "config_error option list \<Rightarrow> config_error option" where
  "first_fault fs = (case find (\<lambda>f. f \<noteq> None) fs of None \<Rightarrow> None | Some f \<Rightarrow> f)"

definition fault_of :: "('e \<Rightarrow> config_error) \<Rightarrow> 'e + 'a \<Rightarrow> config_error option" where
  "fault_of f r = (case r of Inl e \<Rightarrow> Some (f e) | Inr _ \<Rightarrow> None)"

definition socket_fault ::
  "(string list list \<Rightarrow> bool) \<Rightarrow> string option \<Rightarrow> config_file \<Rightarrow> string \<Rightarrow> socket_config \<Rightarrow> config_error option"
where
  "socket_fault parsed home cfg name c =
     first_fault
       [fault_of id (socket_config_validate parsed home name c),
        (case so_source c of
           None \<Rightarrow> None
         | Some src \<Rightarrow> if src |\<in>| fmdom (cf_sources cfg) then None else Some (SocketSourceUnknown name src))]"

definition auth_fault :: "auth_config \<Rightarrow> config_error option" where
  "auth_fault a =
     (case au_type a of
        None \<Rightarrow> Some AuthTypeMissing
      | Some t \<Rightarrow>
          (if t = ''command'' then
             (case au_command a of
                None \<Rightarrow> Some AuthCommandMissing
              | Some av \<Rightarrow> if av = [] then Some AuthCommandEmpty else None)
           else Some (AuthTypeUnknown t)))"

definition content_fault ::
  "(string list list \<Rightarrow> bool) \<Rightarrow> string option \<Rightarrow> config_file \<Rightarrow> config_error option"
where
  "content_fault parsed home cfg =
     first_fault
       (map (\<lambda>n. fault_of (KvError n) (kv_entry_validate n (the (fmlookup (cf_kv cfg) n)))) (btree_keys (cf_kv cfg))
        @ map (\<lambda>n. fault_of id (source_config_validate n (the (fmlookup (cf_sources cfg) n)))) (btree_keys (cf_sources cfg))
        @ map (\<lambda>n. socket_fault parsed home cfg n (the (fmlookup (cf_sockets cfg) n))) (btree_keys (cf_sockets cfg))
        @ [(if parse_duration (gc_cache_ttl (cf_github cfg)) = None then Some GithubCacheTtl else None),
           (if parse_duration (gc_timeout (cf_github cfg)) = None then Some GithubTimeout else None),
           (case cl_default_mode (cf_cli cfg) of
              None \<Rightarrow> None
            | Some m \<Rightarrow> if m \<noteq> ''reveal'' \<and> m \<noteq> ''dry-run'' then Some (CliDefaultMode m) else None),
           (case cl_namespace (cf_cli cfg) of
              None \<Rightarrow> None
            | Some ns \<Rightarrow> if is_valid_identifier ns then None else Some (CliNamespace ns)),
           Option.bind (cf_auth cfg) auth_fault,
           (if parse_duration (dc_fetch_failure_backoff (cf_daemon cfg)) = None then Some FetchFailureBackoff else None),
           (case kp_shell_names (cf_kv_policy cfg) of
              None \<Rightarrow> None
            | Some names \<Rightarrow> if [] \<in> set names then Some ShellNameEmpty else None)])"

datatype config_parse_error = ConfigToml string | ConfigContent config_error

definition config_parse ::
  "(string \<Rightarrow> string + config_file) \<Rightarrow> (string list list \<Rightarrow> bool) \<Rightarrow> string option \<Rightarrow> string
     \<Rightarrow> config_parse_error + config_file"
where
  "config_parse toml parsed home txt =
     (case toml txt of
        Inl e \<Rightarrow> Inl (ConfigToml e)
      | Inr cfg \<Rightarrow>
          (case content_fault parsed home cfg of Some e \<Rightarrow> Inl (ConfigContent e) | None \<Rightarrow> Inr cfg))"

subsection \<open>What the daemon reads\<close>

definition fetch_failure_backoff :: "config_file \<Rightarrow> duration" where
  "fetch_failure_backoff cfg =
     (case parse_duration (dc_fetch_failure_backoff (cf_daemon cfg)) of None \<Rightarrow> from_secs 5 | Some d \<Rightarrow> d)"

definition auth_command :: "config_file \<Rightarrow> string list option" where
  "auth_command cfg =
     Option.bind (cf_auth cfg) (\<lambda>a. if au_type a = Some ''command'' then au_command a else None)"

definition validated :: "config_file \<Rightarrow> string \<Rightarrow> kv_definition option" where
  "validated cfg n =
     (case kv_entry_validate n (the (fmlookup (cf_kv cfg) n)) of Inl _ \<Rightarrow> None | Inr d \<Rightarrow> Some d)"

definition kv_definitions :: "config_file \<Rightarrow> kv_definition list" where
  "kv_definitions cfg = List.map_filter (validated cfg) (btree_keys (cf_kv cfg))"

definition persisted_keys :: "config_file \<Rightarrow> string fset" where
  "persisted_keys cfg =
     fset_of_list (List.map_filter (\<lambda>n. map_option (full_key DEFAULT_NAMESPACE) (validated cfg n))
       (filter (\<lambda>n. ke_persist (the (fmlookup (cf_kv cfg) n))) (btree_keys (cf_kv cfg))))"

definition kv_process_policies :: "config_file \<Rightarrow> (string, string list) fmap" where
  "kv_process_policies cfg =
     fmap_of_list (rev (List.map_filter
       (\<lambda>n. map_option (\<lambda>d. (full_key DEFAULT_NAMESPACE d, ke_allowed_processes (the (fmlookup (cf_kv cfg) n))))
              (validated cfg n))
       (filter (\<lambda>n. ke_allowed_processes (the (fmlookup (cf_kv cfg) n)) \<noteq> []) (btree_keys (cf_kv cfg)))))"

definition resolve_kv_policy :: "kv_policy_config \<Rightarrow> kv_policy \<times> bool" where
  "resolve_kv_policy c =
     (let (names, warning) =
        (case kp_shell_names c of
           None \<Rightarrow> (default_shell_names, False)
         | Some v \<Rightarrow> if v = [] then (default_shell_names, True) else (v, False))
      in (\<lparr>default_require_same_user = kp_default_require_same_user c, shell_names = names\<rparr>, warning))"

definition authsock_sockets ::
  "(string list list \<Rightarrow> bool) \<Rightarrow> string option \<Rightarrow> config_file \<Rightarrow> valid_socket list"
where
  "authsock_sockets parsed home cfg =
     List.map_filter (\<lambda>n. case socket_config_validate parsed home n (the (fmlookup (cf_sockets cfg) n)) of
         Inl _ \<Rightarrow> None | Inr s \<Rightarrow> Some s) (btree_keys (cf_sockets cfg))"

definition authsock_sources :: "config_file \<Rightarrow> authsock_source list" where
  "authsock_sources cfg =
     List.map_filter (\<lambda>n. case source_config_validate n (the (fmlookup (cf_sources cfg) n)) of
         Inl _ \<Rightarrow> None | Inr s \<Rightarrow> Some s) (btree_keys (cf_sources cfg))"

datatype mode = Reveal | DryRun

definition cli_default_mode :: "config_file \<Rightarrow> mode option" where
  "cli_default_mode cfg =
     (case cl_default_mode (cf_cli cfg) of
        None \<Rightarrow> None
      | Some m \<Rightarrow> if m = ''dry-run'' then Some DryRun else if m = ''reveal'' then Some Reveal else None)"

text \<open>The candidates for the file; \<open>dedup\<close> drops a path that equals the one before.\<close>

fun dedup_paths :: "string list \<Rightarrow> string list" where
  "dedup_paths (a # b # r) = (if path_eq a b then dedup_paths (a # r) else a # dedup_paths (b # r))"
| "dedup_paths ps = ps"

definition nonempty :: "string option \<Rightarrow> string option" where
  "nonempty v = (case v of None \<Rightarrow> None | Some s \<Rightarrow> if s = [] then None else Some s)"

definition config_search_paths :: "(string \<Rightarrow> string option) \<Rightarrow> string list" where
  "config_search_paths var =
     dedup_paths
       ((case nonempty (var ''CACHE_WARDEN_CONFIG'') of None \<Rightarrow> [] | Some p \<Rightarrow> [p])
        @ (case nonempty (var ''XDG_CONFIG_HOME'') of None \<Rightarrow> []
           | Some x \<Rightarrow> [path_join (path_join x ''cache-warden'') ''config.toml''])
        @ (case var ''HOME'' of None \<Rightarrow> []
           | Some h \<Rightarrow> [path_join (path_join (path_join h ''.config'') ''cache-warden'') ''config.toml'']))"

definition find_config_file :: "(string \<Rightarrow> bool) \<Rightarrow> (string \<Rightarrow> string option) \<Rightarrow> string option" where
  "find_config_file is_file var = find is_file (config_search_paths var)"

end
