(* ===== verification/Defs.thy ===== *)
theory Defs
  imports Config Vault_Storage
begin

text \<open>
  Definition files and the file of persisted definitions (\<open>crates/cache-warden-cli/src/defs.rs\<close>): their
  entries and validation, the text the daemon writes, and how it replaces the file.  The TOML parser is a
  parameter; the writer is the code's own.
\<close>

subsection \<open>From the store\<close>

definition meta_to_wire :: "value_meta \<Rightarrow> value_meta_wire" where
  "meta_to_wire m = \<lparr>vmw_type_label = type_label m, vmw_params = params m\<rparr>"

definition recorded_definition :: "store \<Rightarrow> string \<Rightarrow> kv_definition option" where
  "recorded_definition s k =
     (case definition_of s k of
        None \<Rightarrow> None
      | Some d \<Rightarrow>
          (case from_source_meta (def_source_meta d) of
             None \<Rightarrow> None
           | Some src \<Rightarrow>
               (case split_composed k of
                  None \<Rightarrow> None
                | Some (ns, key_name) \<Rightarrow>
                    Some \<lparr>kd_name = key_name, kd_namespace = Some ns, kd_source = src,
                          kd_soft_ttl_secs = map_option as_secs (ttl_soft (def_ttl d)),
                          kd_hard_ttl_secs = map_option as_secs (ttl_hard (def_ttl d)),
                          kd_preload = False, kd_meta = meta_to_wire (def_meta d)\<rparr>)))"

definition snapshot_definitions :: "store \<Rightarrow> kv_definition list" where
  "snapshot_definitions s =
     sort_key (full_key DEFAULT_NAMESPACE)
       (List.map_filter (recorded_definition s) (list_filtered s (\<lambda>s k. definition_of s k \<noteq> None)))"

subsection \<open>Entries\<close>

record def_entry =
  de_source :: "string option"
  de_command :: "toml_value option"
  de_op :: "op_table option"
  de_soft_ttl :: "string option"
  de_hard_ttl :: "string option"
  de_value_type :: "string option"
  de_otp_digits :: "nat option"
  de_otp_period :: "nat option"
  de_otp_algorithm :: "string option"
  de_namespace :: "string option"
  de_preload :: "toml_value option"
  de_value :: "toml_value option"
  de_value_stdin :: "toml_value option"
  de_static :: "toml_value option"

definition def_entry_validate :: "string \<Rightarrow> def_entry \<Rightarrow> kv_fault + kv_definition" where
  "def_entry_validate name e =
     (if de_preload e \<noteq> None then Inl PreloadInDefs
      else if de_value e \<noteq> None then Inl InlineValue
      else if de_value_stdin e \<noteq> None then Inl ValueStdin
      else if de_static e \<noteq> None then Inl StaticSource
      else
        rbind (build_kv_source (de_source e) (de_command e) (de_op e)) (\<lambda>src.
        rbind (build_kv_meta (de_value_type e) (de_otp_digits e) (de_otp_period e) (de_otp_algorithm e)) (\<lambda>vm.
        rbind (split_kv_entry_name name (de_namespace e)) (\<lambda>(key_name, ns).
        rbind (parse_ttl ''soft-ttl'' (de_soft_ttl e)) (\<lambda>soft.
        rbind (parse_ttl ''hard-ttl'' (de_hard_ttl e)) (\<lambda>hard.
          Inr \<lparr>kd_name = key_name, kd_namespace = ns, kd_source = src, kd_soft_ttl_secs = soft,
               kd_hard_ttl_secs = hard, kd_preload = False, kd_meta = vm\<rparr>))))))"

datatype defs_fault =
  DefsToml string | DefsEntry string kv_fault
| PersistedNamespace string | PersistedKey string string | PersistedEntry string string kv_fault

definition parse_defs ::
  "(string \<Rightarrow> string + (string, def_entry) fmap) \<Rightarrow> string \<Rightarrow> defs_fault + kv_definition list"
where
  "parse_defs toml txt =
     rbind (map_err DefsToml (toml txt)) (\<lambda>kv.
       collect_ok (map (\<lambda>n. map_err (DefsEntry n) (def_entry_validate n (the (fmlookup kv n)))) (btree_keys kv)))"

type_synonym persist_file = "(string, (string, def_entry) fmap) fmap"

definition parse_persisted_entry :: "string \<Rightarrow> string \<Rightarrow> def_entry \<Rightarrow> defs_fault + kv_definition" where
  "parse_persisted_entry ns key e =
     (if \<not> is_valid_identifier key then Inl (PersistedKey ns key)
      else if de_namespace e \<noteq> None then Inl (PersistedEntry ns key NamespaceInPersisted)
      else rbind (map_err (PersistedEntry ns key) (def_entry_validate key e)) (\<lambda>d.
             Inr (d\<lparr>kd_namespace := Some ns\<rparr>)))"

definition parse_persisted_namespace :: "persist_file \<Rightarrow> string \<Rightarrow> defs_fault + kv_definition list" where
  "parse_persisted_namespace kv ns =
     (if \<not> is_valid_identifier ns then Inl (PersistedNamespace ns)
      else (let es = the (fmlookup kv ns)
            in collect_ok (map (\<lambda>key. parse_persisted_entry ns key (the (fmlookup es key))) (btree_keys es))))"

definition parse_persisted ::
  "(string \<Rightarrow> string + persist_file) \<Rightarrow> string \<Rightarrow> defs_fault + kv_definition list"
where
  "parse_persisted toml txt =
     rbind (map_err DefsToml (toml txt)) (\<lambda>kv.
     rbind (collect_ok (map (parse_persisted_namespace kv) (btree_keys kv))) (\<lambda>dss. Inr (concat dss)))"

subsection \<open>The text\<close>

definition toml_escape :: "string \<Rightarrow> string" where
  "toml_escape s =
     concat (map (\<lambda>c. if c = CHR 0x5C then [CHR 0x5C, CHR 0x5C]
                       else if c = CHR 0x22 then [CHR 0x5C, CHR 0x22] else [c]) s)"

definition toml_basic_string :: "string \<Rightarrow> string" where
  "toml_basic_string s = [CHR 0x22] @ toml_escape s @ [CHR 0x22]"

definition toml_bare_or_quoted_key :: "string \<Rightarrow> string" where
  "toml_bare_or_quoted_key k =
     (if k \<noteq> [] \<and> list_all (\<lambda>c. is_ascii_alphanumeric c \<or> c = CHR ''_'' \<or> c = CHR ''-'') k then k
      else toml_basic_string k)"

definition toml_string_array :: "string list \<Rightarrow> string" where
  "toml_string_array items = ''['' @ join_with '', '' (map toml_basic_string items) @ '']''"

definition meta_to_toml_fields ::
  "value_meta_wire \<Rightarrow> (string \<times> string option \<times> string option \<times> string option) option"
where
  "meta_to_toml_fields m =
     (case vmw_type_label m of
        None \<Rightarrow> None
      | Some label \<Rightarrow>
          Some (label, fmlookup (vmw_params m) ''digits'', fmlookup (vmw_params m) ''period'',
                fmlookup (vmw_params m) ''algorithm''))"

definition toml_line :: "string \<Rightarrow> string \<Rightarrow> string" where
  "toml_line k v = k @ '' = '' @ v @ [NLC]"

definition toml_label :: "string \<Rightarrow> string" where
  "toml_label s = [CHR 0x22] @ s @ [CHR 0x22]"

fun serialize_source :: "source_spec_wire \<Rightarrow> string" where
  "serialize_source (SpecCommand c) =
     toml_line ''source'' (toml_label ''command'')
     @ toml_line ''command.argv'' (toml_string_array (csw_argv c))
     @ (case csw_cwd c of None \<Rightarrow> [] | Some cw \<Rightarrow> toml_line ''command.cwd'' (toml_basic_string cw))
     @ concat (map (\<lambda>k. toml_line (''command.env.'' @ toml_bare_or_quoted_key k)
                           (toml_basic_string (the (fmlookup (csw_env c) k)))) (btree_keys (csw_env c)))"
| "serialize_source (SpecOp o') =
     toml_line ''source'' (toml_label ''op'')
     @ toml_line ''op.uri'' (toml_basic_string (osw_uri o'))
     @ (case osw_account o' of None \<Rightarrow> [] | Some a \<Rightarrow> toml_line ''op.account'' (toml_basic_string a))"

definition optional_line :: "string \<Rightarrow> ('a \<Rightarrow> string) \<Rightarrow> 'a option \<Rightarrow> string" where
  "optional_line k f v = (case v of None \<Rightarrow> [] | Some x \<Rightarrow> toml_line k (f x))"

definition serialize_definition :: "kv_definition \<Rightarrow> string" where
  "serialize_definition d =
     ''[kv.'' @ (case kd_namespace d of None \<Rightarrow> DEFAULT_NAMESPACE | Some ns \<Rightarrow> ns) @ ''.'' @ kd_name d @ '']'' @ [NLC]
     @ serialize_source (kd_source d)
     @ optional_line ''soft-ttl'' (\<lambda>n. toml_label (nat_dec n @ ''s'')) (kd_soft_ttl_secs d)
     @ optional_line ''hard-ttl'' (\<lambda>n. toml_label (nat_dec n @ ''s'')) (kd_hard_ttl_secs d)
     @ (case meta_to_toml_fields (kd_meta d) of
          None \<Rightarrow> []
        | Some (ty, digits, period, algorithm) \<Rightarrow>
            toml_line ''type'' (toml_label ty) @ optional_line ''otp-digits'' id digits
            @ optional_line ''otp-period'' id period @ optional_line ''otp-algorithm'' toml_label algorithm)"

definition serialize_definitions :: "kv_definition list \<Rightarrow> string" where
  "serialize_definitions defs =
     join_with [NLC] (map serialize_definition (sort_key (full_key DEFAULT_NAMESPACE) defs))"

subsection \<open>The file\<close>

definition definitions_state_path :: "(string \<Rightarrow> string option) \<Rightarrow> file_path" where
  "definitions_state_path var =
     (path_join (case nonempty (var ''XDG_STATE_HOME'') of
                   Some p \<Rightarrow> p
                 | None \<Rightarrow> path_join (case var ''HOME'' of None \<Rightarrow> [] | Some h \<Rightarrow> h) ''.local/state'')
        ''cache-warden'',
      ''definitions.toml'')"

text \<open>A file is its text and its mode.  \<open>create\<close> sets the mode only of a file that was not there.\<close>

record state_file =
  sf_text :: string
  sf_mode :: nat

type_synonym state_disk = "(file_path, state_file) fmap"

datatype load_error = LoadInvalid defs_fault | LoadUnreadable io_kind

definition load_definitions ::
  "(string \<Rightarrow> string + persist_file) \<Rightarrow> io_kind option \<Rightarrow> file_path \<Rightarrow> state_disk
     \<Rightarrow> load_error + kv_definition list"
where
  "load_definitions toml read_answer file d =
     (case read_answer of
        Some k \<Rightarrow> (if k = IoNotFound then Inr [] else Inl (LoadUnreadable k))
      | None \<Rightarrow>
          (case fmlookup d file of
             None \<Rightarrow> Inr []
           | Some f \<Rightarrow> map_err LoadInvalid (parse_persisted toml (sf_text f))))"

text \<open>\<open>Path::file_stem\<close> of a file name, and \<open>with_extension\<close>.\<close>

definition file_stem :: "string \<Rightarrow> string" where
  "file_stem name =
     (let before = rev (drop 1 (dropWhile (\<lambda>c. c \<noteq> CHR ''.'') (rev name)))
      in if before = [] then name else before)"

definition with_extension :: "file_path \<Rightarrow> string \<Rightarrow> file_path" where
  "with_extension file ext = (fst file, file_stem (snd file) @ ''.'' @ ext)"

definition save_temp :: "nat \<Rightarrow> file_path \<Rightarrow> file_path" where
  "save_temp process_id file = with_extension file (''toml.tmp.'' @ nat_dec process_id)"

definition open_truncated :: "nat \<Rightarrow> file_path \<Rightarrow> state_disk \<Rightarrow> state_disk" where
  "open_truncated md p d =
     fmupd p (case fmlookup d p of None \<Rightarrow> \<lparr>sf_text = [], sf_mode = md\<rparr> | Some f \<Rightarrow> f\<lparr>sf_text := []\<rparr>) d"

definition put_text :: "file_path \<Rightarrow> string \<Rightarrow> state_disk \<Rightarrow> state_disk" where
  "put_text p txt d = (case fmlookup d p of None \<Rightarrow> d | Some f \<Rightarrow> fmupd p (f\<lparr>sf_text := txt\<rparr>) d)"

text \<open>As in the vault's storage: what each system call answers, and the file system after each step.\<close>

definition save_definitions ::
  "sys_answers \<Rightarrow> nat \<Rightarrow> file_path \<Rightarrow> kv_definition list \<Rightarrow> state_disk \<Rightarrow> (io_kind + unit) \<times> state_disk list"
where
  "save_definitions sys process_id file defs d =
     (case sys_create_dir sys of Some k \<Rightarrow> (Inl k, [d])
      | None \<Rightarrow>
          (let body = serialize_definitions defs; tmp = save_temp process_id file in
           case sys_open sys of Some k \<Rightarrow> (Inl k, [d])
           | None \<Rightarrow>
               (let d1 = open_truncated FILE_MODE tmp d;
                    (result, ds) =
                      (case sys_write sys of
                         Some k \<Rightarrow> (Inl k, [d, d1, put_text tmp (take (sys_written sys) body) d1])
                       | None \<Rightarrow>
                           (let d2 = put_text tmp body d1 in
                            case sys_sync sys of Some k \<Rightarrow> (Inl k, [d, d1, d2])
                            | None \<Rightarrow>
                                (case sys_rename sys of Some k \<Rightarrow> (Inl k, [d, d1, d2])
                                 | None \<Rightarrow>
                                     (Inr (), [d, d1, d2, fmupd file (the (fmlookup d2 tmp)) (fmdrop tmp d2)]))))
                in (case result of
                      Inl k \<Rightarrow> (Inl k, ds @ [if sys_remove sys = None then fmdrop tmp (last ds) else last ds])
                    | Inr _ \<Rightarrow> (result, ds)))))"

end
