(* ===== verification/Startup.thy ===== *)
theory Startup
  imports Defs Handler_Values
begin

text \<open>
  How the daemon's registry of definitions comes up (\<open>crates/cache-warden-cli/src/daemon/server.rs\<close>): the
  configuration's definitions, the persisted ones, what a graceful restart carried over, and the state file.
  Warnings on standard error are left out.
\<close>

subsection \<open>Configuration\<close>

definition kd_ttl :: "kv_definition \<Rightarrow> ttl_error + ttl" where
  "kd_ttl d = ttl_new (opt_from_secs (kd_soft_ttl_secs d)) (opt_from_secs (kd_hard_ttl_secs d))"

definition define_entry :: "store \<Rightarrow> kv_definition \<Rightarrow> ttl \<Rightarrow> (define_error + unit) \<times> store" where
  "define_entry s d t =
     define_with_meta s (full_key DEFAULT_NAMESPACE d) (spec_lower (kd_source d)) t (meta_from_wire (kd_meta d))
       (to_source_meta (kd_source d))"

fun eager_run ::
  "store \<Rightarrow> source_runner \<Rightarrow> monotonic \<Rightarrow> string \<Rightarrow> value_source \<Rightarrow> ttl \<Rightarrow> capability \<Rightarrow> store \<times> effect list"
where
  "eager_run s runner now k (Command av cw en) t cap =
     (case runner av cw en of
        Inl _ \<Rightarrow> (s, [Ran av cw en])
      | Inr val \<Rightarrow> (snd (store_set s k (Command av cw en) val t cap now), [Ran av cw en]))"
| "eager_run s runner now k Static t cap =
     (case runner [] None fmempty of
        Inl _ \<Rightarrow> (s, [Ran [] None fmempty])
      | Inr val \<Rightarrow> (snd (store_set s k Static val t cap now), [Ran [] None fmempty]))"

definition register_entry ::
  "store \<Rightarrow> source_runner \<Rightarrow> monotonic \<Rightarrow> string set \<Rightarrow> string set \<Rightarrow> capability \<Rightarrow> kv_definition
     \<Rightarrow> store \<times> effect list"
where
  "register_entry s runner now force_eager already_loaded cap d =
     (case kd_ttl d of
        Inl _ \<Rightarrow> (s, [])
      | Inr t \<Rightarrow>
          (case define_entry s d t of
             (Inl _, s1) \<Rightarrow> (s1, [])
           | (Inr _, s1) \<Rightarrow>
               (let k = full_key DEFAULT_NAMESPACE d in
                if (kd_preload d \<or> k \<in> force_eager) \<and> k \<notin> already_loaded
                then eager_run s1 runner now k (spec_lower (kd_source d)) t cap
                else (s1, []))))"

text \<open>Entry \<open>i\<close> reads the clock as \<open>clk i\<close>.\<close>

fun register_definitions ::
  "store \<Rightarrow> source_runner \<Rightarrow> clock \<Rightarrow> kv_definition list \<Rightarrow> string set \<Rightarrow> string set \<Rightarrow> capability
     \<Rightarrow> store \<times> effect list"
where
  "register_definitions s runner clk [] force_eager already_loaded cap = (s, [])"
| "register_definitions s runner clk (d # ds) force_eager already_loaded cap =
     (let (s1, fx1) = register_entry s runner (clk 0) force_eager already_loaded cap d;
          (s2, fx2) = register_definitions s1 runner (\<lambda>i. clk (Suc i)) ds force_eager already_loaded cap
      in (s2, fx1 @ fx2))"

subsection \<open>What was carried over and what was persisted\<close>

definition clear_config_owned_definitions :: "string list \<Rightarrow> store \<Rightarrow> store" where
  "clear_config_owned_definitions config_names s = fold (\<lambda>k s. snd (undefine s k)) config_names s"

definition restore_persisted_definition :: "string set \<Rightarrow> kv_definition \<Rightarrow> store \<Rightarrow> store" where
  "restore_persisted_definition config_names d s =
     (if full_key DEFAULT_NAMESPACE d \<in> config_names then s
      else (case kd_ttl d of Inl _ \<Rightarrow> s | Inr t \<Rightarrow> snd (define_entry s d t)))"

definition restore_persisted_definitions :: "string set \<Rightarrow> kv_definition list \<Rightarrow> store \<Rightarrow> store" where
  "restore_persisted_definitions config_names persisted s =
     fold (restore_persisted_definition config_names) persisted s"

definition purge_stale_import_definitions :: "string set \<Rightarrow> string set \<Rightarrow> store \<Rightarrow> string list \<times> store" where
  "purge_stale_import_definitions config_names persisted_names s =
     (let stale = filter (\<lambda>k. k \<notin> config_names \<union> persisted_names)
                    (list_filtered s (\<lambda>s k. definition_of s k \<noteq> None))
      in (stale, fold (\<lambda>k s. snd (undefine s k)) stale s))"

subsection \<open>The state file\<close>

record persist_settings =
  ps_path :: file_path
  ps_config_names :: "string set"

definition online_definitions :: "persist_settings \<Rightarrow> store \<Rightarrow> kv_definition list" where
  "online_definitions p s =
     filter (\<lambda>d. full_key DEFAULT_NAMESPACE d \<notin> ps_config_names p) (snapshot_definitions s)"

definition write_online_definitions ::
  "sys_answers \<Rightarrow> nat \<Rightarrow> persist_settings \<Rightarrow> store \<Rightarrow> state_disk \<Rightarrow> state_disk list"
where
  "write_online_definitions sys process_id p s d =
     snd (save_definitions sys process_id (ps_path p) (online_definitions p s) d)"

definition persist_if_enabled ::
  "sys_answers \<Rightarrow> nat \<Rightarrow> persist_settings option \<Rightarrow> store \<Rightarrow> state_disk \<Rightarrow> (io_kind + unit) \<times> state_disk list"
where
  "persist_if_enabled sys process_id p s d =
     (case p of
        None \<Rightarrow> (Inr (), [d])
      | Some settings \<Rightarrow>
          save_definitions sys process_id (ps_path settings) (online_definitions settings s) d)"

subsection \<open>Startup\<close>

text \<open>
  The blocking startup task.  It holds the store's lock throughout, so no request sees a store between
  its steps.  \<open>authsock_keys\<close> are the keys the sockets name.
\<close>

definition restore_from_file ::
  "(string \<Rightarrow> string + persist_file) \<Rightarrow> io_kind option \<Rightarrow> file_path \<Rightarrow> string set \<Rightarrow> store \<Rightarrow> state_disk \<Rightarrow> store"
where
  "restore_from_file toml read_answer file config_names s d =
     (case load_definitions toml read_answer file d of
        Inl _ \<Rightarrow> s
      | Inr persisted \<Rightarrow>
          snd (purge_stale_import_definitions config_names (full_key DEFAULT_NAMESPACE ` set persisted)
            (restore_persisted_definitions config_names persisted s)))"

definition register_config ::
  "source_runner \<Rightarrow> clock \<Rightarrow> kv_definition list \<Rightarrow> string set \<Rightarrow> capability \<Rightarrow> store \<Rightarrow> store \<times> effect list"
where
  "register_config runner clk defs authsock_keys cap s =
     (let already_loaded = set (list_filtered s (\<lambda>s k. has_value s k));
          s1 = clear_config_owned_definitions (map (full_key DEFAULT_NAMESPACE) defs) s
      in register_definitions s1 runner clk defs authsock_keys already_loaded cap)"

record startup_result =
  su_store :: store
  su_effects :: "effect list"
  su_disks :: "state_disk list"
  su_persist :: "persist_settings option"

definition startup ::
  "source_runner \<Rightarrow> clock \<Rightarrow> capability \<Rightarrow> kv_definition list \<Rightarrow> string set \<Rightarrow> bool
     \<Rightarrow> (string \<Rightarrow> string + persist_file) \<Rightarrow> io_kind option \<Rightarrow> sys_answers \<Rightarrow> nat \<Rightarrow> file_path
     \<Rightarrow> store \<Rightarrow> state_disk \<Rightarrow> startup_result"
where
  "startup runner clk cap defs authsock_keys persist_enabled toml read_answer sys process_id file s d =
     (let (s1, fx) = register_config runner clk defs authsock_keys cap s in
      if \<not> persist_enabled then \<lparr>su_store = s1, su_effects = fx, su_disks = [d], su_persist = None\<rparr>
      else
        (let names = set (map (full_key DEFAULT_NAMESPACE) defs);
             s2 = restore_from_file toml read_answer file names s1 d;
             settings = \<lparr>ps_path = file, ps_config_names = names\<rparr>
         in \<lparr>su_store = s2, su_effects = fx, su_disks = write_online_definitions sys process_id settings s2 d,
             su_persist = Some settings\<rparr>))"

end
