(* ===== verification/Config_Props.thy ===== *)
theory Config_Props
  imports Config
begin

text \<open>
  A configuration that passes its validation is used whole: every entry becomes a definition under a key of
  its own, every process policy and every socket is in force, and the sources sockets name exist.
\<close>

lemma first_fault_None: "first_fault fs = None \<longleftrightarrow> (\<forall>f\<in>set fs. f = None)"
proof (induction fs)
  case (Cons f fs)
  then show ?case by (cases f) (simp_all add: first_fault_def)
qed (simp add: first_fault_def)

lemma fault_of_None: "fault_of f r = None \<longleftrightarrow> (\<exists>x. r = Inr x)"
  by (cases r) (simp_all add: fault_of_def)

lemma btree_member: "n \<in> set (btree_keys m) \<longleftrightarrow> (\<exists>e. fmlookup m n = Some e)"
  by (simp add: fmlookup_dom_iff)

lemma map_filter_total:
  assumes "\<And>x. x \<in> set xs \<Longrightarrow> \<exists>y. f x = Some y \<and> g y = x"
  shows "map g (List.map_filter f xs) = xs"
  using assms by (induction xs) (fastforce simp: List.map_filter_simps)+

lemma set_map_filter': "y \<in> set (List.map_filter f xs) \<longleftrightarrow> (\<exists>x\<in>set xs. f x = Some y)"
  by (force simp: List.map_filter_def)

text \<open>What a valid entry is.\<close>

lemma op_not_blank: "starts_with ''op://'' u \<Longrightarrow> \<not> is_blank u"
proof -
  assume "starts_with ''op://'' u"
  then have "u = ''op://'' @ drop (length ''op://'') u"
    using append_take_drop_id [of "length ''op://''" u] unfolding starts_with_def by argo
  then obtain r where "u = ''op://'' @ r" by blast
  then show ?thesis by (simp add: is_blank_def)
qed

lemma build_kv_source_cases:
  assumes "build_kv_source src c o' = Inr spec"
  shows "(\<exists>x. spec = SpecCommand x \<and> csw_argv x \<noteq> [])
    \<or> src = Some ''op'' \<and> (\<exists>x. spec = SpecOp x \<and> starts_with ''op://'' (osw_uri x))"
proof -
  from assms obtain tab k where k: "src = Some k" and tab: "command_of_entry c = Inr tab"
    by (auto simp: build_kv_source_def rbind_Inr split: option.splits)
  note eq = assms [unfolded build_kv_source_def tab k rbind_simps option.case]
  show ?thesis
  proof (cases "k = ''command''")
    case True
    note eq [unfolded if_P [OF True]]
    then show ?thesis by (auto split: option.splits if_split_asm)
  next
    case False
    note eq = eq [unfolded if_not_P [OF False]]
    show ?thesis
    proof (cases "k = ''op''")
      case True
      note eq [unfolded if_P [OF True]]
      with k True show ?thesis by (auto split: option.splits if_split_asm)
    next
      case no: False
      note eq [unfolded if_not_P [OF no]]
      then show ?thesis by simp
    qed
  qed
qed

lemma build_kv_source_valid: "build_kv_source src c o' = Inr spec \<Longrightarrow> spec_validate spec"
  using build_kv_source_cases [of src c o' spec] op_not_blank by auto

lemma build_kv_source_op: "build_kv_source src c o' = Inr (SpecOp x) \<Longrightarrow> src = Some ''op''"
  using build_kv_source_cases [of src c o' "SpecOp x"] by simp

lemma kv_entry_valid:
  assumes "kv_entry_validate n e = Inr d"
  shows "kd_name d = n \<and> is_valid_identifier n \<and> (\<forall>ns. kd_namespace d = Some ns \<longrightarrow> is_valid_identifier ns)
    \<and> spec_validate (kd_source d) \<and> (ke_persist e \<longrightarrow> (\<forall>x. kd_source d \<noteq> SpecOp x))"
  using assms
  by (auto simp: kv_entry_validate_def rbind_Inr split_kv_entry_name_def
      dest: build_kv_source_valid build_kv_source_op split: if_splits prod.splits)

lemma full_key_valid:
  assumes "kv_entry_validate n e = Inr d"
  shows "\<exists>ns. full_key DEFAULT_NAMESPACE d = compose_key ns n \<and> is_valid_identifier ns"
proof -
  have "is_valid_identifier DEFAULT_NAMESPACE" by code_simp
  with kv_entry_valid [OF assms] show ?thesis
    by (cases "kd_namespace d") (auto simp: full_key_def)
qed

lemma compose_key_inject:
  "is_valid_identifier ns \<Longrightarrow> is_valid_identifier n \<Longrightarrow> is_valid_identifier ns' \<Longrightarrow> is_valid_identifier n'
     \<Longrightarrow> compose_key ns n = compose_key ns' n' \<Longrightarrow> ns = ns' \<and> n = n'"
  using split_composed_Some [of "compose_key ns n" ns n] split_composed_Some [of "compose_key ns n" ns' n'] by simp

text \<open>The entries of a file whose content has no fault.\<close>

lemma content_faults:
  assumes "content_fault parsed home cfg = None"
  shows "\<And>n. n \<in> set (btree_keys (cf_kv cfg)) \<Longrightarrow> \<exists>d. kv_entry_validate n (the (fmlookup (cf_kv cfg) n)) = Inr d"
    and "\<And>n. n \<in> set (btree_keys (cf_sources cfg))
      \<Longrightarrow> \<exists>s. source_config_validate n (the (fmlookup (cf_sources cfg) n)) = Inr s"
    and "\<And>n. n \<in> set (btree_keys (cf_sockets cfg))
      \<Longrightarrow> socket_fault parsed home cfg n (the (fmlookup (cf_sockets cfg) n)) = None"
proof -
  note all = assms [unfolded content_fault_def first_fault_None set_append ball_Un set_map ball_simps]
  show "\<exists>d. kv_entry_validate n (the (fmlookup (cf_kv cfg) n)) = Inr d" if "n \<in> set (btree_keys (cf_kv cfg))" for n
  proof -
    have "fault_of (KvError n) (kv_entry_validate n (the (fmlookup (cf_kv cfg) n))) = None"
      using conjunct1 [OF all] that by blast
    then show ?thesis by (simp only: fault_of_None)
  qed
  show "\<exists>s. source_config_validate n (the (fmlookup (cf_sources cfg) n)) = Inr s"
    if "n \<in> set (btree_keys (cf_sources cfg))" for n
  proof -
    have "fault_of id (source_config_validate n (the (fmlookup (cf_sources cfg) n))) = None"
      using conjunct1 [OF conjunct2 [OF all]] that by blast
    then show ?thesis by (simp only: fault_of_None)
  qed
  show "socket_fault parsed home cfg n (the (fmlookup (cf_sockets cfg) n)) = None"
    if "n \<in> set (btree_keys (cf_sockets cfg))" for n
    using conjunct1 [OF conjunct2 [OF conjunct2 [OF all]]] that by blast
qed

lemma validated_entries:
  assumes "content_fault parsed home cfg = None"
  shows "map kd_name (kv_definitions cfg) = btree_keys (cf_kv cfg)"
  unfolding kv_definitions_def
proof (rule map_filter_total)
  fix n assume "n \<in> set (btree_keys (cf_kv cfg))"
  with content_faults(1) [OF assms] obtain d where d: "kv_entry_validate n (the (fmlookup (cf_kv cfg) n)) = Inr d" by blast
  then show "\<exists>d. validated cfg n = Some d \<and> kd_name d = n"
    using kv_entry_valid [OF d] by (simp add: validated_def)
qed

lemma validated_Some: "validated cfg n = Some d \<longleftrightarrow> kv_entry_validate n (the (fmlookup (cf_kv cfg) n)) = Inr d"
  by (simp add: validated_def split: sum.splits)

lemma definition_entry:
  "d \<in> set (kv_definitions cfg) \<longleftrightarrow>
     (\<exists>n e. fmlookup (cf_kv cfg) n = Some e \<and> kv_entry_validate n e = Inr d)"
proof -
  have "d \<in> set (kv_definitions cfg) \<longleftrightarrow> (\<exists>n\<in>set (btree_keys (cf_kv cfg)). validated cfg n = Some d)"
    by (simp only: kv_definitions_def set_map_filter')
  also have "\<dots> \<longleftrightarrow> (\<exists>n e. fmlookup (cf_kv cfg) n = Some e \<and> validated cfg n = Some d)"
    by (simp only: Bex_def btree_member) blast
  also have "\<dots> \<longleftrightarrow> (\<exists>n e. fmlookup (cf_kv cfg) n = Some e \<and> kv_entry_validate n e = Inr d)"
    by (intro ex_cong1 conj_cong) (simp_all add: validated_Some)
  finally show ?thesis .
qed

lemma full_key_names_entry:
  assumes "kv_entry_validate n e = Inr d" and "kv_entry_validate n' e' = Inr d'"
    and "full_key DEFAULT_NAMESPACE d = full_key DEFAULT_NAMESPACE d'"
  shows "n = n'"
proof -
  obtain ns ns' where "full_key DEFAULT_NAMESPACE d = compose_key ns n" "is_valid_identifier ns"
    "full_key DEFAULT_NAMESPACE d' = compose_key ns' n'" "is_valid_identifier ns'"
    using full_key_valid [OF assms(1)] full_key_valid [OF assms(2)] by blast
  with assms(3) compose_key_inject [of ns n ns' n'] kv_entry_valid [OF assms(1)] kv_entry_valid [OF assms(2)]
  show ?thesis by simp
qed

lemma distinct_full_keys:
  assumes "content_fault parsed home cfg = None"
  shows "distinct (map (full_key DEFAULT_NAMESPACE) (kv_definitions cfg))"
proof -
  have "distinct (map kd_name (kv_definitions cfg))" by (simp add: validated_entries [OF assms])
  then have d: "distinct (kv_definitions cfg)" and inj: "inj_on kd_name (set (kv_definitions cfg))"
    by (simp_all add: distinct_map)
  have "inj_on (full_key DEFAULT_NAMESPACE) (set (kv_definitions cfg))"
  proof (rule inj_onI)
    fix d d' assume m: "d \<in> set (kv_definitions cfg)" "d' \<in> set (kv_definitions cfg)"
      and k: "full_key DEFAULT_NAMESPACE d = full_key DEFAULT_NAMESPACE d'"
    from m obtain n e n' e' where v: "kv_entry_validate n e = Inr d" "kv_entry_validate n' e' = Inr d'"
      unfolding definition_entry by blast
    from full_key_names_entry [OF v k] kv_entry_valid [OF v(1)] kv_entry_valid [OF v(2)]
    have "kd_name d = kd_name d'" by simp
    with inj m show "d = d'" by (simp add: inj_on_def)
  qed
  with d show ?thesis by (simp add: distinct_map)
qed

definition policy_of :: "config_file \<Rightarrow> string \<Rightarrow> (string \<times> string list) option" where
  "policy_of cfg n =
     map_option (\<lambda>d. (full_key DEFAULT_NAMESPACE d, ke_allowed_processes (the (fmlookup (cf_kv cfg) n)))) (validated cfg n)"

lemma policies_in_force:
  assumes "fmlookup (cf_kv cfg) n = Some e" and "ke_allowed_processes e \<noteq> []" and "kv_entry_validate n e = Inr d"
  shows "fmlookup (kv_process_policies cfg) (full_key DEFAULT_NAMESPACE d) = Some (ke_allowed_processes e)"
proof -
  let ?ns = "filter (\<lambda>n. ke_allowed_processes (the (fmlookup (cf_kv cfg) n)) \<noteq> []) (btree_keys (cf_kv cfg))"
  let ?ps = "List.map_filter (policy_of cfg) ?ns"
  let ?k = "full_key DEFAULT_NAMESPACE d"
  have n: "n \<in> set ?ns" using assms(1,2) btree_member [of n "cf_kv cfg"] by simp
  have "policy_of cfg n = Some (?k, ke_allowed_processes e)"
    using assms(1,3) by (simp add: policy_of_def validated_Some)
  with n have mem: "(?k, ke_allowed_processes e) \<in> set ?ps" unfolding set_map_filter' by blast
  have one: "v = ke_allowed_processes e" if "(?k, v) \<in> set ?ps" for v
  proof -
    from that obtain n' where n': "n' \<in> set ?ns" "policy_of cfg n' = Some (?k, v)" unfolding set_map_filter' by blast
    then obtain d' where d': "validated cfg n' = Some d'" "full_key DEFAULT_NAMESPACE d' = ?k"
      "v = ke_allowed_processes (the (fmlookup (cf_kv cfg) n'))" by (auto simp: policy_of_def)
    from full_key_names_entry [OF assms(3) d'(1) [unfolded validated_Some]] d'(2) have "n = n'" by simp
    with d'(3) assms(1) show ?thesis by simp
  qed
  from mem obtain v where v: "map_of (rev ?ps) ?k = Some v"
    by (metis set_rev weak_map_of_SomeI)
  then have "(?k, v) \<in> set ?ps" by (metis map_of_SomeD set_rev)
  with one v have "map_of (rev ?ps) ?k = Some (ke_allowed_processes e)" by simp
  then show ?thesis by (simp add: kv_process_policies_def fmlookup_of_list policy_of_def [abs_def])
qed

lemma ok_part: "(case r of Inl _ \<Rightarrow> None | Inr x \<Rightarrow> Some x) = Some s \<longleftrightarrow> r = Inr s"
  by (cases r) simp_all

lemma socket_sources:
  assumes "content_fault parsed home cfg = None"
  shows "map sk_name (authsock_sockets parsed home cfg) = btree_keys (cf_sockets cfg)
    \<and> (\<forall>s\<in>set (authsock_sockets parsed home cfg). \<forall>src. sk_source s = Some src
         \<longrightarrow> (\<exists>a\<in>set (authsock_sources cfg). as_name a = src))"
proof
  have valid: "\<exists>s. socket_config_validate parsed home n (the (fmlookup (cf_sockets cfg) n)) = Inr s
      \<and> sk_name s = n \<and> (\<forall>src. sk_source s = Some src \<longrightarrow> src |\<in>| fmdom (cf_sources cfg))"
    if n: "n \<in> set (btree_keys (cf_sockets cfg))" for n
  proof -
    let ?c = "the (fmlookup (cf_sockets cfg) n)"
    have f: "fault_of id (socket_config_validate parsed home n ?c) = None"
      "(case so_source ?c of None \<Rightarrow> None
        | Some src \<Rightarrow> if src |\<in>| fmdom (cf_sources cfg) then None else Some (SocketSourceUnknown n src)) = None"
      using content_faults(3) [OF assms n] by (simp_all add: socket_fault_def first_fault_None)
    from f(1) obtain s where s: "socket_config_validate parsed home n ?c = Inr s" by (auto simp: fault_of_None)
    then have "sk_name s = n" "sk_source s = so_source ?c"
      by (auto simp: socket_config_validate_def rbind_Inr split: if_splits)
    with s f(2) show ?thesis by (auto split: if_splits)
  qed
  show "map sk_name (authsock_sockets parsed home cfg) = btree_keys (cf_sockets cfg)"
    unfolding authsock_sockets_def by (rule map_filter_total) (use valid in fastforce)
  have source: "\<exists>a\<in>set (authsock_sources cfg). as_name a = src" if "src |\<in>| fmdom (cf_sources cfg)" for src
  proof -
    have n: "src \<in> set (btree_keys (cf_sources cfg))" using that by simp
    from content_faults(2) [OF assms n] obtain a where
      a: "source_config_validate src (the (fmlookup (cf_sources cfg) src)) = Inr a" by blast
    then have "as_name a = src"
      by (auto simp: source_config_validate_def rbind_Inr Let_def split: if_splits option.splits)
    moreover have "a \<in> set (authsock_sources cfg)"
      unfolding authsock_sources_def set_map_filter' using n a by (intro bexI [of _ src]) simp_all
    ultimately show ?thesis by blast
  qed
  show "\<forall>s\<in>set (authsock_sockets parsed home cfg). \<forall>src. sk_source s = Some src
      \<longrightarrow> (\<exists>a\<in>set (authsock_sources cfg). as_name a = src)"
  proof (intro ballI allI impI)
    fix s src assume s: "s \<in> set (authsock_sockets parsed home cfg)" "sk_source s = Some src"
    from s(1) obtain n where "n \<in> set (btree_keys (cf_sockets cfg))"
      "socket_config_validate parsed home n (the (fmlookup (cf_sockets cfg) n)) = Inr s"
      unfolding authsock_sockets_def set_map_filter' ok_part by blast
    with valid [of n] s(2) have "src |\<in>| fmdom (cf_sources cfg)" by auto
    then show "\<exists>a\<in>set (authsock_sources cfg). as_name a = src" by (rule source)
  qed
qed

lemma definition_key_valid:
  "d \<in> set (kv_definitions cfg) \<Longrightarrow> valid_key (full_key DEFAULT_NAMESPACE d)"
  unfolding definition_entry using full_key_valid kv_entry_valid split_composed_valid split_composed_Some by metis


definition plain_entry :: kv_entry_config where
  "plain_entry = \<lparr>ke_source = Some ''command'',
     ke_command = Some (TomlTable [(''argv'', TomlArray [TomlString ''true''])]), ke_op = None, ke_persist = True,
     ke_soft_ttl = Some ''1h'', ke_hard_ttl = Some ''2h'', ke_preload = False, ke_namespace = None, ke_value_type = None,
     ke_otp_digits = None, ke_otp_period = None, ke_otp_algorithm = None, ke_allowed_processes = [''git''],
     ke_value = None, ke_value_stdin = None, ke_static = None\<rparr>"

definition plain_file :: config_file where
  "plain_file = \<lparr>cf_daemon = daemon_config_default, cf_auth = None, cf_kv = fmupd ''T'' plain_entry fmempty,
     cf_sources = fmempty, cf_sockets = fmempty, cf_github = github_config_default,
     cf_cli = \<lparr>cl_default_mode = None, cl_namespace = None\<rparr>,
     cf_kv_policy = \<lparr>kp_default_require_same_user = False, kp_shell_names = None\<rparr>,
     cf_vault = \<lparr>vc_profile = None, vc_path = None, vc_rp_id = None, vc_expected_origins = [], vc_ceremony_listen = None\<rparr>\<rparr>"

lemma white_space_ends:
  "\<forall>w\<in>set white_space. w \<noteq> [] \<and> \<not> is_ascii_alphanumeric (hd w) \<and> \<not> is_ascii_alphanumeric (hd (rev w))"
  by code_simp

lemma strip_any_plain:
  assumes "\<forall>w\<in>set ws. w \<noteq> [] \<and> \<not> is_ascii_alphanumeric (hd w)" and "s = [] \<or> is_ascii_alphanumeric (hd s)"
  shows "strip_any ws n s = s"
proof (cases n)
  case (Suc k)
  have "\<not> str_starts_with s w" if "w \<in> set ws" for w
    using assms that by (cases w; cases s) (auto simp: str_starts_with_def)
  then have "find (str_starts_with s) ws = None" by (simp add: find_None_iff)
  with Suc show ?thesis by simp
qed simp

lemma str_trim_plain:
  assumes "s = [] \<or> is_ascii_alphanumeric (hd s) \<and> is_ascii_alphanumeric (hd (rev s))"
  shows "str_trim s = s"
proof -
  have "strip_any white_space (length s) s = s"
    by (rule strip_any_plain) (use white_space_ends assms in auto)
  moreover have "strip_any (map rev white_space) (length s) (rev s) = rev s"
    by (rule strip_any_plain) (use white_space_ends assms in auto)
  ultimately show ?thesis by (simp add: str_trim_def trim_start_def trim_end_def)
qed

lemma plain_trims:
  "str_trim ''2h'' = ''2h''" "str_trim ''1h'' = ''1h''" "str_trim ''5s'' = ''5s''" "str_trim ''10s'' = ''10s''"
  by (simp_all add: str_trim_plain is_ascii_alphanumeric_def)

lemma plain_durations:
  "parse_duration ''2h'' = Some (from_secs 7200)" "parse_duration ''1h'' = Some (from_secs 3600)"
  "parse_duration ''5s'' = Some (from_secs 5)" "parse_duration ''10s'' = Some (from_secs 10)"
  unfolding parse_duration_def plain_trims
  by (simp_all add: duration_unit_def codes_def parse_unsigned_def Let_def u64_max_def)

lemma plain_entry_valid: "kv_entry_validate ''T'' plain_entry =
      Inr \<lparr>kd_name = ''T'', kd_namespace = None,
           kd_source = SpecCommand \<lparr>csw_argv = [''true''], csw_cwd = None, csw_env = fmempty\<rparr>,
           kd_soft_ttl_secs = Some 3600, kd_hard_ttl_secs = Some 7200, kd_preload = False,
           kd_meta = \<lparr>vmw_type_label = None, vmw_params = fmempty\<rparr>\<rparr>"
    by (simp add: kv_entry_validate_def plain_entry_def build_kv_source_def command_of_entry_def command_table_of_def
        optional_field_def toml_strings_def parse_ttl_def plain_durations build_kv_meta_def split_kv_entry_name_def
        is_valid_identifier_def is_ascii_alphanumeric_def as_secs_def from_secs_def rbind_def)

lemma plain_file_accepted: "config_parse (\<lambda>_. Inr plain_file) (\<lambda>_. True) None txt = Inr plain_file"
proof -
  have "content_fault (\<lambda>_. True) None plain_file = None"
    unfolding content_fault_def first_fault_None
    by (simp add: plain_file_def plain_entry_valid fault_of_def btree_keys_def plain_durations github_config_default_def
        daemon_config_default_def)
  then show ?thesis by (simp add: config_parse_def)
qed


end
