(* ===== verification/Startup_Props.thy ===== *)
theory Startup_Props
  imports Startup Config_Props
begin

text \<open>
  The registry at startup: the configuration wins, a carried-over value stays, the state file is replaced
  whole, and the persisted definitions come back as they were.
\<close>

subsection \<open>The state file\<close>

lemma file_stem_ext: "file_stem name @ ''.'' @ ext = name \<Longrightarrow> CHR ''.'' \<notin> set ext"
proof
  assume n: "file_stem name @ ''.'' @ ext = name" and dot: "CHR ''.'' \<in> set ext"
  let ?P = "\<lambda>c. c \<noteq> CHR ''.''"
  have "length (file_stem name) < length name" using arg_cong [OF n, of length] by simp
  then have "file_stem name \<noteq> name" by auto
  then have stem: "file_stem name = rev (drop 1 (dropWhile ?P (rev name)))"
    by (auto simp: file_stem_def Let_def)
  have "rev name = rev ext @ CHR ''.'' # rev (file_stem name)"
    using arg_cong [OF n, of rev] by simp
  moreover have "dropWhile ?P (rev ext @ xs) = dropWhile ?P (rev ext) @ xs" for xs
    using dot by (intro dropWhile_append1 [of "CHR ''.''"]) simp_all
  moreover have "dropWhile ?P (rev ext) \<noteq> []" using dot by (auto simp: dropWhile_eq_Nil_conv)
  ultimately have "length (file_stem name) = length (dropWhile ?P (rev ext)) - 1 + 1 + length (file_stem name)"
    by (subst (1) stem) (simp add: Suc_leI)
  with \<open>dropWhile ?P (rev ext) \<noteq> []\<close> show False by simp
qed

lemma save_temp_other: "save_temp n file \<noteq> file"
proof
  assume "save_temp n file = file"
  then have "file_stem (snd file) @ ''.'' @ (''toml.tmp.'' @ nat_dec n) = snd file"
    unfolding save_temp_def with_extension_def by (metis snd_conv)
  from file_stem_ext [OF this] show False by simp
qed

lemma open_truncated_lookup:
  "q \<noteq> p \<Longrightarrow> fmlookup (open_truncated md p d) q = fmlookup d q"
  "\<exists>f. fmlookup (open_truncated md p d) p = Some f \<and> (fmlookup d p = None \<longrightarrow> sf_mode f = md)"
  by (auto simp: open_truncated_def split: option.splits)

lemma put_text_lookup:
  "q \<noteq> p \<Longrightarrow> fmlookup (put_text p txt d) q = fmlookup d q"
  "fmlookup (put_text p txt d) p = map_option (\<lambda>f. f\<lparr>sf_text := txt\<rparr>) (fmlookup d p)"
  by (auto simp: put_text_def split: option.splits)

lemma save_steps:
  assumes "save_definitions sys n file defs d = (r, ds)"
  shows "\<exists>f. sf_text f = serialize_definitions defs
    \<and> (fmlookup d (save_temp n file) = None \<longrightarrow> sf_mode f = FILE_MODE)
    \<and> (\<forall>s\<in>set ds. fmlookup s file = fmlookup d file \<or> fmlookup s file = Some f)
    \<and> fmlookup (last ds) file = (if r = Inr () then Some f else fmlookup d file)
    \<and> (r = Inr () \<longrightarrow> fmlookup (last ds) (save_temp n file) = None)
    \<and> (\<forall>s\<in>set ds. \<forall>q. q \<noteq> file \<longrightarrow> q \<noteq> save_temp n file \<longrightarrow> fmlookup s q = fmlookup d q)"
proof -
  let ?t = "save_temp n file"
  let ?d1 = "open_truncated FILE_MODE ?t d"
  let ?body = "serialize_definitions defs"
  obtain g where g: "fmlookup ?d1 ?t = Some g" "fmlookup d ?t = None \<longrightarrow> sf_mode g = FILE_MODE"
    using open_truncated_lookup(2) by blast
  note other = save_temp_other [of n "file"] save_temp_other [of n "file", symmetric]
  note look = other g(1) open_truncated_lookup(1) put_text_lookup
  show ?thesis
    by (rule exI [of _ "g\<lparr>sf_text := ?body\<rparr>"])
      (use assms g(2) in \<open>auto simp: save_definitions_def Let_def look split: option.splits if_splits\<close>)
qed

lemma save_definitions_result:
  "save_definitions sys n file defs d = (Inr (), ds)
     \<Longrightarrow> map_option sf_text (fmlookup (last ds) file) = Some (serialize_definitions defs)"
  using save_steps by fastforce

text \<open>
  Property C19.  The state file is replaced whole or not at all: after each step of a save, whatever
  the system calls answer, it is the old file or has the complete new text, in a file only its owner
  may read (provided the temporary file is a new one); it is the new one exactly when the save
  succeeds; and no other file but the temporary one is touched, which a successful save leaves no
  trace of.
\<close>

theorem state_file_is_replaced_whole:
  assumes "save_definitions sys n file defs d = (r, ds)"
  shows "\<exists>f. sf_text f = serialize_definitions defs
    \<and> (fmlookup d (save_temp n file) = None \<longrightarrow> sf_mode f = FILE_MODE)
    \<and> (\<forall>s\<in>set ds. fmlookup s file = fmlookup d file \<or> fmlookup s file = Some f)
    \<and> fmlookup (last ds) file = (if r = Inr () then Some f else fmlookup d file)
    \<and> (r = Inr () \<longrightarrow> fmlookup (last ds) (save_temp n file) = None)
    \<and> (\<forall>s\<in>set ds. \<forall>q. q \<noteq> file \<longrightarrow> q \<noteq> save_temp n file \<longrightarrow> fmlookup s q = fmlookup d q)"
  using assms by (rule save_steps)

subsection \<open>Definitions made of entries\<close>

definition made_of :: "kv_definition \<Rightarrow> ttl \<Rightarrow> definition_record" where
  "made_of d t =
     \<lparr>def_source = spec_lower (kd_source d), def_ttl = t, def_meta = meta_from_wire (kd_meta d),
      def_source_meta = to_source_meta (kd_source d)\<rparr>"

text \<open>The registry a list of entries asks for: the first one for a key, among those with ordered lifetimes.\<close>

definition made_all :: "kv_definition list \<Rightarrow> (string \<times> definition_record) list" where
  "made_all ds =
     List.map_filter (\<lambda>d. case kd_ttl d of
         Inl _ \<Rightarrow> None | Inr t \<Rightarrow> Some (full_key DEFAULT_NAMESPACE d, made_of d t)) ds"

lemma made_all_simps [simp]:
  "made_all [] = []"
  "made_all (d # ds) = (case kd_ttl d of Inl _ \<Rightarrow> made_all ds
     | Inr t \<Rightarrow> (full_key DEFAULT_NAMESPACE d, made_of d t) # made_all ds)"
  by (simp_all add: made_all_def List.map_filter_simps split: sum.splits)

lemma spec_lower_regenerable: "is_regenerable (spec_lower sp)"
  by (cases sp) (simp_all add: command_with_def command_source_def)

lemma define_entry_store:
  "snd (define_entry s d t) =
     (if valid_key (full_key DEFAULT_NAMESPACE d) \<and> definition_of s (full_key DEFAULT_NAMESPACE d) = None
      then s\<lparr>definitions := fmupd (full_key DEFAULT_NAMESPACE d) (made_of d t) (definitions s)\<rparr> else s)"
  by (simp add: define_entry_def define_with_meta_def validate_key_syntax_cases definition_new_cases
      spec_lower_regenerable def_with_meta_def def_with_source_meta_def made_of_def definition_of_def Let_def
      split: option.split)

lemma define_entry_definition:
  "definition_of (snd (define_entry s d t)) k =
     (if valid_key k \<and> definition_of s k = None then map_of [(full_key DEFAULT_NAMESPACE d, made_of d t)] k
      else definition_of s k)"
  by (auto simp: define_entry_store) (auto simp: definition_of_def)

text \<open>The other fields.\<close>

definition same_but_definitions :: "store \<Rightarrow> store \<Rightarrow> bool" where
  "same_but_definitions s s' \<longleftrightarrow> s'\<lparr>definitions := definitions s\<rparr> = s"

lemma same_fields:
  assumes "same_but_definitions s s'"
  shows "entries s' = entries s" "access_guards s' = access_guards s" "access_token s' = access_token s"
    "owners s' = owners s" "versions s' = versions s" "failure_backoffs s' = failure_backoffs s"
  using assms by (auto simp: same_but_definitions_def dest: arg_cong [of _ _ entries] arg_cong [of _ _ access_guards]
      arg_cong [of _ _ access_token] arg_cong [of _ _ owners] arg_cong [of _ _ versions]
      arg_cong [of _ _ failure_backoffs])

lemma same_trans: "same_but_definitions a b \<Longrightarrow> same_but_definitions b c \<Longrightarrow> same_but_definitions a c"
  by (cases a; cases b; cases c) (simp add: same_but_definitions_def)

lemma define_entry_fields: "same_but_definitions s (snd (define_entry s d t))"
  by (simp add: same_but_definitions_def define_entry_store)

lemma restore_one_fields: "same_but_definitions s (restore_persisted_definition N d s)"
  by (simp add: restore_persisted_definition_def define_entry_fields split: sum.split)
    (simp add: same_but_definitions_def)

lemma restore_fields: "same_but_definitions s (restore_persisted_definitions N ps s)"
proof (induction ps arbitrary: s)
  case (Cons p ps)
  from same_trans [OF restore_one_fields [of s N p] Cons [of "restore_persisted_definition N p s"]] show ?case
    by (simp add: restore_persisted_definitions_def)
qed (simp add: restore_persisted_definitions_def same_but_definitions_def)

lemma restore_one_definition:
  "definition_of (restore_persisted_definition N d s) k =
     (if k \<notin> N \<and> valid_key k \<and> definition_of s k = None then map_of (made_all [d]) k else definition_of s k)"
  by (auto simp: restore_persisted_definition_def define_entry_definition split: sum.split)

lemma restore_definition:
  "definition_of (restore_persisted_definitions N ps s) k =
     (if k \<notin> N \<and> valid_key k \<and> definition_of s k = None then map_of (made_all ps) k else definition_of s k)"
proof (induction ps arbitrary: s)
  case (Cons p ps)
  have "definition_of (restore_persisted_definitions N (p # ps) s) k =
      definition_of (restore_persisted_definitions N ps (restore_persisted_definition N p s)) k"
    by (simp add: restore_persisted_definitions_def)
  also have "\<dots> = (if k \<notin> N \<and> valid_key k \<and> definition_of s k = None then map_of (made_all (p # ps)) k
      else definition_of s k)"
    unfolding Cons restore_one_definition by (auto split: sum.split)
  finally show ?case .
qed (simp add: restore_persisted_definitions_def)

subsection \<open>The configuration's definitions\<close>

lemma eager_run_fields:
  assumes "is_regenerable src"
  shows "definitions (fst (eager_run s r now k src t cap)) = definitions s"
    and "access_guards (fst (eager_run s r now k src t cap)) = access_guards s"
    and "k' \<noteq> k \<Longrightarrow> fmlookup (entries (fst (eager_run s r now k src t cap))) k' = fmlookup (entries s) k'"
    and "snd (eager_run s r now k src t cap) = (case src of Command av cw en \<Rightarrow> [Ran av cw en] | Static \<Rightarrow> [])"
  using assms by (cases src; auto simp: store_set_def split: sum.splits)+

lemma register_entry_definition:
  "definition_of (fst (register_entry s r now F A cap d)) k =
     (if valid_key k \<and> definition_of s k = None then map_of (made_all [d]) k else definition_of s k)"
proof (cases "kd_ttl d")
  case (Inr t)
  have "definition_of (fst (register_entry s r now F A cap d)) k = definition_of (snd (define_entry s d t)) k"
    by (simp add: register_entry_def Inr Let_def definition_of_def eager_run_fields(1) [OF spec_lower_regenerable]
        split: prod.split sum.split)
  then show ?thesis by (simp add: define_entry_definition Inr)
qed (simp add: register_entry_def)

lemma register_entry_rest:
  "access_guards (fst (register_entry s r now F A cap d)) = access_guards s"
  "k \<in> A \<or> k \<noteq> full_key DEFAULT_NAMESPACE d
     \<Longrightarrow> fmlookup (entries (fst (register_entry s r now F A cap d))) k = fmlookup (entries s) k"
proof -
  have *: "access_guards (fst (register_entry s r now F A cap d)) = access_guards s
    \<and> (k \<in> A \<or> k \<noteq> full_key DEFAULT_NAMESPACE d \<longrightarrow>
         fmlookup (entries (fst (register_entry s r now F A cap d))) k = fmlookup (entries s) k)"
  proof (cases "kd_ttl d")
    case (Inr t)
    obtain res s1 where de: "define_entry s d t = (res, s1)" by fastforce
    from same_fields [OF define_entry_fields [of s d t]] de
    have "entries s1 = entries s" "access_guards s1 = access_guards s" by simp_all
    then show ?thesis
      by (cases res; cases "k = full_key DEFAULT_NAMESPACE d")
        (auto simp: register_entry_def Inr de Let_def eager_run_fields [OF spec_lower_regenerable])
  qed (simp add: register_entry_def)
  then show "access_guards (fst (register_entry s r now F A cap d)) = access_guards s" by simp
  show "fmlookup (entries (fst (register_entry s r now F A cap d))) k = fmlookup (entries s) k"
    if "k \<in> A \<or> k \<noteq> full_key DEFAULT_NAMESPACE d"
    using * that by simp
qed

text \<open>A command that ran is the source of an entry that is eager and had no value.\<close>

definition eager_command :: "string set \<Rightarrow> string set \<Rightarrow> kv_definition \<Rightarrow> effect \<Rightarrow> bool" where
  "eager_command F A d fx \<longleftrightarrow>
     (kd_preload d \<or> full_key DEFAULT_NAMESPACE d \<in> F) \<and> full_key DEFAULT_NAMESPACE d \<notin> A
     \<and> (\<exists>av cw en. spec_lower (kd_source d) = Command av cw en \<and> fx = Ran av cw en)"

lemma register_entry_effects:
  "fx \<in> set (snd (register_entry s r now F A cap d)) \<Longrightarrow> eager_command F A d fx"
  using spec_lower_regenerable [of "kd_source d"]
  by (auto simp: register_entry_def Let_def eager_run_fields [OF spec_lower_regenerable] eager_command_def
      split: sum.splits prod.splits if_splits value_source.splits)

lemma register_Cons:
  "fst (register_definitions s r clk (d # ds) F A cap) =
     fst (register_definitions (fst (register_entry s r (clk 0) F A cap d)) r (\<lambda>i. clk (Suc i)) ds F A cap)"
  "snd (register_definitions s r clk (d # ds) F A cap) =
     snd (register_entry s r (clk 0) F A cap d)
     @ snd (register_definitions (fst (register_entry s r (clk 0) F A cap d)) r (\<lambda>i. clk (Suc i)) ds F A cap)"
  by (simp_all add: Let_def split: prod.split)

lemma register_definition:
  "definition_of (fst (register_definitions s r clk ds F A cap)) k =
     (if valid_key k \<and> definition_of s k = None then map_of (made_all ds) k else definition_of s k)"
proof (induction ds arbitrary: s clk)
  case (Cons d ds)
  show ?case unfolding register_Cons Cons register_entry_definition by (auto split: sum.split)
qed simp

lemma register_rest:
  "access_guards (fst (register_definitions s r clk ds F A cap)) = access_guards s"
  "k \<in> A \<or> k \<notin> full_key DEFAULT_NAMESPACE ` set ds
     \<Longrightarrow> fmlookup (entries (fst (register_definitions s r clk ds F A cap))) k = fmlookup (entries s) k"
  "fx \<in> set (snd (register_definitions s r clk ds F A cap)) \<Longrightarrow> \<exists>d\<in>set ds. eager_command F A d fx"
proof (induction ds arbitrary: s clk)
  case (Cons d ds)
  { case 1 show ?case unfolding register_Cons Cons(1) register_entry_rest .. }
  { case 2
    then show ?case unfolding register_Cons by (subst Cons(2)) (auto intro: register_entry_rest(2)) }
  { case 3
    then show ?case unfolding register_Cons using Cons(3) register_entry_effects by fastforce }
qed simp_all

subsection \<open>Clearing and purging\<close>

lemma undefine_all:
  defines "undef ks s \<equiv> fold (\<lambda>k s. snd (undefine s k)) ks s"
  shows "definition_of (undef ks s) k = (if k \<in> set ks then None else definition_of s k)"
    and "guard_of (undef ks s) k = (if k \<in> set ks then None else guard_of s k)"
    and "entries (undef ks s) = entries s"
  unfolding undef_def by (induction ks arbitrary: s) (auto simp: undefine_def definition_of_def guard_of_def)

lemma set_list_filtered: "set (list_filtered s P) = {k \<in> fset (fmdom (entries s)) \<union> fset (fmdom (definitions s)). P s k}"
  by (auto simp: list_filtered_def known_keys_def)

lemma purge_members:
  "k \<in> set (fst (purge_stale_import_definitions N P s)) \<longleftrightarrow> definition_of s k \<noteq> None \<and> k \<notin> N \<and> k \<notin> P"
  by (auto simp: purge_stale_import_definitions_def Let_def set_list_filtered definition_of_def fmlookup_dom_iff)

lemma purge_lookup:
  "definition_of (snd (purge_stale_import_definitions N P s)) k = (if k \<in> N \<or> k \<in> P then definition_of s k else None)"
  "guard_of (snd (purge_stale_import_definitions N P s)) k =
     (if definition_of s k \<noteq> None \<and> k \<notin> N \<and> k \<notin> P then None else guard_of s k)"
  "entries (snd (purge_stale_import_definitions N P s)) = entries s"
proof -
  have eq: "snd (purge_stale_import_definitions N P s) =
      fold (\<lambda>k s. snd (undefine s k)) (fst (purge_stale_import_definitions N P s)) s"
    by (simp add: purge_stale_import_definitions_def Let_def)
  show "definition_of (snd (purge_stale_import_definitions N P s)) k = (if k \<in> N \<or> k \<in> P then definition_of s k else None)"
    unfolding eq undefine_all purge_members by auto
  show "guard_of (snd (purge_stale_import_definitions N P s)) k =
     (if definition_of s k \<noteq> None \<and> k \<notin> N \<and> k \<notin> P then None else guard_of s k)"
    unfolding eq undefine_all purge_members ..
  show "entries (snd (purge_stale_import_definitions N P s)) = entries s"
    unfolding eq undefine_all ..
qed

subsection \<open>Startup\<close>

lemma register_config_cases:
  "definition_of (fst (register_config r clk ds F cap s)) k =
     (if k \<in> full_key DEFAULT_NAMESPACE ` set ds then (if valid_key k then map_of (made_all ds) k else None)
      else definition_of s k)"
  "guard_of (fst (register_config r clk ds F cap s)) k =
     (if k \<in> full_key DEFAULT_NAMESPACE ` set ds then None else guard_of s k)"
  "has_value s k \<or> k \<notin> full_key DEFAULT_NAMESPACE ` set ds
     \<Longrightarrow> fmlookup (entries (fst (register_config r clk ds F cap s))) k = fmlookup (entries s) k"
  "fx \<in> set (snd (register_config r clk ds F cap s)) \<Longrightarrow> \<exists>d\<in>set ds. eager_command F {k. has_value s k} d fx"
proof -
  have loaded: "set (list_filtered s (\<lambda>s k. has_value s k)) = {k. has_value s k}"
    by (auto simp: set_list_filtered has_value_def fmlookup_dom_iff)
  have none: "map_of (made_all ds) k = None" if "k \<notin> full_key DEFAULT_NAMESPACE ` set ds"
    using that by (induction ds) (auto split: sum.split)
  note defs = register_config_def Let_def loaded clear_config_owned_definitions_def
  show "definition_of (fst (register_config r clk ds F cap s)) k =
     (if k \<in> full_key DEFAULT_NAMESPACE ` set ds then (if valid_key k then map_of (made_all ds) k else None)
      else definition_of s k)"
    unfolding defs register_definition undefine_all set_map using none by auto
  show "guard_of (fst (register_config r clk ds F cap s)) k =
     (if k \<in> full_key DEFAULT_NAMESPACE ` set ds then None else guard_of s k)"
    unfolding defs guard_of_def register_rest by (simp only: undefine_all(2) [unfolded guard_of_def] set_map)
  show "fmlookup (entries (fst (register_config r clk ds F cap s))) k = fmlookup (entries s) k"
    if "has_value s k \<or> k \<notin> full_key DEFAULT_NAMESPACE ` set ds"
    unfolding defs by (subst register_rest(2)) (use that in \<open>auto simp: undefine_all(3)\<close>)
  show "\<exists>d\<in>set ds. eager_command F {k. has_value s k} d fx" if "fx \<in> set (snd (register_config r clk ds F cap s))"
    using that unfolding defs by (rule register_rest(3))
qed

lemma made_all_distinct:
  assumes "distinct (map (full_key DEFAULT_NAMESPACE) ds)" and "d \<in> set ds"
  shows "map_of (made_all ds) (full_key DEFAULT_NAMESPACE d) =
     (case kd_ttl d of Inl _ \<Rightarrow> None | Inr t \<Rightarrow> Some (made_of d t))"
proof -
  have none: "map_of (made_all es) k = None" if "k \<notin> full_key DEFAULT_NAMESPACE ` set es" for es k
    using that by (induction es) (auto split: sum.split)
  show ?thesis using assms
  proof (induction ds)
    case (Cons e es)
    have "full_key DEFAULT_NAMESPACE d \<noteq> full_key DEFAULT_NAMESPACE e" if "d \<in> set es"
      using Cons.prems that by (metis distinct.simps(2) imageI list.simps(9) set_map)
    with Cons show ?case using none [of "full_key DEFAULT_NAMESPACE e" es]
      by (cases "d = e") (auto split: sum.split)
  qed simp
qed

lemma startup_fields:
  "su_effects (startup r clk cap ds F en toml ra sys n p s d) = snd (register_config r clk ds F cap s)"
  "su_store (startup r clk cap ds F en toml ra sys n p s d) =
     (let s1 = fst (register_config r clk ds F cap s) in
      if en then restore_from_file toml ra p (full_key DEFAULT_NAMESPACE ` set ds) s1 d else s1)"
  by (auto simp: startup_def Let_def split: prod.split)

lemma restore_from_file_cases:
  "definition_of (restore_from_file toml ra p N s d) k =
     (case load_definitions toml ra p d of
        Inl _ \<Rightarrow> definition_of s k
      | Inr ps \<Rightarrow>
          (if k \<in> N then definition_of s k
           else if k \<in> full_key DEFAULT_NAMESPACE ` set ps then
             (if valid_key k \<and> definition_of s k = None then map_of (made_all ps) k else definition_of s k)
           else None))"
  "guard_of (restore_from_file toml ra p N s d) k = guard_of s k \<or>
     k \<notin> N \<and> guard_of (restore_from_file toml ra p N s d) k = None"
  "entries (restore_from_file toml ra p N s d) = entries s"
proof -
  show "definition_of (restore_from_file toml ra p N s d) k =
     (case load_definitions toml ra p d of
        Inl _ \<Rightarrow> definition_of s k
      | Inr ps \<Rightarrow>
          (if k \<in> N then definition_of s k
           else if k \<in> full_key DEFAULT_NAMESPACE ` set ps then
             (if valid_key k \<and> definition_of s k = None then map_of (made_all ps) k else definition_of s k)
           else None))"
    by (simp add: restore_from_file_def purge_lookup restore_definition split: sum.split)
  show "guard_of (restore_from_file toml ra p N s d) k = guard_of s k \<or>
     k \<notin> N \<and> guard_of (restore_from_file toml ra p N s d) k = None"
    by (simp add: restore_from_file_def purge_lookup split: sum.split)
      (simp add: guard_of_def same_fields [OF restore_fields])
  show "entries (restore_from_file toml ra p N s d) = entries s"
    by (simp add: restore_from_file_def purge_lookup same_fields [OF restore_fields] split: sum.split)
qed

text \<open>
  Property C14.  What a start does to the registry, whether the store is empty or came over in a
  graceful restart, and whatever the state file holds.  The configuration always wins: each of its
  keys has exactly the configuration's definition, or none if its lifetimes are out of order.  Every
  other key is as it was, unless a readable state file is there: then a key the file does not name
  loses its definition, one it names keeps the definition it had, or gets the file's.  A value that
  is there stays, and a command runs only for an eager entry of the configuration whose key had no
  value.
\<close>

theorem config_wins_at_startup:
  assumes "config_parse toml_cfg parsed home txt = Inr cfg"
    and "r = startup runner clk cap (kv_definitions cfg) socket_keys enabled toml ra sys n p s d"
  shows "(\<forall>e\<in>set (kv_definitions cfg). definition_of (su_store r) (full_key DEFAULT_NAMESPACE e) =
           (case kd_ttl e of Inl _ \<Rightarrow> None | Inr t \<Rightarrow> Some (made_of e t)))
    \<and> (\<forall>k. k \<notin> full_key DEFAULT_NAMESPACE ` set (kv_definitions cfg) \<longrightarrow>
         definition_of (su_store r) k =
           (case if enabled then load_definitions toml ra p d else Inl (LoadUnreadable OtherIo) of
              Inl _ \<Rightarrow> definition_of s k
            | Inr ps \<Rightarrow>
                (if k \<notin> full_key DEFAULT_NAMESPACE ` set ps then None
                 else if definition_of s k \<noteq> None then definition_of s k
                 else if valid_key k then map_of (made_all ps) k else None)))
    \<and> (\<forall>k. has_value s k \<longrightarrow> fmlookup (entries (su_store r)) k = fmlookup (entries s) k)
    \<and> (\<forall>fx\<in>set (su_effects r). \<exists>e\<in>set (kv_definitions cfg). eager_command socket_keys {k. has_value s k} e fx)"
proof -
  let ?ds = "kv_definitions cfg"
  let ?N = "full_key DEFAULT_NAMESPACE ` set ?ds"
  let ?s1 = "fst (register_config runner clk ?ds socket_keys cap s)"
  have ok: "content_fault parsed home cfg = None"
    using assms(1) by (auto simp: config_parse_def split: sum.splits option.splits)
  have valid: "valid_key (full_key DEFAULT_NAMESPACE e)" if "e \<in> set ?ds" for e
    using that definition_key_valid by blast
  note store = startup_fields(2) [of runner clk cap ?ds socket_keys enabled toml ra sys n p s d, folded assms(2), unfolded Let_def]
  note made = made_all_distinct [OF distinct_full_keys [OF ok]]
  have "definition_of (su_store r) (full_key DEFAULT_NAMESPACE e) =
      (case kd_ttl e of Inl _ \<Rightarrow> None | Inr t \<Rightarrow> Some (made_of e t))" if "e \<in> set ?ds" for e
    using that valid [OF that] made [OF that]
    by (simp add: store restore_from_file_cases register_config_cases split: sum.split)
  moreover have "definition_of (su_store r) k =
      (case if enabled then load_definitions toml ra p d else Inl (LoadUnreadable OtherIo) of
         Inl _ \<Rightarrow> definition_of s k
       | Inr ps \<Rightarrow>
           (if k \<notin> full_key DEFAULT_NAMESPACE ` set ps then None
            else if definition_of s k \<noteq> None then definition_of s k
            else if valid_key k then map_of (made_all ps) k else None))" if "k \<notin> ?N" for k
    using that by (auto simp: store restore_from_file_cases register_config_cases split: sum.split)
  moreover have "fmlookup (entries (su_store r)) k = fmlookup (entries s) k" if "has_value s k" for k
    using that by (simp add: store restore_from_file_cases register_config_cases)
  moreover have "\<exists>e\<in>set ?ds. eager_command socket_keys {k. has_value s k} e fx" if "fx \<in> set (su_effects r)" for fx
    using that register_config_cases(4) by (simp add: assms(2) startup_fields(1))
  ultimately show ?thesis by blast
qed

text \<open>
  A guard does not come through: the key of a configured definition has no guard after a start, although
  the value it protected is carried over, because the clearing of the old definition drops the guard too.
\<close>

lemma start_drops_guards:
  assumes "e \<in> set ds"
  shows "guard_of (su_store (startup runner clk cap ds socket_keys enabled toml ra sys n p s d))
           (full_key DEFAULT_NAMESPACE e) = None"
proof -
  have "guard_of (fst (register_config runner clk ds socket_keys cap s)) (full_key DEFAULT_NAMESPACE e) = None"
    using assms by (simp add: register_config_cases)
  then show ?thesis
    using restore_from_file_cases(2) [of toml ra p "full_key DEFAULT_NAMESPACE ` set ds"
        "fst (register_config runner clk ds socket_keys cap s)" d "full_key DEFAULT_NAMESPACE e"]
    by (auto simp: startup_fields Let_def)
qed

subsection \<open>Persisted definitions come back\<close>

lemma secs_roundtrip: "map_option as_secs (opt_from_secs n) = n"
  by (cases n) (simp_all add: opt_from_secs_def as_secs_def from_secs_def)

lemma secs_of_secs: "n = opt_from_secs m \<Longrightarrow> opt_from_secs (map_option as_secs n) = n"
  by (simp add: secs_roundtrip)

lemma meta_roundtrip: "meta_from_wire (meta_to_wire (meta_from_wire m)) = meta_from_wire m"
  by (simp add: meta_from_wire_def meta_to_wire_def value_meta_new_def split: option.split)

lemma kd_ttl_parts:
  "kd_ttl e = Inr t \<Longrightarrow> ttl_soft t = opt_from_secs (kd_soft_ttl_secs e) \<and> ttl_hard t = opt_from_secs (kd_hard_ttl_secs e)"
  by (auto simp: kd_ttl_def ttl_new_def split: option.splits if_splits)

text \<open>A definition the daemon can write down: one made of an entry whose source the metadata slot can carry.\<close>

definition recordable :: "string \<Rightarrow> definition_record \<Rightarrow> bool" where
  "recordable k x \<longleftrightarrow>
     split_composed k \<noteq> None
     \<and> (\<exists>e t. plain_spec (kd_source e) \<and> kd_ttl e = Inr t \<and> x = made_of e t)"

lemma snapshot_recordable:
  assumes "definition_of s k = Some x" and "recordable k x"
  shows "\<exists>e t. recorded_definition s k = Some e \<and> full_key DEFAULT_NAMESPACE e = k
    \<and> kd_ttl e = Inr t \<and> made_of e t = x"
proof -
  from assms(2) obtain ns n e t where k: "split_composed k = Some (ns, n)" and e: "plain_spec (kd_source e)"
    "kd_ttl e = Inr t" "x = made_of e t" by (auto simp: recordable_def)
  let ?e = "\<lparr>kd_name = n, kd_namespace = Some ns, kd_source = kd_source e, kd_soft_ttl_secs = kd_soft_ttl_secs e,
    kd_hard_ttl_secs = kd_hard_ttl_secs e, kd_preload = False, kd_meta = meta_to_wire (meta_from_wire (kd_meta e))\<rparr>"
  have "recorded_definition s k = Some ?e"
    using assms(1) k e kd_ttl_parts [OF e(2)]
    by (simp add: recorded_definition_def made_of_def source_meta_roundtrip [THEN iffD2] secs_roundtrip)
  moreover have "full_key DEFAULT_NAMESPACE ?e = k" using k by (simp add: full_key_def split_composed_Some)
  moreover have "kd_ttl ?e = Inr t" using e(2) by (simp add: kd_ttl_def)
  moreover have "made_of ?e t = x" using e(3) by (simp add: made_of_def meta_roundtrip)
  ultimately show ?thesis by blast
qed

lemma map_of_unique:
  assumes "(k, x) \<in> set xs" and "\<And>y. (k, y) \<in> set xs \<Longrightarrow> y = x"
  shows "map_of xs k = Some x"
  using assms by (metis map_of_SomeD weak_map_of_SomeI)

lemma set_made_all:
  "(k, x) \<in> set (made_all ds) \<longleftrightarrow>
     (\<exists>e\<in>set ds. \<exists>t. full_key DEFAULT_NAMESPACE e = k \<and> kd_ttl e = Inr t \<and> made_of e t = x)"
  by (induction ds) (auto split: sum.split)


text \<open>
  A state file that does not parse is not read, and then written over: after a cold start whose
  configuration defines nothing online, the file holds no definition at all.
\<close>

lemma unreadable_state_file_is_lost:
  assumes "load_definitions toml ra p d = Inl e"
    and "r = startup runner clk cap [] socket_keys True toml ra sys n p (new_with_token tok dur) d"
    and "sys_create_dir sys = None" "sys_open sys = None" "sys_write sys = None" "sys_sync sys = None" "sys_rename sys = None"
  shows "map_option sf_text (fmlookup (last (su_disks r)) p) = Some []"
proof -
  let ?s = "new_with_token tok dur"
  have "list_filtered ?s P = []" for P
    by (simp add: list_filtered_def known_keys_def new_with_token_def btree_keys_def)
  then have none: "online_definitions q ?s = []" for q
    by (simp add: online_definitions_def snapshot_definitions_def List.map_filter_def)
  have "su_disks r = snd (save_definitions sys n p [] d)"
    using assms(1,2) none
    by (simp add: startup_def register_config_def clear_config_owned_definitions_def restore_from_file_def
        write_online_definitions_def)
  moreover obtain res ds where save: "save_definitions sys n p [] d = (res, ds)" by fastforce
  moreover from save assms(3-) have "res = Inr ()"
    by (auto simp: save_definitions_def Let_def)
  ultimately show ?thesis using save_definitions_result [of sys n p "[]" d ds] by (simp add: serialize_definitions_def)
qed

subsection \<open>On a small configuration\<close>

definition plain_sys :: sys_answers where
  "plain_sys = \<lparr>sys_dir_meta = IsDir 448, sys_set_permissions = None, sys_create_dir = None, sys_open = None,
     sys_write = None, sys_written = 0, sys_sync = None, sys_rename = None, sys_open_dir = None, sys_sync_dir = None,
     sys_remove = None\<rparr>"

theorem state_file_is_replaced_whole_witness:
  "\<exists>f. fmlookup (last (snd (save_definitions plain_sys 7 (''/s'', ''definitions.toml'') [] fmempty)))
         (''/s'', ''definitions.toml'') = Some f \<and> sf_text f = serialize_definitions [] \<and> sf_mode f = FILE_MODE"
proof -
  let ?p = "(''/s'', ''definitions.toml'')"
  obtain r ds where save: "save_definitions plain_sys 7 ?p [] fmempty = (r, ds)" by fastforce
  then have "r = Inr ()" by (auto simp: save_definitions_def plain_sys_def Let_def)
  with state_file_is_replaced_whole [OF save] save show ?thesis by auto
qed

definition plain_definition :: kv_definition where
  "plain_definition = \<lparr>kd_name = ''T'', kd_namespace = None,
     kd_source = SpecCommand \<lparr>csw_argv = [''true''], csw_cwd = None, csw_env = fmempty\<rparr>,
     kd_soft_ttl_secs = Some 3600, kd_hard_ttl_secs = Some 7200, kd_preload = False,
     kd_meta = \<lparr>vmw_type_label = None, vmw_params = fmempty\<rparr>\<rparr>"

definition plain_ttl :: ttl where
  "plain_ttl = \<lparr>ttl_soft = Some (from_secs 3600), ttl_hard = Some (from_secs 7200)\<rparr>"

lemma plain_kd_ttl: "kd_ttl plain_definition = Inr plain_ttl"
  by (simp add: kd_ttl_def plain_definition_def plain_ttl_def ttl_new_def opt_from_secs_def from_secs_def)

lemma plain_kv_definitions: "kv_definitions plain_file = [plain_definition]"
  by (simp add: kv_definitions_def plain_file_def btree_keys_def List.map_filter_simps validated_def plain_entry_valid
      plain_definition_def)

lemma plain_key: "full_key DEFAULT_NAMESPACE plain_definition = ''default/T''"
  by (simp add: full_key_def plain_definition_def compose_key_def DEFAULT_NAMESPACE_def)

theorem config_wins_at_startup_witness:
  "definition_of (su_store (startup (\<lambda>_ _ _. Inl EmptyOutput) (\<lambda>_. Monotonic 0) \<lparr>token = 0\<rparr> (kv_definitions plain_file) {} True
       (\<lambda>_. Inr fmempty) None plain_sys 7 (''/s'', ''definitions.toml'') (new_with_token 0 0) fmempty)) ''default/T''
     = Some (made_of plain_definition plain_ttl)"
  using conjunct1 [OF config_wins_at_startup [OF plain_file_accepted refl]]
  by (simp add: plain_kv_definitions plain_key plain_kd_ttl)


text \<open>An accepted entry whose lifetimes are out of order is not in the registry.\<close>

lemma unordered_lifetimes_are_accepted:
  assumes "e = plain_entry\<lparr>ke_soft_ttl := Some ''2h'', ke_hard_ttl := Some ''1h''\<rparr>"
  shows "\<exists>d err. kv_entry_validate ''T'' e = Inr d \<and> kd_ttl d = Inl err"
  by (simp add: assms kv_entry_validate_def plain_entry_def build_kv_source_def command_of_entry_def command_table_of_def
        optional_field_def toml_strings_def parse_ttl_def plain_durations build_kv_meta_def split_kv_entry_name_def
        is_valid_identifier_def is_ascii_alphanumeric_def as_secs_def from_secs_def rbind_def kd_ttl_def ttl_new_def
        opt_from_secs_def)

end
