(* ===== verification/Webauthn.thy ===== *)
theory Webauthn
  imports Vault_State
begin

text \<open>
  The relying party's half of a passkey ceremony (\<open>crates/cache-warden-webauthn/src/lib.rs\<close>, \<open>cose.rs\<close>).
  The parsers of JSON and CBOR, base 64, SHA-256, the two curves and their signatures are parameters: a
  point of P-256 and an Ed25519 key are values of the types \<open>'p\<close> and \<open>'e\<close>.
\<close>

subsection \<open>Parameters\<close>

datatype json_doc = JsonString string | JsonObject "(string, json_doc) fmap" | JsonOther

datatype cbor_value =
  CborInt int | CborBytes "u8 list" | CborText string | CborMap "(cbor_value \<times> cbor_value) list" | CborOther

record ('p, 'e) webauthn_lib =
  wl_json :: "u8 list \<Rightarrow> json_doc option"
  wl_cbor :: "u8 list \<Rightarrow> cbor_value option"
  wl_sha256 :: "u8 list \<Rightarrow> u8 list"
  wl_b64 :: "u8 list \<Rightarrow> string"
  wl_unb64 :: "string \<Rightarrow> u8 list option"
  wl_from_sec1 :: "u8 list \<Rightarrow> 'p option"
  wl_to_sec1 :: "'p \<Rightarrow> u8 list"
  wl_from_ed :: "u8 list \<Rightarrow> 'e option"
  wl_to_ed :: "'e \<Rightarrow> u8 list"
  wl_p256_der :: "u8 list \<Rightarrow> u8 list option"
  wl_p256_verify :: "'p \<Rightarrow> u8 list \<Rightarrow> u8 list \<Rightarrow> bool"
  wl_ed_verify :: "'e \<Rightarrow> u8 list \<Rightarrow> u8 list \<Rightarrow> bool"

subsection \<open>Values\<close>

fun json_as_str :: "json_doc \<Rightarrow> string option" where
  "json_as_str (JsonString s) = Some s"
| "json_as_str _ = None"

text \<open>\<open>Value::get\<close>, and the index that gives \<open>null\<close> for a field that is not there.\<close>

fun json_get :: "json_doc \<Rightarrow> string \<Rightarrow> json_doc option" where
  "json_get (JsonObject m) k = fmlookup m k"
| "json_get _ k = None"

definition json_index :: "json_doc \<Rightarrow> string \<Rightarrow> json_doc" where
  "json_index v k = (case json_get v k of None \<Rightarrow> JsonOther | Some x \<Rightarrow> x)"

definition decode_b64 :: "('p, 'e) webauthn_lib \<Rightarrow> string \<Rightarrow> u8 list option" where
  "decode_b64 lib s =
     (if s = [] then None else wl_unb64 lib (rev (dropWhile (\<lambda>c. c = CHR ''='') (rev s))))"

fun cbor_pairs :: "cbor_value \<Rightarrow> (cbor_value \<times> cbor_value) list" where
  "cbor_pairs (CborMap m) = m"
| "cbor_pairs _ = []"

fun cbor_as_bytes :: "cbor_value \<Rightarrow> u8 list option" where
  "cbor_as_bytes (CborBytes b) = Some b"
| "cbor_as_bytes _ = None"

fun cbor_as_int :: "cbor_value \<Rightarrow> int option" where
  "cbor_as_int (CborInt i) = Some i"
| "cbor_as_int _ = None"

definition map_find :: "cbor_value \<Rightarrow> cbor_value \<Rightarrow> cbor_value option" where
  "map_find v k = map_option snd (find (\<lambda>kv. fst kv = k) (cbor_pairs v))"

definition map_get_bytes :: "cbor_value \<Rightarrow> string \<Rightarrow> u8 list option" where
  "map_get_bytes v k = Option.bind (map_find v (CborText k)) cbor_as_bytes"

definition map_get_int :: "cbor_value \<Rightarrow> int \<Rightarrow> int option" where
  "map_get_int v label = Option.bind (map_find v (CborInt label)) cbor_as_int"

definition map_get_label_bytes :: "cbor_value \<Rightarrow> int \<Rightarrow> u8 list option" where
  "map_get_label_bytes v label = Option.bind (map_find v (CborInt label)) cbor_as_bytes"

subsection \<open>Refusals\<close>

datatype webauthn_refusal =
  ClientDataUnparseable | WrongCeremonyType | ChallengeMismatch | OriginNotAllowed | AttestationUnparseable
| AuthenticatorDataTooShort | RpIdHashMismatch | UserNotPresent | UserNotVerified | NoAttestedCredential
| UnsupportedKeyAlgorithm | BadSignature | WrongCredential

definition or_refuse :: "webauthn_refusal \<Rightarrow> 'a option \<Rightarrow> webauthn_refusal + 'a" where
  "or_refuse e x = (case x of None \<Rightarrow> Inl e | Some v \<Rightarrow> Inr v)"

subsection \<open>Credential keys\<close>

datatype ('p, 'e) credential_key = Es256 'p | Ed25519 'e

definition LABEL_KTY :: int where "LABEL_KTY = 1"
definition LABEL_ALG :: int where "LABEL_ALG = 3"
definition LABEL_CRV :: int where "LABEL_CRV = -1"
definition LABEL_X :: int where "LABEL_X = -2"
definition LABEL_Y :: int where "LABEL_Y = -3"
definition KTY_OKP :: int where "KTY_OKP = 1"
definition KTY_EC2 :: int where "KTY_EC2 = 2"
definition ALG_ES256 :: int where "ALG_ES256 = -7"
definition ALG_EDDSA :: int where "ALG_EDDSA = -8"
definition CRV_P256 :: int where "CRV_P256 = 1"
definition CRV_ED25519 :: int where "CRV_ED25519 = 6"

definition key_from_cose :: "('p, 'e) webauthn_lib \<Rightarrow> u8 list \<Rightarrow> webauthn_refusal + ('p, 'e) credential_key" where
  "key_from_cose lib bytes =
     rbind (or_refuse UnsupportedKeyAlgorithm (wl_cbor lib bytes)) (\<lambda>v.
     rbind (or_refuse UnsupportedKeyAlgorithm (map_get_int v LABEL_KTY)) (\<lambda>kty.
     rbind (or_refuse UnsupportedKeyAlgorithm (map_get_int v LABEL_ALG)) (\<lambda>alg.
     rbind (or_refuse UnsupportedKeyAlgorithm (map_get_int v LABEL_CRV)) (\<lambda>crv.
       if kty = KTY_EC2 \<and> alg = ALG_ES256 \<and> crv = CRV_P256 then
         rbind (or_refuse UnsupportedKeyAlgorithm (map_get_label_bytes v LABEL_X)) (\<lambda>x.
         rbind (or_refuse UnsupportedKeyAlgorithm (map_get_label_bytes v LABEL_Y)) (\<lambda>y.
           if length x \<noteq> 32 \<or> length y \<noteq> 32 then Inl UnsupportedKeyAlgorithm
           else rbind (or_refuse UnsupportedKeyAlgorithm (wl_from_sec1 lib (4 # x @ y))) (\<lambda>k. Inr (Es256 k))))
       else if kty = KTY_OKP \<and> alg = ALG_EDDSA \<and> crv = CRV_ED25519 then
         rbind (or_refuse UnsupportedKeyAlgorithm (map_get_label_bytes v LABEL_X)) (\<lambda>x.
           if length x \<noteq> 32 then Inl UnsupportedKeyAlgorithm
           else rbind (or_refuse UnsupportedKeyAlgorithm (wl_from_ed lib x)) (\<lambda>k. Inr (Ed25519 k)))
       else Inl UnsupportedKeyAlgorithm))))"

fun key_verify ::
  "('p, 'e) webauthn_lib \<Rightarrow> ('p, 'e) credential_key \<Rightarrow> u8 list \<Rightarrow> u8 list \<Rightarrow> webauthn_refusal + unit"
where
  "key_verify lib (Es256 k) message signature =
     rbind (or_refuse BadSignature (wl_p256_der lib signature)) (\<lambda>sig.
       if wl_p256_verify lib k message sig then Inr () else Inl BadSignature)"
| "key_verify lib (Ed25519 k) message signature =
     (if length signature \<noteq> 64 then Inl BadSignature
      else if wl_ed_verify lib k message signature then Inr () else Inl BadSignature)"

fun key_to_stored_bytes :: "('p, 'e) webauthn_lib \<Rightarrow> ('p, 'e) credential_key \<Rightarrow> u8 list" where
  "key_to_stored_bytes lib (Es256 k) = 1 # wl_to_sec1 lib k"
| "key_to_stored_bytes lib (Ed25519 k) = 2 # wl_to_ed lib k"

definition key_from_stored_bytes ::
  "('p, 'e) webauthn_lib \<Rightarrow> u8 list \<Rightarrow> webauthn_refusal + ('p, 'e) credential_key"
where
  "key_from_stored_bytes lib bytes =
     (case bytes of
        [] \<Rightarrow> Inl UnsupportedKeyAlgorithm
      | tag # rest \<Rightarrow>
          (if tag = 1 then rbind (or_refuse UnsupportedKeyAlgorithm (wl_from_sec1 lib rest)) (\<lambda>k. Inr (Es256 k))
           else if tag = 2 then
             (if length rest \<noteq> 32 then Inl UnsupportedKeyAlgorithm
              else rbind (or_refuse UnsupportedKeyAlgorithm (wl_from_ed lib rest)) (\<lambda>k. Inr (Ed25519 k)))
           else Inl UnsupportedKeyAlgorithm))"

subsection \<open>Verification\<close>

record relying_party =
  rp_name :: string
  allowed_origins :: "string list"

record ('p, 'e) registered_credential =
  rc_id :: "u8 list"
  rc_key :: "('p, 'e) credential_key"

record authenticator_data =
  ad_rp_id_hash :: "u8 list"
  ad_flags :: u8
  ad_sign_count :: nat
  ad_rest :: "u8 list"

definition auth_data_parse :: "u8 list \<Rightarrow> webauthn_refusal + authenticator_data" where
  "auth_data_parse bytes =
     (if length bytes < 37 then Inl AuthenticatorDataTooShort
      else Inr \<lparr>ad_rp_id_hash = take 32 bytes, ad_flags = bytes ! 32,
                ad_sign_count = foldl (\<lambda>n b. n * 256 + unat b) 0 (take 4 (drop 33 bytes)), ad_rest = drop 37 bytes\<rparr>)"

definition user_present :: "authenticator_data \<Rightarrow> bool" where "user_present a \<longleftrightarrow> ad_flags a AND 0x01 \<noteq> 0"
definition user_verified :: "authenticator_data \<Rightarrow> bool" where "user_verified a \<longleftrightarrow> ad_flags a AND 0x04 \<noteq> 0"
definition has_attested_credential :: "authenticator_data \<Rightarrow> bool" where
  "has_attested_credential a \<longleftrightarrow> ad_flags a AND 0x40 \<noteq> 0"

definition check_client_data ::
  "('p, 'e) webauthn_lib \<Rightarrow> relying_party \<Rightarrow> u8 list \<Rightarrow> string \<Rightarrow> u8 list \<Rightarrow> webauthn_refusal + unit"
where
  "check_client_data lib rp client_data expected_type expected_challenge =
     (case wl_json lib client_data of
        None \<Rightarrow> Inl ClientDataUnparseable
      | Some client \<Rightarrow>
          (if json_as_str (json_index client ''type'') \<noteq> Some expected_type then Inl WrongCeremonyType
           else if json_as_str (json_index client ''challenge'') \<noteq> Some (wl_b64 lib expected_challenge)
           then Inl ChallengeMismatch
           else (let org = (case json_as_str (json_index client ''origin'') of None \<Rightarrow> [] | Some s \<Rightarrow> s)
                 in if org \<notin> set (allowed_origins rp) then Inl OriginNotAllowed else Inr ())))"

definition check_authenticator_data ::
  "('p, 'e) webauthn_lib \<Rightarrow> relying_party \<Rightarrow> authenticator_data \<Rightarrow> webauthn_refusal + unit"
where
  "check_authenticator_data lib rp a =
     (if ad_rp_id_hash a \<noteq> wl_sha256 lib (string_bytes (rp_name rp)) then Inl RpIdHashMismatch
      else if \<not> user_present a then Inl UserNotPresent
      else if \<not> user_verified a then Inl UserNotVerified
      else Inr ())"

definition attested_credential ::
  "('p, 'e) webauthn_lib \<Rightarrow> authenticator_data \<Rightarrow> webauthn_refusal + ('p, 'e) registered_credential"
where
  "attested_credential lib a =
     (if \<not> has_attested_credential a then Inl NoAttestedCredential
      else if length (ad_rest a) < 18 then Inl NoAttestedCredential
      else (let id_len = unat (ad_rest a ! 16) * 256 + unat (ad_rest a ! 17); id_end = 18 + id_len
            in if length (ad_rest a) < id_end then Inl NoAttestedCredential
               else rbind (key_from_cose lib (drop id_end (ad_rest a))) (\<lambda>k.
                      Inr \<lparr>rc_id = take id_len (drop 18 (ad_rest a)), rc_key = k\<rparr>)))"

definition verify_registration ::
  "('p, 'e) webauthn_lib \<Rightarrow> relying_party \<Rightarrow> u8 list \<Rightarrow> u8 list \<Rightarrow> u8 list
     \<Rightarrow> webauthn_refusal + ('p, 'e) registered_credential"
where
  "verify_registration lib rp challenge client_data attestation =
     rbind (check_client_data lib rp client_data ''webauthn.create'' challenge) (\<lambda>_.
     rbind (or_refuse AttestationUnparseable (wl_cbor lib attestation)) (\<lambda>v.
     rbind (or_refuse AttestationUnparseable (map_get_bytes v ''authData'')) (\<lambda>bytes.
     rbind (auth_data_parse bytes) (\<lambda>a.
     rbind (check_authenticator_data lib rp a) (\<lambda>_.
       attested_credential lib a)))))"

record assertion_response =
  ar_credential_id :: "u8 list"
  ar_authenticator_data :: "u8 list"
  ar_client_data :: "u8 list"
  ar_signature :: "u8 list"

definition verify_assertion ::
  "('p, 'e) webauthn_lib \<Rightarrow> relying_party \<Rightarrow> u8 list \<Rightarrow> ('p, 'e) registered_credential \<Rightarrow> assertion_response
     \<Rightarrow> webauthn_refusal + nat"
where
  "verify_assertion lib rp challenge cred resp =
     (if ar_credential_id resp \<noteq> rc_id cred then Inl WrongCredential
      else rbind (check_client_data lib rp (ar_client_data resp) ''webauthn.get'' challenge) (\<lambda>_.
           rbind (auth_data_parse (ar_authenticator_data resp)) (\<lambda>a.
           rbind (check_authenticator_data lib rp a) (\<lambda>_.
           rbind (key_verify lib (rc_key cred)
                    (ar_authenticator_data resp @ wl_sha256 lib (ar_client_data resp)) (ar_signature resp)) (\<lambda>_.
             Inr (ad_sign_count a))))))"

subsection \<open>What a response stands for\<close>

lemma or_refuse_Inr [simp]: "or_refuse e x = Inr v \<longleftrightarrow> x = Some v"
  by (auto simp: or_refuse_def split: option.splits)

text \<open>The documented behaviour of the key codecs: a key is read back from its own bytes.\<close>

definition key_codecs_ok :: "('p, 'e) webauthn_lib \<Rightarrow> bool" where
  "key_codecs_ok lib \<longleftrightarrow>
     (\<forall>k. wl_from_sec1 lib (wl_to_sec1 lib k) = Some k)
     \<and> (\<forall>k. wl_from_ed lib (wl_to_ed lib k) = Some k \<and> length (wl_to_ed lib k) = 32)"

lemma stored_key_roundtrip:
  assumes "key_codecs_ok lib"
  shows "key_from_stored_bytes lib (key_to_stored_bytes lib k) = Inr k"
  using assms by (cases k) (simp_all add: key_from_stored_bytes_def key_codecs_ok_def rbind_Inr)

lemma client_data_accepted:
  "check_client_data lib rp cd ty ch = Inr () \<longleftrightarrow>
     (\<exists>client org. wl_json lib cd = Some client
        \<and> json_as_str (json_index client ''type'') = Some ty
        \<and> json_as_str (json_index client ''challenge'') = Some (wl_b64 lib ch)
        \<and> org = (case json_as_str (json_index client ''origin'') of None \<Rightarrow> [] | Some s \<Rightarrow> s)
        \<and> org \<in> set (allowed_origins rp))"
  by (auto simp: check_client_data_def Let_def split: option.splits if_splits)

lemma auth_data_accepted:
  "check_authenticator_data lib rp a = Inr () \<longleftrightarrow>
     ad_rp_id_hash a = wl_sha256 lib (string_bytes (rp_name rp)) \<and> user_present a \<and> user_verified a"
  by (auto simp: check_authenticator_data_def)

lemma assertion_accepted:
  assumes "verify_assertion lib rp ch cred resp = Inr n"
  shows "ar_credential_id resp = rc_id cred
    \<and> check_client_data lib rp (ar_client_data resp) ''webauthn.get'' ch = Inr ()
    \<and> (\<exists>a. auth_data_parse (ar_authenticator_data resp) = Inr a \<and> check_authenticator_data lib rp a = Inr ())
    \<and> key_verify lib (rc_key cred) (ar_authenticator_data resp @ wl_sha256 lib (ar_client_data resp)) (ar_signature resp)
        = Inr ()"
  using assms by (auto simp: verify_assertion_def rbind_Inr split: if_splits)

text \<open>The client data of one ceremony answers one challenge and one kind of ceremony.\<close>

lemma client_data_once:
  assumes "inj (wl_b64 lib)" and "check_client_data lib rp cd ty ch = Inr ()" "check_client_data lib rp' cd ty' ch' = Inr ()"
  shows "ty' = ty \<and> ch' = ch"
  using assms(2,3) injD [OF assms(1)] unfolding client_data_accepted by auto

end
