(* ===== verification/Ceremony.thy ===== *)
theory Ceremony
  imports Webauthn Handler
begin

text \<open>
  The passkey ceremony the vault is opened and extended through
  (\<open>crates/cache-warden-cli/src/daemon/ceremony/mod.rs\<close>, \<open>ceremony/challenge.rs\<close>): the endpoints behind the
  page, the challenges they hand out, and the window a local approval opens.

  An instant is a number of nanoseconds; the readings a request makes of the clock are a sequence.  A
  request may panic while it holds the locks, which poisons them.  The text of the page and of its options
  is left out but for what the browser sends back.
\<close>

subsection \<open>Challenges\<close>

definition CHALLENGE_TTL :: nat where "CHALLENGE_TTL = 120 * 1000000000"
definition MAX_OUTSTANDING :: nat where "MAX_OUTSTANDING = 32"

datatype purpose = RegisterPasskey | UnlockVault string nat

record challenge_record =
  ch_purpose :: purpose
  ch_expires_at :: nat

datatype challenge_error = ChallengeUnknown | ChallengeWrongPurpose | ChallengeTooMany

type_synonym challenge_store = "(u8 list, challenge_record) fmap"

definition drop_expired :: "nat \<Rightarrow> challenge_store \<Rightarrow> challenge_store" where
  "drop_expired now cs = fmfilter (\<lambda>c. now < ch_expires_at (the (fmlookup cs c))) cs"

text \<open>\<open>bytes\<close> is what the system's generator gives.\<close>

definition challenge_issue ::
  "nat \<Rightarrow> nat \<Rightarrow> u8 list \<Rightarrow> purpose \<Rightarrow> challenge_store \<Rightarrow> (challenge_error + u8 list) \<times> challenge_store"
where
  "challenge_issue now later bytes p cs =
     (let cs1 = drop_expired now cs in
      if MAX_OUTSTANDING \<le> fcard (fmdom cs1) then (Inl ChallengeTooMany, cs1)
      else (Inr bytes, fmupd bytes \<lparr>ch_purpose = p, ch_expires_at = later + CHALLENGE_TTL\<rparr> cs1))"

definition challenge_redeem ::
  "nat \<Rightarrow> u8 list \<Rightarrow> purpose \<Rightarrow> challenge_store \<Rightarrow> (challenge_error + unit) \<times> challenge_store"
where
  "challenge_redeem now c p cs =
     (let cs1 = drop_expired now cs in
      case fmlookup cs1 c of
        None \<Rightarrow> (Inl ChallengeUnknown, cs1)
      | Some r \<Rightarrow>
          (if ch_expires_at r \<le> now then (Inl ChallengeUnknown, fmdrop c cs1)
           else if ch_purpose r \<noteq> p then (Inl ChallengeWrongPurpose, fmdrop c cs1)
           else (Inr (), fmdrop c cs1)))"

subsection \<open>The ceremony\<close>

definition REGISTRATION_WINDOW :: nat where "REGISTRATION_WINDOW = 300 * 1000000000"

record armed_registration =
  arm_salt :: "u8 list"
  arm_label :: string
  arm_expires_at :: nat

record ceremony =
  cy_challenges :: challenge_store
  cy_rp :: relying_party
  cy_armed :: "armed_registration option"

definition ceremony_new :: "string \<Rightarrow> string list \<Rightarrow> ceremony" where
  "ceremony_new rp origins =
     \<lparr>cy_challenges = fmempty, cy_rp = \<lparr>rp_name = rp, allowed_origins = origins\<rparr>, cy_armed = None\<rparr>"

definition arm_registration :: "nat \<Rightarrow> u8 list \<Rightarrow> string \<Rightarrow> ceremony \<Rightarrow> ceremony" where
  "arm_registration now salt label cer =
     cer\<lparr>cy_armed := Some \<lparr>arm_salt = salt, arm_label = label, arm_expires_at = now + REGISTRATION_WINDOW\<rparr>\<rparr>"

definition armed_now :: "nat \<Rightarrow> ceremony \<Rightarrow> armed_registration option \<times> ceremony" where
  "armed_now now cer =
     (case cy_armed cer of
        Some a \<Rightarrow> (if arm_expires_at a \<le> now then (None, cer\<lparr>cy_armed := None\<rparr>) else (Some a, cer))
      | None \<Rightarrow> (None, cer))"

text \<open>Whether an address may be listened on; \<open>parse\<close> gives whether it is a loopback address.\<close>

datatype listen_error = NotLoopback string | ListenIo string

definition bind_address :: "(string \<Rightarrow> bool option) \<Rightarrow> string \<Rightarrow> listen_error + unit" where
  "bind_address parse addr =
     (case parse addr of
        None \<Rightarrow> Inl (ListenIo addr)
      | Some loopback \<Rightarrow> if loopback then Inr () else Inl (NotLoopback addr))"

subsection \<open>Requests and replies\<close>

record http_request =
  rq_method :: string
  rq_path :: string
  rq_origin :: "string option"
  rq_body :: "u8 list"

datatype ceremony_body =
  Refused | CeremonyPage
| RegisterOptions "u8 list" "u8 list"
| UnlockOptions "(u8 list \<times> u8 list) list" "u8 list"
| EvaluateOptions "u8 list"
| PasskeyRegistered slot_id
| CeremonyUnlocked nat

record ceremony_reply =
  cp_status :: nat
  cp_body :: ceremony_body

definition refuse :: "nat \<Rightarrow> ceremony_reply" where
  "refuse status = \<lparr>cp_status = status, cp_body = Refused\<rparr>"

definition reply_ok :: "ceremony_body \<Rightarrow> ceremony_reply" where
  "reply_ok b = \<lparr>cp_status = 200, cp_body = b\<rparr>"

text \<open>What one request draws from the outside: readings of the clock, random bytes, the wall clock.\<close>

record ('p, 'e) ceremony_env =
  cx_lib :: "('p, 'e) webauthn_lib"
  cx_now :: "nat \<Rightarrow> nat"
  cx_challenge :: "u8 list"
  cx_slot_random :: slot_random
  cx_created_at :: nat

text \<open>The shared state: the ceremony, the daemon with its store and vault, and the two locks' poison.\<close>

record 'j ceremony_state =
  cs_ceremony :: ceremony
  cs_daemon :: "'j daemon_state"
  cs_poisoned :: bool
  cs_vault_poisoned :: bool

definition body_field :: "('p, 'e) webauthn_lib \<Rightarrow> json_doc \<Rightarrow> string \<Rightarrow> u8 list option" where
  "body_field lib body name =
     Option.bind (json_get body name) (\<lambda>v. Option.bind (json_as_str v) (decode_b64 lib))"

definition challenge_in :: "('p, 'e) webauthn_lib \<Rightarrow> u8 list \<Rightarrow> u8 list option" where
  "challenge_in lib client_data = Option.bind (wl_json lib client_data) (\<lambda>v. body_field lib v ''challenge'')"

definition origin_allowed :: "ceremony \<Rightarrow> string option \<Rightarrow> bool" where
  "origin_allowed cer org = (case org of None \<Rightarrow> True | Some o' \<Rightarrow> o' \<in> set (allowed_origins (cy_rp cer)))"

definition unlock_purpose :: "locked_vault \<Rightarrow> purpose" where
  "unlock_purpose v =
     UnlockVault (id_display (header_vault_id (file_header (lv_file v)))) (header_generation (file_header (lv_file v)))"

definition passkey_slots :: "locked_vault \<Rightarrow> vault_slot list" where
  "passkey_slots v = filter (\<lambda>s. slot_kind s = PasskeyPrf) (locked_slots v)"

definition with_challenges :: "ceremony \<Rightarrow> challenge_store \<Rightarrow> ceremony" where
  "with_challenges cer cs = cer\<lparr>cy_challenges := cs\<rparr>"

text \<open>A challenge for a page, or the refusal when too many are out.\<close>

definition offer ::
  "('p, 'e) ceremony_env \<Rightarrow> ceremony \<Rightarrow> purpose \<Rightarrow> (u8 list \<Rightarrow> ceremony_body) \<Rightarrow> ceremony_reply \<times> ceremony"
where
  "offer cx cer p mk =
     (case challenge_issue (cx_now cx 2) (cx_now cx 3) (cx_challenge cx) p (cy_challenges cer) of
        (Inl _, cs) \<Rightarrow> (refuse 429, with_challenges cer cs)
      | (Inr c, cs) \<Rightarrow> (reply_ok (mk c), with_challenges cer cs))"

text \<open>\<open>None\<close> is a panic, at the \<open>expect\<close> on the second look at the window.\<close>

definition begin_ceremony ::
  "('p, 'e) ceremony_env \<Rightarrow> 'j vault_state \<Rightarrow> ceremony \<Rightarrow> ceremony_reply option \<times> ceremony"
where
  "begin_ceremony cx vault cer =
     (case armed_now (cx_now cx 0) cer of
        (Some _, cer1) \<Rightarrow>
          (case armed_now (cx_now cx 1) cer1 of
             (None, cer2) \<Rightarrow> (None, cer2)
           | (Some a, cer2) \<Rightarrow>
               apfst Some (offer cx cer2 RegisterPasskey (RegisterOptions (arm_salt a))))
      | (None, cer1) \<Rightarrow>
          (case vault of
             VaultOpen _ \<Rightarrow> (Some (refuse 400), cer1)
           | NotInitialized _ \<Rightarrow> (Some (refuse 400), cer1)
           | VaultClosed v \<Rightarrow>
               (let slots = map (\<lambda>s. (credential_id s, slot_salt s)) (passkey_slots v) in
                if slots = [] then (Some (refuse 400), cer1)
                else apfst Some (offer cx cer1 (unlock_purpose v) (UnlockOptions slots)))))"

definition register_evaluate :: "('p, 'e) ceremony_env \<Rightarrow> ceremony \<Rightarrow> ceremony_reply \<times> ceremony" where
  "register_evaluate cx cer =
     (case armed_now (cx_now cx 0) cer of
        (None, cer1) \<Rightarrow> (refuse 403, cer1)
      | (Some _, cer1) \<Rightarrow> offer cx cer1 RegisterPasskey EvaluateOptions)"

text \<open>What a finished registration posts.\<close>

record registration_post =
  rp_client_data :: "u8 list"
  rp_attestation :: "u8 list"
  rp_prf_output :: "u8 list"
  rp_credential_id :: "u8 list"

definition registration_post_of :: "('p, 'e) webauthn_lib \<Rightarrow> json_doc \<Rightarrow> registration_post option" where
  "registration_post_of lib body =
     (case (body_field lib body ''client_data_json'', body_field lib body ''attestation_object'',
            body_field lib body ''prf_output'', body_field lib body ''credential_id'') of
        (Some cd, Some att, Some prf, Some cid) \<Rightarrow>
          Some \<lparr>rp_client_data = cd, rp_attestation = att, rp_prf_output = prf, rp_credential_id = cid\<rparr>
      | _ \<Rightarrow> None)"

definition add_registered ::
  "('p, 'e) ceremony_env \<Rightarrow> 'j handler_ctx \<Rightarrow> armed_registration \<Rightarrow> ('p, 'e) registered_credential \<Rightarrow> u8 list
     \<Rightarrow> ceremony \<Rightarrow> 'j daemon_state \<Rightarrow> ceremony_reply \<times> ceremony \<times> 'j daemon_state"
where
  "add_registered cx ctx a cred prf cer dm =
     (case dm_vault dm of
        Some (VaultOpen v) \<Rightarrow>
          (case add_passkey_slot (hc_vault_lib ctx) (hc_commit_env ctx) (cx_slot_random cx) (cx_created_at cx) v prf
                  (arm_salt a) (rp_name (cy_rp cer)) (rc_id cred) (key_to_stored_bytes (cx_lib cx) (rc_key cred))
                  (arm_label a) (dm_disk dm) of
             (r, v', ds) \<Rightarrow>
               (case r of
                  Inr sid \<Rightarrow>
                    (reply_ok (PasskeyRegistered sid), cer\<lparr>cy_armed := None\<rparr>,
                     dm\<lparr>dm_vault := Some (VaultOpen v'), dm_disk := last ds\<rparr>)
                | Inl _ \<Rightarrow> (refuse 500, cer, dm\<lparr>dm_vault := Some (VaultOpen v'), dm_disk := last ds\<rparr>)))
      | _ \<Rightarrow> (refuse 400, cer, dm))"

definition register_finish ::
  "('p, 'e) ceremony_env \<Rightarrow> 'j handler_ctx \<Rightarrow> u8 list \<Rightarrow> bool \<Rightarrow> ceremony \<Rightarrow> 'j daemon_state
     \<Rightarrow> ceremony_reply \<times> ceremony \<times> 'j daemon_state"
where
  "register_finish cx ctx body vault_poisoned cer dm =
     (let lib = cx_lib cx in
      case armed_now (cx_now cx 0) cer of
        (None, cer1) \<Rightarrow> (refuse 403, cer1, dm)
      | (Some a, cer1) \<Rightarrow>
     (case wl_json lib body of
        None \<Rightarrow> (refuse 400, cer1, dm)
      | Some doc \<Rightarrow>
     (case registration_post_of lib doc of
        None \<Rightarrow> (refuse 400, cer1, dm)
      | Some post \<Rightarrow>
     (case challenge_in lib (rp_client_data post) of
        None \<Rightarrow> (refuse 400, cer1, dm)
      | Some c \<Rightarrow>
     (case challenge_redeem (cx_now cx 2) c RegisterPasskey (cy_challenges cer1) of
        (Inl _, cs) \<Rightarrow> (refuse 403, with_challenges cer1 cs, dm)
      | (Inr _, cs) \<Rightarrow>
     (let cer2 = with_challenges cer1 cs in
      case verify_registration lib (cy_rp cer2) c (rp_client_data post) (rp_attestation post) of
        Inl _ \<Rightarrow> (refuse 403, cer2, dm)
      | Inr cred \<Rightarrow>
          (if rc_id cred \<noteq> rp_credential_id post then (refuse 400, cer2, dm)
           else if vault_poisoned then (refuse 500, cer2, dm)
           else add_registered cx ctx a cred (rp_prf_output post) cer2 dm)))))))"

record unlock_post =
  up_assertion :: assertion_response
  up_prf_output :: "u8 list"

definition unlock_post_of :: "('p, 'e) webauthn_lib \<Rightarrow> json_doc \<Rightarrow> unlock_post option" where
  "unlock_post_of lib body =
     (case (body_field lib body ''credential_id'', body_field lib body ''authenticator_data'',
            body_field lib body ''client_data_json'', body_field lib body ''signature'',
            body_field lib body ''prf_output'') of
        (Some cid, Some ad, Some cd, Some sig, Some prf) \<Rightarrow>
          Some \<lparr>up_assertion = \<lparr>ar_credential_id = cid, ar_authenticator_data = ad, ar_client_data = cd,
                                 ar_signature = sig\<rparr>, up_prf_output = prf\<rparr>
      | _ \<Rightarrow> None)"

text \<open>The vault is opened from the file; its entries then reach the store.\<close>

definition open_with_prf ::
  "'j handler_ctx \<Rightarrow> u8 list \<Rightarrow> 'j daemon_state \<Rightarrow> 'j vault_state \<Rightarrow> ceremony_reply \<times> 'j daemon_state"
where
  "open_with_prf ctx prf dm st =
     (case vault_state_unlock_with_prf_output (hc_vault_lib ctx) prf (dm_disk dm) st of
        (Inl _, st') \<Rightarrow> (refuse 403, dm\<lparr>dm_vault := Some st'\<rparr>)
      | (Inr _, st') \<Rightarrow>
          (case unlocked st' of
             None \<Rightarrow> (refuse 500, dm\<lparr>dm_vault := Some st'\<rparr>)
           | Some v \<Rightarrow>
               (let (restored, s') = install_vault_entries ctx v (dm_store dm)
                in (reply_ok (CeremonyUnlocked restored), dm\<lparr>dm_store := s', dm_vault := Some st'\<rparr>))))"

definition unlock_finish ::
  "('p, 'e) ceremony_env \<Rightarrow> 'j handler_ctx \<Rightarrow> u8 list \<Rightarrow> bool \<Rightarrow> ceremony \<Rightarrow> 'j daemon_state
     \<Rightarrow> ceremony_reply \<times> ceremony \<times> 'j daemon_state"
where
  "unlock_finish cx ctx body vault_poisoned cer dm =
     (let lib = cx_lib cx in
      case wl_json lib body of
        None \<Rightarrow> (refuse 400, cer, dm)
      | Some doc \<Rightarrow>
     (case unlock_post_of lib doc of
        None \<Rightarrow> (refuse 400, cer, dm)
      | Some post \<Rightarrow>
     (if vault_poisoned then (refuse 500, cer, dm)
      else case dm_vault dm of
        Some (VaultClosed v) \<Rightarrow>
     (case find (\<lambda>s. slot_kind s = PasskeyPrf \<and> credential_id s = ar_credential_id (up_assertion post)) (locked_slots v) of
        None \<Rightarrow> (refuse 403, cer, dm)
      | Some s \<Rightarrow>
     (case key_from_stored_bytes lib (credential_public_key s) of
        Inl _ \<Rightarrow> (refuse 500, cer, dm)
      | Inr k \<Rightarrow>
     (case challenge_in lib (ar_client_data (up_assertion post)) of
        None \<Rightarrow> (refuse 400, cer, dm)
      | Some c \<Rightarrow>
     (case challenge_redeem (cx_now cx 2) c (unlock_purpose v) (cy_challenges cer) of
        (Inl _, cs) \<Rightarrow> (refuse 403, with_challenges cer cs, dm)
      | (Inr _, cs) \<Rightarrow>
     (let cer1 = with_challenges cer cs in
      case verify_assertion lib (cy_rp cer1) c
             \<lparr>rc_id = ar_credential_id (up_assertion post), rc_key = k\<rparr> (up_assertion post) of
        Inl _ \<Rightarrow> (refuse 403, cer1, dm)
      | Inr _ \<Rightarrow>
          (case open_with_prf ctx (up_prf_output post) dm (VaultClosed v) of (r, dm') \<Rightarrow> (r, cer1, dm')))))))
      | _ \<Rightarrow> (refuse 400, cer, dm))))"

text \<open>The endpoints.  The listener is there only when a vault is configured.\<close>

definition ceremony_handle ::
  "('p, 'e) ceremony_env \<Rightarrow> 'j handler_ctx \<Rightarrow> http_request \<Rightarrow> 'j ceremony_state
     \<Rightarrow> ceremony_reply option \<times> 'j ceremony_state"
where
  "ceremony_handle cx ctx rq st =
     (let cer = cs_ceremony st; dm = cs_daemon st;
          post = (rq_method rq = ''POST'');
          install = (\<lambda>(r, cer', dm'). (Some r, st\<lparr>cs_ceremony := cer', cs_daemon := dm'\<rparr>))
      in if cs_poisoned st then (Some (refuse 500), st)
         else if rq_method rq = ''GET'' \<and> rq_path rq = ''/'' then (Some (reply_ok CeremonyPage), st)
         else if post \<and> \<not> origin_allowed cer (rq_origin rq) then (Some (refuse 403), st)
         else if post \<and> rq_path rq = ''/begin'' then
           (if cs_vault_poisoned st then (Some (refuse 500), st)
            else case begin_ceremony cx (the (dm_vault dm)) cer of
                   (None, cer') \<Rightarrow> (None, st\<lparr>cs_ceremony := cer', cs_poisoned := True, cs_vault_poisoned := True\<rparr>)
                 | (Some r, cer') \<Rightarrow> (Some r, st\<lparr>cs_ceremony := cer'\<rparr>))
         else if post \<and> rq_path rq = ''/register/evaluate'' then
           (case register_evaluate cx cer of (r, cer') \<Rightarrow> (Some r, st\<lparr>cs_ceremony := cer'\<rparr>))
         else if post \<and> rq_path rq = ''/register/finish'' then
           install (register_finish cx ctx (rq_body rq) (cs_vault_poisoned st) cer dm)
         else if post \<and> rq_path rq = ''/unlock/finish'' then
           install (unlock_finish cx ctx (rq_body rq) (cs_vault_poisoned st) cer dm)
         else if rq_method rq = ''GET'' \<or> post then (Some (refuse 404), st)
         else (Some (refuse 405), st))"

end
