(* ===== verification/Ceremony_Props.thy ===== *)
theory Ceremony_Props
  imports Ceremony
begin

text \<open>
  What a ceremony can do: a passkey is added only behind an approval of its own, and the vault opens only
  for an answer to a challenge of this vault, with the user verified.
\<close>

subsection \<open>Challenges\<close>

lemma drop_expired_lookup:
  "fmlookup (drop_expired now cs) c =
     (case fmlookup cs c of None \<Rightarrow> None | Some r \<Rightarrow> if now < ch_expires_at r then Some r else None)"
  by (auto simp: drop_expired_def split: option.split)

lemma drop_expired_dom: "fmdom (drop_expired now cs) |\<subseteq>| fmdom cs"
  by (auto simp: drop_expired_def fmdom_filter)

lemma fcard_subset: "A |\<subseteq>| B \<Longrightarrow> fcard A \<le> fcard B"
  by (rule fcard_mono)

lemma issue_cases:
  assumes "challenge_issue now later bytes p cs = (r, cs')"
  shows "cs' = drop_expired now cs \<and> r = Inl ChallengeTooMany
    \<or> r = Inr bytes \<and> fcard (fmdom (drop_expired now cs)) < MAX_OUTSTANDING
      \<and> cs' = fmupd bytes \<lparr>ch_purpose = p, ch_expires_at = later + CHALLENGE_TTL\<rparr> (drop_expired now cs)"
  using assms by (auto simp: challenge_issue_def Let_def split: if_splits)

lemma redeem_cases:
  assumes "challenge_redeem now c p cs = (r, cs')"
  shows "fmlookup cs' c = None \<and> fmdom cs' |\<subseteq>| fmdom cs
    \<and> (r = Inr () \<longrightarrow> (\<exists>rec. fmlookup cs c = Some rec \<and> now < ch_expires_at rec \<and> ch_purpose rec = p))"
proof -
  have "fmdom (fmdrop c (drop_expired now cs)) |\<subseteq>| fmdom cs"
    using drop_expired_dom [of now cs] by auto
  then show ?thesis
    using assms drop_expired_dom [of now cs]
    by (auto simp: challenge_redeem_def Let_def drop_expired_lookup split: option.splits if_splits)
qed

text \<open>An outstanding challenge fits the store, whatever happens to it.\<close>

definition bounded :: "ceremony \<Rightarrow> bool" where
  "bounded cer \<longleftrightarrow> fcard (fmdom (cy_challenges cer)) \<le> MAX_OUTSTANDING"

lemma fcard_finsert_le: "fcard (finsert x A) \<le> Suc (fcard A)"
  by (cases "x |\<in>| A") (simp_all add: fcard_finsert_disjoint finsert_absorb)

lemma issue_bounded:
  assumes "challenge_issue now later bytes p cs = (r, cs')" and "fcard (fmdom cs) \<le> MAX_OUTSTANDING"
  shows "fcard (fmdom cs') \<le> MAX_OUTSTANDING"
  using issue_cases [OF assms(1)] fcard_subset [OF drop_expired_dom [of now cs]] assms(2)
    fcard_finsert_le [of bytes "fmdom (drop_expired now cs)"] by auto

lemma redeem_bounded:
  assumes "challenge_redeem now c p cs = (r, cs')" and "fcard (fmdom cs) \<le> MAX_OUTSTANDING"
  shows "fcard (fmdom cs') \<le> MAX_OUTSTANDING"
  using redeem_cases [OF assms(1)] fcard_subset [of "fmdom cs'" "fmdom cs"] assms(2) by simp

subsection \<open>One request\<close>

lemma armed_now_cases:
  assumes "armed_now now cer = (a, cer')"
  shows "cy_challenges cer' = cy_challenges cer \<and> cy_rp cer' = cy_rp cer
    \<and> (case a of None \<Rightarrow> cy_armed cer' = None | Some x \<Rightarrow> cer' = cer \<and> cy_armed cer = Some x \<and> now < arm_expires_at x)"
  using assms by (auto simp: armed_now_def split: option.splits if_splits)

text \<open>What every request keeps: the relying party, the bound, and that only an approval opens the window.\<close>

definition tame :: "ceremony \<Rightarrow> ceremony \<Rightarrow> bool" where
  "tame cer cer' \<longleftrightarrow>
     cy_rp cer' = cy_rp cer \<and> (bounded cer \<longrightarrow> bounded cer') \<and> (cy_armed cer' = cy_armed cer \<or> cy_armed cer' = None)"

lemma tame_refl: "tame cer cer"
  by (simp add: tame_def)

lemma tame_armed: "armed_now now cer = (a, cer') \<Longrightarrow> tame cer cer'"
  using armed_now_cases [of now cer a cer'] by (auto simp: tame_def bounded_def split: option.splits)

lemma tame_trans: "tame a b \<Longrightarrow> tame b c \<Longrightarrow> tame a c"
  by (auto simp: tame_def)

lemma tame_offer: "offer cx cer p mk = (r, cer') \<Longrightarrow> tame cer cer'"
  using issue_bounded
  by (fastforce simp: offer_def tame_def bounded_def with_challenges_def split: prod.splits sum.splits)

lemma tame_redeem:
  "challenge_redeem now c p (cy_challenges cer) = (r, cs) \<Longrightarrow> tame cer (with_challenges cer cs)"
  using redeem_bounded by (auto simp: tame_def bounded_def with_challenges_def)

lemma tame_begin: "begin_ceremony cx vault cer = (r, cer') \<Longrightarrow> tame cer cer'"
  by (auto simp: begin_ceremony_def Let_def apfst_def map_prod_def
      dest!: tame_armed tame_offer intro: tame_trans split: prod.splits option.splits vault_state.splits if_splits)

lemma tame_evaluate: "register_evaluate cx cer = (r, cer') \<Longrightarrow> tame cer cer'"
  by (auto simp: register_evaluate_def dest!: tame_armed tame_offer intro: tame_trans
      split: prod.splits option.splits)

lemma reply_bodies [simp]: "cp_body (refuse n) = Refused" "cp_body (reply_ok b) = b"
  by (simp_all add: refuse_def reply_ok_def)

lemma add_registered_cases:
  assumes "add_registered cx ctx a cred prf cer dm = (r, cer', dm')"
  shows "tame cer cer'
    \<and> (\<forall>sid. cp_body r = PasskeyRegistered sid \<longrightarrow> cy_armed cer' = None
         \<and> (\<exists>v v' ds. dm_vault dm = Some (VaultOpen v) \<and> dm' = dm\<lparr>dm_vault := Some (VaultOpen v'), dm_disk := last ds\<rparr>
              \<and> add_passkey_slot (hc_vault_lib ctx) (hc_commit_env ctx) (cx_slot_random cx) (cx_created_at cx) v prf
                  (arm_salt a) (rp_name (cy_rp cer)) (rc_id cred) (key_to_stored_bytes (cx_lib cx) (rc_key cred))
                  (arm_label a) (dm_disk dm) = (Inr sid, v', ds)))
    \<and> (\<forall>n. cp_body r \<noteq> CeremonyUnlocked n)"
  using assms
  by (auto simp: add_registered_def tame_def bounded_def refuse_def reply_ok_def
      split: option.splits vault_state.splits prod.splits sum.splits)

text \<open>
  What a registration that succeeds went through: an open window, a fresh challenge for a registration, a
  verified response that answers it, and a slot with the window's salt and label in the open vault.
\<close>

definition registers_passkey ::
  "('p, 'e) ceremony_env \<Rightarrow> 'j handler_ctx \<Rightarrow> ceremony \<Rightarrow> 'j daemon_state \<Rightarrow> slot_id \<Rightarrow> ceremony \<Rightarrow> 'j daemon_state \<Rightarrow> bool"
where
  "registers_passkey cx ctx cer dm sid cer' dm' \<longleftrightarrow>
     cy_armed cer' = None
     \<and> (\<exists>a c cred (post :: registration_post) rec v v' ds. cy_armed cer = Some a \<and> cx_now cx 0 < arm_expires_at a
          \<and> challenge_in (cx_lib cx) (rp_client_data post) = Some c
          \<and> verify_registration (cx_lib cx) (cy_rp cer) c (rp_client_data post) (rp_attestation post) = Inr cred
          \<and> fmlookup (cy_challenges cer) c = Some rec \<and> cx_now cx 2 < ch_expires_at rec \<and> ch_purpose rec = RegisterPasskey
          \<and> fmlookup (cy_challenges cer') c = None
          \<and> dm_vault dm = Some (VaultOpen v) \<and> dm' = dm\<lparr>dm_vault := Some (VaultOpen v'), dm_disk := last ds\<rparr>
          \<and> add_passkey_slot (hc_vault_lib ctx) (hc_commit_env ctx) (cx_slot_random cx) (cx_created_at cx) v
              (rp_prf_output post) (arm_salt a) (rp_name (cy_rp cer)) (rc_id cred)
              (key_to_stored_bytes (cx_lib cx) (rc_key cred)) (arm_label a) (dm_disk dm) = (Inr sid, v', ds))"

lemma register_finish_cases:
  assumes "register_finish cx ctx body vp cer dm = (r, cer', dm')"
  shows "tame cer cer' \<and> (\<forall>n. cp_body r \<noteq> CeremonyUnlocked n)
    \<and> (\<forall>sid. cp_body r = PasskeyRegistered sid \<longrightarrow> registers_passkey cx ctx cer dm sid cer' dm')"
proof -
  obtain w cer1 where w: "armed_now (cx_now cx 0) cer = (w, cer1)" by fastforce
  note eq = assms [unfolded register_finish_def Let_def w prod.case]
  show ?thesis
  proof (cases w)
    case None
    with eq tame_armed [OF w] show ?thesis by auto
  next
    case (Some a)
    with armed_now_cases [OF w] have a: "cer1 = cer" "cy_armed cer = Some a" "cx_now cx 0 < arm_expires_at a" by simp_all
    note eq = eq [unfolded Some option.case a(1)]
    show ?thesis
    proof (cases "Option.bind (wl_json (cx_lib cx) body) (registration_post_of (cx_lib cx))")
      case None
      then have "r = refuse 400 \<and> cer' = cer" using eq by (auto split: option.splits)
      then show ?thesis by (simp add: tame_refl)
    next
      case (Some post)
      then obtain doc where doc: "wl_json (cx_lib cx) body = Some doc" "registration_post_of (cx_lib cx) doc = Some post"
        by (auto simp: Option.bind_eq_Some_conv)
      note eq = eq [unfolded doc option.case]
      show ?thesis
      proof (cases "challenge_in (cx_lib cx) (rp_client_data post)")
        case None
        then show ?thesis using eq by (auto simp: tame_refl)
      next
        case (Some c)
        obtain res cs where red: "challenge_redeem (cx_now cx 2) c RegisterPasskey (cy_challenges cer) = (res, cs)" by fastforce
        note eq = eq [unfolded Some option.case red prod.case]
        note tame = tame_redeem [OF red]
        show ?thesis
        proof (cases res)
          case (Inl e)
          then show ?thesis using eq tame by auto
        next
          case (Inr u)
          note rc = redeem_cases [OF red]
          have rp: "cy_rp (with_challenges cer cs) = cy_rp cer" by (simp add: with_challenges_def)
          show ?thesis
          proof (cases "verify_registration (cx_lib cx) (cy_rp cer) c (rp_client_data post) (rp_attestation post)")
            case (Inl e)
            with Inr eq tame rp show ?thesis by auto
          next
            case cred: (Inr cred)
            show ?thesis
            proof (cases "rc_id cred \<noteq> rp_credential_id post \<or> vp")
              case True
              with Inr cred eq tame rp show ?thesis by (auto split: if_splits)
            next
              case False
              with Inr cred eq rp have add: "add_registered cx ctx a cred (rp_prf_output post) (with_challenges cer cs) dm
                  = (r, cer', dm')" by simp
              note ac = add_registered_cases [OF add]
              have "fmlookup (cy_challenges cer') c = None" if "cy_challenges cer' = cs"
                using rc that by simp
              moreover have "cy_challenges cer' = cs"
                using add by (auto simp: add_registered_def with_challenges_def
                    split: option.splits vault_state.splits prod.splits sum.splits)
              ultimately have gone: "fmlookup (cy_challenges cer') c = None" by blast
              have "registers_passkey cx ctx cer dm sid cer' dm'" if sid: "cp_body r = PasskeyRegistered sid" for sid
              proof -
                from rc Inr obtain rec where rec: "fmlookup (cy_challenges cer) c = Some rec"
                  "cx_now cx 2 < ch_expires_at rec" "ch_purpose rec = RegisterPasskey" by auto
                from ac sid rp obtain v v' ds where v: "cy_armed cer' = None" "dm_vault dm = Some (VaultOpen v)"
                  "dm' = dm\<lparr>dm_vault := Some (VaultOpen v'), dm_disk := last ds\<rparr>"
                  "add_passkey_slot (hc_vault_lib ctx) (hc_commit_env ctx) (cx_slot_random cx) (cx_created_at cx) v
                    (rp_prf_output post) (arm_salt a) (rp_name (cy_rp cer)) (rc_id cred)
                    (key_to_stored_bytes (cx_lib cx) (rc_key cred)) (arm_label a) (dm_disk dm) = (Inr sid, v', ds)" by auto
                show ?thesis unfolding registers_passkey_def
                  using a(2,3) Some cred rec gone v by blast
              qed
              with ac tame_trans [OF tame] show ?thesis by blast
            qed
          qed
        qed
      qed
    qed
  qed
qed

lemma open_with_prf_cases:
  assumes "open_with_prf ctx prf dm st = (r, dm')" and "cp_body r = CeremonyUnlocked n"
  shows "\<exists>v s'. vault_state_unlock_with_prf_output (hc_vault_lib ctx) prf (dm_disk dm) st = (Inr (), VaultOpen v)
    \<and> install_vault_entries ctx v (dm_store dm) = (n, s') \<and> dm' = dm\<lparr>dm_store := s', dm_vault := Some (VaultOpen v)\<rparr>"
proof -
  obtain res st' where u: "vault_state_unlock_with_prf_output (hc_vault_lib ctx) prf (dm_disk dm) st = (res, st')" by fastforce
  show ?thesis
    using assms u
    by (cases res; cases st') (auto simp: open_with_prf_def refuse_def reply_ok_def split: prod.splits)
qed

lemma open_with_prf_not_registered: "open_with_prf ctx prf dm st = (r, dm') \<Longrightarrow> cp_body r \<noteq> PasskeyRegistered sid"
  by (auto simp: open_with_prf_def refuse_def reply_ok_def split: prod.splits sum.splits option.splits)

text \<open>
  What an unlock that succeeds went through: a fresh challenge for this vault at this generation, an
  assertion that answers it, by the key of a passkey slot of this vault, and a secret that opens the file.
\<close>

definition unlocks_vault ::
  "('p, 'e) ceremony_env \<Rightarrow> 'j handler_ctx \<Rightarrow> ceremony \<Rightarrow> 'j daemon_state \<Rightarrow> nat \<Rightarrow> ceremony \<Rightarrow> 'j daemon_state \<Rightarrow> bool"
where
  "unlocks_vault cx ctx cer dm n cer' dm' \<longleftrightarrow>
     (\<exists>v s k c (post :: unlock_post) rec count open_vault s'.
        dm_vault dm = Some (VaultClosed v) \<and> s \<in> set (passkey_slots v)
        \<and> credential_id s = ar_credential_id (up_assertion post)
        \<and> key_from_stored_bytes (cx_lib cx) (credential_public_key s) = Inr k
        \<and> challenge_in (cx_lib cx) (ar_client_data (up_assertion post)) = Some c
        \<and> fmlookup (cy_challenges cer) c = Some rec \<and> cx_now cx 2 < ch_expires_at rec
        \<and> ch_purpose rec = unlock_purpose v \<and> fmlookup (cy_challenges cer') c = None
        \<and> verify_assertion (cx_lib cx) (cy_rp cer) c \<lparr>rc_id = credential_id s, rc_key = k\<rparr> (up_assertion post) = Inr count
        \<and> vault_state_unlock_with_prf_output (hc_vault_lib ctx) (up_prf_output post) (dm_disk dm) (VaultClosed v)
            = (Inr (), VaultOpen open_vault)
        \<and> install_vault_entries ctx open_vault (dm_store dm) = (n, s')
        \<and> dm' = dm\<lparr>dm_store := s', dm_vault := Some (VaultOpen open_vault)\<rparr>)"

lemma unlock_finish_cases:
  assumes "unlock_finish cx ctx body vp cer dm = (r, cer', dm')"
  shows "tame cer cer' \<and> (\<forall>sid. cp_body r \<noteq> PasskeyRegistered sid)
    \<and> (\<forall>n. cp_body r = CeremonyUnlocked n \<longrightarrow> unlocks_vault cx ctx cer dm n cer' dm')"
proof -
  note eq = assms [unfolded unlock_finish_def Let_def]
  have trivial: ?thesis if "cer' = cer" "cp_body r = Refused" using that by (simp add: tame_refl)
  show ?thesis
  proof (cases "\<exists>doc post v s k c. wl_json (cx_lib cx) body = Some doc \<and> unlock_post_of (cx_lib cx) doc = Some post \<and> \<not> vp
      \<and> dm_vault dm = Some (VaultClosed v)
      \<and> find (\<lambda>s. slot_kind s = PasskeyPrf \<and> credential_id s = ar_credential_id (up_assertion post)) (locked_slots v) = Some s
      \<and> key_from_stored_bytes (cx_lib cx) (credential_public_key s) = Inr k
      \<and> challenge_in (cx_lib cx) (ar_client_data (up_assertion post)) = Some c")
    case False
    then have "cer' = cer \<and> cp_body r = Refused"
      using eq by (auto split: option.splits if_splits vault_state.splits sum.splits)
    then show ?thesis using trivial by blast
  next
    case True
    then obtain doc post v s k c where j: "wl_json (cx_lib cx) body = Some doc" "unlock_post_of (cx_lib cx) doc = Some post"
      and vp: "\<not> vp" and v: "dm_vault dm = Some (VaultClosed v)"
      and s: "find (\<lambda>s. slot_kind s = PasskeyPrf \<and> credential_id s = ar_credential_id (up_assertion post)) (locked_slots v) = Some s"
      and k: "key_from_stored_bytes (cx_lib cx) (credential_public_key s) = Inr k"
      and c: "challenge_in (cx_lib cx) (ar_client_data (up_assertion post)) = Some c" by blast
    obtain res cs where red: "challenge_redeem (cx_now cx 2) c (unlock_purpose v) (cy_challenges cer) = (res, cs)" by fastforce
    note eq = eq [unfolded j v option.case if_not_P [OF vp] vault_state.case s k sum.case c red prod.case]
    note tame = tame_redeem [OF red]
    from s have slot: "s \<in> set (passkey_slots v)" "credential_id s = ar_credential_id (up_assertion post)"
      by (auto simp: find_Some_iff passkey_slots_def)
    have rp: "cy_rp (with_challenges cer cs) = cy_rp cer" by (simp add: with_challenges_def)
    show ?thesis
    proof (cases res)
      case (Inl e)
      then show ?thesis using eq tame by auto
    next
      case Inr: (Inr u)
      show ?thesis
      proof (cases "verify_assertion (cx_lib cx) (cy_rp cer) c
          \<lparr>rc_id = ar_credential_id (up_assertion post), rc_key = k\<rparr> (up_assertion post)")
        case (Inl e)
        then show ?thesis using eq tame Inr rp by auto
      next
        case (Inr count)
        obtain r' dm2 where opened: "open_with_prf ctx (up_prf_output post) dm (VaultClosed v) = (r', dm2)" by fastforce
        with eq Inr \<open>res = Inr u\<close> rp have r: "r' = r" "dm2 = dm'" "cer' = with_challenges cer cs" by auto
        have gone: "fmlookup (cy_challenges cer') c = None"
          using redeem_cases [OF red] r(3) by (simp add: with_challenges_def)
        from redeem_cases [OF red] \<open>res = Inr u\<close> obtain rec where rec: "fmlookup (cy_challenges cer) c = Some rec"
          "cx_now cx 2 < ch_expires_at rec" "ch_purpose rec = unlock_purpose v" by auto
        have "unlocks_vault cx ctx cer dm n cer' dm'" if n: "cp_body r = CeremonyUnlocked n" for n
        proof -
          from open_with_prf_cases [OF opened, of n] n r obtain w s' where
            "vault_state_unlock_with_prf_output (hc_vault_lib ctx) (up_prf_output post) (dm_disk dm) (VaultClosed v)
               = (Inr (), VaultOpen w)"
            "install_vault_entries ctx w (dm_store dm) = (n, s')"
            "dm' = dm\<lparr>dm_store := s', dm_vault := Some (VaultOpen w)\<rparr>" by auto
          moreover from Inr slot(2) have "verify_assertion (cx_lib cx) (cy_rp cer) c
              \<lparr>rc_id = credential_id s, rc_key = k\<rparr> (up_assertion post) = Inr count" by simp
          ultimately show ?thesis unfolding unlocks_vault_def using v slot k c gone rec by blast
        qed
        then show ?thesis using tame r open_with_prf_not_registered [OF opened] by blast
      qed
    qed
  qed
qed

subsection \<open>Runs\<close>

text \<open>What a reply to a request stands for, and the state of the ceremony after it.\<close>

lemma offered_body:
  "offer cx cer p mk = (r, cer') \<Longrightarrow> cp_body r = Refused \<or> cp_body r = mk (cx_challenge cx)"
  by (auto simp: offer_def challenge_issue_def Let_def split: prod.splits sum.splits if_splits)

lemma handle_cases:
  assumes "ceremony_handle cx ctx rq st = (r, st')"
  shows "tame (cs_ceremony st) (cs_ceremony st')
    \<and> (\<forall>rep sid. r = Some rep \<longrightarrow> cp_body rep = PasskeyRegistered sid \<longrightarrow>
         registers_passkey cx ctx (cs_ceremony st) (cs_daemon st) sid (cs_ceremony st') (cs_daemon st'))
    \<and> (\<forall>rep n. r = Some rep \<longrightarrow> cp_body rep = CeremonyUnlocked n \<longrightarrow>
         unlocks_vault cx ctx (cs_ceremony st) (cs_daemon st) n (cs_ceremony st') (cs_daemon st'))"
proof -
  let ?cer = "cs_ceremony st" and ?dm = "cs_daemon st"
  let ?goal = "tame ?cer (cs_ceremony st')
    \<and> (\<forall>rep sid. r = Some rep \<longrightarrow> cp_body rep = PasskeyRegistered sid \<longrightarrow>
         registers_passkey cx ctx ?cer ?dm sid (cs_ceremony st') (cs_daemon st'))
    \<and> (\<forall>rep n. r = Some rep \<longrightarrow> cp_body rep = CeremonyUnlocked n \<longrightarrow>
         unlocks_vault cx ctx ?cer ?dm n (cs_ceremony st') (cs_daemon st'))"
  have still: ?goal if "st' = st" "\<exists>n. r = Some (refuse n) \<or> r = Some (reply_ok CeremonyPage)"
    using that by (auto simp: tame_refl)
  have began: ?goal if "begin_ceremony cx (the (dm_vault ?dm)) ?cer = (x, cer')" "cs_ceremony st' = cer'" "r = x" for x cer'
    using tame_begin [OF that(1)] that(1)
    by (auto simp: that(2,3) begin_ceremony_def Let_def apfst_def map_prod_def dest!: offered_body
        split: prod.splits option.splits vault_state.splits if_splits)
  have evaluated: ?goal if "register_evaluate cx ?cer = (x, cer')" "cs_ceremony st' = cer'" "r = Some x" for x cer'
    using tame_evaluate [OF that(1)] that(1)
    by (auto simp: that(2,3) register_evaluate_def dest!: offered_body split: prod.splits option.splits)
  have finished: ?goal if "register_finish cx ctx (rq_body rq) (cs_vault_poisoned st) ?cer ?dm = (x, cer', dm')"
      "cs_ceremony st' = cer'" "cs_daemon st' = dm'" "r = Some x" for x cer' dm'
    using register_finish_cases [OF that(1)] that(2-4) by auto
  have unlocked: ?goal if "unlock_finish cx ctx (rq_body rq) (cs_vault_poisoned st) ?cer ?dm = (x, cer', dm')"
      "cs_ceremony st' = cer'" "cs_daemon st' = dm'" "r = Some x" for x cer' dm'
    using unlock_finish_cases [OF that(1)] that(2-4) by auto
  obtain b bc where b: "begin_ceremony cx (the (dm_vault ?dm)) ?cer = (b, bc)" by fastforce
  obtain e ec where e: "register_evaluate cx ?cer = (e, ec)" by fastforce
  obtain f fc fd where f: "register_finish cx ctx (rq_body rq) (cs_vault_poisoned st) ?cer ?dm = (f, fc, fd)"
    using prod_cases3 by blast
  obtain u uc ud where u: "unlock_finish cx ctx (rq_body rq) (cs_vault_poisoned st) ?cer ?dm = (u, uc, ud)"
    using prod_cases3 by blast
  note eq = assms [unfolded ceremony_handle_def Let_def b e f u prod.case]
  show ?thesis
  proof (cases "cs_ceremony st' = ?cer \<and> st' = st \<and> (\<exists>n. r = Some (refuse n) \<or> r = Some (reply_ok CeremonyPage))")
    case True
    then show ?thesis using still by blast
  next
    case False
    with eq consider
        "cs_ceremony st' = bc" "r = b"
      | "cs_ceremony st' = ec" "r = Some e"
      | "cs_ceremony st' = fc" "cs_daemon st' = fd" "r = Some f"
      | "cs_ceremony st' = uc" "cs_daemon st' = ud" "r = Some u"
      by (auto split: if_splits option.splits)
    then show ?thesis using began [OF b] evaluated [OF e] finished [OF f] unlocked [OF u] by cases
  qed
qed

text \<open>
  The life of a ceremony: approvals open its window, requests are answered, and the rest of the daemon
  does what it does.  An event of a request carries the first reading it made of the clock.
\<close>

datatype ceremony_event = Approval nat "u8 list" string | Answer nat "ceremony_reply option" | Elsewhere

inductive ceremony_run :: "('p, 'e) webauthn_lib \<Rightarrow> ceremony_event list \<Rightarrow> 'j ceremony_state \<Rightarrow> bool"
  for lib where
  cer_start:
    "ceremony_run lib [] \<lparr>cs_ceremony = ceremony_new rp origins, cs_daemon = dm, cs_poisoned = False, cs_vault_poisoned = False\<rparr>"
| cer_approval:
    "ceremony_run lib evs st \<Longrightarrow> \<not> cs_poisoned st
     \<Longrightarrow> ceremony_run lib (evs @ [Approval now salt label])
           (st\<lparr>cs_ceremony := arm_registration now salt label (cs_ceremony st)\<rparr>)"
| cer_request:
    "ceremony_run lib evs st \<Longrightarrow> cx_lib cx = lib \<Longrightarrow> ceremony_handle cx ctx rq st = (r, st')
     \<Longrightarrow> ceremony_run lib (evs @ [Answer (cx_now cx 0) r]) st'"
| cer_elsewhere:
    "ceremony_run lib evs st \<Longrightarrow> ceremony_run lib (evs @ [Elsewhere]) (st\<lparr>cs_daemon := dm'\<rparr>)"

fun is_approval :: "ceremony_event \<Rightarrow> bool" where
  "is_approval (Approval now salt label) = True"
| "is_approval _ = False"

fun registered_at :: "ceremony_event \<Rightarrow> nat option" where
  "registered_at (Answer t (Some \<lparr>cp_status = n, cp_body = PasskeyRegistered sid\<rparr>)) = Some t"
| "registered_at _ = None"

lemma registered_at_Some:
  "registered_at e = Some t \<longleftrightarrow> (\<exists>rep sid. e = Answer t (Some rep) \<and> cp_body rep = PasskeyRegistered sid)"
proof
  assume "registered_at e = Some t"
  then show "\<exists>rep sid. e = Answer t (Some rep) \<and> cp_body rep = PasskeyRegistered sid"
    by (cases e rule: registered_at.cases) auto
next
  assume "\<exists>rep sid. e = Answer t (Some rep) \<and> cp_body rep = PasskeyRegistered sid"
  then obtain rep sid where e: "e = Answer t (Some rep)" "cp_body rep = PasskeyRegistered sid" by blast
  then show "registered_at e = Some t" by (cases rep) simp
qed

definition count_of :: "('a \<Rightarrow> bool) \<Rightarrow> 'a list \<Rightarrow> nat" where
  "count_of P xs = length (filter P xs)"

lemma count_of_snoc [simp]: "count_of P [] = 0" "count_of P (xs @ [x]) = count_of P xs + (if P x then 1 else 0)"
  by (simp_all add: count_of_def)

definition window_from :: "ceremony_event list \<Rightarrow> armed_registration \<Rightarrow> bool" where
  "window_from evs a \<longleftrightarrow>
     (\<exists>now. Approval now (arm_salt a) (arm_label a) \<in> set evs \<and> arm_expires_at a = now + REGISTRATION_WINDOW)"

lemma ceremony_run_invariant:
  assumes "ceremony_run lib evs st"
  shows "count_of (\<lambda>e. registered_at e \<noteq> None) evs + (if cy_armed (cs_ceremony st) = None then 0 else 1)
           \<le> count_of is_approval evs
    \<and> (\<forall>a. cy_armed (cs_ceremony st) = Some a \<longrightarrow> window_from evs a)
    \<and> (\<forall>i t. i < length evs \<longrightarrow> registered_at (evs ! i) = Some t \<longrightarrow>
         (\<exists>now salt label. Approval now salt label \<in> set (take i evs) \<and> t < now + REGISTRATION_WINDOW))
    \<and> bounded (cs_ceremony st)"
  using assms
proof (induction rule: ceremony_run.induct)
  case (cer_start rp origins dm)
  show ?case by (simp add: ceremony_new_def bounded_def fcard_fempty)
next
  case (cer_approval evs st now salt label)
  then show ?case
    by (auto simp: arm_registration_def window_from_def bounded_def nth_append split: if_splits)
next
  case (cer_request evs st cx ctx rq r st')
  note h = handle_cases [OF cer_request.hyps(3)]
  note IH = cer_request.IH
  let ?e = "Answer (cx_now cx 0) r"
  have reg: "cy_armed (cs_ceremony st') = None \<and>
      (\<exists>a. cy_armed (cs_ceremony st) = Some a \<and> cx_now cx 0 < arm_expires_at a)" if "registered_at ?e \<noteq> None"
  proof -
    from that obtain t where "registered_at ?e = Some t" by blast
    then obtain rep sid where "r = Some rep" "cp_body rep = PasskeyRegistered sid" by (auto simp: registered_at_Some)
    with h have "registers_passkey cx ctx (cs_ceremony st) (cs_daemon st) sid (cs_ceremony st') (cs_daemon st')" by blast
    then show ?thesis unfolding registers_passkey_def by blast
  qed
  have tame: "tame (cs_ceremony st) (cs_ceremony st')" using h by blast
  have count: "count_of (\<lambda>e. registered_at e \<noteq> None) (evs @ [?e]) + (if cy_armed (cs_ceremony st') = None then 0 else 1)
      \<le> count_of is_approval (evs @ [?e])"
    using IH reg tame by (cases "registered_at ?e = None") (auto simp: tame_def split: if_splits)
  have window: "window_from (evs @ [?e]) a" if "cy_armed (cs_ceremony st') = Some a" for a
    using IH tame that by (auto simp: tame_def window_from_def)
  have timely: "\<exists>now salt label. Approval now salt label \<in> set (take i (evs @ [?e])) \<and> t < now + REGISTRATION_WINDOW"
    if i: "i < length (evs @ [?e])" "registered_at ((evs @ [?e]) ! i) = Some t" for i t
  proof (cases "i < length evs")
    case True
    with IH i show ?thesis by (simp add: nth_append)
  next
    case False
    with i have "i = length evs" "registered_at ?e = Some t" by (simp_all add: nth_append less_Suc_eq)
    moreover from this have "t = cx_now cx 0" by (auto simp: registered_at_Some)
    ultimately show ?thesis using reg IH by (fastforce simp: window_from_def)
  qed
  show ?case using count window timely IH tame by (auto simp: tame_def)
next
  case (cer_elsewhere evs st dm')
  then show ?case by (auto simp: window_from_def nth_append less_Suc_eq)
qed


subsection \<open>Opening\<close>

lemma open_with_prf_fails:
  assumes "open_with_prf ctx prf dm (VaultClosed v) = (r, dm')" and "dm_vault dm = Some (VaultClosed v)"
    and "\<forall>n. cp_body r \<noteq> CeremonyUnlocked n"
  shows "dm' = dm"
proof -
  obtain res st' where u: "vault_state_unlock_with_prf_output (hc_vault_lib ctx) prf (dm_disk dm) (VaultClosed v) = (res, st')"
    by fastforce
  then have "case res of Inl _ \<Rightarrow> st' = VaultClosed v | Inr _ \<Rightarrow> \<exists>w. st' = VaultOpen w"
    by (auto simp: vault_state_unlock_with_prf_output_def reopen_def split: sum.splits)
  with u assms show ?thesis
    by (cases res) (auto simp: open_with_prf_def split: prod.splits)
qed

lemma handle_closed:
  assumes "ceremony_handle cx ctx rq st = (r, st')" and "dm_vault (cs_daemon st) = Some (VaultClosed v)"
    and "\<And>rep n. r = Some rep \<Longrightarrow> cp_body rep \<noteq> CeremonyUnlocked n"
  shows "cs_daemon st' = cs_daemon st"
proof -
  let ?dm = "cs_daemon st" and ?cer = "cs_ceremony st"
  obtain f fc fd where f: "register_finish cx ctx (rq_body rq) (cs_vault_poisoned st) ?cer ?dm = (f, fc, fd)"
    using prod_cases3 by blast
  obtain u uc ud where u: "unlock_finish cx ctx (rq_body rq) (cs_vault_poisoned st) ?cer ?dm = (u, uc, ud)"
    using prod_cases3 by blast
  have fd: "fd = ?dm"
    using f assms(2) by (auto simp: register_finish_def add_registered_def Let_def
        split: prod.splits option.splits sum.splits if_splits)
  have ud: "ud = ?dm" if "\<forall>n. cp_body u \<noteq> CeremonyUnlocked n"
    using u assms(2) that
    by (auto simp: unlock_finish_def Let_def dest: open_with_prf_fails
        split: prod.splits option.splits sum.splits if_splits)
  show ?thesis
    using assms(1,3) fd ud
    by (auto simp: ceremony_handle_def Let_def f u split: if_splits prod.splits option.splits)
qed

text \<open>
  Property C5.  Through the ceremony the vault opens only with a person at the authenticator.  When
  a request finds the vault closed and leaves anything of the daemon changed, it answered a
  challenge that was still out, made for opening this vault at this generation of its key, and that
  is gone now; the answer is an assertion of a passkey of this vault, signed with its key over data
  that name this relying party, an allowed origin and that challenge, and that say the user was
  present and verified; and the secret sent with it opens the file.  Then the vault is open and its
  entries are in the store.
\<close>

theorem vault_opens_for_a_verified_user:
  assumes "ceremony_handle cx ctx rq st = (r, st')"
    and "dm_vault (cs_daemon st) = Some (VaultClosed v)" and "cs_daemon st' \<noteq> cs_daemon st"
  shows "\<exists>s k c rec (resp :: assertion_response) client a w prf.
      s \<in> set (passkey_slots v) \<and> key_from_stored_bytes (cx_lib cx) (credential_public_key s) = Inr k
    \<and> fmlookup (cy_challenges (cs_ceremony st)) c = Some rec \<and> cx_now cx 2 < ch_expires_at rec
    \<and> ch_purpose rec = unlock_purpose v \<and> fmlookup (cy_challenges (cs_ceremony st')) c = None
    \<and> ar_credential_id resp = credential_id s
    \<and> wl_json (cx_lib cx) (ar_client_data resp) = Some client
    \<and> json_as_str (json_index client ''type'') = Some ''webauthn.get''
    \<and> json_as_str (json_index client ''challenge'') = Some (wl_b64 (cx_lib cx) c)
    \<and> (case json_as_str (json_index client ''origin'') of None \<Rightarrow> [] | Some org \<Rightarrow> org)
        \<in> set (allowed_origins (cy_rp (cs_ceremony st)))
    \<and> auth_data_parse (ar_authenticator_data resp) = Inr a
    \<and> ad_rp_id_hash a = wl_sha256 (cx_lib cx) (string_bytes (rp_name (cy_rp (cs_ceremony st))))
    \<and> user_present a \<and> user_verified a
    \<and> key_verify (cx_lib cx) k (ar_authenticator_data resp @ wl_sha256 (cx_lib cx) (ar_client_data resp))
        (ar_signature resp) = Inr ()
    \<and> vault_state_unlock_with_prf_output (hc_vault_lib ctx) prf (dm_disk (cs_daemon st)) (VaultClosed v)
        = (Inr (), VaultOpen w)
    \<and> cs_daemon st' = (cs_daemon st)\<lparr>dm_vault := Some (VaultOpen w),
        dm_store := snd (install_vault_entries ctx w (dm_store (cs_daemon st)))\<rparr>"
proof -
  obtain rep n where "r = Some rep" "cp_body rep = CeremonyUnlocked n"
    using handle_closed [OF assms(1,2)] assms(3) by blast
  with handle_cases [OF assms(1)]
  have u: "unlocks_vault cx ctx (cs_ceremony st) (cs_daemon st) n (cs_ceremony st') (cs_daemon st')" by blast
  then obtain v' s k c post rec count w s' where closed: "dm_vault (cs_daemon st) = Some (VaultClosed v')"
    and v: "s \<in> set (passkey_slots v')" "credential_id s = ar_credential_id (up_assertion (post :: unlock_post))"
      "key_from_stored_bytes (cx_lib cx) (credential_public_key s) = Inr k"
    and c: "fmlookup (cy_challenges (cs_ceremony st)) c = Some rec" "cx_now cx 2 < ch_expires_at rec"
      "ch_purpose rec = unlock_purpose v'" "fmlookup (cy_challenges (cs_ceremony st')) c = None"
    and a: "verify_assertion (cx_lib cx) (cy_rp (cs_ceremony st)) c \<lparr>rc_id = credential_id s, rc_key = k\<rparr>
        (up_assertion post) = Inr count"
    and w: "vault_state_unlock_with_prf_output (hc_vault_lib ctx) (up_prf_output post) (dm_disk (cs_daemon st))
        (VaultClosed v') = (Inr (), VaultOpen w)"
      "install_vault_entries ctx w (dm_store (cs_daemon st)) = (n, s')"
      "cs_daemon st' = (cs_daemon st)\<lparr>dm_store := s', dm_vault := Some (VaultOpen w)\<rparr>"
    unfolding unlocks_vault_def by blast
  from closed assms(2) have "v' = v" by simp
  note v = v [unfolded this] and c = c [unfolded this] and w = w [unfolded this]
  from assertion_accepted [OF a] obtain client d where
    cl: "wl_json (cx_lib cx) (ar_client_data (up_assertion post)) = Some client"
      "json_as_str (json_index client ''type'') = Some ''webauthn.get''"
      "json_as_str (json_index client ''challenge'') = Some (wl_b64 (cx_lib cx) c)"
      "(case json_as_str (json_index client ''origin'') of None \<Rightarrow> [] | Some org \<Rightarrow> org)
        \<in> set (allowed_origins (cy_rp (cs_ceremony st)))"
    and ad: "auth_data_parse (ar_authenticator_data (up_assertion post)) = Inr d"
      "ad_rp_id_hash d = wl_sha256 (cx_lib cx) (string_bytes (rp_name (cy_rp (cs_ceremony st))))"
      "user_present d" "user_verified d"
    and sg: "key_verify (cx_lib cx) k (ar_authenticator_data (up_assertion post)
        @ wl_sha256 (cx_lib cx) (ar_client_data (up_assertion post))) (ar_signature (up_assertion post)) = Inr ()"
    unfolding client_data_accepted auth_data_accepted by auto
  from w have "cs_daemon st' = (cs_daemon st)\<lparr>dm_vault := Some (VaultOpen w),
        dm_store := snd (install_vault_entries ctx w (dm_store (cs_daemon st)))\<rparr>" by simp
  with v(1,3) v(2) [symmetric] c cl ad sg w(1) show ?thesis by blast
qed

text \<open>
  When the window closes between the two looks \<open>begin\<close> takes at it, the request panics holding both locks:
  from then on every ceremony request is refused, and the vault's lock is poisoned for the whole daemon.
\<close>

lemma closing_window_poisons:
  assumes "\<not> cs_poisoned st" "\<not> cs_vault_poisoned st" and "cy_armed (cs_ceremony st) = Some a"
    and "cx_now cx 0 < arm_expires_at a" "arm_expires_at a \<le> cx_now cx 1"
    and "rq_method rq = ''POST''" "rq_path rq = ''/begin''" "rq_origin rq = None"
  shows "\<exists>st'. ceremony_handle cx ctx rq st = (None, st') \<and> cs_poisoned st' \<and> cs_vault_poisoned st'
    \<and> (\<forall>cx' ctx' rq'. ceremony_handle cx' ctx' rq' st' = (Some (refuse 500), st'))"
  using assms by (simp add: ceremony_handle_def Let_def origin_allowed_def begin_ceremony_def armed_now_def)

end
