(* ===== verification/Ceremony_Demo.thy ===== *)
theory Ceremony_Demo
  imports Ceremony_Props Handler_Session
begin

text \<open>The ceremony on small parsers and the demonstration vault: a passkey is registered, a vault opens.\<close>

subsection \<open>Parsers\<close>

definition text_doc :: "(string \<times> string) list \<Rightarrow> json_doc" where
  "text_doc fs = JsonObject (fmap_of_list (map (\<lambda>(k, v). (k, JsonString v)) fs))"

definition key_map :: cbor_value where
  "key_map = CborMap [(CborInt 1, CborInt 2), (CborInt 3, CborInt (-7)), (CborInt (-1), CborInt 1),
     (CborInt (-2), CborBytes (replicate 32 1)), (CborInt (-3), CborBytes (replicate 32 2))]"

definition demo_auth_data :: "u8 \<Rightarrow> u8 list" where
  "demo_auth_data flags = replicate 32 104 @ [flags] @ replicate 4 0"

definition demo_attestation :: cbor_value where
  "demo_attestation =
     CborMap [(CborText ''authData'', CborBytes (demo_auth_data 0x45 @ replicate 16 0 @ [0, 1] @ [99]))]"

definition demo_unlock_doc :: json_doc where
  "demo_unlock_doc = text_doc
     [(''credential_id'', ''c''), (''authenticator_data'', replicate 32 CHR ''h'' @ [CHR 0x05] @ replicate 4 CHR 0x00),
      (''client_data_json'', ''g''), (''signature'', ''s''), (''prf_output'', replicate 32 CHR 0x0A)]"

definition demo_register_doc :: json_doc where
  "demo_register_doc = text_doc
           [(''credential_id'', ''c''), (''attestation_object'', ''a''), (''client_data_json'', ''n''),
            (''prf_output'', replicate 32 CHR 0x0A)]"

text \<open>The documents are told apart by their first byte; base 64 is the characters themselves.\<close>

definition demo_webauthn :: "(unit, unit) webauthn_lib" where
  "demo_webauthn = \<lparr>
     wl_json = (\<lambda>bs. if bs = [1] then Some demo_unlock_doc
         else if bs = [2] then Some demo_register_doc
         else if bs = [103] then Some (text_doc
           [(''type'', ''webauthn.get''), (''challenge'', ''x''), (''origin'', ''o'')])
         else Some (text_doc [(''type'', ''webauthn.create''), (''challenge'', ''x''), (''origin'', ''o'')])),
     wl_cbor = (\<lambda>bs. if bs = [] then Some key_map else Some demo_attestation),
     wl_sha256 = (\<lambda>_. replicate 32 104),
     wl_b64 = map (\<lambda>b. char_of (unat b)), wl_unb64 = (\<lambda>s. Some (map of_char s)),
     wl_from_sec1 = (\<lambda>_. Some ()), wl_to_sec1 = (\<lambda>_. []), wl_from_ed = (\<lambda>_. None), wl_to_ed = (\<lambda>_. []),
     wl_p256_der = Some, wl_p256_verify = (\<lambda>_ _ _. True), wl_ed_verify = (\<lambda>_ _ _. True)\<rparr>"

definition demo_cx :: "nat \<Rightarrow> (unit, unit) ceremony_env" where
  "demo_cx t = \<lparr>cx_lib = demo_webauthn, cx_now = (\<lambda>_. t), cx_challenge = [120],
     cx_slot_random = demo_random, cx_created_at = 5\<rparr>"

definition demo_post :: "string \<Rightarrow> u8 list \<Rightarrow> http_request" where
  "demo_post where_to body = \<lparr>rq_method = ''POST'', rq_path = where_to, rq_origin = None, rq_body = body\<rparr>"

lemma demo_fields:
  "unlock_post_of demo_webauthn demo_unlock_doc
   = Some \<lparr>up_assertion = \<lparr>ar_credential_id = [99], ar_authenticator_data = demo_auth_data 5, ar_client_data = [103],
        ar_signature = [115]\<rparr>, up_prf_output = replicate 32 10\<rparr>"
  "registration_post_of demo_webauthn demo_register_doc
   = Some \<lparr>rp_client_data = [110], rp_attestation = [97], rp_prf_output = replicate 32 10, rp_credential_id = [99]\<rparr>"
  by (simp_all add: unlock_post_of_def registration_post_of_def demo_unlock_doc_def demo_register_doc_def body_field_def text_doc_def decode_b64_def
      demo_webauthn_def demo_auth_data_def)

lemma demo_documents:
  "wl_json demo_webauthn [1] = Some demo_unlock_doc"
  "wl_json demo_webauthn [2] = Some demo_register_doc"
  by (simp_all add: demo_webauthn_def)

lemma demo_challenges: "challenge_in demo_webauthn [103] = Some [120]" "challenge_in demo_webauthn [110] = Some [120]"
  by (simp_all add: challenge_in_def body_field_def text_doc_def decode_b64_def demo_webauthn_def)

abbreviation demo_rp :: relying_party where
  "demo_rp \<equiv> \<lparr>rp_name = ''rp'', allowed_origins = [''o'']\<rparr>"

lemma demo_x: "char_of (120 :: nat) = CHR ''x''"
  by code_simp

lemma demo_client_data:
  "check_client_data demo_webauthn demo_rp [103] ''webauthn.get'' [120] = Inr ()"
  "check_client_data demo_webauthn demo_rp [110] ''webauthn.create'' [120] = Inr ()"
  by (simp_all add: client_data_accepted json_index_def text_doc_def demo_webauthn_def demo_x)

lemma demo_lib:
  "wl_cbor demo_webauthn bs = (if bs = [] then Some key_map else Some demo_attestation)"
  "wl_sha256 demo_webauthn bs = replicate 32 104" "wl_from_sec1 demo_webauthn bs = Some ()"
  by (simp_all add: demo_webauthn_def)

lemma demo_verified:
  "verify_assertion demo_webauthn demo_rp [120] \<lparr>rc_id = [99], rc_key = Es256 ()\<rparr>
     \<lparr>ar_credential_id = [99], ar_authenticator_data = demo_auth_data 5, ar_client_data = [103], ar_signature = [115]\<rparr> = Inr 0"
  by (simp add: verify_assertion_def demo_client_data auth_data_parse_def demo_auth_data_def check_authenticator_data_def
      user_present_def user_verified_def nth_append) (simp add: demo_webauthn_def rbind_def or_refuse_def numeral_eq_Suc)

lemma demo_registered:
  "verify_registration demo_webauthn demo_rp [120] [110] [97] = Inr \<lparr>rc_id = [99], rc_key = Es256 ()\<rparr>"
  by (simp add: verify_registration_def demo_client_data auth_data_parse_def demo_auth_data_def check_authenticator_data_def
      user_present_def user_verified_def nth_append attested_credential_def has_attested_credential_def
      demo_attestation_def map_get_bytes_def map_find_def key_from_cose_def key_map_def map_get_int_def
      map_get_label_bytes_def demo_lib rbind_def or_refuse_def LABEL_KTY_def LABEL_ALG_def LABEL_CRV_def
      LABEL_X_def LABEL_Y_def KTY_EC2_def ALG_ES256_def CRV_P256_def)

subsection \<open>The vault opens\<close>

definition demo_passkey :: vault_slot where
  "demo_passkey = \<lparr>slot_id = replicate 16 1, slot_kind = PasskeyPrf, slot_pubkey = replicate 32 7,
     slot_salt = replicate 32 11, created_at_epoch_ms = 5,
     wrapped_privkey = replicate 24 3 @ replicate 32 2 @ replicate 16 0,
     slot_wrapped_dek = \<lparr>ephemeral_pub = replicate 32 7, wrapped_sealed = replicate 24 5 @ replicate 32 9 @ replicate 16 0\<rparr>,
     rp_id = ''rp'', credential_id = [99], slot_label = ''key'', credential_public_key = [1]\<rparr>"

definition passkey_vault :: "string unlocked_vault" where
  "passkey_vault = demo_vault\<lparr>uv_slots := [demo_passkey], uv_entries := fmupd ''ns/k'' demo_entry fmempty\<rparr>"

lemma passkey_vault_opens: "slot_opens demo_vault_lib passkey_vault (replicate 32 10) demo_passkey"
proof (rule built_slot_opens [OF demo_crypto_ok demo_ok(1)])
  show "build_slot (vl_crypto demo_vault_lib) demo_random 5 PasskeyPrf (uv_dek passkey_vault) (uv_vault_id passkey_vault)
      (uv_format_version passkey_vault) (replicate 32 10) (replicate 32 11) ''rp'' [99] [1] ''key'' = Inr demo_passkey"
    by (simp add: build_slot_def generate_recipient_def wrap_dek_def demo_vault_lib_def
      demo_crypto_def demo_random_def Let_def seal_def passkey_vault_def demo_vault_def demo_passkey_def)
qed

lemma passkey_vault_fits: "vault_fits demo_vault_lib passkey_vault"
proof -
  have "slot_ok demo_passkey" "length (slot_encode demo_passkey) \<le> 1000"
    by (simp_all add: demo_passkey_def slot_ok_def format_consts MAX_SLOT_FIELD_LEN_def string_bytes_def
        slot_encode_def put_blob_def)
  from demo_fits [OF _ this(1) _ _ _ _ this(2), of passkey_vault] show ?thesis
    by (simp add: passkey_vault_def demo_vault_def KEY_LEN_def)
qed

lemma passkey_vault_stored:
  "\<exists>d lv. lv_path lv = (''/d'', ''v'') \<and> locked_slots lv = [demo_passkey]
     \<and> locked_open d (''/d'', ''v'') = Inr lv
     \<and> unlock_with_prf_output demo_vault_lib lv (replicate 32 10) = Inr passkey_vault"
proof -
  let ?d = "fmupd (''/d'', ''v'') (file_bytes demo_vault_lib (ce_nonce demo_env) passkey_vault) fmempty"
  have "stored_as demo_vault_lib passkey_vault (file_bytes demo_vault_lib (ce_nonce demo_env) passkey_vault)"
    using demo_ok(2) by (auto simp: stored_as_def)
  moreover have p: "uv_path passkey_vault = (''/d'', ''v'')" "uv_slots passkey_vault = [] @ demo_passkey # []"
    "slot_kind demo_passkey = PasskeyPrf"
    by (simp_all add: passkey_vault_def demo_vault_def demo_passkey_def)
  ultimately obtain lv where lv: "locked_open ?d (''/d'', ''v'') = Inr lv"
    "unlock_with_secret demo_vault_lib lv (replicate 32 10) PasskeyPrf = Inr passkey_vault"
    "unlock_with_dek demo_vault_lib lv (uv_dek passkey_vault) = Inr passkey_vault"
    using unlock_stored [OF demo_crypto_ok passkey_vault_fits _ _ p(2) passkey_vault_opens, of _ ?d] by auto
  from lv(3) obtain es where "unlocked_of lv (uv_dek passkey_vault) es = passkey_vault"
    by (auto simp: unlock_with_dek_def rbind_Inr split: if_splits)
  then have "uv_slots (unlocked_of lv (uv_dek passkey_vault) es) = uv_slots passkey_vault" by simp
  then have "locked_slots lv = uv_slots passkey_vault" by (simp add: unlocked_of_def locked_slots_def Let_def)
  with lv p(2) locked_open_path [OF lv(1)] show ?thesis by (auto simp: unlock_with_prf_output_def)
qed

definition unlock_state :: "locked_vault \<Rightarrow> disk \<Rightarrow> string ceremony_state" where
  "unlock_state lv d = \<lparr>cs_ceremony = \<lparr>cy_challenges = fmupd [120] \<lparr>ch_purpose = unlock_purpose lv, ch_expires_at = 9\<rparr> fmempty,
       cy_rp = demo_rp, cy_armed = None\<rparr>,
     cs_daemon = demo_daemon\<lparr>dm_vault := Some (VaultClosed lv), dm_disk := d\<rparr>,
     cs_poisoned = False, cs_vault_poisoned = False\<rparr>"

lemma demo_unlock:
  assumes "lv_path lv = (''/d'', ''v'')" "locked_slots lv = [demo_passkey]" "locked_open d (''/d'', ''v'') = Inr lv"
    "unlock_with_prf_output demo_vault_lib lv (replicate 32 10) = Inr passkey_vault"
  shows "\<exists>n st'. ceremony_handle (demo_cx 5) (demo_ctx 5) (demo_post ''/unlock/finish'' [1]) (unlock_state lv d)
      = (Some (reply_ok (CeremonyUnlocked n)), st') \<and> dm_vault (cs_daemon st') = Some (VaultOpen passkey_vault)"
proof -
  have redeem: "challenge_redeem 5 [120] (unlock_purpose lv)
      (fmupd [120] \<lparr>ch_purpose = unlock_purpose lv, ch_expires_at = 9\<rparr> fmempty) = (Inr (), cs)"
    if "cs = fmdrop [120] (drop_expired 5 (fmupd [120] \<lparr>ch_purpose = unlock_purpose lv, ch_expires_at = 9\<rparr> fmempty))" for cs
    by (simp add: that challenge_redeem_def Let_def drop_expired_lookup)
  have opened: "vault_state_unlock_with_prf_output demo_vault_lib (replicate 32 10) d (VaultClosed lv)
      = (Inr (), VaultOpen passkey_vault)"
    using assms by (simp add: vault_state_unlock_with_prf_output_def reopen_def rbind_def)
  have key: "key_from_stored_bytes demo_webauthn [1] = Inr (Es256 ())"
    by (simp add: key_from_stored_bytes_def demo_lib rbind_def or_refuse_def)
  have ctx: "hc_vault_lib (demo_ctx 5) = demo_vault_lib" by (simp add: demo_ctx_def)
  let ?cer = "\<lparr>cy_challenges = fmupd [120] \<lparr>ch_purpose = unlock_purpose lv, ch_expires_at = 9\<rparr> fmempty,
       cy_rp = demo_rp, cy_armed = None\<rparr>"
  let ?dm = "demo_daemon\<lparr>dm_vault := Some (VaultClosed lv), dm_disk := d\<rparr>"
  obtain n s' where inst: "install_vault_entries (demo_ctx 5) passkey_vault (dm_store ?dm) = (n, s')" by fastforce
  obtain cer' where finish: "unlock_finish (demo_cx 5) (demo_ctx 5) [1] False ?cer ?dm
      = (reply_ok (CeremonyUnlocked n), cer', ?dm\<lparr>dm_store := s', dm_vault := Some (VaultOpen passkey_vault)\<rparr>)"
    using inst
    by (simp add: unlock_finish_def demo_cx_def demo_documents demo_fields assms(2) demo_passkey_def key demo_challenges
        redeem [OF refl] with_challenges_def demo_verified open_with_prf_def opened ctx Let_def)
  have "ceremony_handle (demo_cx 5) (demo_ctx 5) (demo_post ''/unlock/finish'' [1]) (unlock_state lv d)
      = (Some (reply_ok (CeremonyUnlocked n)), (unlock_state lv d)\<lparr>cs_ceremony := cer',
          cs_daemon := ?dm\<lparr>dm_store := s', dm_vault := Some (VaultOpen passkey_vault)\<rparr>\<rparr>)"
    using finish by (simp add: ceremony_handle_def unlock_state_def demo_post_def origin_allowed_def Let_def)
  then show ?thesis by auto
qed

theorem vault_opens_for_a_verified_user_witness:
  "\<exists>lv d (st' :: string ceremony_state) s k a (resp :: assertion_response). cs_daemon st' \<noteq> cs_daemon (unlock_state lv d)
     \<and> s \<in> set (passkey_slots lv) \<and> user_verified a
     \<and> key_verify demo_webauthn k (ar_authenticator_data resp @ wl_sha256 demo_webauthn (ar_client_data resp))
         (ar_signature resp) = Inr ()"
proof -
  obtain d lv where lv: "lv_path lv = (''/d'', ''v'')" "locked_slots lv = [demo_passkey]"
    "locked_open d (''/d'', ''v'') = Inr lv"
    "unlock_with_prf_output demo_vault_lib lv (replicate 32 10) = Inr passkey_vault"
    using passkey_vault_stored by blast
  from demo_unlock [OF this] obtain n st' where
    h: "ceremony_handle (demo_cx 5) (demo_ctx 5) (demo_post ''/unlock/finish'' [1]) (unlock_state lv d)
      = (Some (reply_ok (CeremonyUnlocked n)), st')" "dm_vault (cs_daemon st') = Some (VaultOpen passkey_vault)" by blast
  have closed: "dm_vault (cs_daemon (unlock_state lv d)) = Some (VaultClosed lv)" by (simp add: unlock_state_def)
  with h(2) have changed: "cs_daemon st' \<noteq> cs_daemon (unlock_state lv d)" by auto
  have lib: "cx_lib (demo_cx 5) = demo_webauthn" by (simp add: demo_cx_def)
  from vault_opens_for_a_verified_user [OF h(1) closed changed] changed show ?thesis
    unfolding lib by blast
qed

subsection \<open>A passkey is registered\<close>

definition open_state :: "string ceremony_state" where
  "open_state = \<lparr>cs_ceremony = ceremony_new ''rp'' [''o''],
     cs_daemon = demo_daemon\<lparr>dm_vault := Some (VaultOpen passkey_vault), dm_disk := fmempty\<rparr>,
     cs_poisoned = False, cs_vault_poisoned = False\<rparr>"

lemma demo_added:
  "\<exists>v' ds. add_passkey_slot demo_vault_lib demo_env demo_random 5 passkey_vault (replicate 32 10) (replicate 32 11)
     ''rp'' [99] [1] ''phone'' fmempty = (Inr (replicate 16 1), v', ds)"
  using commit_succeeds [of fmempty "[9]" "uv_path passkey_vault"]
  by (simp add: add_passkey_slot_def add_slot_def build_slot_def generate_recipient_def wrap_dek_def demo_vault_lib_def
      demo_crypto_def demo_random_def Let_def seal_def then_install_def commit_vault_def commit_with_dek_def demo_env_def
      prod_eq_iff split: sum.splits prod.splits)

definition begun_state :: "string ceremony_state" where
  "begun_state = open_state\<lparr>cs_ceremony := (arm_registration 3 (replicate 32 11) ''phone'' (ceremony_new ''rp'' [''o'']))
     \<lparr>cy_challenges := fmupd [120] \<lparr>ch_purpose = RegisterPasskey, ch_expires_at = 4 + CHALLENGE_TTL\<rparr> fmempty\<rparr>\<rparr>"

lemma drop_expired_empty [simp]: "drop_expired now fmempty = fmempty"
  by (rule fmap_ext) (simp add: drop_expired_lookup)

lemma demo_begin:
  "ceremony_handle (demo_cx 4) (demo_ctx 4) (demo_post ''/begin'' [])
     (open_state\<lparr>cs_ceremony := arm_registration 3 (replicate 32 11) ''phone'' (ceremony_new ''rp'' [''o''])\<rparr>)
   = (Some (reply_ok (RegisterOptions (replicate 32 11) [120])), begun_state)"
  by (simp add: ceremony_handle_def demo_post_def begin_ceremony_def open_state_def arm_registration_def
      ceremony_new_def armed_now_def REGISTRATION_WINDOW_def demo_cx_def offer_def challenge_issue_def Let_def
      MAX_OUTSTANDING_def with_challenges_def begun_state_def fcard_fempty origin_allowed_def)

lemma demo_finish:
  "\<exists>st'. ceremony_handle (demo_cx 5) (demo_ctx 5) (demo_post ''/register/finish'' [2]) begun_state
     = (Some (reply_ok (PasskeyRegistered (replicate 16 1))), st')"
proof -
  let ?cs = "fmupd [120] \<lparr>ch_purpose = RegisterPasskey, ch_expires_at = 4 + CHALLENGE_TTL\<rparr> fmempty"
  have redeem: "challenge_redeem 5 [120] RegisterPasskey ?cs = (Inr (), fmdrop [120] (drop_expired 5 ?cs))"
    by (simp add: challenge_redeem_def Let_def drop_expired_lookup CHALLENGE_TTL_def)
  have ctx: "hc_vault_lib (demo_ctx 5) = demo_vault_lib" "hc_commit_env (demo_ctx 5) = demo_env"
    by (simp_all add: demo_ctx_def)
  have key: "wl_to_sec1 demo_webauthn () = []" by (simp add: demo_webauthn_def)
  obtain v' ds where added: "add_passkey_slot demo_vault_lib demo_env demo_random 5 passkey_vault (replicate 32 10)
     (replicate 32 11) ''rp'' [99] [1] ''phone'' fmempty = (Inr (replicate 16 1), v', ds)"
    using demo_added by blast
  have "\<exists>cer' dm'. register_finish (demo_cx 5) (demo_ctx 5) [2] False (cs_ceremony begun_state) (cs_daemon begun_state)
      = (reply_ok (PasskeyRegistered (replicate 16 1)), cer', dm')"
    by (simp add: register_finish_def begun_state_def open_state_def arm_registration_def ceremony_new_def armed_now_def
        REGISTRATION_WINDOW_def demo_cx_def demo_documents demo_fields demo_challenges redeem with_challenges_def
        demo_registered add_registered_def ctx key added Let_def)
  then show ?thesis
    by (auto simp: ceremony_handle_def demo_post_def origin_allowed_def Let_def begun_state_def open_state_def)
qed


end
